(* ===== verification/Prelude.thy ===== *)
theory Prelude
  imports Complex_Main "HOL-Library.Word" "HOL-Library.Sublist"
begin

text \<open>
  The vocabulary every component shares.

  A Go \<^verbatim>\<open>string\<close> is the list of its bytes, so HOL's \<open>string\<close> (a \<open>char list\<close>) is used and
  \<open>length\<close> counts bytes. A Go \<^verbatim>\<open>int\<close> is 64 bits wide on every platform the program is built
  for; it is an \<open>int\<close> kept in \<open>int64_min .. int64_max\<close>, with \<open>wrap64\<close> written out where the
  code's arithmetic can leave that range. A \<^verbatim>\<open>float64\<close> is \<open>f64\<close> (theory \<open>Go_Values\<close>).

  The functions of Go's \<^verbatim>\<open>strings\<close> and \<^verbatim>\<open>strconv\<close> packages that the program calls are
  defined here on bytes. The one table that is not: \<^verbatim>\<open>strings.ToLower\<close> takes an all-ASCII
  string through the byte fold below, and any other string through Unicode's case table, which
  is the parameter \<open>u\<close> of \<open>to_lower\<close>.
\<close>

named_theorems go_string \<open>facts about the string functions\<close>
named_theorems go_split \<open>splitting rules of the model's case analyses\<close>

declare option.split [go_split] sum.split [go_split] if_split [go_split] list.split [go_split]

section \<open>Integers\<close>

definition int64_min :: int where "int64_min = - (2 ^ 63)"
definition int64_max :: int where "int64_max = 2 ^ 63 - 1"

definition in_int64 :: "int \<Rightarrow> bool" where
  "in_int64 n \<longleftrightarrow> int64_min \<le> n \<and> n \<le> int64_max"

definition wrap64 :: "int \<Rightarrow> int" where
  "wrap64 n = (n + 2 ^ 63) mod 2 ^ 64 - 2 ^ 63"

lemma wrap64_id: "in_int64 n \<Longrightarrow> wrap64 n = n"
  by (simp add: wrap64_def in_int64_def int64_min_def int64_max_def)

lemma wrap64_range: "in_int64 (wrap64 n)"
proof -
  have "0 \<le> (n + 2 ^ 63) mod 2 ^ 64" and "(n + 2 ^ 63) mod 2 ^ 64 < (2::int) ^ 64"
    by simp_all
  then show ?thesis
    by (simp add: wrap64_def in_int64_def int64_min_def int64_max_def)
qed

section \<open>Bytes\<close>

definition is_ascii :: "char \<Rightarrow> bool" where
  "is_ascii c \<longleftrightarrow> (of_char c :: nat) < 128"

definition lower_char :: "char \<Rightarrow> char" where
  "lower_char c = (if 65 \<le> (of_char c :: nat) \<and> (of_char c :: nat) \<le> 90
     then char_of ((of_char c :: nat) + 32) else c)"

definition upper_char :: "char \<Rightarrow> char" where
  "upper_char c = (if 97 \<le> (of_char c :: nat) \<and> (of_char c :: nat) \<le> 122
     then char_of ((of_char c :: nat) - 32) else c)"

definition is_digit :: "char \<Rightarrow> bool" where
  "is_digit c \<longleftrightarrow> 48 \<le> (of_char c :: nat) \<and> (of_char c :: nat) \<le> 57"

definition is_lower :: "char \<Rightarrow> bool" where
  "is_lower c \<longleftrightarrow> 97 \<le> (of_char c :: nat) \<and> (of_char c :: nat) \<le> 122"

definition is_upper :: "char \<Rightarrow> bool" where
  "is_upper c \<longleftrightarrow> 65 \<le> (of_char c :: nat) \<and> (of_char c :: nat) \<le> 90"

lemma of_char_lower_char:
  "(of_char (lower_char c) :: nat) =
     (if 65 \<le> (of_char c :: nat) \<and> (of_char c :: nat) \<le> 90 then of_char c + 32 else of_char c)"
  by (simp add: lower_char_def)

lemma lower_char_idem [simp]: "lower_char (lower_char c) = lower_char c"
  by (subst (1) lower_char_def) (auto simp: of_char_lower_char)

lemma lower_char_ascii [simp]: "is_ascii (lower_char c) = is_ascii c"
  by (auto simp: is_ascii_def of_char_lower_char)

section \<open>strings\<close>

text \<open>
  \<^verbatim>\<open>strings.ToLower\<close> and \<^verbatim>\<open>strings.ToUpper\<close>: the byte fold on an all-ASCII string; \<open>u\<close> is
  what the Unicode table makes of a string with a byte of 128 or more.
\<close>

definition to_lower :: "(string \<Rightarrow> string) \<Rightarrow> string \<Rightarrow> string" where
  "to_lower u s = (if list_all is_ascii s then List.map lower_char s else u s)"

definition to_upper :: "(string \<Rightarrow> string) \<Rightarrow> string \<Rightarrow> string" where
  "to_upper u s = (if list_all is_ascii s then List.map upper_char s else u s)"

text \<open>
  \<^verbatim>\<open>strings.EqualFold\<close> against an ASCII word. Two runes outside ASCII fold into it: the Kelvin
  sign (\<^verbatim>\<open>E2 84 AA\<close>, to k) and the long s (\<^verbatim>\<open>C5 BF\<close>, to s); every other rune folds to itself,
  within ASCII by case, or outside ASCII, where it cannot equal a byte of the word.
\<close>

fun fold_word :: "string \<Rightarrow> string" where
  "fold_word (a # b # c # s) =
     (if a = CHR 0xE2 \<and> b = CHR 0x84 \<and> c = CHR 0xAA then CHR ''k'' # fold_word s
      else if a = CHR 0xC5 \<and> b = CHR 0xBF then CHR ''s'' # fold_word (c # s)
      else lower_char a # fold_word (b # c # s))"
| "fold_word [a, b] =
     (if a = CHR 0xC5 \<and> b = CHR 0xBF then ''s'' else [lower_char a, lower_char b])"
| "fold_word [a] = [lower_char a]"
| "fold_word [] = []"

definition equal_fold :: "string \<Rightarrow> string \<Rightarrow> bool" where
  "equal_fold s t \<longleftrightarrow> fold_word s = fold_word t"

lemma to_lower_ascii [go_string]: "list_all is_ascii s \<Longrightarrow> to_lower u s = List.map lower_char s"
  by (simp add: to_lower_def)

lemma to_lower_idem_ascii [go_string]:
  "list_all is_ascii s \<Longrightarrow> to_lower u (to_lower u s) = to_lower u s"
  by (simp add: to_lower_def list_all_iff comp_def)

lemma to_lower_Nil [simp]: "to_lower u [] = []"
  by (simp add: to_lower_def)

text \<open>
  \<^verbatim>\<open>strings.TrimSpace\<close> strips the white space of Unicode at both ends. The UTF-8 encodings of
  all the runes \<^verbatim>\<open>unicode.IsSpace\<close> accepts:
\<close>

definition space_runes :: "string list" where
  "space_runes =
     [[CHR 0x09], [CHR 0x0A], [CHR 0x0B], [CHR 0x0C], [CHR 0x0D], [CHR 0x20],
      [CHR 0xC2, CHR 0x85], [CHR 0xC2, CHR 0xA0], [CHR 0xE1, CHR 0x9A, CHR 0x80],
      [CHR 0xE2, CHR 0x80, CHR 0x80], [CHR 0xE2, CHR 0x80, CHR 0x81],
      [CHR 0xE2, CHR 0x80, CHR 0x82], [CHR 0xE2, CHR 0x80, CHR 0x83],
      [CHR 0xE2, CHR 0x80, CHR 0x84], [CHR 0xE2, CHR 0x80, CHR 0x85],
      [CHR 0xE2, CHR 0x80, CHR 0x86], [CHR 0xE2, CHR 0x80, CHR 0x87],
      [CHR 0xE2, CHR 0x80, CHR 0x88], [CHR 0xE2, CHR 0x80, CHR 0x89],
      [CHR 0xE2, CHR 0x80, CHR 0x8A], [CHR 0xE2, CHR 0x80, CHR 0xA8],
      [CHR 0xE2, CHR 0x80, CHR 0xA9], [CHR 0xE2, CHR 0x80, CHR 0xAF],
      [CHR 0xE2, CHR 0x81, CHR 0x9F], [CHR 0xE3, CHR 0x80, CHR 0x80]]"

fun strip_prefixes :: "nat \<Rightarrow> string list \<Rightarrow> string \<Rightarrow> string" where
  "strip_prefixes 0 ws s = s"
| "strip_prefixes (Suc n) ws s =
     (case find (\<lambda>w. prefix w s) ws of
        None \<Rightarrow> s
      | Some w \<Rightarrow> strip_prefixes n ws (drop (length w) s))"

text \<open>Every round strips at least one byte, so as many rounds as there are bytes are enough.\<close>

definition trim_left_space :: "string \<Rightarrow> string" where
  "trim_left_space s = strip_prefixes (length s) space_runes s"

definition trim_right_space :: "string \<Rightarrow> string" where
  "trim_right_space s = rev (strip_prefixes (length s) (List.map rev space_runes) (rev s))"

definition trim_space :: "string \<Rightarrow> string" where
  "trim_space s = trim_right_space (trim_left_space s)"

lemma strip_prefixes_none: "find (\<lambda>w. prefix w s) ws = None \<Longrightarrow> strip_prefixes n ws s = s"
  by (cases n) auto

lemma trim_space_Nil [simp]: "trim_space [] = []"
  by (simp add: trim_space_def trim_left_space_def trim_right_space_def)

text \<open>\<^verbatim>\<open>strings.CutPrefix\<close>, \<^verbatim>\<open>CutSuffix\<close>, \<^verbatim>\<open>Cut\<close> and \<^verbatim>\<open>CutLast\<close> (one-byte separators),
  \<^verbatim>\<open>Split\<close>, \<^verbatim>\<open>Join\<close>, \<^verbatim>\<open>ReplaceAll\<close> (one byte by one byte), \<^verbatim>\<open>TrimRight\<close>, \<^verbatim>\<open>Contains\<close>.\<close>

definition cut_prefix :: "string \<Rightarrow> string \<Rightarrow> string option" where
  "cut_prefix p s = (if prefix p s then Some (drop (length p) s) else None)"

definition cut_suffix :: "string \<Rightarrow> string \<Rightarrow> string option" where
  "cut_suffix p s = (if suffix p s then Some (take (length s - length p) s) else None)"

fun cut_first :: "char \<Rightarrow> string \<Rightarrow> (string \<times> string) option" where
  "cut_first c [] = None"
| "cut_first c (x # xs) =
     (if x = c then Some ([], xs)
      else (case cut_first c xs of None \<Rightarrow> None | Some (a, b) \<Rightarrow> Some (x # a, b)))"

definition cut_last :: "char \<Rightarrow> string \<Rightarrow> (string \<times> string) option" where
  "cut_last c s = (case cut_first c (rev s) of
      None \<Rightarrow> None | Some (a, b) \<Rightarrow> Some (rev b, rev a))"

fun split_on :: "char \<Rightarrow> string \<Rightarrow> string list" where
  "split_on c [] = [[]]"
| "split_on c (x # xs) =
     (if x = c then [] # split_on c xs
      else (case split_on c xs of [] \<Rightarrow> [[x]] | w # ws \<Rightarrow> (x # w) # ws))"

fun join :: "string \<Rightarrow> string list \<Rightarrow> string" where
  "join sep [] = []"
| "join sep [w] = w"
| "join sep (w # v # ws) = w @ sep @ join sep (v # ws)"

definition replace_char :: "char \<Rightarrow> char \<Rightarrow> string \<Rightarrow> string" where
  "replace_char a b s = List.map (\<lambda>x. if x = a then b else x) s"

definition trim_right_char :: "char \<Rightarrow> string \<Rightarrow> string" where
  "trim_right_char c s = rev (dropWhile (\<lambda>x. x = c) (rev s))"

definition contains :: "string \<Rightarrow> string \<Rightarrow> bool" where
  "contains s w \<longleftrightarrow> sublist w s"

lemma cut_first_Some: "cut_first c s = Some (a, b) \<Longrightarrow> s = a @ c # b \<and> c \<notin> set a"
  by (induction s arbitrary: a) (auto split: if_splits option.splits)

lemma cut_first_None: "cut_first c s = None \<longleftrightarrow> c \<notin> set s"
  by (induction s) (auto split: option.splits)

lemma split_on_ne [simp]: "split_on c s \<noteq> []"
  by (induction s) (auto split: list.splits)

lemma split_on_notin [go_string]: "c \<notin> set s \<Longrightarrow> split_on c s = [s]"
  by (induction s) auto

lemma split_on_parts [go_string]: "w \<in> set (split_on c s) \<Longrightarrow> c \<notin> set w"
  by (induction s arbitrary: w) (auto split: if_splits list.splits)

lemma join_Cons: "ws \<noteq> [] \<Longrightarrow> join sep (w # ws) = w @ sep @ join sep ws"
  by (cases ws) simp_all

text \<open>Splitting at one byte and joining with another is the byte-for-byte replacement.\<close>

lemma join_split_on [go_string]: "join [d] (split_on c s) = replace_char c d s"
proof (induction s)
  case Nil
  then show ?case by (simp add: replace_char_def)
next
  case (Cons x xs)
  show ?case
  proof (cases "x = c")
    case True
    with Cons show ?thesis by (simp add: join_Cons replace_char_def)
  next
    case False
    obtain w ws where ws: "split_on c xs = w # ws" by (cases "split_on c xs") auto
    have "join [d] ((x # w) # ws) = x # join [d] (w # ws)" by (cases ws) simp_all
    with False ws Cons show ?thesis by (simp add: replace_char_def)
  qed
qed

lemma replace_char_back [go_string]:
  "d \<notin> set s \<Longrightarrow> replace_char d c (replace_char c d s) = s"
  by (induction s) (auto simp: replace_char_def)

lemma replace_char_Nil_iff [simp]: "replace_char a b s = [] \<longleftrightarrow> s = []"
  by (simp add: replace_char_def)

lemma cut_prefix_append [simp]: "cut_prefix p (p @ s) = Some s"
  by (simp add: cut_prefix_def)

lemma cut_prefix_Some: "cut_prefix p s = Some r \<longleftrightarrow> s = p @ r"
  by (auto simp: cut_prefix_def prefix_def)

section \<open>strconv\<close>

definition digit_val :: "char \<Rightarrow> nat option" where
  "digit_val c = (let n = of_char c :: nat in
     if 48 \<le> n \<and> n \<le> 57 then Some (n - 48)
     else if 97 \<le> n \<and> n \<le> 122 then Some (n - 87)
     else if 65 \<le> n \<and> n \<le> 90 then Some (n - 55)
     else None)"

fun parse_digits :: "nat \<Rightarrow> int \<Rightarrow> string \<Rightarrow> int option" where
  "parse_digits base acc [] = Some acc"
| "parse_digits base acc (c # cs) =
     (case digit_val c of
        None \<Rightarrow> None
      | Some d \<Rightarrow> if d < base then parse_digits base (acc * int base + int d) cs else None)"

text \<open>\<^verbatim>\<open>strconv.ParseInt(s, base, 64)\<close> for an explicit base: an optional sign, at least one
  digit, an error (here \<open>None\<close>) on anything else and on a value out of range.\<close>

definition parse_int :: "nat \<Rightarrow> string \<Rightarrow> int option" where
  "parse_int base s =
     (let (neg, ds) = (case s of
         [] \<Rightarrow> (False, [])
       | c # cs \<Rightarrow> if c = CHR ''-'' then (True, cs) else if c = CHR ''+'' then (False, cs) else (False, s))
      in if ds = [] then None
         else (case parse_digits base 0 ds of
             None \<Rightarrow> None
           | Some n \<Rightarrow> let v = (if neg then - n else n) in
               if in_int64 v then Some v else None))"

text \<open>The value \<^verbatim>\<open>Atoi\<close> returns beside its error: 0 on a syntax error, the nearest bound of the
  range on a range error.\<close>

definition atoi_val :: "string \<Rightarrow> int" where
  "atoi_val s =
     (let (neg, ds) = (case s of
         [] \<Rightarrow> (False, [])
       | c # cs \<Rightarrow> if c = CHR ''-'' then (True, cs) else if c = CHR ''+'' then (False, cs) else (False, s))
      in if ds = [] then 0
         else (case parse_digits 10 0 ds of
             None \<Rightarrow> 0
           | Some n \<Rightarrow> if neg then max int64_min (- n) else min int64_max n))"

definition atoi :: "string \<Rightarrow> int option" where
  "atoi s = parse_int 10 s"

function digits10 :: "int \<Rightarrow> string" where
  "digits10 n = (if n < 10 then [char_of (48 + nat n)]
     else digits10 (n div 10) @ [char_of (48 + nat (n mod 10))])"
  by pat_completeness auto
termination by (relation "measure nat") auto

declare digits10.simps [simp del]

definition itoa :: "int \<Rightarrow> string" where
  "itoa n = (if n < 0 then CHR ''-'' # digits10 (- n) else digits10 n)"

lemma digit_val_digit: "d < 10 \<Longrightarrow> digit_val (char_of (48 + d)) = Some d"
  by (simp add: digit_val_def)

lemma parse_digits_append:
  "parse_digits b a (xs @ ys) =
     (case parse_digits b a xs of None \<Rightarrow> None | Some a' \<Rightarrow> parse_digits b a' ys)"
  by (induction xs arbitrary: a) (auto split: option.splits)

lemma parse_digits10: "0 \<le> n \<Longrightarrow> parse_digits 10 0 (digits10 n) = Some n"
proof (induction n rule: digits10.induct)
  case (1 n)
  show ?case
  proof (cases "n < 10")
    case True
    with "1.prems" show ?thesis by (simp add: digits10.simps [of n] digit_val_digit)
  next
    case False
    have "digit_val (char_of (48 + nat (n mod 10))) = Some (nat (n mod 10))"
      by (rule digit_val_digit) simp
    with 1 False show ?thesis
      by (simp add: digits10.simps [of n] parse_digits_append)
  qed
qed

lemma digits10_ne: "digits10 n \<noteq> []"
  by (simp add: digits10.simps [of n])

lemma digits10_digit: "0 \<le> n \<Longrightarrow> c \<in> set (digits10 n) \<Longrightarrow> is_digit c"
proof (induction n rule: digits10.induct)
  case (1 n)
  have small: "is_digit (char_of (48 + d))" if "d < 10" for d :: nat
    using that by (simp add: is_digit_def)
  have d: "is_digit (char_of (48 + nat (n mod 10)))" by (rule small) simp
  show ?case
  proof (cases "n < 10")
    case True
    with 1 show ?thesis by (simp add: digits10.simps [of n] small)
  next
    case False
    with 1 d show ?thesis by (auto simp: digits10.simps [of n])
  qed
qed

lemma atoi_itoa [go_string]: "in_int64 n \<Longrightarrow> atoi (itoa n) = Some n"
proof -
  assume n: "in_int64 n"
  show ?thesis
  proof (cases "n < 0")
    case True
    with n show ?thesis by (simp add: atoi_def parse_int_def itoa_def parse_digits10 digits10_ne)
  next
    case False
    obtain c cs where c: "digits10 n = c # cs" by (cases "digits10 n") (auto simp: digits10_ne)
    with False have "is_digit c" using digits10_digit [of n c] by simp
    then have "c \<noteq> CHR ''-''" "c \<noteq> CHR ''+''" by (auto simp: is_digit_def)
    with c False n parse_digits10 [of n] show ?thesis
      by (simp add: atoi_def parse_int_def itoa_def)
  qed
qed

section \<open>Indexes over a growing collection\<close>

text \<open>
  What a lookup table built by adding elements one after another promises: after \<open>add e\<close> the key
  of \<open>e\<close>, if it has one, finds \<open>e\<close>, and every other key finds what it found before.
\<close>

locale keyed_index =
  fixes empty :: "'d"
    and add :: "'e \<Rightarrow> 'd \<Rightarrow> 'd"
    and look :: "'d \<Rightarrow> 'k \<Rightarrow> 'e option"
    and key :: "'e \<Rightarrow> 'k option"
    and inv :: "'d \<Rightarrow> bool"
  assumes inv_empty: "inv empty"
    and inv_add: "inv d \<Longrightarrow> inv (add e d)"
    and look_empty: "look empty k = None"
    and look_add: "inv d \<Longrightarrow> look (add e d) k = (if key e = Some k then Some e else look d k)"
begin

lemma inv_fold: "inv d \<Longrightarrow> inv (fold add es d)"
  by (induction es arbitrary: d) (simp_all add: inv_add)

lemma look_fold_from:
  "inv d \<Longrightarrow> look (fold add es d) k =
     (case find (\<lambda>e. key e = Some k) (rev es) of Some e \<Rightarrow> Some e | None \<Rightarrow> look d k)"
proof (induction es arbitrary: d)
  case Nil
  then show ?case by simp
next
  case (Cons e es)
  have app: "find P (xs @ [x]) = (case find P xs of Some y \<Rightarrow> Some y | None \<Rightarrow> if P x then Some x else None)"
    for P xs and x :: 'e by (induction xs) auto
  show ?case
    using Cons.IH [OF inv_add [OF Cons.prems]] Cons.prems
    by (simp add: app look_add split: option.splits)
qed

text \<open>The last element with the key is the one found.\<close>

lemma look_fold: "look (fold add es empty) k = find (\<lambda>e. key e = Some k) (rev es)"
  by (simp add: look_fold_from inv_empty look_empty split: option.splits)

lemma look_sound: "look (fold add es empty) k = Some e \<Longrightarrow> e \<in> set es \<and> key e = Some k"
  by (auto simp: look_fold find_Some_iff) (metis nth_mem length_rev set_rev)

lemma look_complete:
  assumes "e \<in> set es" and "key e = Some k"
    and "\<And>e'. e' \<in> set es \<Longrightarrow> key e' = Some k \<Longrightarrow> e' = e"
  shows "look (fold add es empty) k = Some e"
proof (cases "look (fold add es empty) k")
  case None
  then have "\<not> (\<exists>x. x \<in> set es \<and> key x = Some k)" by (simp add: look_fold find_None_iff)
  with assms show ?thesis by blast
next
  case (Some e')
  with assms(3) look_sound show ?thesis by metis
qed

lemma look_None: "look (fold add es empty) k = None \<longleftrightarrow> (\<forall>e\<in>set es. key e \<noteq> Some k)"
  by (auto simp: look_fold find_None_iff)

end

section \<open>Streams of operations\<close>

text \<open>An operation applied to the elements of a list in order, threading its state; the first
  failure fails the whole run.\<close>

fun feed :: "('s \<Rightarrow> 'a \<Rightarrow> ('b \<times> 's) option) \<Rightarrow> 's \<Rightarrow> 'a list \<Rightarrow> ('b list \<times> 's) option" where
  "feed f s [] = Some ([], s)"
| "feed f s (x # xs) =
     (case f s x of
        None \<Rightarrow> None
      | Some (y, s') \<Rightarrow>
          (case feed f s' xs of None \<Rightarrow> None | Some (ys, s'') \<Rightarrow> Some (y # ys, s'')))"

text \<open>
  A one-way channel between a sender and a receiver that each keep state: whatever the sender
  accepts while the two are in step is delivered unchanged and leaves them in step.
\<close>

locale channel =
  fixes send :: "'s \<Rightarrow> 'm \<Rightarrow> ('f \<times> 's) option"
    and recv :: "'r \<Rightarrow> 'f \<Rightarrow> ('d \<times> 'r) option"
    and payload :: "'m \<Rightarrow> 'd"
    and admissible :: "'m \<Rightarrow> bool"
    and sync :: "'s \<Rightarrow> 'r \<Rightarrow> bool"
  assumes deliver: "\<lbrakk>sync s r; admissible m\<rbrakk> \<Longrightarrow>
    \<exists>f s' r'. send s m = Some (f, s') \<and> recv r f = Some (payload m, r') \<and> sync s' r'"
begin

lemma deliver_all:
  "\<lbrakk>sync s r; \<forall>m\<in>set ms. admissible m\<rbrakk> \<Longrightarrow>
    \<exists>fs s' r'. feed send s ms = Some (fs, s') \<and> feed recv r fs = Some (List.map payload ms, r')
      \<and> sync s' r' \<and> length fs = length ms"
proof (induction ms arbitrary: s r)
  case Nil
  then show ?case by auto
next
  case (Cons m ms)
  from Cons.prems obtain f s1 r1
    where step: "send s m = Some (f, s1)" "recv r f = Some (payload m, r1)" "sync s1 r1"
    using deliver [of s r m] by auto
  from Cons.IH [OF step(3)] Cons.prems obtain fs s' r'
    where "feed send s1 ms = Some (fs, s')" "feed recv r1 fs = Some (List.map payload ms, r')"
      "sync s' r'" "length fs = length ms"
    by auto
  with step have "feed send s (m # ms) = Some (f # fs, s')"
    "feed recv r (f # fs) = Some (List.map payload (m # ms), r')"
    "sync s' r' \<and> length (f # fs) = length (m # ms)"
    by simp_all
  then show ?case by blast
qed

end

text \<open>Replacing an element by one that agrees with it on a field changes that field nowhere.\<close>

lemma nth_update_field: "f q = f (xs ! r) \<Longrightarrow> f (xs[r := q] ! i) = f (xs ! i)"
  by (cases "r < length xs"; cases "i = r") (simp_all add: list_update_beyond not_less)

section \<open>Step relations\<close>

text \<open>
  A step relation with an invariant: it holds initially and every step keeps it, so it holds in
  every reachable state.
\<close>

locale step_invariant =
  fixes start :: "'s \<Rightarrow> bool"
    and trans :: "'s \<Rightarrow> 's \<Rightarrow> bool"
    and inv :: "'s \<Rightarrow> bool"
  assumes inv_start: "start s \<Longrightarrow> inv s"
    and inv_trans: "\<lbrakk>trans s t; inv s\<rbrakk> \<Longrightarrow> inv t"
begin

lemma inv_from: "\<lbrakk>trans\<^sup>*\<^sup>* s t; inv s\<rbrakk> \<Longrightarrow> inv t"
  by (induction rule: rtranclp_induct) (auto intro: inv_trans)

lemma reachable_inv: "\<lbrakk>trans\<^sup>*\<^sup>* s t; start s\<rbrakk> \<Longrightarrow> inv t"
  by (rule inv_from) (auto intro: inv_start)

end

end
