(* ===== verification/Go_Values.thy ===== *)
theory Go_Values
  imports Prelude
begin

text \<open>
  Go's \<^verbatim>\<open>float64\<close> and the dynamically typed values (\<^verbatim>\<open>any\<close>) the program decodes from JSON.

  \<open>f64\<close> holds a finite value as the rational it denotes (the sign of a zero, which nothing in
  the program reads, is not kept). \<open>round_f64\<close> is rounding to nearest, ties to even, on the
  53-bit significand with the exponent range of the format; \<open>parse_float\<close> follows
  \<^verbatim>\<open>strconv.ParseFloat(s, 64)\<close>: its scanner (decimal and hexadecimal floats, underscores,
  inf/infinity/nan) and one correct rounding of the exact value it read.
\<close>

section \<open>float64\<close>

datatype f64 = Fin rat | PosInf | NegInf | NaN

function nbits :: "int \<Rightarrow> int" where
  "nbits n = (if n \<le> 0 then 0 else 1 + nbits (n div 2))"
  by pat_completeness auto
termination by (relation "measure nat") auto

declare nbits.simps [simp del]

definition pow2 :: "int \<Rightarrow> rat" where
  "pow2 e = (if 0 \<le> e then 2 ^ nat e else 1 / 2 ^ nat (- e))"

definition round_half_even :: "rat \<Rightarrow> int" where
  "round_half_even q =
     (let f = \<lfloor>q\<rfloor>; r = q - of_int f in
      if r < 1 / 2 then f else if 1 / 2 < r then f + 1 else if even f then f else f + 1)"

text \<open>The exponent of the last place of the double nearest to \<open>q\<close>.\<close>

definition f64_exp :: "rat \<Rightarrow> int" where
  "f64_exp q =
     (let (n, d) = quotient_of q;
          e0 = max (-1074) (nbits n - nbits d - 53)
      in if q / pow2 e0 < 2 ^ 53 then e0 else e0 + 1)"

text \<open>\<open>None\<close> is an overflow, which \<^verbatim>\<open>ParseFloat\<close> reports as an error.\<close>

definition round_pos :: "rat \<Rightarrow> rat option" where
  "round_pos q =
     (let e = f64_exp q; v = of_int (round_half_even (q / pow2 e)) * pow2 e
      in if v < 2 ^ 1024 then Some v else None)"

definition round_f64 :: "rat \<Rightarrow> f64 option" where
  "round_f64 q =
     (if q = 0 then Some (Fin 0)
      else if 0 < q then map_option Fin (round_pos q)
      else map_option (\<lambda>v. Fin (- v)) (round_pos (- q)))"

text \<open>The conversion \<^verbatim>\<open>float64(n)\<close> of a 64-bit integer (it cannot overflow).\<close>

definition int_to_f64 :: "int \<Rightarrow> f64" where
  "int_to_f64 n = (case round_f64 (of_int n) of Some v \<Rightarrow> v | None \<Rightarrow> NaN)"

text \<open>The conversion \<^verbatim>\<open>int(f)\<close> truncates; out of range Go leaves the result to the machine, and
  amd64 (the released binaries and images) gives the least integer.\<close>

definition trunc_rat :: "rat \<Rightarrow> int" where
  "trunc_rat q = (if q < 0 then \<lceil>q\<rceil> else \<lfloor>q\<rfloor>)"

fun f64_to_int :: "f64 \<Rightarrow> int" where
  "f64_to_int (Fin q) = (if in_int64 (trunc_rat q) then trunc_rat q else int64_min)"
| "f64_to_int _ = int64_min"

text \<open>\<^verbatim>\<open>n != 0\<close> on a float: true of NaN and the infinities.\<close>

definition f64_nonzero :: "f64 \<Rightarrow> bool" where
  "f64_nonzero f \<longleftrightarrow> f \<noteq> Fin 0"

lemma f64_to_int_range: "in_int64 (f64_to_int f)"
  by (cases f) (auto simp: in_int64_def int64_min_def int64_max_def)

lemma round_half_even_of_int [simp]: "round_half_even (of_int n) = n"
  by (simp add: round_half_even_def)

lemma nbits_bound: "n < 2 ^ k \<Longrightarrow> nbits n \<le> int k"
proof (induction n arbitrary: k rule: nbits.induct)
  case (1 n)
  show ?case
  proof (cases "n \<le> 0")
    case True
    then show ?thesis by (simp add: nbits.simps [of n])
  next
    case False
    with "1.prems" obtain k' where k: "k = Suc k'" by (cases k) auto
    with "1.prems" have "n div 2 < 2 ^ k'" by auto
    with "1.IH" False k show ?thesis by (simp add: nbits.simps [of n])
  qed
qed

lemma div_pow2_neg: "e \<le> 0 \<Longrightarrow> of_int n / pow2 e = of_int (n * 2 ^ nat (- e))"
  by (cases "e = 0") (simp_all add: pow2_def)

lemma pow2_pos: "0 < pow2 e"
  by (simp add: pow2_def)

text \<open>An integer of at most 53 bits is represented exactly.\<close>

lemma f64_exp_small:
  assumes "n < 2 ^ 53"
  shows "f64_exp (of_int n) \<le> 0"
proof -
  have "nbits n \<le> int 53" using assms by (rule nbits_bound)
  moreover have "quotient_of (of_int n) = (n, 1)"
    by (simp add: Rat.of_int_def [symmetric] flip: quotient_of_int)
  moreover have "nbits 1 = 1" by (simp add: nbits.simps [of 1] nbits.simps [of 0])
  ultimately show ?thesis by (simp add: f64_exp_def Let_def max_def)
qed

lemma round_pos_small:
  assumes "n < 2 ^ 53"
  shows "round_pos (of_int n) = Some (of_int n)"
proof -
  define e where "e = f64_exp (of_int n)"
  have e: "e \<le> 0" unfolding e_def using assms by (rule f64_exp_small)
  have "of_int (round_half_even (of_int n / pow2 e)) = (of_int n / pow2 e :: rat)"
    by (simp only: div_pow2_neg [OF e] round_half_even_of_int)
  then have "of_int (round_half_even (of_int n / pow2 e)) * pow2 e = (of_int n :: rat)"
    using pow2_pos [of e] by simp
  moreover have "(of_int n :: rat) < 2 ^ 1024"
  proof -
    have "(of_int n :: rat) < of_int (2 ^ 53)" using assms by (simp only: of_int_less_iff)
    also have "\<dots> \<le> 2 ^ 1024" by simp
    finally show ?thesis .
  qed
  ultimately show ?thesis by (simp add: round_pos_def Let_def flip: e_def)
qed

lemma int_to_f64_exact:
  assumes "\<bar>n\<bar> < 2 ^ 53"
  shows "int_to_f64 n = Fin (of_int n)"
proof -
  consider "n = 0" | "0 < n" | "n < 0" by linarith
  then show ?thesis
  proof cases
    case 1
    then show ?thesis by (simp add: int_to_f64_def round_f64_def)
  next
    case 2
    with assms show ?thesis by (simp add: int_to_f64_def round_f64_def round_pos_small)
  next
    case 3
    with assms have "round_pos (of_int (- n)) = Some (of_int (- n))" by (intro round_pos_small) auto
    with 3 show ?thesis by (simp add: int_to_f64_def round_f64_def)
  qed
qed

lemma f64_to_int_of_int: "in_int64 n \<Longrightarrow> f64_to_int (Fin (of_int n)) = n"
  by (simp add: trunc_rat_def)

section \<open>strconv.ParseFloat\<close>

text \<open>
  The scanner state of \<^verbatim>\<open>readFloat\<close>: the digits read so far as one number, how many of them
  stand after the point, and whether a digit, a point and an underscore were seen.
\<close>

record scan =
  mant :: int
  frac :: nat
  sawdot :: bool
  sawdigits :: bool
  sawunder :: bool

definition scan0 :: scan where
  "scan0 = \<lparr>mant = 0, frac = 0, sawdot = False, sawdigits = False, sawunder = False\<rparr>"

fun scan_mant :: "nat \<Rightarrow> scan \<Rightarrow> string \<Rightarrow> scan \<times> string" where
  "scan_mant base st [] = (st, [])"
| "scan_mant base st (c # cs) =
     (if c = CHR ''_'' then scan_mant base (st\<lparr>sawunder := True\<rparr>) cs
      else if c = CHR ''.'' then
        (if sawdot st then (st, c # cs) else scan_mant base (st\<lparr>sawdot := True\<rparr>) cs)
      else (case digit_val c of
          Some d \<Rightarrow>
            if d < base then
              scan_mant base (st\<lparr>mant := mant st * int base + int d,
                                 frac := (if sawdot st then frac st + 1 else frac st),
                                 sawdigits := True\<rparr>) cs
            else (st, c # cs)
        | None \<Rightarrow> (st, c # cs)))"

text \<open>The exponent's digits; past 10000 further digits are skipped, as the code's guard does.\<close>

fun scan_exp :: "int \<Rightarrow> bool \<Rightarrow> string \<Rightarrow> int \<times> bool \<times> string" where
  "scan_exp e us [] = (e, us, [])"
| "scan_exp e us (c # cs) =
     (if c = CHR ''_'' then scan_exp e True cs
      else if is_digit c
        then scan_exp (if e < 10000 then e * 10 + (of_char c - 48) else e) us cs
      else (e, us, c # cs))"

text \<open>\<^verbatim>\<open>underscoreOK\<close>: an underscore stands only between digits, or between the base prefix
  and a digit. \<open>i\<close> is the kind of the character before: \<open>0\<close> a digit (or the prefix), \<open>_\<close> an
  underscore, \<open>!\<close> anything else.\<close>

fun underscore_ok :: "bool \<Rightarrow> char \<Rightarrow> string \<Rightarrow> bool" where
  "underscore_ok hex i [] = (i \<noteq> CHR ''_'')"
| "underscore_ok hex i (c # cs) =
     (if is_digit c \<or> hex \<and> digit_val c \<noteq> None \<and> the (digit_val c) < 16
        then underscore_ok hex (CHR ''0'') cs
      else if c = CHR ''_'' then i = CHR ''0'' \<and> underscore_ok hex (CHR ''_'') cs
      else i \<noteq> CHR ''_'' \<and> underscore_ok hex (CHR ''!'') cs)"

definition split_sign :: "string \<Rightarrow> bool \<times> string" where
  "split_sign s = (case s of
      [] \<Rightarrow> (False, [])
    | c # cs \<Rightarrow> if c = CHR ''-'' then (True, cs) else if c = CHR ''+'' then (False, cs) else (False, s))"

definition special_float :: "string \<Rightarrow> f64 option" where
  "special_float s =
     (let (neg, r) = split_sign s; w = List.map lower_char r in
      if w = ''inf'' \<or> w = ''infinity'' then Some (if neg then NegInf else PosInf)
      else if List.map lower_char s = ''nan'' then Some NaN
      else None)"

definition read_float :: "string \<Rightarrow> rat option" where
  "read_float s =
     (let (neg, r) = split_sign s;
          hex = (2 < length r \<and> List.map lower_char (take 2 r) = ''0x'');
          base = (if hex then 16 else 10);
          body = (if hex then drop 2 r else r);
          (st, rest) = scan_mant base scan0 body;
          scale = (if hex then 4 else 1) * int (frac st);
          sgn = (if neg then -1 else 1);
          fin = (\<lambda>e us rest'.
             if rest' \<noteq> [] \<or> us \<and> \<not> underscore_ok hex (if hex then CHR ''0'' else CHR ''!'') body
             then None
             else if mant st = 0 then Some 0
             else Some (sgn * of_int (mant st) *
               (if hex then pow2 (e - scale)
                else if 0 \<le> e - scale then 10 ^ nat (e - scale) else 1 / 10 ^ nat (scale - e))))
      in if \<not> sawdigits st then None
         else (case rest of
             [] \<Rightarrow> if hex then None else fin 0 (sawunder st) []
           | c # cs \<Rightarrow>
               if lower_char c = (if hex then CHR ''p'' else CHR ''e'') then
                 (let (eneg, ds) = split_sign cs in
                  case ds of
                    [] \<Rightarrow> None
                  | d # _ \<Rightarrow> if \<not> is_digit d then None
                      else (let (e, us, rest') = scan_exp 0 (sawunder st) ds in
                            fin (if eneg then - e else e) us rest'))
               else None))"

definition parse_float :: "string \<Rightarrow> f64 option" where
  "parse_float s =
     (case special_float s of
        Some v \<Rightarrow> Some v
      | None \<Rightarrow> (case read_float s of None \<Rightarrow> None | Some q \<Rightarrow> round_f64 q))"

section \<open>Dynamically typed values\<close>

text \<open>
  What an \<^verbatim>\<open>any\<close> of the program can hold: \<^verbatim>\<open>nil\<close>, a boolean, an \<^verbatim>\<open>int\<close>, an \<^verbatim>\<open>int64\<close>, a
  \<^verbatim>\<open>float64\<close> (every JSON number decodes to one), a string, \<^verbatim>\<open>[]any\<close> and
  \<^verbatim>\<open>map[string]any\<close>. A JSON object is the association list of its members.
\<close>

datatype any =
    VNil
  | VBool bool
  | VInt int
  | VInt64 int
  | VFloat f64
  | VStr string
  | VList "any list"
  | VMap "(string \<times> any) list"

type_synonym obj = "(string \<times> any) list"

text \<open>Indexing a Go map with a missing key yields the zero value, \<^verbatim>\<open>nil\<close>.\<close>

definition obj_get :: "obj \<Rightarrow> string \<Rightarrow> any" where
  "obj_get o' k = (case map_of o' k of None \<Rightarrow> VNil | Some v \<Rightarrow> v)"

text \<open>
  \<^verbatim>\<open>fmt.Sprint\<close>: \<open>fmt\<close> renders what needs the printer of floats and containers (the shortest
  decimal that reads back, bracketed lists, sorted maps); the scalar cases are its documented
  output.
\<close>

definition sprint :: "(any \<Rightarrow> string) \<Rightarrow> any \<Rightarrow> string" where
  "sprint fmt v = (case v of
      VNil \<Rightarrow> ''<nil>''
    | VBool b \<Rightarrow> if b then ''true'' else ''false''
    | VInt n \<Rightarrow> itoa n
    | VInt64 n \<Rightarrow> itoa n
    | VStr s \<Rightarrow> s
    | _ \<Rightarrow> fmt v)"

end
