(* ===== verification/Go_Crypto.thy ===== *)
theory Go_Crypto
  imports Prelude
begin

unbundle bit_operations_syntax

text \<open>
  The standard-library cryptography the transport uses: SHA-256 and HMAC (\<^verbatim>\<open>crypto/sha256\<close>,
  \<^verbatim>\<open>crypto/hmac\<close>), the AES-256 block cipher (\<^verbatim>\<open>crypto/aes\<close>) and CBC chaining
  (\<^verbatim>\<open>crypto/cipher\<close>), written from FIPS 180-4, FIPS 198-1, FIPS 197 and SP 800-38A. The facts the
  transport rests on are proved here: a MAC has 32 bytes, decryption of a block inverts its
  encryption under the same round keys, and CBC decryption from the same chaining value inverts
  CBC encryption and leaves both sides with the same chaining value.
\<close>

type_synonym byte = "8 word"
type_synonym w32 = "32 word"

named_theorems byte_len \<open>lengths of byte strings\<close>

definition xor_bytes :: "byte list \<Rightarrow> byte list \<Rightarrow> byte list" where
  "xor_bytes xs ys = map2 (XOR) xs ys"

lemma length_xor_bytes [byte_len]: "length (xor_bytes xs ys) = min (length xs) (length ys)"
  by (simp add: xor_bytes_def)

lemma xor_bytes_cancel: "length xs = length ys \<Longrightarrow> xor_bytes (xor_bytes xs ys) ys = xs"
  unfolding xor_bytes_def
  by (induction xs ys rule: list_induct2) (simp_all add: ac_simps bit.xor_left_self)

section \<open>SHA-256 and HMAC\<close>

definition be32 :: "byte \<Rightarrow> byte \<Rightarrow> byte \<Rightarrow> byte \<Rightarrow> w32" where
  "be32 a b c d = push_bit 24 (ucast a) OR push_bit 16 (ucast b) OR push_bit 8 (ucast c) OR ucast d"

definition be32_bytes :: "w32 \<Rightarrow> byte list" where
  "be32_bytes w = [ucast (drop_bit 24 w), ucast (drop_bit 16 w), ucast (drop_bit 8 w), ucast w]"

fun words32 :: "byte list \<Rightarrow> w32 list" where
  "words32 (a # b # c # d # xs) = be32 a b c d # words32 xs"
| "words32 _ = []"

definition sha_k :: "w32 list" where
  "sha_k =
     [1116352408, 1899447441, 3049323471, 3921009573, 961987163, 1508970993,
      2453635748, 2870763221, 3624381080, 310598401, 607225278, 1426881987,
      1925078388, 2162078206, 2614888103, 3248222580, 3835390401, 4022224774,
      264347078, 604807628, 770255983, 1249150122, 1555081692, 1996064986,
      2554220882, 2821834349, 2952996808, 3210313671, 3336571891, 3584528711,
      113926993, 338241895, 666307205, 773529912, 1294757372, 1396182291,
      1695183700, 1986661051, 2177026350, 2456956037, 2730485921, 2820302411,
      3259730800, 3345764771, 3516065817, 3600352804, 4094571909, 275423344,
      430227734, 506948616, 659060556, 883997877, 958139571, 1322822218,
      1537002063, 1747873779, 1955562222, 2024104815, 2227730452, 2361852424,
      2428436474, 2756734187, 3204031479, 3329325298]"

definition sha_h0 :: "w32 list" where
  "sha_h0 =
     [1779033703, 3144134277, 1013904242, 2773480762,
      1359893119, 2600822924, 528734635, 1541459225]"

definition sha_sig0 :: "w32 \<Rightarrow> w32" where
  "sha_sig0 x = word_rotr 7 x XOR word_rotr 18 x XOR drop_bit 3 x"
definition sha_sig1 :: "w32 \<Rightarrow> w32" where
  "sha_sig1 x = word_rotr 17 x XOR word_rotr 19 x XOR drop_bit 10 x"
definition sha_sum0 :: "w32 \<Rightarrow> w32" where
  "sha_sum0 x = word_rotr 2 x XOR word_rotr 13 x XOR word_rotr 22 x"
definition sha_sum1 :: "w32 \<Rightarrow> w32" where
  "sha_sum1 x = word_rotr 6 x XOR word_rotr 11 x XOR word_rotr 25 x"
definition sha_ch :: "w32 \<Rightarrow> w32 \<Rightarrow> w32 \<Rightarrow> w32" where
  "sha_ch x y z = (x AND y) XOR (NOT x AND z)"
definition sha_maj :: "w32 \<Rightarrow> w32 \<Rightarrow> w32 \<Rightarrow> w32" where
  "sha_maj x y z = (x AND y) XOR (x AND z) XOR (y AND z)"

fun sha_schedule :: "nat \<Rightarrow> w32 list \<Rightarrow> w32 list" where
  "sha_schedule 0 w = w"
| "sha_schedule (Suc n) w =
     (let t = length w in
      sha_schedule n (w @ [sha_sig1 (w ! (t - 2)) + w ! (t - 7) + sha_sig0 (w ! (t - 15)) + w ! (t - 16)]))"

fun sha_round :: "w32 \<times> w32 \<Rightarrow> w32 list \<Rightarrow> w32 list" where
  "sha_round (k, w) [a, b, c, d, e, f, g, h] =
     (let t1 = h + sha_sum1 e + sha_ch e f g + k + w; t2 = sha_sum0 a + sha_maj a b c
      in [t1 + t2, a, b, c, d + t1, e, f, g])"
| "sha_round _ s = s"

definition sha_block :: "w32 list \<Rightarrow> byte list \<Rightarrow> w32 list" where
  "sha_block h blk = map2 (+) h (fold sha_round (zip sha_k (sha_schedule 48 (words32 blk))) h)"

definition be64_bytes :: "64 word \<Rightarrow> byte list" where
  "be64_bytes n = be32_bytes (ucast (drop_bit 32 n)) @ be32_bytes (ucast n)"

definition sha_pad :: "byte list \<Rightarrow> byte list" where
  "sha_pad m = m @ [0x80] @ replicate (nat ((55 - int (length m)) mod 64)) 0
     @ be64_bytes (word_of_nat (8 * length m))"

fun sha_blocks :: "w32 list \<Rightarrow> byte list \<Rightarrow> w32 list" where
  "sha_blocks h m = (if length m < 64 then h else sha_blocks (sha_block h (take 64 m)) (drop 64 m))"

declare sha_blocks.simps [simp del]

definition sha256 :: "byte list \<Rightarrow> byte list" where
  "sha256 m = concat (List.map be32_bytes (sha_blocks sha_h0 (sha_pad m)))"

definition hmac_key :: "byte list \<Rightarrow> byte list" where
  "hmac_key k = (let k' = (if 64 < length k then sha256 k else k) in k' @ replicate (64 - length k') 0)"

definition hmac_sha256 :: "byte list \<Rightarrow> byte list \<Rightarrow> byte list" where
  "hmac_sha256 k m =
     (let k0 = hmac_key k in
      sha256 (xor_bytes k0 (replicate 64 0x5c) @ sha256 (xor_bytes k0 (replicate 64 0x36) @ m)))"

lemma length_sha_round: "length (sha_round kw s) = length s"
  by (cases "(kw, s)" rule: sha_round.cases) (auto simp: Let_def)

lemma length_fold_sha_round: "length (fold sha_round kws s) = length s"
  by (induction kws arbitrary: s) (simp_all add: length_sha_round)

lemma length_sha_blocks: "length (sha_blocks h m) = length h"
proof (induction h m rule: sha_blocks.induct)
  case (1 h m)
  then show ?case
    by (subst sha_blocks.simps) (simp add: sha_block_def length_fold_sha_round)
qed

lemma length_concat_be32: "length (concat (List.map be32_bytes ws)) = 4 * length ws"
  by (induction ws) (simp_all add: be32_bytes_def)

lemma length_sha256 [byte_len]: "length (sha256 m) = 32"
  by (simp add: sha256_def length_concat_be32 length_sha_blocks) (simp add: sha_h0_def)

lemma length_hmac_sha256 [byte_len]: "length (hmac_sha256 k m) = 32"
  by (simp add: hmac_sha256_def Let_def byte_len)

section \<open>AES-256\<close>

definition sbox :: "byte list" where
  "sbox =
     [0x63, 0x7c, 0x77, 0x7b, 0xf2, 0x6b, 0x6f, 0xc5, 0x30, 0x01, 0x67, 0x2b, 0xfe, 0xd7, 0xab, 0x76,
      0xca, 0x82, 0xc9, 0x7d, 0xfa, 0x59, 0x47, 0xf0, 0xad, 0xd4, 0xa2, 0xaf, 0x9c, 0xa4, 0x72, 0xc0,
      0xb7, 0xfd, 0x93, 0x26, 0x36, 0x3f, 0xf7, 0xcc, 0x34, 0xa5, 0xe5, 0xf1, 0x71, 0xd8, 0x31, 0x15,
      0x04, 0xc7, 0x23, 0xc3, 0x18, 0x96, 0x05, 0x9a, 0x07, 0x12, 0x80, 0xe2, 0xeb, 0x27, 0xb2, 0x75,
      0x09, 0x83, 0x2c, 0x1a, 0x1b, 0x6e, 0x5a, 0xa0, 0x52, 0x3b, 0xd6, 0xb3, 0x29, 0xe3, 0x2f, 0x84,
      0x53, 0xd1, 0x00, 0xed, 0x20, 0xfc, 0xb1, 0x5b, 0x6a, 0xcb, 0xbe, 0x39, 0x4a, 0x4c, 0x58, 0xcf,
      0xd0, 0xef, 0xaa, 0xfb, 0x43, 0x4d, 0x33, 0x85, 0x45, 0xf9, 0x02, 0x7f, 0x50, 0x3c, 0x9f, 0xa8,
      0x51, 0xa3, 0x40, 0x8f, 0x92, 0x9d, 0x38, 0xf5, 0xbc, 0xb6, 0xda, 0x21, 0x10, 0xff, 0xf3, 0xd2,
      0xcd, 0x0c, 0x13, 0xec, 0x5f, 0x97, 0x44, 0x17, 0xc4, 0xa7, 0x7e, 0x3d, 0x64, 0x5d, 0x19, 0x73,
      0x60, 0x81, 0x4f, 0xdc, 0x22, 0x2a, 0x90, 0x88, 0x46, 0xee, 0xb8, 0x14, 0xde, 0x5e, 0x0b, 0xdb,
      0xe0, 0x32, 0x3a, 0x0a, 0x49, 0x06, 0x24, 0x5c, 0xc2, 0xd3, 0xac, 0x62, 0x91, 0x95, 0xe4, 0x79,
      0xe7, 0xc8, 0x37, 0x6d, 0x8d, 0xd5, 0x4e, 0xa9, 0x6c, 0x56, 0xf4, 0xea, 0x65, 0x7a, 0xae, 0x08,
      0xba, 0x78, 0x25, 0x2e, 0x1c, 0xa6, 0xb4, 0xc6, 0xe8, 0xdd, 0x74, 0x1f, 0x4b, 0xbd, 0x8b, 0x8a,
      0x70, 0x3e, 0xb5, 0x66, 0x48, 0x03, 0xf6, 0x0e, 0x61, 0x35, 0x57, 0xb9, 0x86, 0xc1, 0x1d, 0x9e,
      0xe1, 0xf8, 0x98, 0x11, 0x69, 0xd9, 0x8e, 0x94, 0x9b, 0x1e, 0x87, 0xe9, 0xce, 0x55, 0x28, 0xdf,
      0x8c, 0xa1, 0x89, 0x0d, 0xbf, 0xe6, 0x42, 0x68, 0x41, 0x99, 0x2d, 0x0f, 0xb0, 0x54, 0xbb, 0x16]"

definition inv_sbox :: "byte list" where
  "inv_sbox =
     [0x52, 0x09, 0x6a, 0xd5, 0x30, 0x36, 0xa5, 0x38, 0xbf, 0x40, 0xa3, 0x9e, 0x81, 0xf3, 0xd7, 0xfb,
      0x7c, 0xe3, 0x39, 0x82, 0x9b, 0x2f, 0xff, 0x87, 0x34, 0x8e, 0x43, 0x44, 0xc4, 0xde, 0xe9, 0xcb,
      0x54, 0x7b, 0x94, 0x32, 0xa6, 0xc2, 0x23, 0x3d, 0xee, 0x4c, 0x95, 0x0b, 0x42, 0xfa, 0xc3, 0x4e,
      0x08, 0x2e, 0xa1, 0x66, 0x28, 0xd9, 0x24, 0xb2, 0x76, 0x5b, 0xa2, 0x49, 0x6d, 0x8b, 0xd1, 0x25,
      0x72, 0xf8, 0xf6, 0x64, 0x86, 0x68, 0x98, 0x16, 0xd4, 0xa4, 0x5c, 0xcc, 0x5d, 0x65, 0xb6, 0x92,
      0x6c, 0x70, 0x48, 0x50, 0xfd, 0xed, 0xb9, 0xda, 0x5e, 0x15, 0x46, 0x57, 0xa7, 0x8d, 0x9d, 0x84,
      0x90, 0xd8, 0xab, 0x00, 0x8c, 0xbc, 0xd3, 0x0a, 0xf7, 0xe4, 0x58, 0x05, 0xb8, 0xb3, 0x45, 0x06,
      0xd0, 0x2c, 0x1e, 0x8f, 0xca, 0x3f, 0x0f, 0x02, 0xc1, 0xaf, 0xbd, 0x03, 0x01, 0x13, 0x8a, 0x6b,
      0x3a, 0x91, 0x11, 0x41, 0x4f, 0x67, 0xdc, 0xea, 0x97, 0xf2, 0xcf, 0xce, 0xf0, 0xb4, 0xe6, 0x73,
      0x96, 0xac, 0x74, 0x22, 0xe7, 0xad, 0x35, 0x85, 0xe2, 0xf9, 0x37, 0xe8, 0x1c, 0x75, 0xdf, 0x6e,
      0x47, 0xf1, 0x1a, 0x71, 0x1d, 0x29, 0xc5, 0x89, 0x6f, 0xb7, 0x62, 0x0e, 0xaa, 0x18, 0xbe, 0x1b,
      0xfc, 0x56, 0x3e, 0x4b, 0xc6, 0xd2, 0x79, 0x20, 0x9a, 0xdb, 0xc0, 0xfe, 0x78, 0xcd, 0x5a, 0xf4,
      0x1f, 0xdd, 0xa8, 0x33, 0x88, 0x07, 0xc7, 0x31, 0xb1, 0x12, 0x10, 0x59, 0x27, 0x80, 0xec, 0x5f,
      0x60, 0x51, 0x7f, 0xa9, 0x19, 0xb5, 0x4a, 0x0d, 0x2d, 0xe5, 0x7a, 0x9f, 0x93, 0xc9, 0x9c, 0xef,
      0xa0, 0xe0, 0x3b, 0x4d, 0xae, 0x2a, 0xf5, 0xb0, 0xc8, 0xeb, 0xbb, 0x3c, 0x83, 0x53, 0x99, 0x61,
      0x17, 0x2b, 0x04, 0x7e, 0xba, 0x77, 0xd6, 0x26, 0xe1, 0x69, 0x14, 0x63, 0x55, 0x21, 0x0c, 0x7d]"

definition sub_byte :: "byte \<Rightarrow> byte" where "sub_byte b = sbox ! unat b"
definition inv_sub_byte :: "byte \<Rightarrow> byte" where "inv_sub_byte b = inv_sbox ! unat b"

definition shift_rows :: "byte list \<Rightarrow> byte list" where
  "shift_rows s = List.map (\<lambda>i. s ! i) [0, 5, 10, 15, 4, 9, 14, 3, 8, 13, 2, 7, 12, 1, 6, 11]"

definition inv_shift_rows :: "byte list \<Rightarrow> byte list" where
  "inv_shift_rows s = List.map (\<lambda>i. s ! i) [0, 13, 10, 7, 4, 1, 14, 11, 8, 5, 2, 15, 12, 9, 6, 3]"

definition xtime :: "byte \<Rightarrow> byte" where
  "xtime b = push_bit 1 b XOR (if bit b 7 then 0x1b else 0)"

definition mix_column :: "byte \<Rightarrow> byte \<Rightarrow> byte \<Rightarrow> byte \<Rightarrow> byte" where
  "mix_column a b c d = xtime a XOR (xtime b XOR b) XOR c XOR d"

definition inv_mix_column :: "byte \<Rightarrow> byte \<Rightarrow> byte \<Rightarrow> byte \<Rightarrow> byte" where
  "inv_mix_column a b c d =
     (xtime (xtime (xtime a)) XOR xtime (xtime a) XOR xtime a)
     XOR (xtime (xtime (xtime b)) XOR xtime b XOR b)
     XOR (xtime (xtime (xtime c)) XOR xtime (xtime c) XOR c)
     XOR (xtime (xtime (xtime d)) XOR d)"

fun mix_columns :: "byte list \<Rightarrow> byte list" where
  "mix_columns (a # b # c # d # s) =
     mix_column a b c d # mix_column b c d a # mix_column c d a b # mix_column d a b c # mix_columns s"
| "mix_columns _ = []"

fun inv_mix_columns :: "byte list \<Rightarrow> byte list" where
  "inv_mix_columns (a # b # c # d # s) =
     inv_mix_column a b c d # inv_mix_column b c d a # inv_mix_column c d a b
       # inv_mix_column d a b c # inv_mix_columns s"
| "inv_mix_columns _ = []"

fun enc_rounds :: "byte list list \<Rightarrow> byte list \<Rightarrow> byte list" where
  "enc_rounds [] s = s"
| "enc_rounds [rk] s = xor_bytes (shift_rows (List.map sub_byte s)) rk"
| "enc_rounds (rk # rks) s = enc_rounds rks (xor_bytes (mix_columns (shift_rows (List.map sub_byte s))) rk)"

fun dec_rounds :: "byte list list \<Rightarrow> byte list \<Rightarrow> byte list" where
  "dec_rounds [] s = s"
| "dec_rounds [rk] s = List.map inv_sub_byte (inv_shift_rows (xor_bytes s rk))"
| "dec_rounds (rk # rks) s =
     List.map inv_sub_byte (inv_shift_rows (inv_mix_columns (xor_bytes (dec_rounds rks s) rk)))"

definition rot_word :: "byte list \<Rightarrow> byte list" where "rot_word w = rotate1 w"

fun rcon :: "nat \<Rightarrow> byte" where
  "rcon 0 = 0"
| "rcon (Suc 0) = 1"
| "rcon (Suc n) = xtime (rcon n)"

definition next_word :: "byte list list \<Rightarrow> byte list" where
  "next_word w =
     (let t = length w; prev = w ! (t - 1);
          temp = (if t mod 8 = 0
                    then xor_bytes (List.map sub_byte (rot_word prev)) [rcon (t div 8), 0, 0, 0]
                  else if t mod 8 = 4 then List.map sub_byte prev
                  else prev)
      in xor_bytes (w ! (t - 8)) temp)"

fun expand_words :: "nat \<Rightarrow> byte list list \<Rightarrow> byte list list" where
  "expand_words 0 w = w"
| "expand_words (Suc n) w = expand_words n (w @ [next_word w])"

fun chunks :: "nat \<Rightarrow> nat \<Rightarrow> 'a list \<Rightarrow> 'a list list" where
  "chunks 0 k xs = []"
| "chunks (Suc n) k xs = take k xs # chunks n k (drop k xs)"

text \<open>The 15 round keys of a 32-byte key.\<close>

definition round_keys :: "byte list \<Rightarrow> byte list list" where
  "round_keys key = List.map concat (chunks 15 4 (expand_words 52 (chunks 8 4 key)))"

definition aes_encrypt :: "byte list \<Rightarrow> byte list \<Rightarrow> byte list" where
  "aes_encrypt key blk = (let rks = round_keys key in enc_rounds (tl rks) (xor_bytes blk (hd rks)))"

definition aes_decrypt :: "byte list \<Rightarrow> byte list \<Rightarrow> byte list" where
  "aes_decrypt key blk = (let rks = round_keys key in xor_bytes (dec_rounds (tl rks) blk) (hd rks))"


subsection \<open>Decryption inverts encryption\<close>

lemma xtime_xor: "xtime (a XOR b) = xtime a XOR xtime b"
  by (auto simp: xtime_def push_bit_xor bit_xor_iff ac_simps bit.xor_left_self)

lemma inv_mix_column_mix:
  "inv_mix_column (mix_column a b c d) (mix_column b c d a) (mix_column c d a b) (mix_column d a b c) = a"
  by (simp add: inv_mix_column_def mix_column_def xtime_xor ac_simps bit.xor_left_self)

lemma inv_mix_columns_mix:
  "length s mod 4 = 0 \<Longrightarrow> inv_mix_columns (mix_columns s) = s"
  by (induction s rule: mix_columns.induct) (simp_all add: inv_mix_column_mix)

lemma length_mix_columns: "length s mod 4 = 0 \<Longrightarrow> length (mix_columns s) = length s"
  by (induction s rule: mix_columns.induct) simp_all

lemma length_shift_rows [byte_len]: "length (shift_rows s) = 16"
  by (simp add: shift_rows_def)

lemma list16: "length s = 16 \<Longrightarrow> s = List.map (\<lambda>i. s ! i) [0,1,2,3,4,5,6,7,8,9,10,11,12,13,14,15]"
proof -
  assume "length s = 16"
  then have "s = List.map ((!) s) [0..<16]" by (metis map_nth)
  then show ?thesis by (simp add: upt_rec numeral_eq_Suc)
qed

lemma inv_shift_rows_shift: "length s = 16 \<Longrightarrow> inv_shift_rows (shift_rows s) = s"
  by (subst (4) list16) (simp_all add: inv_shift_rows_def shift_rows_def)

lemma sbox_inverse_table: "List.map (\<lambda>n. inv_sbox ! unat (sbox ! n)) [0..<256] = List.map word_of_nat [0..<256]"
  by code_simp

lemma inv_sub_byte_sub: "inv_sub_byte (sub_byte b) = b"
proof -
  have "unat b < 256" using unsigned_less [of b] by simp
  then have "List.map (\<lambda>n. inv_sbox ! unat (sbox ! n)) [0..<256] ! unat b = inv_sbox ! unat (sbox ! unat b)"
    and "List.map word_of_nat [0..<256] ! unat b = (word_of_nat (unat b) :: byte)"
    by simp_all
  then show ?thesis by (simp add: sub_byte_def inv_sub_byte_def sbox_inverse_table)
qed

lemma map_inv_sub_byte: "List.map inv_sub_byte (List.map sub_byte s) = s"
  by (simp add: comp_def inv_sub_byte_sub)

lemma dec_enc_rounds:
  assumes "\<forall>rk\<in>set rks. length rk = 16" and "length s = 16"
  shows "length (enc_rounds rks s) = 16 \<and> dec_rounds rks (enc_rounds rks s) = s"
  using assms
proof (induction rks s rule: enc_rounds.induct)
  case (1 s)
  then show ?case by simp
next
  case (2 rk s)
  then show ?case
    by (simp add: byte_len xor_bytes_cancel inv_shift_rows_shift map_inv_sub_byte del: map_map)
next
  case (3 rk v rks s)
  let ?m = "mix_columns (shift_rows (List.map sub_byte s))"
  have m: "length ?m = 16" by (simp add: length_mix_columns byte_len)
  have "length (xor_bytes ?m rk) = 16" using "3.prems" m by (simp add: byte_len)
  with 3 have IH: "length (enc_rounds (v # rks) (xor_bytes ?m rk)) = 16"
    "dec_rounds (v # rks) (enc_rounds (v # rks) (xor_bytes ?m rk)) = xor_bytes ?m rk"
    by simp_all
  have "xor_bytes (xor_bytes ?m rk) rk = ?m" using "3.prems" m by (simp add: xor_bytes_cancel)
  then show ?case using IH "3.prems"
    by (simp add: inv_mix_columns_mix byte_len inv_shift_rows_shift map_inv_sub_byte del: map_map)
qed

lemma length_expand_words:
  "length (expand_words n w) = length w + n"
  by (induction n w rule: expand_words.induct) simp_all

lemma length_next_word:
  assumes "8 \<le> length w" and "\<forall>x\<in>set w. length x = 4"
  shows "length (next_word w) = 4"
proof -
  have "w ! (length w - 1) \<in> set w" and "w ! (length w - 8) \<in> set w" using assms by auto
  with assms have "length (w ! (length w - 1)) = 4" and "length (w ! (length w - 8)) = 4" by blast+
  then show ?thesis by (simp add: next_word_def Let_def byte_len rot_word_def)
qed

lemma expand_words_widths:
  "\<lbrakk>8 \<le> length w; \<forall>x\<in>set w. length x = 4\<rbrakk> \<Longrightarrow> \<forall>x\<in>set (expand_words n w). length x = 4"
  by (induction n w rule: expand_words.induct) (simp_all add: length_next_word)

lemma chunks_props:
  "length xs = n * k \<Longrightarrow> length (chunks n k xs) = n \<and> (\<forall>x\<in>set (chunks n k xs). length x = k \<and> set x \<subseteq> set xs)"
proof (induction n k xs rule: chunks.induct)
  case (1 k xs)
  then show ?case by simp
next
  case (2 n k xs)
  then have "length (drop k xs) = n * k" by simp
  with 2 show ?case by (auto dest: in_set_takeD in_set_dropD simp: subset_eq)
qed

lemma length_concat_same: "\<forall>x\<in>set xs. length x = k \<Longrightarrow> length (concat xs) = length xs * k"
  by (induction xs) auto

lemma round_keys_shape:
  assumes "length key = 32"
  shows "length (round_keys key) = 15 \<and> (\<forall>rk\<in>set (round_keys key). length rk = 16)"
proof -
  let ?w = "expand_words 52 (chunks 8 4 key)"
  have c: "length (chunks 8 4 key) = 8" "\<forall>x\<in>set (chunks 8 4 key). length x = 4"
    using assms chunks_props [of key 8 4] by auto
  have w: "length ?w = 15 * 4" using c by (simp add: length_expand_words)
  have w4: "\<forall>x\<in>set ?w. length x = 4" using c by (intro expand_words_widths) simp_all
  show ?thesis
  proof
    show "length (round_keys key) = 15"
      using chunks_props [OF w] by (simp add: round_keys_def)
    show "\<forall>rk\<in>set (round_keys key). length rk = 16"
    proof
      fix rk assume "rk \<in> set (round_keys key)"
      then obtain ws where ws: "ws \<in> set (chunks 15 4 ?w)" "rk = concat ws" by (auto simp: round_keys_def)
      with chunks_props [OF w] w4 have "length ws = 4" "\<forall>x\<in>set ws. length x = 4" by auto
      with ws length_concat_same [of ws 4] show "length rk = 16" by simp
    qed
  qed
qed

theorem aes_decrypt_encrypt:
  assumes "length key = 32" and "length blk = 16"
  shows "length (aes_encrypt key blk) = 16" and "aes_decrypt key (aes_encrypt key blk) = blk"
proof -
  have rk: "length (round_keys key) = 15" "\<forall>rk\<in>set (round_keys key). length rk = 16"
    using round_keys_shape [OF assms(1)] by auto
  then have hd: "length (hd (round_keys key)) = 16" by (cases "round_keys key") auto
  have tl: "\<forall>rk\<in>set (tl (round_keys key)). length rk = 16"
    using rk by (cases "round_keys key") auto
  have x: "length (xor_bytes blk (hd (round_keys key))) = 16" using assms hd by (simp add: byte_len)
  from dec_enc_rounds [OF tl x] show "length (aes_encrypt key blk) = 16"
    by (simp add: aes_encrypt_def Let_def)
  from dec_enc_rounds [OF tl x] show "aes_decrypt key (aes_encrypt key blk) = blk"
    using assms hd by (simp add: aes_encrypt_def aes_decrypt_def Let_def xor_bytes_cancel)
qed

section \<open>CBC\<close>

text \<open>
  \<^verbatim>\<open>CryptBlocks\<close> of a CBC encrypter and decrypter: the data is a whole number of blocks (the
  caller's duty; Go panics otherwise), and the chaining value carries over to the next call.
\<close>

fun cbc_encrypt :: "byte list \<Rightarrow> byte list \<Rightarrow> byte list \<Rightarrow> byte list \<times> byte list" where
  "cbc_encrypt key prev xs =
     (if length xs < 16 then ([], prev)
      else (let c = aes_encrypt key (xor_bytes (take 16 xs) prev);
                (cs, prev') = cbc_encrypt key c (drop 16 xs)
            in (c @ cs, prev')))"

fun cbc_decrypt :: "byte list \<Rightarrow> byte list \<Rightarrow> byte list \<Rightarrow> byte list \<times> byte list" where
  "cbc_decrypt key prev xs =
     (if length xs < 16 then ([], prev)
      else (let p = xor_bytes (aes_decrypt key (take 16 xs)) prev;
                (ps, prev') = cbc_decrypt key (take 16 xs) (drop 16 xs)
            in (p @ ps, prev')))"

declare cbc_encrypt.simps [simp del] cbc_decrypt.simps [simp del]

theorem cbc_decrypt_encrypt:
  assumes "length key = 32" and "length prev = 16" and "length xs mod 16 = 0"
    and "cbc_encrypt key prev xs = (ys, prev')"
  shows "cbc_decrypt key prev ys = (xs, prev') \<and> length ys = length xs \<and> length prev' = 16"
  using assms
proof (induction key prev xs arbitrary: ys rule: cbc_encrypt.induct)
  case (1 key prev xs)
  show ?case
  proof (cases "length xs < 16")
    case True
    with "1.prems" have "xs = []" by (cases "length xs = 0") auto
    with "1.prems" have "ys = []" and "prev' = prev"
      by (simp_all add: cbc_encrypt.simps [of key prev "[]"])
    with \<open>xs = []\<close> "1.prems" show ?thesis by (simp add: cbc_decrypt.simps [of key prev "[]"])
  next
    case False
    let ?x = "xor_bytes (take 16 xs) prev"
    let ?c = "aes_encrypt key ?x"
    obtain cs where cs: "cbc_encrypt key ?c (drop 16 xs) = (cs, prev')" and ys: "ys = ?c @ cs"
      using "1.prems" False
      by (auto simp: cbc_encrypt.simps [of key prev xs] Let_def split: prod.splits)
    have "length ?x = 16" using "1.prems" False by (simp add: byte_len)
    then have c: "length ?c = 16" "aes_decrypt key ?c = ?x"
      using aes_decrypt_encrypt [OF "1.prems"(1)] by blast+
    have "length (drop 16 xs) mod 16 = 0"
      using "1.prems"(3) False by (simp add: le_mod_geq)
    from "1.IH" [OF False refl "1.prems"(1) c(1) this cs]
    have IH: "cbc_decrypt key ?c cs = (drop 16 xs, prev')" "length cs = length (drop 16 xs)" "length prev' = 16"
      by auto
    have "xor_bytes ?x prev = take 16 xs" using "1.prems" False by (simp add: xor_bytes_cancel)
    then have "cbc_decrypt key prev ys = (xs, prev')"
      using IH c ys by (simp add: cbc_decrypt.simps [of key prev "?c @ cs"])
    then show ?thesis using IH ys c False by simp
  qed
qed

end
