(* ===== verification/Go_Crypto_Vectors.thy ===== *)
theory Go_Crypto_Vectors
  imports Go_Crypto
begin

text \<open>Published test vectors of the primitives of \<open>Go_Crypto\<close>, evaluated by the kernel.\<close>

section \<open>Published test vectors\<close>

lemma aes_test_vector:
  \<comment> \<open>FIPS 197, appendix C.3\<close>
  "aes_encrypt (List.map word_of_nat [0..<32]) (List.map (\<lambda>n. word_of_nat (n * 17)) [0..<16]) =
     [0x8e, 0xa2, 0xb7, 0xca, 0x51, 0x67, 0x45, 0xbf, 0xea, 0xfc, 0x49, 0x90, 0x4b, 0x49, 0x60, 0x89]"
  by code_simp

lemma sha256_test_vector:
  \<comment> \<open>FIPS 180-4 example: the digest of \<open>abc\<close>\<close>
  "sha256 [0x61, 0x62, 0x63] =
     [0xba, 0x78, 0x16, 0xbf, 0x8f, 0x01, 0xcf, 0xea, 0x41, 0x41, 0x40, 0xde, 0x5d, 0xae, 0x22, 0x23,
      0xb0, 0x03, 0x61, 0xa3, 0x96, 0x17, 0x7a, 0x9c, 0xb4, 0x10, 0xff, 0x61, 0xf2, 0x00, 0x15, 0xad]"
  by code_simp

end
