(* ===== verification/Crypto.thy ===== *)
theory Crypto
  imports Go_Crypto
begin

text \<open>
  The application-layer crypto of the AES transport (\<^verbatim>\<open>internal/homeconnect/crypto.go\<close>): key
  derivation, the custom padding, and the two rolling chains of a connection. A chain is the CBC
  chaining value plus the last truncated HMAC; \<open>seal\<close> advances the sending chain and
  \<open>open_frame\<close> the receiving one. Random padding bytes come from the reader the struct holds,
  a function from the number of bytes asked for to the bytes or to a read error.
\<close>

section \<open>Constants and errors\<close>

definition encryptDirection :: byte where "encryptDirection = 0x45"
definition decryptDirection :: byte where "decryptDirection = 0x43"
definition minMessageLength :: nat where "minMessageLength = 32"
definition hmacTrunc :: nat where "hmacTrunc = 16"
definition blockSize :: nat where "blockSize = 16"
definition readLimit :: nat where "readLimit = 2 ^ 20"

lemmas crypto_consts = minMessageLength_def hmacTrunc_def blockSize_def

datatype crypto_error =
    IvLength nat
  | TooShort nat
  | NotAligned nat
  | HmacMismatch
  | EmptyPlaintext
  | InvalidPadding nat nat
  | MessageTooLong nat
  | ReadRandom

type_synonym rand = "nat \<Rightarrow> byte list option"

text \<open>\<^verbatim>\<open>io.ReadFull\<close> on a working reader fills the whole buffer.\<close>

definition good_rand :: "rand \<Rightarrow> bool" where
  "good_rand rnd \<longleftrightarrow> (\<forall>n. \<exists>bs. rnd n = Some bs \<and> length bs = n)"

section \<open>Keys\<close>

text \<open>\<^verbatim>\<open>base64.RawURLEncoding\<close>: CR and LF are skipped, a padding character is not in the
  alphabet, and the unused low bits of a final partial group are dropped.\<close>

definition b64_val :: "char \<Rightarrow> byte option" where
  "b64_val c = (let n = of_char c :: nat in
     if 65 \<le> n \<and> n \<le> 90 then Some (word_of_nat (n - 65))
     else if 97 \<le> n \<and> n \<le> 122 then Some (word_of_nat (n - 71))
     else if 48 \<le> n \<and> n \<le> 57 then Some (word_of_nat (n + 4))
     else if n = 45 then Some 62
     else if n = 95 then Some 63
     else None)"

fun b64_values :: "string \<Rightarrow> byte list option" where
  "b64_values [] = Some []"
| "b64_values (c # cs) =
     (if c = CHR 0x0A \<or> c = CHR 0x0D then b64_values cs
      else (case b64_val c of
          None \<Rightarrow> None
        | Some v \<Rightarrow> map_option (Cons v) (b64_values cs)))"

fun b64_bytes :: "byte list \<Rightarrow> byte list option" where
  "b64_bytes [] = Some []"
| "b64_bytes [a] = None"
| "b64_bytes [a, b] = Some [push_bit 2 a OR drop_bit 4 b]"
| "b64_bytes [a, b, c] = Some [push_bit 2 a OR drop_bit 4 b, push_bit 4 b OR drop_bit 2 c]"
| "b64_bytes (a # b # c # d # xs) =
     map_option (\<lambda>r. (push_bit 2 a OR drop_bit 4 b) # (push_bit 4 b OR drop_bit 2 c) # (push_bit 6 c OR d) # r)
       (b64_bytes xs)"

text \<open>\<^verbatim>\<open>EncodeToString\<close>, which \<open>randomNonce\<close> uses.\<close>

definition b64_char :: "byte \<Rightarrow> char" where
  "b64_char v = (let n = unat v in
     if n < 26 then char_of (n + 65)
     else if n < 52 then char_of (n + 71)
     else if n < 62 then char_of (n - 4)
     else if n = 62 then CHR ''-'' else CHR ''_'')"

fun b64_encode :: "byte list \<Rightarrow> string" where
  "b64_encode [] = []"
| "b64_encode [a] = [b64_char (drop_bit 2 a), b64_char (push_bit 4 a AND 0x3f)]"
| "b64_encode [a, b] =
     [b64_char (drop_bit 2 a), b64_char (push_bit 4 a AND 0x3f OR drop_bit 4 b),
      b64_char (push_bit 2 b AND 0x3f)]"
| "b64_encode (a # b # c # xs) =
     b64_char (drop_bit 2 a) # b64_char (push_bit 4 a AND 0x3f OR drop_bit 4 b)
       # b64_char (push_bit 2 b AND 0x3f OR drop_bit 6 c) # b64_char (c AND 0x3f) # b64_encode xs"

definition DecodeKey :: "string \<Rightarrow> byte list option" where
  "DecodeKey s = Option.bind (b64_values s) b64_bytes"

definition ascii_bytes :: "string \<Rightarrow> byte list" where
  "ascii_bytes s = List.map of_char s"

lemma b64_val_char:
  assumes "v < 64"
  shows "b64_val (b64_char v) = Some v" "b64_char v \<noteq> CHR 0x0A" "b64_char v \<noteq> CHR 0x0D"
proof -
  have v: "unat v < 64" using assms by (simp add: word_less_nat_alt)
  have "v = word_of_nat (unat v)" by simp
  then have "unat v = 62 \<Longrightarrow> v = 62" "unat v = 63 \<Longrightarrow> v = 63" by (metis of_nat_numeral)+
  with v show val: "b64_val (b64_char v) = Some v"
    by (auto simp: b64_char_def b64_val_def Let_def)
  have "b64_val (CHR 0x0A) = None" "b64_val (CHR 0x0D) = None" by (simp_all add: b64_val_def)
  with val show "b64_char v \<noteq> CHR 0x0A" "b64_char v \<noteq> CHR 0x0D" by force+
qed

lemma sextet_bounds:
  fixes a b :: byte
  shows "drop_bit 2 a < 64" "a AND 63 < 64" "push_bit 4 a AND 63 OR drop_bit 4 b < 64"
    "push_bit 2 a AND 63 OR drop_bit 6 b < 64"
proof -
  have small: "x < 64" if "\<not> bit x 6" "\<not> bit x 7" for x :: byte
  proof -
    have "take_bit 6 x = x"
    proof (rule bit_word_eqI)
      fix n assume "n < LENGTH(8)"
      then have "n < 6 \<or> n = 6 \<or> n = 7" by auto
      with that show "bit (take_bit 6 x) n = bit x n" by (auto simp: bit_take_bit_iff)
    qed
    moreover have "take_bit 6 x < 64" using take_bit_nat_less_exp [of 6 "unat x"]
      by (simp add: word_less_nat_alt unsigned_take_bit_eq)
    ultimately show ?thesis by simp
  qed
  show "drop_bit 2 a < 64" "a AND 63 < 64" "push_bit 4 a AND 63 OR drop_bit 4 b < 64"
    "push_bit 2 a AND 63 OR drop_bit 6 b < 64"
    by (rule small; auto simp: bit_simps dest: bit_imp_le_length)+
qed

lemma byte_bits:
  "n < LENGTH(8) \<Longrightarrow> n = 0 \<or> n = 1 \<or> n = 2 \<or> n = 3 \<or> n = 4 \<or> n = 5 \<or> n = 6 \<or> n = (7::nat)"
  by (simp; presburger)

lemma sextets:
  fixes a b c :: byte
  shows "push_bit 2 (drop_bit 2 a) OR drop_bit 4 (push_bit 4 a AND 63 OR drop_bit 4 b) = a" (is ?A)
    and "push_bit 2 (drop_bit 2 a) OR drop_bit 4 (push_bit 4 a AND 63) = a" (is ?B)
    and "push_bit 4 (push_bit 4 a AND 63 OR drop_bit 4 b) OR drop_bit 2 (push_bit 2 b AND 63 OR drop_bit 6 c) = b" (is ?C)
    and "push_bit 4 (push_bit 4 a AND 63 OR drop_bit 4 b) OR drop_bit 2 (push_bit 2 b AND 63) = b" (is ?D)
    and "push_bit 6 (push_bit 2 b AND 63 OR drop_bit 6 c) OR (c AND 63) = c" (is ?E)
proof -
  show ?A ?B ?C ?D ?E
    by (rule bit_word_eqI, drule byte_bits, elim disjE; simp add: bit_simps)+
qed

lemma sextet_bounds1: "push_bit 4 a AND 63 < (64::byte)" "push_bit 2 a AND 63 < (64::byte)"
  by (rule sextet_bounds)+

lemmas b64_sextets = b64_val_char sextet_bounds sextet_bounds1

lemma DecodeKey_encode: "DecodeKey (b64_encode bs) = Some bs"
proof (induction bs rule: b64_encode.induct)
  case (4 a b c xs)
  then show ?case
    by (auto simp: DecodeKey_def b64_sextets sextets sextets [simplified] split: bind_splits)
qed (simp_all add: DecodeKey_def b64_sextets sextets sextets [simplified])

lemma b64_values_set: "b64_values s = Some vs \<Longrightarrow> c \<in> set s \<Longrightarrow> c = CHR 0x0A \<or> c = CHR 0x0D \<or> b64_val c \<noteq> None"
  by (induction s arbitrary: vs) (auto split: if_splits option.splits)

definition deriveKeys :: "byte list \<Rightarrow> byte list \<times> byte list" where
  "deriveKeys psk = (hmac_sha256 psk (ascii_bytes ''ENC''), hmac_sha256 psk (ascii_bytes ''MAC''))"

lemma length_deriveKeys [byte_len]:
  "length (fst (deriveKeys psk)) = 32" "length (snd (deriveKeys psk)) = 32"
  by (simp_all add: deriveKeys_def byte_len)

section \<open>The per-connection state\<close>

record aes_crypto =
  encKey :: "byte list"
  macKey :: "byte list"
  iv :: "byte list"
  txCBC :: "byte list"
  lastTXHMAC :: "byte list"
  rxCBC :: "byte list"
  lastRXHMAC :: "byte list"

definition Reset :: "aes_crypto \<Rightarrow> aes_crypto" where
  "Reset c = c\<lparr>txCBC := iv c, lastTXHMAC := replicate hmacTrunc 0,
               rxCBC := iv c, lastRXHMAC := replicate hmacTrunc 0\<rparr>"

definition NewAESCrypto :: "byte list \<Rightarrow> byte list \<Rightarrow> crypto_error + aes_crypto" where
  "NewAESCrypto psk i =
     (if length i \<noteq> blockSize then Inl (IvLength (length i))
      else (let (ek, mk) = deriveKeys psk in
        Inr (Reset \<lparr>encKey = ek, macKey = mk, iv = i,
                    txCBC = [], lastTXHMAC = [], rxCBC = [], lastRXHMAC = []\<rparr>)))"

section \<open>Padding\<close>

definition padLen :: "nat \<Rightarrow> nat" where
  "padLen n = (let p = blockSize - n mod blockSize in if p = 1 then p + blockSize else p)"

definition pad :: "rand \<Rightarrow> byte list \<Rightarrow> crypto_error + byte list" where
  "pad rnd m =
     (if readLimit < length m then Inl (MessageTooLong (length m))
      else (case rnd (padLen (length m) - 2) of
          None \<Rightarrow> Inl ReadRandom
        | Some mid \<Rightarrow> Inr (m @ [0] @ mid @ [word_of_nat (padLen (length m))])))"

definition unpad :: "byte list \<Rightarrow> crypto_error + byte list" where
  "unpad plain =
     (if plain = [] then Inl EmptyPlaintext
      else (let n = unat (last plain) in
        if n < 1 \<or> length plain < n then Inl (InvalidPadding n (length plain))
        else Inr (take (length plain - n) plain)))"

section \<open>Frames\<close>

definition chainHMAC :: "aes_crypto \<Rightarrow> byte \<Rightarrow> byte list \<Rightarrow> byte list \<Rightarrow> byte list" where
  "chainHMAC c dir lst ct = take hmacTrunc (hmac_sha256 (macKey c) (iv c @ [dir] @ lst @ ct))"

definition seal :: "rand \<Rightarrow> aes_crypto \<Rightarrow> byte \<Rightarrow> byte list \<Rightarrow> crypto_error + byte list \<times> aes_crypto" where
  "seal rnd c dir m =
     (case pad rnd m of
        Inl e \<Rightarrow> Inl e
      | Inr padded \<Rightarrow>
          (let (ct, chain) = cbc_encrypt (encKey c) (txCBC c) padded;
               mac = chainHMAC c dir (lastTXHMAC c) ct
           in Inr (ct @ mac, c\<lparr>txCBC := chain, lastTXHMAC := mac\<rparr>)))"

text \<open>An error can leave the receiving chain advanced (bad padding under a valid MAC), so the
  new state is part of every result.\<close>

definition open_frame :: "aes_crypto \<Rightarrow> byte \<Rightarrow> byte list \<Rightarrow> (crypto_error + byte list) \<times> aes_crypto" where
  "open_frame c dir buf =
     (if length buf < minMessageLength then (Inl (TooShort (length buf)), c)
      else if length buf mod blockSize \<noteq> 0 then (Inl (NotAligned (length buf)), c)
      else (let ct = take (length buf - hmacTrunc) buf;
                recvHMAC = drop (length buf - hmacTrunc) buf;
                calc = chainHMAC c dir (lastRXHMAC c) ct
            in if recvHMAC \<noteq> calc then (Inl HmacMismatch, c)
               else (let (plain, chain) = cbc_decrypt (encKey c) (rxCBC c) ct
                     in (unpad plain, c\<lparr>rxCBC := chain, lastRXHMAC := recvHMAC\<rparr>))))"

definition Encrypt :: "rand \<Rightarrow> aes_crypto \<Rightarrow> byte list \<Rightarrow> crypto_error + byte list \<times> aes_crypto" where
  "Encrypt rnd c m = seal rnd c encryptDirection m"

definition Decrypt :: "aes_crypto \<Rightarrow> byte list \<Rightarrow> (crypto_error + byte list) \<times> aes_crypto" where
  "Decrypt c buf = open_frame c decryptDirection buf"

section \<open>Padding facts\<close>

lemma padLen_bounds: "2 \<le> padLen n" "padLen n \<le> 17"
  by (auto simp: padLen_def blockSize_def Let_def)

lemma padLen_aligned: "(n + padLen n) mod 16 = 0"
proof -
  have "padLen n = 16 - n mod 16 \<or> padLen n = 32 - n mod 16" "n mod 16 < 16"
    by (auto simp: padLen_def blockSize_def Let_def)
  then show ?thesis by presburger
qed

lemma pad_shape:
  assumes "good_rand rnd" and "length m \<le> readLimit"
  shows "\<exists>p. pad rnd m = Inr p \<and> length p = length m + padLen (length m) \<and> unpad p = Inr m"
proof -
  let ?n = "padLen (length m)"
  obtain mid where mid: "rnd (?n - 2) = Some mid" "length mid = ?n - 2"
    using assms(1) by (auto simp: good_rand_def)
  let ?p = "m @ [0] @ mid @ [word_of_nat ?n]"
  have len: "length ?p = length m + ?n" using mid padLen_bounds [of "length m"] by simp
  have "unat (word_of_nat ?n :: byte) = ?n"
    using padLen_bounds(2) [of "length m"] by (simp add: unsigned_of_nat take_bit_nat_eq_self)
  moreover have "length ?p - ?n = length m" using len by simp
  ultimately have "unpad ?p = Inr m"
    using len padLen_bounds [of "length m"] by (simp add: unpad_def Let_def)
  moreover have "pad rnd m = Inr ?p" using assms(2) mid(1) by (simp add: pad_def)
  ultimately show ?thesis using len by blast
qed

section \<open>Chains in step\<close>

text \<open>The two ends share the keys and the iv, and the sender's chain is where the receiver's is.\<close>

definition same_keys :: "aes_crypto \<Rightarrow> aes_crypto \<Rightarrow> bool" where
  "same_keys s r \<longleftrightarrow> encKey r = encKey s \<and> macKey r = macKey s \<and> iv r = iv s
     \<and> length (encKey s) = 32 \<and> length (iv s) = blockSize"

definition in_step :: "aes_crypto \<Rightarrow> aes_crypto \<Rightarrow> bool" where
  "in_step s r \<longleftrightarrow> same_keys s r \<and> rxCBC r = txCBC s \<and> lastRXHMAC r = lastTXHMAC s
     \<and> length (txCBC s) = blockSize"

lemma same_keys_Reset: "same_keys s r \<Longrightarrow> in_step (Reset s) (Reset r)"
  by (simp add: in_step_def same_keys_def Reset_def)

lemma NewAESCrypto_ok: "length i = blockSize \<Longrightarrow> \<exists>c. NewAESCrypto psk i = Inr c"
  by (cases "deriveKeys psk") (simp add: NewAESCrypto_def)

lemma NewAESCrypto_keys:
  "NewAESCrypto psk i = Inr c \<Longrightarrow> same_keys c c \<and> iv c = i \<and> (encKey c, macKey c) = deriveKeys psk"
  by (auto simp: NewAESCrypto_def same_keys_def Reset_def byte_len split: if_splits prod.splits)
    (metis fst_conv length_deriveKeys(1))

lemma seal_shape:
  assumes "in_step s r" and "good_rand rnd" and "length m \<le> readLimit"
  obtains p ct chain where
    "pad rnd m = Inr p" "cbc_encrypt (encKey s) (txCBC s) p = (ct, chain)"
    "length ct = length m + padLen (length m)" "length chain = 16"
    "cbc_decrypt (encKey s) (txCBC s) ct = (p, chain)" "unpad p = Inr m"
    "seal rnd s dir m = Inr (ct @ chainHMAC s dir (lastTXHMAC s) ct,
       s\<lparr>txCBC := chain, lastTXHMAC := chainHMAC s dir (lastTXHMAC s) ct\<rparr>)"
proof -
  obtain p where p: "pad rnd m = Inr p" "length p = length m + padLen (length m)" "unpad p = Inr m"
    using pad_shape [OF assms(2,3)] by blast
  obtain ct chain where ct: "cbc_encrypt (encKey s) (txCBC s) p = (ct, chain)" by (cases "cbc_encrypt (encKey s) (txCBC s) p")
  have "length (encKey s) = 32" "length (txCBC s) = 16" "length p mod 16 = 0"
    using assms(1) p padLen_aligned by (simp_all add: in_step_def same_keys_def blockSize_def)
  note dec = cbc_decrypt_encrypt [OF this ct]
  show thesis
    by (rule that [OF p(1) ct]) (use dec p ct in \<open>simp_all add: seal_def Let_def\<close>)
qed

lemma length_chainHMAC [byte_len]: "length (chainHMAC c dir l ct) = 16"
  by (simp add: chainHMAC_def hmacTrunc_def byte_len)

lemma chainHMAC_same_keys: "same_keys s r \<Longrightarrow> chainHMAC r dir l ct = chainHMAC s dir l ct"
  by (simp add: chainHMAC_def same_keys_def)

lemma open_frame_append:
  assumes "length ct mod 16 = 0" and "16 \<le> length ct" and "length mac = 16"
  shows "open_frame r dir (ct @ mac) =
    (if mac \<noteq> chainHMAC r dir (lastRXHMAC r) ct then (Inl HmacMismatch, r)
     else (let (plain, chain) = cbc_decrypt (encKey r) (rxCBC r) ct
           in (unpad plain, r\<lparr>rxCBC := chain, lastRXHMAC := mac\<rparr>)))"
proof -
  have "(length ct + 16) mod 16 = 0" using assms(1) by simp
  with assms show ?thesis by (simp add: open_frame_def crypto_consts)
qed

lemma seal_open_step:
  assumes step: "in_step s r" and rnd: "good_rand rnd" and len: "length m \<le> readLimit"
  shows "\<exists>f s' r'. seal rnd s dir m = Inr (f, s') \<and> open_frame r dir f = (Inr m, r') \<and> in_step s' r'"
proof -
  obtain p ct chain where seal: "length ct = length m + padLen (length m)"
    "length chain = 16" "cbc_decrypt (encKey s) (txCBC s) ct = (p, chain)" "unpad p = Inr m"
    "seal rnd s dir m = Inr (ct @ chainHMAC s dir (lastTXHMAC s) ct,
       s\<lparr>txCBC := chain, lastTXHMAC := chainHMAC s dir (lastTXHMAC s) ct\<rparr>)"
    by (rule seal_shape [OF assms])
  let ?mac = "chainHMAC s dir (lastTXHMAC s) ct"
  have keys: "same_keys s r" "rxCBC r = txCBC s" "lastRXHMAC r = lastTXHMAC s" "encKey r = encKey s"
    using step by (simp_all add: in_step_def same_keys_def)
  have al: "length ct mod 16 = 0" using seal(1) padLen_aligned by simp
  moreover from al have "16 \<le> length ct" using seal(1) padLen_bounds(1) [of "length m"] by presburger
  ultimately have "open_frame r dir (ct @ ?mac) = (Inr m, r\<lparr>rxCBC := chain, lastRXHMAC := ?mac\<rparr>)"
    using keys seal(3,4) by (simp add: open_frame_append byte_len chainHMAC_same_keys)
  moreover have "in_step (s\<lparr>txCBC := chain, lastTXHMAC := ?mac\<rparr>) (r\<lparr>rxCBC := chain, lastRXHMAC := ?mac\<rparr>)"
    using keys seal(2) by (simp add: in_step_def same_keys_def blockSize_def)
  ultimately show ?thesis using seal(5) by blast
qed

section \<open>The frames of a connection as a channel\<close>

definition seal_step :: "byte \<Rightarrow> aes_crypto \<Rightarrow> rand \<times> byte list \<Rightarrow> (byte list \<times> aes_crypto) option" where
  "seal_step dir c rm = (case seal (fst rm) c dir (snd rm) of Inl e \<Rightarrow> None | Inr fc \<Rightarrow> Some fc)"

definition open_step :: "byte \<Rightarrow> aes_crypto \<Rightarrow> byte list \<Rightarrow> (byte list \<times> aes_crypto) option" where
  "open_step dir c f = (case open_frame c dir f of (Inl e, c') \<Rightarrow> None | (Inr m, c') \<Rightarrow> Some (m, c'))"

definition sendable :: "rand \<times> byte list \<Rightarrow> bool" where
  "sendable rm \<longleftrightarrow> good_rand (fst rm) \<and> length (snd rm) \<le> readLimit"

interpretation frames: channel "seal_step dir" "open_step dir" snd sendable in_step
proof
  fix s r rm
  assume "in_step s r" and "sendable rm"
  then show "\<exists>f s' r'. seal_step dir s rm = Some (f, s') \<and> open_step dir r f = Some (snd rm, r') \<and> in_step s' r'"
    using seal_open_step [of s r "fst rm" "snd rm" dir]
    by (auto simp: seal_step_def open_step_def sendable_def)
qed

section \<open>Properties\<close>

text \<open>
  C1. After a \<open>Reset\<close> on both ends, whatever the two states were before (a desynchronised pair
  included), every sequence of messages within the frame limit that one end seals is opened by
  the other, in order and unchanged, and the two chains are in step again afterwards.
\<close>

theorem conversation_after_reset:
  assumes "same_keys s r" and "\<forall>rm\<in>set ms. sendable rm"
  shows "\<exists>fs s' r'. feed (seal_step dir) (Reset s) ms = Some (fs, s')
    \<and> feed (open_step dir) (Reset r) fs = Some (List.map snd ms, r')
    \<and> in_step s' r' \<and> length fs = length ms"
  using frames.deliver_all [OF same_keys_Reset [OF assms(1)] assms(2)] by blast

lemma good_rand_zeros: "good_rand (\<lambda>n. Some (replicate n 0))"
  by (simp add: good_rand_def)

theorem conversation_after_reset_witness:
  "\<exists>c fs s' r'. NewAESCrypto [1, 2, 3] (replicate 16 7) = Inr c
    \<and> feed (seal_step encryptDirection) (Reset c)
        [(\<lambda>n. Some (replicate n 0), [104, 105]), (\<lambda>n. Some (replicate n 9), replicate 15 1)] = Some (fs, s')
    \<and> feed (open_step encryptDirection) (Reset (c\<lparr>lastRXHMAC := []\<rparr>)) fs = Some ([[104, 105], replicate 15 1], r')"
proof -
  obtain c where c: "NewAESCrypto [1, 2, 3] (replicate 16 7) = Inr c"
    using NewAESCrypto_ok [of "replicate 16 7"] by (auto simp: blockSize_def)
  have keys: "same_keys c (c\<lparr>lastRXHMAC := []\<rparr>)"
    using NewAESCrypto_keys [OF c] by (auto simp: same_keys_def)
  have ok: "\<forall>rm\<in>set [(\<lambda>n. Some (replicate n 0), [104, 105]), (\<lambda>n. Some (replicate n 9), replicate 15 1)]. sendable rm"
    by (simp add: sendable_def good_rand_def readLimit_def)
  from conversation_after_reset [OF keys ok, of encryptDirection] c show ?thesis by auto
qed

text \<open>
  Padding: a message within the limit is padded to a whole number of blocks with between 2
  and 17 bytes, the first of them zero and the last their number, and \<open>unpad\<close> gives the message back.
\<close>

theorem pad_roundtrip:
  assumes "good_rand rnd" and "length m \<le> readLimit"
  shows "\<exists>p. pad rnd m = Inr p \<and> length p mod blockSize = 0
    \<and> length m + 2 \<le> length p \<and> length p \<le> length m + 17
    \<and> take (length m + 1) p = m @ [0] \<and> unpad p = Inr m"
proof -
  from pad_shape [OF assms] obtain p
    where p: "pad rnd m = Inr p" "length p = length m + padLen (length m)" "unpad p = Inr m" by blast
  then have "take (length m + 1) p = m @ [0]"
    by (auto simp: pad_def split: if_splits option.splits)
  with p show ?thesis
    using padLen_aligned [of "length m"] padLen_bounds [of "length m"] by (auto simp: blockSize_def)
qed

theorem pad_roundtrip_witness:
  "\<exists>p. pad (\<lambda>n. Some (replicate n 0)) (replicate 15 5) = Inr p \<and> length p = 32 \<and> unpad p = Inr (replicate 15 5)"
proof -
  have len: "length (replicate 15 (5::byte)) \<le> readLimit" by (simp add: readLimit_def)
  from pad_roundtrip [OF good_rand_zeros len] show ?thesis by (auto simp: blockSize_def)
qed

text \<open>
  C16. The receiving chain advances only over a frame whose trailing 16 bytes are the chained MAC
  of the rest: any other frame is refused with the state unchanged. The keys and the sending
  chain are never touched, and a message is only ever returned for a frame that passed.
\<close>

theorem open_frame_authenticated:
  "let (res, c') = open_frame c dir buf;
       ct = take (length buf - hmacTrunc) buf;
       tag = drop (length buf - hmacTrunc) buf;
       valid = (minMessageLength \<le> length buf \<and> length buf mod blockSize = 0
                \<and> tag = chainHMAC c dir (lastRXHMAC c) ct)
   in c' = c\<lparr>rxCBC := rxCBC c', lastRXHMAC := lastRXHMAC c'\<rparr>
      \<and> (if valid then lastRXHMAC c' = tag \<and> res = unpad (fst (cbc_decrypt (encKey c) (rxCBC c) ct))
         else c' = c \<and> (\<exists>e. res = Inl e))"
  by (simp add: open_frame_def Let_def split: prod.splits)

text \<open>
  The unpadded url-safe base64 text of any key or iv decodes to exactly its bytes, and a text
  holding a padding character (or any byte outside the alphabet and the line breaks) is refused.
\<close>

theorem DecodeKey_roundtrip:
  "DecodeKey (b64_encode bs) = Some bs
   \<and> (\<forall>s c. c \<in> set s \<and> b64_val c = None \<and> c \<noteq> CHR 0x0A \<and> c \<noteq> CHR 0x0D \<longrightarrow> DecodeKey s = None)
   \<and> b64_val (CHR ''='') = None"
proof (intro conjI allI impI)
  show "DecodeKey (b64_encode bs) = Some bs" by (rule DecodeKey_encode)
next
  fix s c
  assume "c \<in> set s \<and> b64_val c = None \<and> c \<noteq> CHR 0x0A \<and> c \<noteq> CHR 0x0D"
  then have "b64_values s = None" using b64_values_set [of s _ c] by (cases "b64_values s") auto
  then show "DecodeKey s = None" by (simp add: DecodeKey_def)
next
  show "b64_val (CHR ''='') = None" by (simp add: b64_val_def)
qed

theorem DecodeKey_roundtrip_witness: "DecodeKey (''AQI'' @ ''='') = None \<and> DecodeKey (b64_encode [1, 2]) = Some [1, 2]"
proof -
  have pad: "b64_val (CHR ''='') = None" by (simp add: b64_val_def)
  have "DecodeKey ''AQI='' = None"
    using DecodeKey_roundtrip [THEN conjunct2, THEN conjunct1, rule_format, of "CHR ''=''" "''AQI=''"] pad
    by simp
  then show ?thesis using DecodeKey_roundtrip [of "[1, 2]"] by simp
qed

end
