(* ===== verification/Messages.thy ===== *)
theory Messages
  imports Go_Values
begin

text \<open>
  The message layer of \<^verbatim>\<open>internal/homeconnect\<close>: \<^verbatim>\<open>message.go\<close> (frames and their defensive
  decoding) and \<^verbatim>\<open>codes.go\<close> (response codes).

  The JSON decoder itself (\<^verbatim>\<open>encoding/json\<close>) is the parameter \<open>json_lib\<close>: one function per
  type the code decodes into, from the bytes and the variable's previous value to whether it
  succeeded and the variable afterwards (a failed decode can leave it partly filled, and the
  code decodes into the same variable twice).
\<close>

section \<open>Response codes\<close>

definition responseCodes :: "(int \<times> string) list" where
  "responseCodes =
     [(200, ''OK''), (202, ''Accepted''), (400, ''BadRequest''), (403, ''Forbidden''), (404,
      ''NotFound''), (405, ''MethodNotAllowed''), (413, ''RequestEntityTooLong''), (414,
      ''RequestUriTooLong''), (429, ''TooManyRequests''), (500, ''InternalServerError''),
      (501, ''NotImplemented''), (502, ''BadGateway''), (503, ''ServiceUnavailable''), (504,
      ''GatewayTimeout''), (507, ''InsufficientMemory''), (512, ''UnknownUID''), (513,
      ''WriteRequestUnknownUID''), (514, ''ReadRequestUnknownUID''), (515, ''Busy''), (516,
      ''WriteRequestBusy''), (517, ''ReadRequestBusy''), (518, ''NoAccess''), (519,
      ''WriteRequestNoAccess''), (520, ''ReadRequestNoAccess''), (521, ''NoAccessByList''),
      (522, ''WriteRequestNoAccessByList''), (523, ''ReadRequestNoAccessByList''), (524,
      ''NotAvailable''), (525, ''WriteRequestNotAvailable''), (526,
      ''ReadRequestNotAvailable''), (527, ''NotAvailableByList''), (528,
      ''WriteRequestNotAvailableByList''), (529, ''ReadRequestNotAvailableByList''), (530,
      ''NoExecution''), (531, ''ValueOutOfRange''), (532, ''InvalidUIDValue''), (533,
      ''Incomplete''), (534, ''Inconsistent''), (535, ''CmdViolation''), (536,
      ''InvalidFormat''), (537, ''RemoteControlNotActive''), (538, ''RemoteStartNotActive''),
      (539, ''LockedByLocalControl''), (540, ''DeviceStateNotCompliant''), (541,
      ''ProcessStateNotCompliant''), (542, ''BackendNotConnected''), (543,
      ''EnergyManagementNotConnected''), (544, ''NotInLocalWiFi'')]"

definition CodeName :: "int \<Rightarrow> string" where
  "CodeName code = (case map_of responseCodes code of Some name \<Rightarrow> name | None \<Rightarrow> ''Unknown'')"

section \<open>Frames\<close>

definition ActionGet :: string where "ActionGet = ''GET''"
definition ActionPost :: string where "ActionPost = ''POST''"
definition ActionResponse :: string where "ActionResponse = ''RESPONSE''"
definition ActionNotify :: string where "ActionNotify = ''NOTIFY''"
definition ActionDelete :: string where "ActionDelete = ''DELETE''"

lemmas action_defs = ActionGet_def ActionPost_def ActionResponse_def ActionNotify_def ActionDelete_def

record message =
  SID :: int
  MsgID :: int
  Resource :: string
  Version :: int
  Action :: string
  Data :: "obj list"
  Code :: "int option"
  orderedData :: "string option"

text \<open>A request literal: every field not named is the zero value.\<close>

definition request :: "string \<Rightarrow> int \<Rightarrow> string \<Rightarrow> obj list \<Rightarrow> message" where
  "request res ver act dat =
     \<lparr>SID = 0, MsgID = 0, Resource = res, Version = ver, Action = act, Data = dat,
      Code = None, orderedData = None\<rparr>"

record raw_message =
  rawSID :: string
  rawMsgID :: string
  rawResource :: string
  rawVersion :: string
  rawAction :: string
  rawData :: string
  rawCode :: string

definition raw0 :: raw_message where
  "raw0 = \<lparr>rawSID = [], rawMsgID = [], rawResource = [], rawVersion = [], rawAction = [],
           rawData = [], rawCode = []\<rparr>"

record json_lib =
  unmarshalRaw :: "string \<Rightarrow> raw_message \<Rightarrow> bool \<times> raw_message"
  unmarshalList :: "string \<Rightarrow> obj list \<Rightarrow> bool \<times> obj list"
  unmarshalSingle :: "string \<Rightarrow> obj \<Rightarrow> bool \<times> obj"

section \<open>Numbers\<close>

definition trim_quotes :: "string \<Rightarrow> string" where
  "trim_quotes s = rev (dropWhile (\<lambda>c. c = CHR 0x22) (rev (dropWhile (\<lambda>c. c = CHR 0x22) s)))"

text \<open>\<open>None\<close> is the code's \<^verbatim>\<open>(0, false)\<close>.\<close>

definition optionalInt :: "string \<Rightarrow> int option" where
  "optionalInt raw =
     (let s = trim_space raw in
      if s = [] \<or> s = ''null'' then None
      else (let t = trim_quotes s in
        if t = [] then None
        else (case parse_float t of Some f \<Rightarrow> Some (f64_to_int f) | None \<Rightarrow> None)))"

definition coerceInt :: "string \<Rightarrow> int" where
  "coerceInt raw = (case optionalInt raw of Some v \<Rightarrow> v | None \<Rightarrow> 0)"

definition anyToInt :: "any \<Rightarrow> int" where
  "anyToInt v = (case v of
      VFloat f \<Rightarrow> f64_to_int f
    | VInt n \<Rightarrow> n
    | VInt64 n \<Rightarrow> n
    | VStr s \<Rightarrow> coerceInt s
    | _ \<Rightarrow> 0)"

definition firstInt :: "obj list \<Rightarrow> string \<Rightarrow> int" where
  "firstInt dat key = (case dat of [] \<Rightarrow> 0 | d # _ \<Rightarrow> anyToInt (obj_get d key))"

section \<open>Decoding\<close>

text \<open>\<^verbatim>\<open>bytes.ReplaceAll(b, `]"`, `]`)\<close>.\<close>

fun fix_broken :: "string \<Rightarrow> string" where
  "fix_broken (a # b # s) =
     (if a = CHR '']'' \<and> b = CHR 0x22 then CHR '']'' # fix_broken s else a # fix_broken (b # s))"
| "fix_broken s = s"

text \<open>\<open>None\<close> is the error return, which the caller drops.\<close>

definition decodeData :: "json_lib \<Rightarrow> string \<Rightarrow> obj list option" where
  "decodeData J raw =
     (if raw = [] \<or> trim_space raw = ''null'' then Some []
      else (let (ok, l) = unmarshalList J raw [] in
        if ok then Some l
        else (let (ok1, single) = unmarshalSingle J raw [] in
          if ok1 then Some [single]
          else (let (ok2, l2) = unmarshalList J (fix_broken raw) l in
            if ok2 then Some l2 else None))))"

definition DecodeMessage :: "json_lib \<Rightarrow> string \<Rightarrow> message option" where
  "DecodeMessage J b =
     (let (ok, raw1) = unmarshalRaw J b raw0;
          (ok', raw) = (if ok then (True, raw1) else unmarshalRaw J (fix_broken b) raw1)
      in if \<not> ok' then None
         else Some \<lparr>SID = coerceInt (rawSID raw), MsgID = coerceInt (rawMsgID raw),
                    Resource = rawResource raw, Version = coerceInt (rawVersion raw),
                    Action = rawAction raw,
                    Data = (case decodeData J (rawData raw) of Some d \<Rightarrow> d | None \<Rightarrow> []),
                    Code = optionalInt (rawCode raw), orderedData = None\<rparr>)"

end
