(* ===== verification/Profile.thy ===== *)
theory Profile
  imports Go_Values "HOL-Library.AList"
begin

text \<open>
  The appliance description (\<^verbatim>\<open>internal/profile\<close>: \<^verbatim>\<open>types.go\<close>, \<^verbatim>\<open>description.go\<close>): the type
  tables, the parsed entry, and the description with its two lookup maps.

  The maps hold pointers to the entries of the list, so they are modelled as positions in it: a
  change to an entry is seen through every one of them. An enumeration (\<^verbatim>\<open>map[int]string\<close>) is an
  association list with distinct keys; its order stands for the order in which Go's runtime
  happens to iterate the map.
\<close>

section \<open>Wire types\<close>

datatype protocol_type =
    ProtocolBoolean | ProtocolInteger | ProtocolFloat | ProtocolString | ProtocolObject
  | ProtocolOther string

text \<open>The loops that fill a range of codes.\<close>

definition put_range :: "int \<Rightarrow> int \<Rightarrow> 'v \<Rightarrow> (int \<rightharpoonup> 'v) \<Rightarrow> (int \<rightharpoonup> 'v)" where
  "put_range lo hi v m = (\<lambda>c. if lo \<le> c \<and> c \<le> hi then Some v else m c)"

definition buildProtocolTypes :: "int \<rightharpoonup> protocol_type" where
  "buildProtocolTypes =
     put_range 129 194 ProtocolObject (put_range 62 63 ProtocolObject
      (put_range 51 57 ProtocolFloat (put_range 43 46 ProtocolFloat
       (put_range 25 27 ProtocolObject (map_of
     [(1, ProtocolBoolean), (2, ProtocolInteger), (3, ProtocolInteger), (4, ProtocolFloat),
      (5, ProtocolString), (6, ProtocolString), (7, ProtocolFloat), (8, ProtocolFloat),
      (10, ProtocolString), (16, ProtocolInteger), (17, ProtocolFloat), (18, ProtocolInteger),
      (19, ProtocolInteger), (20, ProtocolInteger), (21, ProtocolInteger), (22, ProtocolString),
      (23, ProtocolString), (24, ProtocolInteger), (30, ProtocolString), (31, ProtocolInteger),
      (32, ProtocolInteger), (33, ProtocolFloat), (34, ProtocolFloat), (35, ProtocolFloat),
      (36, ProtocolFloat), (37, ProtocolInteger), (38, ProtocolInteger), (39, ProtocolFloat),
      (40, ProtocolObject), (41, ProtocolFloat), (42, ProtocolObject), (47, ProtocolInteger),
      (48, ProtocolString), (49, ProtocolObject), (50, ProtocolString), (58, ProtocolInteger),
      (59, ProtocolInteger), (61, ProtocolString), (64, ProtocolFloat), (65, ProtocolFloat)])))))"

definition ProtocolTypeFor :: "int \<Rightarrow> protocol_type" where
  "ProtocolTypeFor refCID = (case buildProtocolTypes refCID of Some pt \<Rightarrow> pt | None \<Rightarrow> ProtocolString)"

definition buildContentTypes :: "int \<rightharpoonup> string" where
  "buildContentTypes = map_of
     [(1, ''boolean''), (2, ''integer''), (3, ''enumeration''), (4, ''float''), (5, ''string''),
      (6, ''dateTime''), (7, ''temperatureCelsius''), (8, ''temperatureFahrenheit''), (10, ''hexBinary''),
      (16, ''timeSpan''), (17, ''percent''), (18, ''dbm''), (19, ''weight''), (20, ''liquidVolume''),
      (21, ''uidValue''), (22, ''date''), (23, ''time''), (24, ''waterHardness''), (25, ''point2D''),
      (26, ''pose2D''), (27, ''line2D''), (30, ''rgb''), (31, ''rpm''), (32, ''flowRate''), (33, ''length''),
      (34, ''area''), (35, ''power''), (36, ''energy''), (37, ''bigInteger''), (38, ''identifier''),
      (39, ''speed''), (40, ''programInstruction''), (41, ''weightPound''), (42, ''localeString''),
      (43, ''teaspoon''), (46, ''piece''), (47, ''byteLength''), (48, ''uuid''), (49, ''timezone''),
      (50, ''csv''), (51, ''leaf''), (52, ''bunch''), (59, ''portion''), (61, ''utcDateTime''),
      (62, ''programRunSummary''), (63, ''programSessionSummary''), (64, ''liquidVolumeThroughput''),
      (65, ''weightOunces'')]"

definition ContentTypeFor :: "int \<Rightarrow> string" where
  "ContentTypeFor refCID = (case buildContentTypes refCID of Some t \<Rightarrow> t | None \<Rightarrow> [])"

section \<open>Entries\<close>

datatype entry_kind =
    KindStatus | KindSetting | KindEvent | KindCommand | KindOption | KindProgram
  | KindActiveProgram | KindSelectedProgram | KindProtectionPort
  | KindOther string

record program_option =
  poRefUID :: int
  poAccess :: string
  poAvailable :: bool
  poLiveUpdate :: bool
  poDefault :: bool

type_synonym enumeration = "(int \<times> string) list"

record entry =
  eUID :: int
  eName :: string
  eKind :: entry_kind
  eRefCID :: int
  eRefDID :: int
  eContentType :: string
  eProtocolType :: protocol_type
  eAccess :: string
  eExecution :: string
  eHandling :: string
  eLevel :: string
  eAvailable :: bool
  eHasMin :: bool
  eMin :: f64
  eHasMax :: bool
  eMax :: f64
  eHasStep :: bool
  eStepSize :: f64
  eInitValue :: string
  eDefault :: string
  eEnumeration :: enumeration
  eOptions :: "program_option list"

text \<open>The zero value of the struct.\<close>

definition entry0 :: entry where
  "entry0 = \<lparr>eUID = 0, eName = [], eKind = KindOther [], eRefCID = 0, eRefDID = 0, eContentType = [],
     eProtocolType = ProtocolOther [], eAccess = [], eExecution = [], eHandling = [], eLevel = [],
     eAvailable = False, eHasMin = False, eMin = Fin 0, eHasMax = False, eMax = Fin 0,
     eHasStep = False, eStepSize = Fin 0, eInitValue = [], eDefault = [], eEnumeration = [], eOptions = []\<rparr>"

definition IsEnum :: "entry \<Rightarrow> bool" where
  "IsEnum e \<longleftrightarrow> eEnumeration e \<noteq> []"

definition entryWritable :: "entry \<Rightarrow> bool" where
  "entryWritable e \<longleftrightarrow> eAccess e = ''readwrite'' \<or> eAccess e = ''writeonly''"

section \<open>Descriptions\<close>

record device_info =
  diType :: string
  diBrand :: string
  diModel :: string
  diVersion :: int
  diRevision :: int

record description =
  dHaID :: string
  dInfo :: device_info
  Entries :: "entry list"
  byUID :: "int \<rightharpoonup> nat"
  byName :: "string \<rightharpoonup> nat"
  Enumerations :: "int \<rightharpoonup> enumeration"

definition info0 :: device_info where
  "info0 = \<lparr>diType = [], diBrand = [], diModel = [], diVersion = 0, diRevision = 0\<rparr>"

definition newDescription :: description where
  "newDescription = \<lparr>dHaID = [], dInfo = info0, Entries = [], byUID = Map.empty, byName = Map.empty,
     Enumerations = Map.empty\<rparr>"

definition add :: "entry \<Rightarrow> description \<Rightarrow> description" where
  "add e d =
     (let i = length (Entries d) in
      d\<lparr>Entries := Entries d @ [e],
        byUID := (byUID d)(eUID e \<mapsto> i),
        byName := (if eName e \<noteq> [] then (byName d)(eName e \<mapsto> i) else byName d)\<rparr>)"

text \<open>The loop of \<open>rebuildIndex\<close>, from entry \<open>i\<close> on.\<close>

fun rebuild_from :: "nat \<Rightarrow> entry list \<Rightarrow> description \<Rightarrow> description" where
  "rebuild_from i [] d = d"
| "rebuild_from i (e # es) d =
     rebuild_from (Suc i) es
       (d\<lparr>byUID := (byUID d)(eUID e \<mapsto> i),
          byName := (if eName e \<noteq> [] then (byName d)(eName e \<mapsto> i) else byName d)\<rparr>)"

definition rebuildIndex :: "description \<Rightarrow> description" where
  "rebuildIndex d = rebuild_from 0 (Entries d) (d\<lparr>byUID := Map.empty, byName := Map.empty\<rparr>)"

definition entry_at :: "description \<Rightarrow> nat option \<Rightarrow> entry option" where
  "entry_at d p = (case p of None \<Rightarrow> None
     | Some i \<Rightarrow> if i < length (Entries d) then Some (Entries d ! i) else None)"

definition ByUID :: "description \<Rightarrow> int \<Rightarrow> entry option" where
  "ByUID d uid = entry_at d (byUID d uid)"

definition ByName :: "description \<Rightarrow> string \<Rightarrow> entry option" where
  "ByName d name = entry_at d (byName d name)"

section \<open>The index invariant\<close>

definition name_key :: "entry \<Rightarrow> string option" where
  "name_key e = (if eName e \<noteq> [] then Some (eName e) else None)"

definition uid_key :: "entry \<Rightarrow> int option" where
  "uid_key e = Some (eUID e)"

text \<open>Every pointer of an index points into the list, to an entry with that key.\<close>

definition index_ok :: "description \<Rightarrow> bool" where
  "index_ok d \<longleftrightarrow>
     (\<forall>k i. byUID d k = Some i \<longrightarrow> i < length (Entries d) \<and> eUID (Entries d ! i) = k)
   \<and> (\<forall>k i. byName d k = Some i \<longrightarrow> i < length (Entries d) \<and> eName (Entries d ! i) = k)"

lemma index_ok_new: "index_ok newDescription"
  by (simp add: index_ok_def newDescription_def)

lemma index_ok_add: "index_ok d \<Longrightarrow> index_ok (add e d)"
  by (auto simp: index_ok_def add_def Let_def nth_append less_Suc_eq split: if_splits)

lemma index_okD:
  assumes "index_ok d"
  shows "byUID d k = Some i \<Longrightarrow> i < length (Entries d) \<and> eUID (Entries d ! i) = k"
    and "byName d n = Some i \<Longrightarrow> i < length (Entries d) \<and> eName (Entries d ! i) = n"
  using assms by (simp_all add: index_ok_def)

lemma entry_at_add: "i < length (Entries d) \<Longrightarrow> entry_at (add e d) (Some i) = entry_at d (Some i)"
  by (simp add: entry_at_def add_def Let_def nth_append)

lemma entry_at_last: "entry_at (add e d) (Some (length (Entries d))) = Some e"
  by (simp add: entry_at_def add_def Let_def)

lemma entry_at_None [simp]: "entry_at d None = None"
  by (simp add: entry_at_def)

lemma byUID_add: "byUID (add e d) = (byUID d)(eUID e \<mapsto> length (Entries d))"
  by (simp add: add_def Let_def)

lemma byName_add:
  "byName (add e d) = (if eName e \<noteq> [] then (byName d)(eName e \<mapsto> length (Entries d)) else byName d)"
  by (simp add: add_def Let_def)

lemma ByUID_add:
  assumes "index_ok d"
  shows "ByUID (add e d) k = (if eUID e = k then Some e else ByUID d k)"
proof (cases "byUID d k")
  case None
  then show ?thesis by (simp add: ByUID_def byUID_add entry_at_last)
next
  case (Some i)
  then have "i < length (Entries d)" using index_okD [OF assms] by blast
  with Some show ?thesis by (simp add: ByUID_def byUID_add entry_at_last entry_at_add)
qed

lemma ByName_add:
  assumes "index_ok d"
  shows "ByName (add e d) k = (if name_key e = Some k then Some e else ByName d k)"
proof (cases "byName d k")
  case None
  then show ?thesis by (auto simp: ByName_def byName_add name_key_def entry_at_last)
next
  case (Some i)
  then have "i < length (Entries d)" using index_okD [OF assms] by blast
  with Some show ?thesis by (auto simp: ByName_def byName_add name_key_def entry_at_last entry_at_add)
qed

lemma lookup_new: "ByUID newDescription k = None" "ByName newDescription n = None"
  by (simp_all add: ByUID_def ByName_def newDescription_def)

interpretation by_uid: keyed_index newDescription add ByUID uid_key index_ok
  by unfold_locales (simp_all add: index_ok_new index_ok_add ByUID_add uid_key_def lookup_new)

interpretation by_name: keyed_index newDescription add ByName name_key index_ok
  by unfold_locales (simp_all add: index_ok_new index_ok_add ByName_add lookup_new)

lemma Entries_fold_add: "Entries (fold add es d) = Entries d @ es"
  by (induction es arbitrary: d) (simp_all add: add_def Let_def)

text \<open>The loop of \<open>rebuildIndex\<close> builds what the additions built.\<close>

lemma rebuild_from_fold:
  assumes "Entries d = xs" and "byUID d = byUID d'" and "byName d = byName d'"
    and "Entries d' = take i xs" and "i \<le> length xs"
  shows "byUID (rebuild_from i (drop i xs) d) = byUID (fold add (drop i xs) d')
       \<and> byName (rebuild_from i (drop i xs) d) = byName (fold add (drop i xs) d')
       \<and> Entries (rebuild_from i (drop i xs) d) = xs"
  using assms
proof (induction "length xs - i" arbitrary: i d d')
  case 0
  then show ?case by simp
next
  case (Suc n)
  then have i: "i < length xs" by simp
  let ?e = "xs ! i"
  let ?d = "d\<lparr>byUID := (byUID d)(eUID ?e \<mapsto> i),
    byName := (if eName ?e \<noteq> [] then (byName d)(eName ?e \<mapsto> i) else byName d)\<rparr>"
  have "byUID (rebuild_from (Suc i) (drop (Suc i) xs) ?d) = byUID (fold add (drop (Suc i) xs) (add ?e d'))
     \<and> byName (rebuild_from (Suc i) (drop (Suc i) xs) ?d) = byName (fold add (drop (Suc i) xs) (add ?e d'))
     \<and> Entries (rebuild_from (Suc i) (drop (Suc i) xs) ?d) = xs"
    using Suc i by (intro Suc.hyps) (simp_all add: add_def Let_def take_Suc_conv_app_nth)
  then show ?case using i by (simp add: Cons_nth_drop_Suc [symmetric])
qed

lemma rebuildIndex_fold:
  "byUID (rebuildIndex d) = byUID (fold add (Entries d) newDescription)"
  "byName (rebuildIndex d) = byName (fold add (Entries d) newDescription)"
  "Entries (rebuildIndex d) = Entries d"
  using rebuild_from_fold [of "d\<lparr>byUID := Map.empty, byName := Map.empty\<rparr>" "Entries d" newDescription 0]
  by (simp_all add: rebuildIndex_def newDescription_def)

lemma rebuildIndex_lookup:
  "ByUID (rebuildIndex d) = ByUID (fold add (Entries d) newDescription)"
  "ByName (rebuildIndex d) = ByName (fold add (Entries d) newDescription)"
  by (auto simp: ByUID_def ByName_def entry_at_def rebuildIndex_fold Entries_fold_add fun_eq_iff
      newDescription_def split: option.splits)

section \<open>Properties\<close>

text \<open>
  A description whose index was rebuilt from its entries (which is how a cached description is
  loaded) answers every lookup by uid and by name with the last entry that has that uid, or that
  non-empty name, and with nothing when there is none.
\<close>

theorem rebuildIndex_lookups:
  "ByUID (rebuildIndex d) uid = find (\<lambda>e. eUID e = uid) (rev (Entries d))
   \<and> ByName (rebuildIndex d) name =
       (if name = [] then None else find (\<lambda>e. eName e = name) (rev (Entries d)))"
proof -
  have "find (\<lambda>e. name_key e = Some name) xs = (if name = [] then None else find (\<lambda>e. eName e = name) xs)"
    for xs
  proof (cases "name = []")
    case True
    then show ?thesis by (simp add: find_None_iff name_key_def)
  next
    case False
    then have "(\<lambda>e. name_key e = Some name) = (\<lambda>e. eName e = name)" by (auto simp: name_key_def)
    with False show ?thesis by simp
  qed
  then show ?thesis
    by (simp add: rebuildIndex_lookup by_uid.look_fold by_name.look_fold uid_key_def)
qed

text \<open>
  The two type tables agree: every reference code the fine content-type table names has an
  entry of its own in the wire-type table (it is not typed by the String default).
\<close>

lemma content_codes_typed:
  "\<forall>c\<in>dom buildContentTypes. c \<in> dom buildProtocolTypes \<and> ProtocolTypeFor c = the (buildProtocolTypes c)"
  by (auto simp: buildContentTypes_def buildProtocolTypes_def put_range_def ProtocolTypeFor_def
      split: if_splits)

end
