(* ===== verification/Profile_Parser.thy ===== *)
theory Profile_Parser
  imports Profile
begin

text \<open>
  \<^verbatim>\<open>internal/profile/parser.go\<close>: the two XML files of an appliance profile made into a
  description. \<^verbatim>\<open>encoding/xml\<close> itself is the parameter \<open>xml_lib\<close>, which fills the structs the
  code declares (modelled field by field below); everything the code does with them follows.
\<close>

section \<open>What the XML decoder fills\<close>

record xml_named_ref =
  nrRefUID :: string
  nrRefEID :: string
  nrName :: string

record xml_enum_member =
  emRefValue :: string
  emName :: string

record xml_enum_desc =
  edRefENID :: string
  edMembers :: "xml_enum_member list"

record xml_feature_mapping =
  xmFeatures :: "xml_named_ref list"
  xmErrors :: "xml_named_ref list"
  xmEnumDescs :: "xml_enum_desc list"

record xml_program_option =
  xoRefUID :: string
  xoAccess :: string
  xoAvailable :: string
  xoLiveUpdate :: string
  xoDefault :: string

record xml_element =
  xUID :: string
  xRefCID :: string
  xRefDID :: string
  xEnumerationType :: string
  xAccess :: string
  xAvailable :: string
  xExecution :: string
  xHandling :: string
  xLevel :: string
  xMin :: string
  xMax :: string
  xStepSize :: string
  xInitValue :: string
  xDefault :: string
  xOptions :: "xml_program_option list"

record xml_program =
  xpUID :: string
  xpAvailable :: string
  xpExecution :: string
  xpAccess :: string
  xpOptions :: "xml_program_option list"

text \<open>A list container holds its items and, again, list containers (the five element lists and
  the program group have the same shape).\<close>

datatype 'e xml_list = XmlList (Items: "'e list") (Sub: "'e xml_list list")

record xml_enum_type =
  etENID :: string
  etSubsetOf :: string
  etValues :: "string list"

record xml_description =
  xdType :: string
  xdBrand :: string
  xdModel :: string
  xdVersion :: string
  xdRevision :: string

record xml_device =
  xvDescription :: xml_description
  xvStatusList :: "xml_element xml_list list"
  xvSettingList :: "xml_element xml_list list"
  xvEventList :: "xml_element xml_list list"
  xvCommandList :: "xml_element xml_list list"
  xvOptionList :: "xml_element xml_list list"
  xvPrograms :: "xml_program xml_list list"
  xvActive :: xml_element
  xvSelected :: xml_element
  xvProtection :: xml_element
  xvEnumTypes :: "xml_enum_type list"

record xml_lib =
  unmarshalMapping :: "string \<Rightarrow> xml_feature_mapping option"
  unmarshalDevice :: "string \<Rightarrow> xml_device option"

section \<open>Small parsers\<close>

definition parseHex :: "string \<Rightarrow> int option" where
  "parseHex s0 = (let s = trim_space s0 in if s = [] then None else parse_int 16 s)"

definition parseFloat :: "string \<Rightarrow> f64 option" where
  "parseFloat s0 = (let s = trim_space s0 in if s = [] then None else parse_float s)"

definition parseBoolDefault :: "(string \<Rightarrow> string) \<Rightarrow> string \<Rightarrow> bool \<Rightarrow> bool" where
  "parseBoolDefault u s0 def =
     (let s = trim_space (to_lower u s0) in
      if s = [] then def
      else if s = ''true'' then True
      else if s = ''false'' then False
      else (case parse_float s of Some n \<Rightarrow> f64_nonzero n | None \<Rightarrow> def))"

definition atoiSafe :: "string \<Rightarrow> int" where
  "atoiSafe s = atoi_val (trim_space s)"

definition programLeaf :: "string \<Rightarrow> string" where
  "programLeaf name = (case cut_last (CHR ''.'') name of Some (_, after) \<Rightarrow> after | None \<Rightarrow> name)"

section \<open>The feature mapping\<close>

record feature_mapping =
  fmFeature :: "int \<rightharpoonup> string"
  fmErrors :: "int \<rightharpoonup> string"
  fmEnum :: "int \<rightharpoonup> enumeration"

definition feature_name :: "feature_mapping \<Rightarrow> int \<Rightarrow> string" where
  "feature_name fm uid = (case fmFeature fm uid of Some n \<Rightarrow> n | None \<Rightarrow> [])"

fun enum_members :: "xml_enum_member list \<Rightarrow> enumeration \<Rightarrow> enumeration" where
  "enum_members [] values = values"
| "enum_members (m # ms) values =
     (case atoi (trim_space (emRefValue m)) of
        None \<Rightarrow> enum_members ms values
      | Some v \<Rightarrow> enum_members ms (AList.update v (trim_space (emName m)) values))"

definition parseFeatureMapping :: "xml_lib \<Rightarrow> string \<Rightarrow> feature_mapping option" where
  "parseFeatureMapping X dat =
     (case unmarshalMapping X dat of
        None \<Rightarrow> None
      | Some doc \<Rightarrow> Some
         \<lparr>fmFeature = fold (\<lambda>f m. case parseHex (nrRefUID f) of
              None \<Rightarrow> m | Some uid \<Rightarrow> m(uid \<mapsto> trim_space (nrName f))) (xmFeatures doc) Map.empty,
          fmErrors = fold (\<lambda>e m. case parseHex (nrRefEID e) of
              None \<Rightarrow> m | Some eid \<Rightarrow> m(eid \<mapsto> trim_space (nrName e))) (xmErrors doc) Map.empty,
          fmEnum = fold (\<lambda>ed m. case parseHex (edRefENID ed) of
              None \<Rightarrow> m | Some enid \<Rightarrow> m(enid \<mapsto> enum_members (edMembers ed) [])) (xmEnumDescs doc) Map.empty\<rparr>)"

section \<open>Enumeration subsets\<close>

fun subset_values :: "enumeration \<Rightarrow> string list \<Rightarrow> enumeration \<Rightarrow> enumeration" where
  "subset_values parent [] sub = sub"
| "subset_values parent (v # vs) sub =
     (case atoi (trim_space v) of
        None \<Rightarrow> subset_values parent vs sub
      | Some iv \<Rightarrow>
          (case map_of parent iv of
             Some name \<Rightarrow> subset_values parent vs (AList.update iv name sub)
           | None \<Rightarrow> subset_values parent vs sub))"

fun resolveEnumSubsets :: "xml_enum_type list \<Rightarrow> feature_mapping \<Rightarrow> feature_mapping" where
  "resolveEnumSubsets [] fm = fm"
| "resolveEnumSubsets (et # ets) fm =
     (if etSubsetOf et = [] then resolveEnumSubsets ets fm
      else (case parseHex (etENID et) of
          None \<Rightarrow> resolveEnumSubsets ets fm
        | Some enid \<Rightarrow> (case parseHex (etSubsetOf et) of
            None \<Rightarrow> resolveEnumSubsets ets fm
          | Some parent \<Rightarrow> (case fmEnum fm parent of
              None \<Rightarrow> resolveEnumSubsets ets fm
            | Some parentMap \<Rightarrow>
                resolveEnumSubsets ets
                  (fm\<lparr>fmEnum := (fmEnum fm)(enid \<mapsto> subset_values parentMap (etValues et) [])\<rparr>)))))"

section \<open>Elements and programs\<close>

fun flatten :: "'e xml_list list \<Rightarrow> 'e list" where
  "flatten [] = []"
| "flatten (XmlList items sub # ls) = items @ flatten sub @ flatten ls"

definition convertElement ::
  "(string \<Rightarrow> string) \<Rightarrow> xml_element \<Rightarrow> entry_kind \<Rightarrow> feature_mapping \<Rightarrow> entry option" where
  "convertElement u x kind fm =
     (case parseHex (xUID x) of
        None \<Rightarrow> None
      | Some uid \<Rightarrow>
         (let e0 = entry0\<lparr>eUID := uid, eName := feature_name fm uid, eKind := kind,
                eAccess := to_lower u (xAccess x), eExecution := to_lower u (xExecution x),
                eHandling := to_lower u (xHandling x), eLevel := to_lower u (xLevel x),
                eAvailable := parseBoolDefault u (xAvailable x) True,
                eInitValue := xInitValue x, eDefault := xDefault x\<rparr>;
              e1 = (case parseHex (xRefCID x) of
                  Some refCID \<Rightarrow> e0\<lparr>eRefCID := refCID, eContentType := ContentTypeFor refCID,
                                   eProtocolType := ProtocolTypeFor refCID\<rparr>
                | None \<Rightarrow> e0\<lparr>eProtocolType := ProtocolString\<rparr>);
              e2 = (case parseHex (xRefDID x) of Some refDID \<Rightarrow> e1\<lparr>eRefDID := refDID\<rparr> | None \<Rightarrow> e1);
              e3 = (if xEnumerationType x = [] then e2
                else (case parseHex (xEnumerationType x) of
                    None \<Rightarrow> e2
                  | Some enid \<Rightarrow> (case fmEnum fm enid of None \<Rightarrow> e2 | Some em \<Rightarrow> e2\<lparr>eEnumeration := em\<rparr>)));
              e4 = (case parseFloat (xMin x) of Some v \<Rightarrow> e3\<lparr>eHasMin := True, eMin := v\<rparr> | None \<Rightarrow> e3);
              e5 = (case parseFloat (xMax x) of Some v \<Rightarrow> e4\<lparr>eHasMax := True, eMax := v\<rparr> | None \<Rightarrow> e4)
          in Some (case parseFloat (xStepSize x) of
                Some v \<Rightarrow> e5\<lparr>eHasStep := True, eStepSize := v\<rparr> | None \<Rightarrow> e5)))"

definition convert_option :: "(string \<Rightarrow> string) \<Rightarrow> xml_program_option \<Rightarrow> program_option option" where
  "convert_option u x =
     (case parseHex (xoRefUID x) of
        None \<Rightarrow> None
      | Some refUID \<Rightarrow> Some
         \<lparr>poRefUID = refUID, poAccess = to_lower u (xoAccess x),
          poAvailable = parseBoolDefault u (xoAvailable x) True,
          poLiveUpdate = parseBoolDefault u (xoLiveUpdate x) False,
          poDefault = parseBoolDefault u (xoDefault x) False\<rparr>)"

definition convertProgram ::
  "(string \<Rightarrow> string) \<Rightarrow> xml_program \<Rightarrow> feature_mapping \<Rightarrow> entry option" where
  "convertProgram u p fm =
     (case parseHex (xpUID p) of
        None \<Rightarrow> None
      | Some uid \<Rightarrow> Some (entry0\<lparr>eUID := uid, eName := feature_name fm uid, eKind := KindProgram,
          eAccess := to_lower u (xpAccess p), eExecution := to_lower u (xpExecution p),
          eAvailable := parseBoolDefault u (xpAvailable p) True,
          eOptions := List.map_filter (convert_option u) (xpOptions p)\<rparr>))"

section \<open>The description\<close>

fun program_enum :: "entry list \<Rightarrow> enumeration \<Rightarrow> enumeration" where
  "program_enum [] m = m"
| "program_enum (e # es) m =
     (if eKind e = KindProgram \<and> eName e \<noteq> []
        then program_enum es (AList.update (eUID e) (programLeaf (eName e)) m)
        else program_enum es m)"

definition resolveProgramNames :: "description \<Rightarrow> description" where
  "resolveProgramNames d =
     (let progEnum = program_enum (Entries d) [] in
      if progEnum = [] then d
      else d\<lparr>Entries := List.map (\<lambda>e.
          if (eKind e = KindActiveProgram \<or> eKind e = KindSelectedProgram) \<and> eEnumeration e = []
          then e\<lparr>eEnumeration := progEnum\<rparr> else e) (Entries d)\<rparr>)"

definition addElems ::
  "(string \<Rightarrow> string) \<Rightarrow> feature_mapping \<Rightarrow> xml_element list \<Rightarrow> entry_kind \<Rightarrow> description \<Rightarrow> description" where
  "addElems u fm elems kind d =
     fold (\<lambda>x d. case convertElement u x kind fm of None \<Rightarrow> d | Some e \<Rightarrow> add e d) elems d"

definition addPrograms ::
  "(string \<Rightarrow> string) \<Rightarrow> feature_mapping \<Rightarrow> xml_program list \<Rightarrow> description \<Rightarrow> description" where
  "addPrograms u fm ps d =
     fold (\<lambda>p d. case convertProgram u p fm of None \<Rightarrow> d | Some e \<Rightarrow> add e d) ps d"

definition addSingles ::
  "(string \<Rightarrow> string) \<Rightarrow> feature_mapping \<Rightarrow> (xml_element \<times> entry_kind) list \<Rightarrow> description \<Rightarrow> description" where
  "addSingles u fm singles d =
     fold (\<lambda>(x, kind) d. if xUID x = [] then d
        else (case convertElement u x kind fm of None \<Rightarrow> d | Some e \<Rightarrow> add e d)) singles d"

definition singles :: "xml_device \<Rightarrow> (xml_element \<times> entry_kind) list" where
  "singles dev = [(xvActive dev, KindActiveProgram), (xvSelected dev, KindSelectedProgram),
     (xvProtection dev, KindProtectionPort)]"

definition device_description :: "(string \<Rightarrow> string) \<Rightarrow> feature_mapping \<Rightarrow> xml_device \<Rightarrow> description" where
  "device_description u fm0 dev =
     (let d0 = newDescription\<lparr>dInfo := \<lparr>diType = xdType (xvDescription dev),
            diBrand = xdBrand (xvDescription dev), diModel = xdModel (xvDescription dev),
            diVersion = atoiSafe (xdVersion (xvDescription dev)),
            diRevision = atoiSafe (xdRevision (xvDescription dev))\<rparr>\<rparr>;
          fm = resolveEnumSubsets (xvEnumTypes dev) fm0;
          d1 = d0\<lparr>Enumerations := fmEnum fm\<rparr>;
          d2 = addElems u fm (flatten (xvStatusList dev)) KindStatus d1;
          d3 = addElems u fm (flatten (xvSettingList dev)) KindSetting d2;
          d4 = addElems u fm (flatten (xvEventList dev)) KindEvent d3;
          d5 = addElems u fm (flatten (xvCommandList dev)) KindCommand d4;
          d6 = addElems u fm (flatten (xvOptionList dev)) KindOption d5;
          d7 = addPrograms u fm (flatten (xvPrograms dev)) d6;
          d8 = addSingles u fm (singles dev) d7
      in resolveProgramNames d8)"

definition ParseDescription ::
  "xml_lib \<Rightarrow> (string \<Rightarrow> string) \<Rightarrow> string \<Rightarrow> string \<Rightarrow> description option" where
  "ParseDescription X u descriptionXML featureMappingXML =
     (case parseFeatureMapping X featureMappingXML of
        None \<Rightarrow> None
      | Some fm \<Rightarrow>
          (case unmarshalDevice X descriptionXML of
             None \<Rightarrow> None
           | Some dev \<Rightarrow> Some (device_description u fm dev)))"

section \<open>The additions in order\<close>

lemma fold_optional_add:
  "fold (\<lambda>x d. case f x of None \<Rightarrow> d | Some e \<Rightarrow> add e d) xs d = fold add (List.map_filter f xs) d"
  by (induction xs arbitrary: d) (simp_all add: List.map_filter_simps split: option.split)

lemma parseHex_Nil [simp]: "parseHex [] = None"
  by (simp add: parseHex_def)

lemma convertElement_key:
  "map_option (\<lambda>e. (eUID e, eKind e)) (convertElement u x kind fm) =
     map_option (\<lambda>uid. (uid, kind)) (parseHex (xUID x))"
  by (simp add: convertElement_def Let_def entry0_def split: option.split)

lemma convertProgram_key:
  "map_option (\<lambda>e. (eUID e, eKind e)) (convertProgram u p fm) =
     map_option (\<lambda>uid. (uid, KindProgram)) (parseHex (xpUID p))"
  by (simp add: convertProgram_def entry0_def split: option.split)

text \<open>What the description declares, in the order the code reads it: uid attribute and kind.\<close>

definition declared :: "xml_device \<Rightarrow> (string \<times> entry_kind) list" where
  "declared dev =
     List.map (\<lambda>x. (xUID x, KindStatus)) (flatten (xvStatusList dev))
   @ List.map (\<lambda>x. (xUID x, KindSetting)) (flatten (xvSettingList dev))
   @ List.map (\<lambda>x. (xUID x, KindEvent)) (flatten (xvEventList dev))
   @ List.map (\<lambda>x. (xUID x, KindCommand)) (flatten (xvCommandList dev))
   @ List.map (\<lambda>x. (xUID x, KindOption)) (flatten (xvOptionList dev))
   @ List.map (\<lambda>p. (xpUID p, KindProgram)) (flatten (xvPrograms dev))
   @ List.map (\<lambda>(x, k). (xUID x, k)) (singles dev)"

definition entry_keys :: "entry list \<Rightarrow> (int \<times> entry_kind) list" where
  "entry_keys es = List.map (\<lambda>e. (eUID e, eKind e)) es"

definition key_of :: "string \<times> entry_kind \<Rightarrow> (int \<times> entry_kind) option" where
  "key_of = (\<lambda>(s, k). map_option (\<lambda>uid. (uid, k)) (parseHex s))"

lemma map_filter_append [simp]:
  "List.map_filter f (xs @ ys) = List.map_filter f xs @ List.map_filter f ys"
  by (simp add: List.map_filter_def)

lemma keys_of_converted:
  assumes "\<And>x. map_option (\<lambda>e. (eUID e, eKind e)) (f x) = key_of (g x)"
  shows "entry_keys (List.map_filter f xs) = List.map_filter key_of (List.map g xs)"
proof (induction xs)
  case Nil
  then show ?case by (simp add: entry_keys_def List.map_filter_simps)
next
  case (Cons x xs)
  with assms [of x] show ?case
    by (cases "f x"; cases "key_of (g x)") (simp_all add: entry_keys_def List.map_filter_simps)
qed

definition parsed_entries ::
  "(string \<Rightarrow> string) \<Rightarrow> feature_mapping \<Rightarrow> xml_device \<Rightarrow> entry list" where
  "parsed_entries u fm dev =
     List.map_filter (\<lambda>x. convertElement u x KindStatus fm) (flatten (xvStatusList dev))
   @ List.map_filter (\<lambda>x. convertElement u x KindSetting fm) (flatten (xvSettingList dev))
   @ List.map_filter (\<lambda>x. convertElement u x KindEvent fm) (flatten (xvEventList dev))
   @ List.map_filter (\<lambda>x. convertElement u x KindCommand fm) (flatten (xvCommandList dev))
   @ List.map_filter (\<lambda>x. convertElement u x KindOption fm) (flatten (xvOptionList dev))
   @ List.map_filter (\<lambda>p. convertProgram u p fm) (flatten (xvPrograms dev))
   @ List.map_filter (\<lambda>(x, k). convertElement u x k fm) (singles dev)"

lemma entry_keys_append: "entry_keys (xs @ ys) = entry_keys xs @ entry_keys ys"
  by (simp add: entry_keys_def)

lemma parsed_entries_keys:
  "entry_keys (parsed_entries u fm dev) = List.map_filter key_of (declared dev)"
proof -
  have el: "entry_keys (List.map_filter (\<lambda>x. convertElement u x k fm) xs)
      = List.map_filter key_of (List.map (\<lambda>x. (xUID x, k)) xs)" for k xs
    by (rule keys_of_converted) (simp add: key_of_def convertElement_key)
  have pr: "entry_keys (List.map_filter (\<lambda>p. convertProgram u p fm) ps)
      = List.map_filter key_of (List.map (\<lambda>p. (xpUID p, KindProgram)) ps)" for ps
    by (rule keys_of_converted) (simp add: key_of_def convertProgram_key)
  have si: "entry_keys (List.map_filter (\<lambda>(x, k). convertElement u x k fm) ss)
      = List.map_filter key_of (List.map (\<lambda>(x, k). (xUID x, k)) ss)" for ss
    by (rule keys_of_converted) (simp add: key_of_def convertElement_key split: prod.split)
  show ?thesis
    by (simp add: parsed_entries_def declared_def entry_keys_append el pr si)
qed

lemma addSingles_fold:
  "addSingles u fm ss d = fold add (List.map_filter (\<lambda>(x, k). convertElement u x k fm) ss) d"
proof -
  have "(if xUID x = [] then d else (case convertElement u x k fm of None \<Rightarrow> d | Some e \<Rightarrow> add e d))
     = (case convertElement u x k fm of None \<Rightarrow> d | Some e \<Rightarrow> add e d)" for x k d
    by (simp add: convertElement_def)
  then show ?thesis
    by (simp add: addSingles_def fold_optional_add [symmetric] case_prod_unfold)
qed

text \<open>All the additions are one fold over the parsed entries.\<close>

lemma device_description_fold:
  "\<exists>d1. Entries d1 = [] \<and> byUID d1 = Map.empty \<and> byName d1 = Map.empty
     \<and> Enumerations d1 = fmEnum (resolveEnumSubsets (xvEnumTypes dev) fm)
     \<and> device_description u fm dev =
         resolveProgramNames (fold add (parsed_entries u (resolveEnumSubsets (xvEnumTypes dev) fm) dev) d1)"
  unfolding device_description_def Let_def
  by (intro exI conjI, rule_tac [5] arg_cong [where f = resolveProgramNames])
    (simp_all add: addElems_def addPrograms_def addSingles_fold fold_optional_add parsed_entries_def
      newDescription_def)

section \<open>Program names\<close>

definition with_programs :: "enumeration \<Rightarrow> entry \<Rightarrow> entry" where
  "with_programs m e =
     (if (eKind e = KindActiveProgram \<or> eKind e = KindSelectedProgram) \<and> eEnumeration e = []
      then e\<lparr>eEnumeration := m\<rparr> else e)"

lemma with_programs_simps [simp]:
  "eUID (with_programs m e) = eUID e" "eKind (with_programs m e) = eKind e"
  "eName (with_programs m e) = eName e" "with_programs [] e = e"
  by (simp_all add: with_programs_def)

lemma resolveProgramNames_eq:
  "Entries (resolveProgramNames d) = List.map (with_programs (program_enum (Entries d) [])) (Entries d)"
  "byUID (resolveProgramNames d) = byUID d"
  "byName (resolveProgramNames d) = byName d"
  "Enumerations (resolveProgramNames d) = Enumerations d"
  by (simp_all add: resolveProgramNames_def Let_def with_programs_def [abs_def] map_idI)

lemma index_ok_resolve: "index_ok d \<Longrightarrow> index_ok (resolveProgramNames d)"
  by (simp add: index_ok_def resolveProgramNames_eq)

definition named_program :: "int \<Rightarrow> entry \<Rightarrow> bool" where
  "named_program uid e \<longleftrightarrow> eKind e = KindProgram \<and> eName e \<noteq> [] \<and> eUID e = uid"

lemma find_snoc: "find P (xs @ [x]) = (case find P xs of Some y \<Rightarrow> Some y | None \<Rightarrow> if P x then Some x else None)"
  by (induction xs) auto

lemma map_of_program_enum:
  "map_of (program_enum es m) uid =
     (case find (named_program uid) (rev es) of
        Some e \<Rightarrow> Some (programLeaf (eName e)) | None \<Rightarrow> map_of m uid)"
  by (induction es m rule: program_enum.induct)
    (auto simp: find_snoc named_program_def update_conv split: option.split)

lemma find_map_same:
  "(\<And>x. P (g x) = P x) \<Longrightarrow> find P (List.map g xs) = map_option g (find P xs)"
  by (induction xs) auto

section \<open>Enumerations\<close>

definition enums_within :: "(int \<rightharpoonup> enumeration) \<Rightarrow> (int \<rightharpoonup> enumeration) \<Rightarrow> bool" where
  "enums_within es es0 \<longleftrightarrow>
     (\<forall>enid m. es enid = Some m \<longrightarrow> (\<exists>p m0. es0 p = Some m0 \<and> map_of m \<subseteq>\<^sub>m map_of m0))"

lemma map_le_upd: "\<lbrakk>f \<subseteq>\<^sub>m g; g k = Some v\<rbrakk> \<Longrightarrow> f(k \<mapsto> v) \<subseteq>\<^sub>m g"
  by (simp add: map_le_def)

lemma subset_values_le: "map_of sub \<subseteq>\<^sub>m map_of parent \<Longrightarrow> map_of (subset_values parent vs sub) \<subseteq>\<^sub>m map_of parent"
  by (induction vs arbitrary: sub) (simp_all add: update_conv' map_le_upd split: option.split)

lemma enums_within_refl: "enums_within es es"
  by (metis enums_within_def map_le_refl)

lemma enums_within_upd:
  "\<lbrakk>enums_within es es0; es p = Some pm; map_of m \<subseteq>\<^sub>m map_of pm\<rbrakk> \<Longrightarrow> enums_within (es(i \<mapsto> m)) es0"
  unfolding enums_within_def by (metis fun_upd_apply map_le_trans option.inject)

lemma resolveEnumSubsets_within:
  "enums_within (fmEnum fm) es0 \<Longrightarrow> enums_within (fmEnum (resolveEnumSubsets ets fm)) es0"
  by (induction ets arbitrary: fm)
    (simp_all add: enums_within_upd subset_values_le split: option.split)

section \<open>Properties\<close>

lemma ParseDescription_Some:
  assumes "unmarshalMapping X fx = Some m" and "unmarshalDevice X dx = Some dev"
  obtains fm where "parseFeatureMapping X fx = Some fm"
    and "ParseDescription X u dx fx = Some (device_description u fm dev)"
  using assms by (simp add: ParseDescription_def parseFeatureMapping_def)

lemma device_description_index:
  "index_ok (device_description u fm dev)
   \<and> ByUID (device_description u fm dev) uid = find (\<lambda>e. eUID e = uid) (rev (Entries (device_description u fm dev)))
   \<and> entry_keys (Entries (device_description u fm dev)) = List.map_filter key_of (declared dev)"
proof -
  define fm' where "fm' = resolveEnumSubsets (xvEnumTypes dev) fm"
  define es where "es = parsed_entries u fm' dev"
  obtain d1 where d1: "Entries d1 = []" "byUID d1 = Map.empty" "byName d1 = Map.empty"
    and dd: "device_description u fm dev = resolveProgramNames (fold add es d1)"
    using device_description_fold [of dev fm u] unfolding es_def fm'_def by blast
  define d where "d = fold add es d1"
  define g where "g = with_programs (program_enum es [])"
  have ok1: "index_ok d1" using d1 by (simp add: index_ok_def)
  have ok: "index_ok d" unfolding d_def using ok1 by (rule by_uid.inv_fold)
  have Ed: "Entries d = es" by (simp add: d_def Entries_fold_add d1)
  have look: "ByUID d uid = find (\<lambda>e. eUID e = uid) (rev es)"
    using by_uid.look_fold_from [OF ok1, of es uid] d1
    by (simp add: d_def ByUID_def uid_key_def split: option.splits)
  have "ByUID (resolveProgramNames d) uid = map_option g (ByUID d uid)"
    by (simp add: ByUID_def entry_at_def resolveProgramNames_eq Ed g_def split: option.splits)
  also have "\<dots> = find (\<lambda>e. eUID e = uid) (rev (List.map g es))"
    by (simp add: look g_def find_map_same rev_map)
  finally have "ByUID (resolveProgramNames d) uid =
    find (\<lambda>e. eUID e = uid) (rev (Entries (resolveProgramNames d)))"
    by (simp add: resolveProgramNames_eq Ed g_def)
  moreover have "entry_keys (Entries (resolveProgramNames d)) = List.map_filter key_of (declared dev)"
    using parsed_entries_keys [of u fm' dev]
    by (simp add: resolveProgramNames_eq Ed es_def entry_keys_def comp_def)
  ultimately show ?thesis
    using index_ok_resolve [OF ok] by (simp add: dd d_def)
qed

text \<open>
  C12. Parsing is tolerant: whenever both files decode as XML, a description results. It holds, in
  document order, exactly one entry for every declared element (statuses, settings, events, commands,
  options, programs, then the three single elements) whose uid attribute parses as hexadecimal, and
  none for the others; and every lookup by uid finds the last entry with that uid, through the names
  given to programs afterwards.
\<close>

theorem ParseDescription_tolerant:
  assumes "unmarshalMapping X fx = Some m" and "unmarshalDevice X dx = Some dev"
  shows "\<exists>d. ParseDescription X u dx fx = Some d
     \<and> List.map (\<lambda>e. (eUID e, eKind e)) (Entries d) = List.map_filter key_of (declared dev)
     \<and> (\<forall>uid. ByUID d uid = find (\<lambda>e. eUID e = uid) (rev (Entries d)))"
proof -
  obtain fm where "ParseDescription X u dx fx = Some (device_description u fm dev)"
    using ParseDescription_Some [OF assms] .
  then show ?thesis using device_description_index by (simp add: entry_keys_def)
qed

text \<open>
  Every enumeration of a parsed description is (part of) one of the enumerations of the feature
  mapping: resolving the declared subsets never gives a value a name that the mapping did not.
\<close>

theorem ParseDescription_enums:
  assumes "ParseDescription X u dx fx = Some d" and "Enumerations d enid = Some vs"
  shows "\<exists>fm p vs0. parseFeatureMapping X fx = Some fm \<and> fmEnum fm p = Some vs0
     \<and> (\<forall>v name. map_of vs v = Some name \<longrightarrow> map_of vs0 v = Some name)"
proof -
  from assms(1) obtain fm dev where fm: "parseFeatureMapping X fx = Some fm"
    and d: "d = device_description u fm dev"
    by (auto simp: ParseDescription_def split: option.splits)
  have keep: "Enumerations (fold add es d1) = Enumerations d1" for es d1
    by (induction es arbitrary: d1) (simp_all add: add_def Let_def)
  have "Enumerations d = fmEnum (resolveEnumSubsets (xvEnumTypes dev) fm)"
    using device_description_fold [of dev fm u] by (auto simp: d keep resolveProgramNames_eq)
  then obtain p vs0 where "fmEnum fm p = Some vs0" "map_of vs \<subseteq>\<^sub>m map_of vs0"
    using assms(2) resolveEnumSubsets_within [OF enums_within_refl, of "xvEnumTypes dev" fm]
    unfolding enums_within_def by metis
  with fm show ?thesis by (fastforce simp: map_le_def dom_def)
qed

text \<open>
  In a parsed description, an active- or selected-program entry that had no enumeration of its
  own names each program by the last dotted segment of its feature name: uid \<open>p\<close> has a name exactly
  when a program entry with that uid and a non-empty name exists, and the last such entry names it.
\<close>

theorem resolveProgramNames_names:
  assumes "e \<in> set (Entries d)" and "eKind e = KindActiveProgram \<or> eKind e = KindSelectedProgram"
    and "eEnumeration e = []"
  shows "\<exists>e'\<in>set (Entries (resolveProgramNames d)). eUID e' = eUID e \<and> eKind e' = eKind e
     \<and> (\<forall>p. map_of (eEnumeration e') p = map_option (\<lambda>q. programLeaf (eName q))
            (find (\<lambda>q. eKind q = KindProgram \<and> eName q \<noteq> [] \<and> eUID q = p) (rev (Entries d))))"
proof -
  define m where "m = program_enum (Entries d) []"
  have names: "map_of m p = map_option (\<lambda>q. programLeaf (eName q)) (find (named_program p) (rev (Entries d)))" for p
    unfolding m_def by (simp add: map_of_program_enum split: option.split)
  have en: "eEnumeration (with_programs m e) = m"
    using assms(2,3) by (auto simp: with_programs_def)
  have "with_programs m e \<in> set (Entries (resolveProgramNames d))"
    using assms(1) by (simp add: resolveProgramNames_eq m_def)
  moreover have "\<forall>p. map_of (eEnumeration (with_programs m e)) p = map_option (\<lambda>q. programLeaf (eName q))
      (find (\<lambda>q. eKind q = KindProgram \<and> eName q \<noteq> [] \<and> eUID q = p) (rev (Entries d)))"
    using names unfolding en named_program_def [abs_def] by blast
  ultimately show ?thesis by (intro bexI [of _ "with_programs m e"]) auto
qed

section \<open>An example appliance\<close>

definition element0 :: xml_element where
  "element0 = \<lparr>xUID = [], xRefCID = [], xRefDID = [], xEnumerationType = [], xAccess = [],
     xAvailable = [], xExecution = [], xHandling = [], xLevel = [], xMin = [], xMax = [],
     xStepSize = [], xInitValue = [], xDefault = [], xOptions = []\<rparr>"

definition example_mapping :: xml_feature_mapping where
  "example_mapping =
     \<lparr>xmFeatures = [\<lparr>nrRefUID = ''101'', nrRefEID = [], nrName = ''BSH.Common.Program.Eco50''\<rparr>],
      xmErrors = [],
      xmEnumDescs = [\<lparr>edRefENID = ''A'', edMembers =
        [\<lparr>emRefValue = ''1'', emName = ''Off''\<rparr>, \<lparr>emRefValue = ''2'', emName = ''On''\<rparr>]\<rparr>]\<rparr>"

definition example_device :: xml_device where
  "example_device =
     \<lparr>xvDescription = \<lparr>xdType = ''Dishwasher'', xdBrand = ''BOSCH'', xdModel = ''S'', xdVersion = ''2'', xdRevision = ''0''\<rparr>,
      xvStatusList = [XmlList [element0\<lparr>xUID := ''21'', xEnumerationType := ''B''\<rparr>]
         [XmlList [element0\<lparr>xUID := ''zz''\<rparr>, element0\<lparr>xUID := ''22''\<rparr>] []]],
      xvSettingList = [], xvEventList = [], xvCommandList = [], xvOptionList = [],
      xvPrograms = [XmlList [\<lparr>xpUID = ''101'', xpAvailable = [], xpExecution = ''selectAndStart'',
         xpAccess = ''readwrite'', xpOptions = []\<rparr>] []],
      xvActive = element0\<lparr>xUID := ''100''\<rparr>, xvSelected = element0, xvProtection = element0,
      xvEnumTypes = [\<lparr>etENID = ''B'', etSubsetOf = ''A'', etValues = [''2'', ''7'']\<rparr>]\<rparr>"

definition example_xml :: xml_lib where
  "example_xml = \<lparr>unmarshalMapping = (\<lambda>s. if s = ''m'' then Some example_mapping else None),
     unmarshalDevice = (\<lambda>s. if s = ''d'' then Some example_device else None)\<rparr>"

definition example_description :: description where
  "example_description = the (ParseDescription example_xml (\<lambda>s. s) ''d'' ''m'')"

lemma ParseDescription_tolerant_witness:
  "\<exists>d. ParseDescription example_xml (\<lambda>s. s) ''d'' ''m'' = Some d
     \<and> List.map (\<lambda>e. (eUID e, eKind e)) (Entries d) =
         [(33, KindStatus), (34, KindStatus), (257, KindProgram), (256, KindActiveProgram)]"
proof -
  have "List.map_filter key_of (declared example_device) =
      [(33, KindStatus), (34, KindStatus), (257, KindProgram), (256, KindActiveProgram)]"
    by code_simp
  then show ?thesis
    using ParseDescription_tolerant [of example_xml "''m''" example_mapping "''d''" example_device "\<lambda>s. s"]
    by (auto simp: example_xml_def)
qed

lemma example_parsed: "ParseDescription example_xml (\<lambda>s. s) ''d'' ''m'' = Some example_description"
  by (simp add: example_description_def ParseDescription_def parseFeatureMapping_def example_xml_def)

lemma ParseDescription_enums_witness:
  "\<exists>fm p vs0. parseFeatureMapping example_xml ''m'' = Some fm \<and> fmEnum fm p = Some vs0
     \<and> (\<forall>v name. map_of [(2::int, ''On'')] v = Some name \<longrightarrow> map_of vs0 v = Some name)"
proof -
  have "Enumerations example_description 11 = Some [(2, ''On'')]" by code_simp
  then show ?thesis using ParseDescription_enums [OF example_parsed, of 11] by simp
qed

definition program_example :: description where
  "program_example = fold add
     [entry0\<lparr>eUID := 257, eKind := KindProgram, eName := ''BSH.Common.Program.Eco50''\<rparr>,
      entry0\<lparr>eUID := 256, eKind := KindActiveProgram\<rparr>] newDescription"

lemma resolveProgramNames_names_witness:
  "\<exists>e'\<in>set (Entries (resolveProgramNames program_example)). eUID e' = 256
     \<and> map_of (eEnumeration e') 257 = Some ''Eco50''"
proof -
  have e: "Entries program_example =
      [entry0\<lparr>eUID := 257, eKind := KindProgram, eName := ''BSH.Common.Program.Eco50''\<rparr>,
       entry0\<lparr>eUID := 256, eKind := KindActiveProgram\<rparr>]"
    unfolding program_example_def Entries_fold_add by (simp add: newDescription_def)
  have leaf: "programLeaf ''BSH.Common.Program.Eco50'' = ''Eco50''" by code_simp
  show ?thesis
    using resolveProgramNames_names [of "entry0\<lparr>eUID := 256, eKind := KindActiveProgram\<rparr>" program_example]
    by (fastforce simp: e entry0_def leaf)
qed

end
