(* ===== verification/Entities.thy ===== *)
theory Entities
  imports Profile_Parser
begin

text \<open>
  \<^verbatim>\<open>internal/homeconnect/entities.go\<close>: a live feature (its static entry and the state the
  appliance reports), the casts between wire and display values, and the value to send for a
  write. The entity's lock serialises its methods, each of which is one function here.
\<close>

record entity =
  enDesc :: entry
  enHasValue :: bool
  enValueRaw :: any
  enValueShadow :: any
  enAccess :: string
  enAvailable :: bool
  enHasMin :: bool
  enMin :: f64
  enHasMax :: bool
  enMax :: f64
  enHasStep :: bool
  enStepSize :: f64
  enExecution :: string
  enRevEnum :: "string \<rightharpoonup> int"

section \<open>Casts\<close>

definition convertBool :: "any \<Rightarrow> bool" where
  "convertBool v = (case v of
      VBool n \<Rightarrow> n
    | VStr n \<Rightarrow> equal_fold (trim_space n) ''true''
    | VFloat n \<Rightarrow> f64_nonzero n
    | VInt n \<Rightarrow> n \<noteq> 0
    | VInt64 n \<Rightarrow> n \<noteq> 0
    | _ \<Rightarrow> False)"

text \<open>\<open>None\<close> is \<^verbatim>\<open>(0, false)\<close>.\<close>

definition asInt :: "any \<Rightarrow> int option" where
  "asInt v = (case v of
      VInt n \<Rightarrow> Some n
    | VInt64 n \<Rightarrow> Some n
    | VFloat n \<Rightarrow> Some (f64_to_int n)
    | VStr n \<Rightarrow> (case parse_float (trim_space n) of Some iv \<Rightarrow> Some (f64_to_int iv) | None \<Rightarrow> None)
    | VBool n \<Rightarrow> Some (if n then 1 else 0)
    | _ \<Rightarrow> None)"

definition asFloat :: "any \<Rightarrow> f64 option" where
  "asFloat v = (case v of
      VFloat n \<Rightarrow> Some n
    | VInt n \<Rightarrow> Some (int_to_f64 n)
    | VInt64 n \<Rightarrow> Some (int_to_f64 n)
    | VStr n \<Rightarrow> parse_float (trim_space n)
    | VBool n \<Rightarrow> Some (if n then Fin 1 else Fin 0)
    | _ \<Rightarrow> None)"

definition toString :: "(any \<Rightarrow> string) \<Rightarrow> any \<Rightarrow> string" where
  "toString fmt v = (case v of VStr s \<Rightarrow> s | _ \<Rightarrow> sprint fmt v)"

definition castValue :: "(any \<Rightarrow> string) \<Rightarrow> protocol_type \<Rightarrow> any \<Rightarrow> any" where
  "castValue fmt pt v = (case pt of
      ProtocolBoolean \<Rightarrow> VBool (convertBool v)
    | ProtocolInteger \<Rightarrow> (case asInt v of Some iv \<Rightarrow> VInt iv | None \<Rightarrow> v)
    | ProtocolFloat \<Rightarrow> (case asFloat v of Some f \<Rightarrow> VFloat f | None \<Rightarrow> v)
    | ProtocolString \<Rightarrow> VStr (toString fmt v)
    | ProtocolObject \<Rightarrow> v
    | ProtocolOther _ \<Rightarrow> v)"

section \<open>Entities\<close>

fun rev_enum :: "(string \<Rightarrow> string) \<Rightarrow> enumeration \<Rightarrow> (string \<rightharpoonup> int) \<Rightarrow> (string \<rightharpoonup> int)" where
  "rev_enum u [] m = m"
| "rev_enum u ((v, name) # es) m = rev_enum u es (m(to_lower u name \<mapsto> v))"

text \<open>The reverse enumeration of an entity without one is the nil map, which reads as empty.\<close>

definition newEntity :: "(string \<Rightarrow> string) \<Rightarrow> entry \<Rightarrow> entity" where
  "newEntity u d =
     \<lparr>enDesc = d, enHasValue = False, enValueRaw = VNil, enValueShadow = VNil,
      enAccess = eAccess d, enAvailable = eAvailable d,
      enHasMin = eHasMin d, enMin = eMin d, enHasMax = eHasMax d, enMax = eMax d,
      enHasStep = eHasStep d, enStepSize = eStepSize d, enExecution = eExecution d,
      enRevEnum = (if IsEnum d then rev_enum u (eEnumeration d) Map.empty else Map.empty)\<rparr>"

definition Writable :: "entity \<Rightarrow> bool" where
  "Writable e \<longleftrightarrow> (enAccess e = ''readwrite'' \<or> enAccess e = ''writeonly'') \<and> enAvailable e"

definition Value :: "entity \<Rightarrow> any" where
  "Value e =
     (if \<not> enHasValue e then VNil
      else if IsEnum (enDesc e) then
        (case asInt (enValueRaw e) of
           Some iv \<Rightarrow> (case map_of (eEnumeration (enDesc e)) iv of
               Some name \<Rightarrow> VStr name | None \<Rightarrow> enValueRaw e)
         | None \<Rightarrow> enValueRaw e)
      else enValueRaw e)"

definition HasEnumName :: "(string \<Rightarrow> string) \<Rightarrow> entity \<Rightarrow> string \<Rightarrow> bool" where
  "HasEnumName u e s \<longleftrightarrow> enRevEnum e (to_lower u s) \<noteq> None"

record bounds =
  bdMin :: f64
  bdHasMin :: bool
  bdMax :: f64
  bdHasMax :: bool
  bdStep :: f64
  bdHasStep :: bool

definition Bounds :: "entity \<Rightarrow> bounds" where
  "Bounds e = \<lparr>bdMin = enMin e, bdHasMin = enHasMin e, bdMax = enMax e, bdHasMax = enHasMax e,
     bdStep = enStepSize e, bdHasStep = enHasStep e\<rparr>"

text \<open>The seven conditional assignments of \<open>update\<close>, in the code's order.\<close>

definition update_value :: "(any \<Rightarrow> string) \<Rightarrow> obj \<Rightarrow> entity \<Rightarrow> entity" where
  "update_value fmt item e = (case map_of item ''value'' of
      Some v \<Rightarrow> (let r = castValue fmt (eProtocolType (enDesc e)) v in
        e\<lparr>enValueRaw := r, enValueShadow := r, enHasValue := True\<rparr>)
    | None \<Rightarrow> e)"

definition update_access :: "(string \<Rightarrow> string) \<Rightarrow> obj \<Rightarrow> entity \<Rightarrow> entity" where
  "update_access u item e = (case map_of item ''access'' of
      Some (VStr s) \<Rightarrow> e\<lparr>enAccess := to_lower u s\<rparr> | _ \<Rightarrow> e)"

definition update_available :: "obj \<Rightarrow> entity \<Rightarrow> entity" where
  "update_available item e = (case map_of item ''available'' of
      Some v \<Rightarrow> e\<lparr>enAvailable := convertBool v\<rparr> | None \<Rightarrow> e)"

definition item_float :: "obj \<Rightarrow> string \<Rightarrow> f64 option" where
  "item_float item k = (case map_of item k of Some v \<Rightarrow> asFloat v | None \<Rightarrow> None)"

definition update_bounds :: "obj \<Rightarrow> entity \<Rightarrow> entity" where
  "update_bounds item e =
     (let e1 = (case item_float item ''min'' of Some f \<Rightarrow> e\<lparr>enHasMin := True, enMin := f\<rparr> | None \<Rightarrow> e);
          e2 = (case item_float item ''max'' of Some f \<Rightarrow> e1\<lparr>enHasMax := True, enMax := f\<rparr> | None \<Rightarrow> e1)
      in (case item_float item ''stepSize'' of
            Some f \<Rightarrow> e2\<lparr>enHasStep := True, enStepSize := f\<rparr> | None \<Rightarrow> e2))"

definition update_execution :: "(string \<Rightarrow> string) \<Rightarrow> obj \<Rightarrow> entity \<Rightarrow> entity" where
  "update_execution u item e = (case map_of item ''execution'' of
      Some (VStr s) \<Rightarrow> e\<lparr>enExecution := to_lower u s\<rparr> | _ \<Rightarrow> e)"

definition update :: "(any \<Rightarrow> string) \<Rightarrow> (string \<Rightarrow> string) \<Rightarrow> entity \<Rightarrow> obj \<Rightarrow> entity" where
  "update fmt u e item =
     update_execution u item (update_bounds item (update_available item (update_access u item
       (update_value fmt item e))))"

datatype write_error = NotEnumMember string | NotAnInteger any | NotANumber any

definition resolveWriteValue :: "(string \<Rightarrow> string) \<Rightarrow> entity \<Rightarrow> any \<Rightarrow> write_error + any" where
  "resolveWriteValue u e v =
     (let typed = (case eProtocolType (enDesc e) of
            ProtocolBoolean \<Rightarrow> Inr (VBool (convertBool v))
          | ProtocolInteger \<Rightarrow> (case asInt v of Some iv \<Rightarrow> Inr (VInt iv) | None \<Rightarrow> Inl (NotAnInteger v))
          | ProtocolFloat \<Rightarrow> (case asFloat v of
                None \<Rightarrow> Inl (NotANumber v)
              | Some f \<Rightarrow>
                  if enHasStep e \<and> enStepSize e = Fin 1 \<and> f = int_to_f64 (f64_to_int f)
                  then Inr (VInt64 (f64_to_int f)) else Inr (VFloat f))
          | ProtocolString \<Rightarrow> Inr v
          | ProtocolObject \<Rightarrow> Inr v
          | ProtocolOther _ \<Rightarrow> Inr v)
      in if IsEnum (enDesc e) then
           (case v of
              VStr s \<Rightarrow>
                (case enRevEnum e (to_lower u s) of
                   Some iv \<Rightarrow> Inr (VInt iv)
                 | None \<Rightarrow>
                     (case atoi (trim_space s) of
                        Some iv \<Rightarrow> Inr (VInt iv) | None \<Rightarrow> Inl (NotEnumMember s)))
            | _ \<Rightarrow> typed)
         else typed)"

section \<open>What every entity of a description keeps\<close>

text \<open>The reverse enumeration is the one built from the entry, through every update.\<close>

definition entity_ok :: "(string \<Rightarrow> string) \<Rightarrow> entity \<Rightarrow> bool" where
  "entity_ok u e \<longleftrightarrow>
     enRevEnum e = (if IsEnum (enDesc e) then rev_enum u (eEnumeration (enDesc e)) Map.empty else Map.empty)"

lemma entity_ok_new: "entity_ok u (newEntity u d)"
  by (simp add: entity_ok_def newEntity_def)

lemma update_value_fields [simp]:
  "enDesc (update_value fmt item e) = enDesc e"
  "enAccess (update_value fmt item e) = enAccess e"
  "enAvailable (update_value fmt item e) = enAvailable e"
  "enHasMin (update_value fmt item e) = enHasMin e"
  "enMin (update_value fmt item e) = enMin e"
  "enHasMax (update_value fmt item e) = enHasMax e"
  "enMax (update_value fmt item e) = enMax e"
  "enHasStep (update_value fmt item e) = enHasStep e"
  "enStepSize (update_value fmt item e) = enStepSize e"
  "enExecution (update_value fmt item e) = enExecution e"
  "enRevEnum (update_value fmt item e) = enRevEnum e"
  by (simp_all add: update_value_def Let_def split: option.split)

lemma update_access_fields [simp]:
  "enDesc (update_access u item e) = enDesc e"
  "enHasValue (update_access u item e) = enHasValue e"
  "enValueRaw (update_access u item e) = enValueRaw e"
  "enValueShadow (update_access u item e) = enValueShadow e"
  "enAvailable (update_access u item e) = enAvailable e"
  "enHasMin (update_access u item e) = enHasMin e"
  "enMin (update_access u item e) = enMin e"
  "enHasMax (update_access u item e) = enHasMax e"
  "enMax (update_access u item e) = enMax e"
  "enHasStep (update_access u item e) = enHasStep e"
  "enStepSize (update_access u item e) = enStepSize e"
  "enExecution (update_access u item e) = enExecution e"
  "enRevEnum (update_access u item e) = enRevEnum e"
  by (simp_all add: update_access_def split: option.split any.split)

lemma update_available_fields [simp]:
  "enDesc (update_available item e) = enDesc e"
  "enHasValue (update_available item e) = enHasValue e"
  "enValueRaw (update_available item e) = enValueRaw e"
  "enValueShadow (update_available item e) = enValueShadow e"
  "enAccess (update_available item e) = enAccess e"
  "enHasMin (update_available item e) = enHasMin e"
  "enMin (update_available item e) = enMin e"
  "enHasMax (update_available item e) = enHasMax e"
  "enMax (update_available item e) = enMax e"
  "enHasStep (update_available item e) = enHasStep e"
  "enStepSize (update_available item e) = enStepSize e"
  "enExecution (update_available item e) = enExecution e"
  "enRevEnum (update_available item e) = enRevEnum e"
  by (simp_all add: update_available_def split: option.split)

lemma update_bounds_fields [simp]:
  "enDesc (update_bounds item e) = enDesc e"
  "enHasValue (update_bounds item e) = enHasValue e"
  "enValueRaw (update_bounds item e) = enValueRaw e"
  "enValueShadow (update_bounds item e) = enValueShadow e"
  "enAccess (update_bounds item e) = enAccess e"
  "enAvailable (update_bounds item e) = enAvailable e"
  "enExecution (update_bounds item e) = enExecution e"
  "enRevEnum (update_bounds item e) = enRevEnum e"
  by (simp_all add: update_bounds_def Let_def split: option.split)

lemma update_execution_fields [simp]:
  "enDesc (update_execution u item e) = enDesc e"
  "enHasValue (update_execution u item e) = enHasValue e"
  "enValueRaw (update_execution u item e) = enValueRaw e"
  "enValueShadow (update_execution u item e) = enValueShadow e"
  "enAccess (update_execution u item e) = enAccess e"
  "enAvailable (update_execution u item e) = enAvailable e"
  "enHasMin (update_execution u item e) = enHasMin e"
  "enMin (update_execution u item e) = enMin e"
  "enHasMax (update_execution u item e) = enHasMax e"
  "enMax (update_execution u item e) = enMax e"
  "enHasStep (update_execution u item e) = enHasStep e"
  "enStepSize (update_execution u item e) = enStepSize e"
  "enRevEnum (update_execution u item e) = enRevEnum e"
  by (simp_all add: update_execution_def split: option.split any.split)

lemma update_static [simp]:
  "enDesc (update fmt u e item) = enDesc e" "enRevEnum (update fmt u e item) = enRevEnum e"
  by (simp_all add: update_def)

lemma entity_ok_update: "entity_ok u e \<Longrightarrow> entity_ok u (update fmt u e item)"
  by (simp add: entity_ok_def)

lemma update_raw:
  "enValueRaw (update fmt u e item) = (case map_of item ''value'' of
      Some v \<Rightarrow> castValue fmt (eProtocolType (enDesc e)) v | None \<Rightarrow> enValueRaw e)"
  "enValueShadow (update fmt u e item) = (case map_of item ''value'' of
      Some v \<Rightarrow> castValue fmt (eProtocolType (enDesc e)) v | None \<Rightarrow> enValueShadow e)"
  "enHasValue (update fmt u e item) \<longleftrightarrow> enHasValue e \<or> map_of item ''value'' \<noteq> None"
  by (simp_all add: update_def, simp_all add: update_value_def Let_def split: option.split)

lemma update_mode:
  "enAccess (update fmt u e item) = (case map_of item ''access'' of
      Some (VStr s) \<Rightarrow> to_lower u s | _ \<Rightarrow> enAccess e)"
  "enAvailable (update fmt u e item) = (case map_of item ''available'' of
      Some v \<Rightarrow> convertBool v | None \<Rightarrow> enAvailable e)"
  "enExecution (update fmt u e item) = (case map_of item ''execution'' of
      Some (VStr s) \<Rightarrow> to_lower u s | _ \<Rightarrow> enExecution e)"
  by (simp_all add: update_def, simp add: update_access_def split: option.split any.split,
      simp add: update_available_def split: option.split,
      simp add: update_execution_def split: option.split any.split)

lemma update_limits:
  "enHasMin (update fmt u e item) \<longleftrightarrow> enHasMin e \<or> item_float item ''min'' \<noteq> None"
  "enMin (update fmt u e item) = (case item_float item ''min'' of Some f \<Rightarrow> f | None \<Rightarrow> enMin e)"
  "enHasMax (update fmt u e item) \<longleftrightarrow> enHasMax e \<or> item_float item ''max'' \<noteq> None"
  "enMax (update fmt u e item) = (case item_float item ''max'' of Some f \<Rightarrow> f | None \<Rightarrow> enMax e)"
  "enHasStep (update fmt u e item) \<longleftrightarrow> enHasStep e \<or> item_float item ''stepSize'' \<noteq> None"
  "enStepSize (update fmt u e item) = (case item_float item ''stepSize'' of Some f \<Rightarrow> f | None \<Rightarrow> enStepSize e)"
  by (simp_all add: update_def, simp_all add: update_bounds_def Let_def split: option.split)

lemma rev_enum_find:
  "rev_enum u es m k =
     (case find (\<lambda>p. to_lower u (snd p) = k) (rev es) of Some p \<Rightarrow> Some (fst p) | None \<Rightarrow> m k)"
proof (induction es arbitrary: m)
  case Nil
  then show ?case by simp
next
  case (Cons p es)
  obtain v name where "p = (v, name)" by (cases p)
  then show ?case by (simp add: Cons.IH find_snoc split: option.split)
qed

lemma find_in: "find P xs = Some x \<Longrightarrow> x \<in> set xs \<and> P x"
  by (induction xs) (auto split: if_splits)

lemma rev_enum_mem:
  assumes "rev_enum u es Map.empty k = Some v"
  shows "\<exists>name. (v, name) \<in> set es \<and> to_lower u name = k"
proof -
  from assms obtain p where "find (\<lambda>p. to_lower u (snd p) = k) (rev es) = Some p" "fst p = v"
    by (auto simp: rev_enum_find split: option.splits)
  with find_in [OF this(1)] show ?thesis by (cases p) auto
qed

lemma rev_enum_value:
  assumes "entity_ok u e" and "distinct (List.map fst (eEnumeration (enDesc e)))"
    and "enRevEnum e (to_lower u s) = Some iv"
  shows "\<exists>name. map_of (eEnumeration (enDesc e)) iv = Some name \<and> to_lower u name = to_lower u s"
proof -
  have "rev_enum u (eEnumeration (enDesc e)) Map.empty (to_lower u s) = Some iv"
    using assms(1,3) by (simp add: entity_ok_def split: if_splits)
  from rev_enum_mem [OF this] obtain name
    where "(iv, name) \<in> set (eEnumeration (enDesc e))" "to_lower u name = to_lower u s" by blast
  with map_of_is_SomeI [OF assms(2)] show ?thesis by blast
qed

lemma cast_int [simp]: "castValue fmt ProtocolInteger (VInt n) = VInt n"
  by (simp add: castValue_def asInt_def)

section \<open>Properties\<close>

lemma asFloat_int [simp]:
  "asFloat (VInt64 n) = Some (int_to_f64 n)" "asFloat (VInt n) = Some (int_to_f64 n)"
  "asFloat (VFloat f) = Some f"
  by (simp_all add: asFloat_def)

text \<open>The reply of the appliance to a write of the integer \<open>n\<close>: a JSON number.\<close>

definition echo :: "int \<Rightarrow> obj" where
  "echo n = [(''value'', VFloat (int_to_f64 n))]"

lemma asInt_echo:
  assumes "\<bar>n\<bar> < 2 ^ 53"
  shows "asInt (VFloat (int_to_f64 n)) = Some n"
proof -
  have "in_int64 n" using assms by (auto simp: in_int64_def int64_min_def int64_max_def)
  then show ?thesis using assms by (simp add: asInt_def int_to_f64_exact f64_to_int_of_int del: f64_to_int.simps)
qed

text \<open>
  The value the feature's wire type lets through: a string feature keeps the text \<^verbatim>\<open>fmt.Sprint\<close> prints of the
  number, which \<^verbatim>\<open>strconv.ParseFloat\<close> reads back (documented of both, and false of a printer that rounds), a
  Boolean feature keeps only whether the number is zero, every other type keeps the number.
\<close>

definition prints_number :: "(any \<Rightarrow> string) \<Rightarrow> int \<Rightarrow> bool" where
  "prints_number fmt n \<longleftrightarrow> parse_float (trim_space (fmt (VFloat (int_to_f64 n)))) = Some (int_to_f64 n)"

definition code_kept :: "protocol_type \<Rightarrow> int \<Rightarrow> int" where
  "code_kept pt n = (if pt = ProtocolBoolean then (if n = 0 then 0 else 1) else n)"

lemma asInt_cast_echo:
  assumes "\<bar>n\<bar> < 2 ^ 53" and "pt = ProtocolString \<Longrightarrow> prints_number fmt n"
  shows "asInt (castValue fmt pt (VFloat (int_to_f64 n))) = Some (code_kept pt n)"
proof -
  have x: "int_to_f64 n = Fin (of_int n)" by (rule int_to_f64_exact [OF assms(1)])
  have f: "f64_to_int (int_to_f64 n) = n" using asInt_echo [OF assms(1)] by (simp add: asInt_def)
  show ?thesis
  proof (cases pt)
    case ProtocolString
    with assms(2) f show ?thesis
      by (simp add: castValue_def toString_def sprint_def asInt_def prints_number_def code_kept_def)
  qed (use f x in \<open>simp_all add: castValue_def asInt_def convertBool_def code_kept_def f64_nonzero_def\<close>)
qed

text \<open>
  C11. Writing an enumeration member by its display name, in any case, and receiving the appliance's
  report of the written value shows that member again, whatever the wire type of the feature is: whatever
  name the reverse table accepts, the write sends the value of a member with that name up to case, and
  after the report the entity displays it. Three conditions on the description and the printer: the
  enumeration has one name per value; the values are codes that a JSON number carries exactly; and, for a
  feature typed as a string, that \<^verbatim>\<open>fmt.Sprint\<close> prints these codes so that they read back. The one exception
  is a feature typed as a Boolean, which keeps of the code only whether it is zero: it displays the member
  of the code 0 or 1 then, so what was written is shown again when its code is one of the two, and another
  member, or the raw value, when it is not.
\<close>

theorem enum_write_echo:
  assumes "entity_ok u e" and "distinct (List.map fst (eEnumeration (enDesc e)))"
    and "\<forall>p\<in>set (eEnumeration (enDesc e)). \<bar>fst p\<bar> < 2 ^ 53"
    and "eProtocolType (enDesc e) = ProtocolString \<longrightarrow> (\<forall>p\<in>set (eEnumeration (enDesc e)). prints_number fmt (fst p))"
    and "HasEnumName u e s"
  shows "\<exists>iv name. resolveWriteValue u e (VStr s) = Inr (VInt iv)
     \<and> map_of (eEnumeration (enDesc e)) iv = Some name \<and> to_lower u name = to_lower u s
     \<and> Value (update fmt u e (echo iv)) =
         (if eProtocolType (enDesc e) = ProtocolBoolean \<and> iv \<notin> {0, 1}
          then (case map_of (eEnumeration (enDesc e)) 1 of Some other \<Rightarrow> VStr other | None \<Rightarrow> VBool True)
          else VStr name)"
proof -
  from assms(5) obtain iv where iv: "enRevEnum e (to_lower u s) = Some iv"
    by (auto simp: HasEnumName_def)
  from rev_enum_value [OF assms(1,2) this] obtain name
    where name: "map_of (eEnumeration (enDesc e)) iv = Some name" "to_lower u name = to_lower u s" by blast
  have en: "IsEnum (enDesc e)" using name(1) by (auto simp: IsEnum_def)
  have m: "(iv, name) \<in> set (eEnumeration (enDesc e))" by (rule map_of_SomeD [OF name(1)])
  have b: "\<bar>iv\<bar> < 2 ^ 53" using assms(3) m by fastforce
  let ?pt = "eProtocolType (enDesc e)"
  have "prints_number fmt iv" if "?pt = ProtocolString" using assms(4) m that by fastforce
  then have c: "asInt (castValue fmt ?pt (VFloat (int_to_f64 iv))) = Some (code_kept ?pt iv)"
    by (rule asInt_cast_echo [OF b])
  have raw: "castValue fmt ProtocolBoolean (VFloat (int_to_f64 iv)) = VBool True" if "iv \<noteq> 0"
    using that int_to_f64_exact [OF b] by (simp add: castValue_def convertBool_def f64_nonzero_def)
  have "resolveWriteValue u e (VStr s) = Inr (VInt iv)"
    using en iv by (simp add: resolveWriteValue_def)
  moreover have "Value (update fmt u e (echo iv)) =
      (if ?pt = ProtocolBoolean \<and> iv \<notin> {0, 1}
       then (case map_of (eEnumeration (enDesc e)) 1 of Some other \<Rightarrow> VStr other | None \<Rightarrow> VBool True)
       else VStr name)"
    using en name(1) c raw by (auto simp: Value_def update_raw echo_def code_kept_def split: option.split)
  ultimately show ?thesis using name by blast
qed

text \<open>
  A write is refused or sends a value of the feature's wire type: an accepted value is an
  integer when a string was given for an enumeration, and otherwise a boolean for a boolean
  feature, an integer for an integer feature, and for a float feature the number that was given,
  in the integer form exactly when the feature steps by one and the number is a whole one.
\<close>

theorem resolveWriteValue_typed:
  assumes "resolveWriteValue u e v = Inr w"
  shows "(IsEnum (enDesc e) \<and> (\<exists>s. v = VStr s) \<longrightarrow> (\<exists>n. w = VInt n))
     \<and> (\<not> (IsEnum (enDesc e) \<and> (\<exists>s. v = VStr s)) \<longrightarrow>
          (case eProtocolType (enDesc e) of
             ProtocolBoolean \<Rightarrow> w = VBool (convertBool v)
           | ProtocolInteger \<Rightarrow> (\<exists>n. w = VInt n \<and> asInt v = Some n)
           | ProtocolFloat \<Rightarrow> asFloat w = asFloat v \<and>
               ((\<exists>n. w = VInt64 n) \<longleftrightarrow> enHasStep e \<and> enStepSize e = Fin 1 \<and>
                 (\<exists>n. asFloat v = Some (int_to_f64 n) \<and> n = f64_to_int (the (asFloat v))))
           | _ \<Rightarrow> w = v))"
proof (cases "IsEnum (enDesc e) \<and> (\<exists>s. v = VStr s)")
  case True
  with assms show ?thesis by (auto simp: resolveWriteValue_def split: option.splits)
next
  case False
  then have typed: "resolveWriteValue u e v = (case eProtocolType (enDesc e) of
            ProtocolBoolean \<Rightarrow> Inr (VBool (convertBool v))
          | ProtocolInteger \<Rightarrow> (case asInt v of Some iv \<Rightarrow> Inr (VInt iv) | None \<Rightarrow> Inl (NotAnInteger v))
          | ProtocolFloat \<Rightarrow> (case asFloat v of
                None \<Rightarrow> Inl (NotANumber v)
              | Some f \<Rightarrow>
                  if enHasStep e \<and> enStepSize e = Fin 1 \<and> f = int_to_f64 (f64_to_int f)
                  then Inr (VInt64 (f64_to_int f)) else Inr (VFloat f))
          | ProtocolString \<Rightarrow> Inr v
          | ProtocolObject \<Rightarrow> Inr v
          | ProtocolOther _ \<Rightarrow> Inr v)"
    by (cases v) (auto simp: resolveWriteValue_def Let_def)
  show ?thesis
  proof (cases "eProtocolType (enDesc e)")
    case ProtocolFloat
    with assms typed obtain f where f: "asFloat v = Some f" by (auto split: option.splits)
    with assms typed ProtocolFloat False show ?thesis by (auto split: if_splits)
  qed (use assms typed False in \<open>auto split: option.splits\<close>)
qed

text \<open>
  Receiving a notification twice is receiving it once.
\<close>

theorem update_idempotent: "update fmt u (update fmt u e item) item = update fmt u e item"
  by (rule entity.equality)
    (simp_all add: update_raw update_mode update_limits split: option.split any.split)

section \<open>An example entity\<close>

definition power_state :: entity where
  "power_state = newEntity (\<lambda>s. s)
     (entry0\<lparr>eUID := 539, eName := ''BSH.Common.Setting.PowerState'', eKind := KindSetting,
        eProtocolType := ProtocolInteger, eAccess := ''readwrite'', eAvailable := True,
        eEnumeration := [(1, ''Off''), (2, ''On'')]\<rparr>)"

text \<open>A program selector, typed as a string, and a printer of whole numbers.\<close>

definition program_selector :: entity where
  "program_selector = newEntity (\<lambda>s. s)
     (entry0\<lparr>eUID := 256, eName := ''BSH.Common.Root.SelectedProgram'', eKind := KindSelectedProgram,
        eProtocolType := ProtocolString, eAccess := ''readwrite'', eAvailable := True,
        eEnumeration := [(8192, ''Eco50''), (8193, ''Auto'')]\<rparr>)"

definition whole_printer :: "any \<Rightarrow> string" where
  "whole_printer v = (case v of VFloat f \<Rightarrow> itoa (f64_to_int f) | _ \<Rightarrow> [])"

lemma whole_printer_prints:
  assumes "\<bar>n\<bar> < 2 ^ 53" and "trim_space (itoa n) = s" and "special_float s = None" and "read_float s = Some (of_int n)"
  shows "prints_number whole_printer n"
proof -
  have "f64_to_int (int_to_f64 n) = n" using asInt_echo [OF assms(1)] by (simp add: asInt_def)
  moreover have "round_f64 (of_int n) = Some (int_to_f64 n)"
    using int_to_f64_exact [OF assms(1)] by (simp add: int_to_f64_def split: option.splits)
  ultimately show ?thesis
    using assms(2-4) by (simp add: prints_number_def whole_printer_def parse_float_def)
qed

lemma enum_write_echo_witness:
  "(\<exists>iv. resolveWriteValue (\<lambda>s. s) power_state (VStr ''ON'') = Inr (VInt iv)
     \<and> Value (update whole_printer (\<lambda>s. s) power_state (echo iv)) = VStr ''On'')
   \<and> (\<exists>iv. resolveWriteValue (\<lambda>s. s) program_selector (VStr ''ECO50'') = Inr (VInt iv)
     \<and> Value (update whole_printer (\<lambda>s. s) program_selector (echo iv)) = VStr ''Eco50'')"
proof
  have h: "HasEnumName (\<lambda>s. s) power_state ''ON''" "resolveWriteValue (\<lambda>s. s) power_state (VStr ''ON'') = Inr (VInt 2)"
      "map_of (eEnumeration (enDesc power_state)) 2 = Some ''On''" "eProtocolType (enDesc power_state) = ProtocolInteger"
    by code_simp+
  have "entity_ok (\<lambda>s. s) power_state" by (simp add: power_state_def entity_ok_new)
  from enum_write_echo [OF this _ _ _ h(1), of whole_printer] h(2-4)
  show "\<exists>iv. resolveWriteValue (\<lambda>s. s) power_state (VStr ''ON'') = Inr (VInt iv)
      \<and> Value (update whole_printer (\<lambda>s. s) power_state (echo iv)) = VStr ''On''"
    by (simp add: power_state_def newEntity_def entry0_def)
next
  have h1: "HasEnumName (\<lambda>s. s) program_selector ''ECO50''" by code_simp
  have h2: "resolveWriteValue (\<lambda>s. s) program_selector (VStr ''ECO50'') = Inr (VInt 8192)" by code_simp
  have h3: "map_of (eEnumeration (enDesc program_selector)) 8192 = Some ''Eco50''" by code_simp
  have h4: "eProtocolType (enDesc program_selector) = ProtocolString" by code_simp
  have h5: "prints_number whole_printer 8192" and h6: "prints_number whole_printer 8193"
    by (rule whole_printer_prints, simp, code_simp, code_simp, code_simp)+
  have "entity_ok (\<lambda>s. s) program_selector" by (simp add: program_selector_def entity_ok_new)
  from enum_write_echo [OF this _ _ _ h1, of whole_printer] h2 h3 h4 h5 h6
  show "\<exists>iv. resolveWriteValue (\<lambda>s. s) program_selector (VStr ''ECO50'') = Inr (VInt iv)
      \<and> Value (update whole_printer (\<lambda>s. s) program_selector (echo iv)) = VStr ''Eco50''"
    by (simp add: program_selector_def newEntity_def entry0_def)
qed

lemma resolveWriteValue_typed_witness:
  "\<exists>n. resolveWriteValue (\<lambda>s. s) power_state (VStr '' 2 '') = Inr (VInt n) \<and> n = 2"
proof -
  have r: "resolveWriteValue (\<lambda>s. s) power_state (VStr '' 2 '') = Inr (VInt 2)" by code_simp
  have "IsEnum (enDesc power_state)" by code_simp
  with resolveWriteValue_typed [OF r] have "\<exists>n. VInt 2 = VInt n" by blast
  with r show ?thesis by simp
qed

end
