(* ===== verification/Session.thy ===== *)
theory Session
  imports Messages Crypto
begin

text \<open>
  The message session of \<^verbatim>\<open>internal/homeconnect/session.go\<close>: its state, the defaults given to
  outgoing messages, the handshake, the initialisation after it, and the life of one connection.

  A call that waits for the appliance ends in one of the outcomes the code distinguishes. The
  functions of this theory run one caller against a script of such outcomes (a value of \<open>net\<close>)
  and log every message handed to the socket; how the outcomes come about while several callers
  and the receive loop interleave is theory \<open>Session_Steps\<close>.
\<close>

section \<open>State and defaults\<close>

record session =
  sID :: int
  lastMsgID :: int
  serviceVersions :: "string \<rightharpoonup> int"
  pending :: "int \<rightharpoonup> nat"

definition session0 :: session where
  "session0 = \<lparr>sID = 0, lastMsgID = 0, serviceVersions = Map.empty, pending = Map.empty\<rparr>"

definition resetState :: "session \<Rightarrow> session" where
  "resetState s = s\<lparr>sID := 0, lastMsgID := 0, serviceVersions := Map.empty, pending := Map.empty\<rparr>"

definition serviceKey :: "string \<Rightarrow> string" where
  "serviceKey resource =
     (let r = (case cut_prefix ''/'' resource of Some t \<Rightarrow> t | None \<Rightarrow> resource) in
      if 2 \<le> length r then take 2 r else r)"

definition resolveDefaults :: "session \<Rightarrow> message \<Rightarrow> bool \<Rightarrow> session \<times> message" where
  "resolveDefaults s m assignMsgID =
     (let m1 = (if Version m = 0
            then m\<lparr>Version := (case serviceVersions s (serviceKey (Resource m)) of Some v \<Rightarrow> v | None \<Rightarrow> 1)\<rparr>
            else m);
          m2 = (if SID m1 = 0 then m1\<lparr>SID := sID s\<rparr> else m1)
      in if MsgID m2 = 0 \<and> assignMsgID
         then (s\<lparr>lastMsgID := wrap64 (lastMsgID s + 1)\<rparr>, m2\<lparr>MsgID := lastMsgID s\<rparr>)
         else (s, m2))"

fun storeServices :: "obj list \<Rightarrow> session \<Rightarrow> session" where
  "storeServices [] s = s"
| "storeServices (item # items) s =
     (let name = (case map_of item ''service'' of Some (VStr n) \<Rightarrow> n | _ \<Rightarrow> []) in
      if name = [] then storeServices items s
      else (let version = (case map_of item ''version'' of Some v \<Rightarrow> anyToInt v | None \<Rightarrow> 1) in
        storeServices items (s\<lparr>serviceVersions := (serviceVersions s)(name \<mapsto> version)\<rparr>)))"

section \<open>Errors\<close>

datatype session_error =
    SendFailed
  | ConnectionClosed
  | ResponseTimeout string int
  | Cancelled
  | CodeResponse int string
  | AwaitInitFailed
  | AwaitInitTimeout
  | EncodeFailed
  | RandomFailed
  | DialFailed

text \<open>A code in the response is an error, whichever code it is.\<close>

definition codeError :: "message \<Rightarrow> session_error option" where
  "codeError m = (case Code m of None \<Rightarrow> None | Some c \<Rightarrow> Some (CodeResponse c (Resource m)))"

definition tolerableInit :: "session_error \<Rightarrow> bool" where
  "tolerableInit e = (case e of CodeResponse c r \<Rightarrow> 500 \<le> c | _ \<Rightarrow> False)"

section \<open>Calls against a scripted peer\<close>

text \<open>How a call to the socket ends: the message could not be encoded or sent, it was sent and
  (for a request) the response arrived, the connection closed, the timeout passed or the context
  was cancelled. A script that has run out times out.\<close>

datatype outcome = NotSent session_error | Reply message | NoReply session_error

record net =
  script :: "outcome list"
  wire :: "message list"

definition next_outcome :: "message \<Rightarrow> net \<Rightarrow> outcome \<times> net" where
  "next_outcome m w =
     (case script w of
        [] \<Rightarrow> (NoReply (ResponseTimeout (Resource m) (MsgID m)), w\<lparr>wire := wire w @ [m]\<rparr>)
      | NotSent e # os \<Rightarrow> (NotSent e, w\<lparr>script := os\<rparr>)
      | out # os \<Rightarrow> (out, w\<lparr>script := os, wire := wire w @ [m]\<rparr>))"

definition send :: "message \<Rightarrow> session \<times> net \<Rightarrow> session_error option \<times> session \<times> net" where
  "send m = (\<lambda>(s, w).
     let (s', m') = resolveDefaults s m True;
         (out, w') = next_outcome m' w
     in (case out of NotSent e \<Rightarrow> Some e | _ \<Rightarrow> None, s', w'))"

text \<open>\<open>sendSync\<close> registers the request's id while it waits and removes it whichever way it
  returns; \<open>r\<close> is the number of the channel it waits on.\<close>

definition sendSync :: "nat \<Rightarrow> message \<Rightarrow> session \<times> net \<Rightarrow> (session_error + message) \<times> session \<times> net" where
  "sendSync r m = (\<lambda>(s, w).
     let (s1, m') = resolveDefaults s m True;
         s2 = s1\<lparr>pending := (pending s1)(MsgID m' \<mapsto> r)\<rparr>;
         (out, w') = next_outcome m' w;
         s3 = s2\<lparr>pending := (pending s2)(MsgID m' := None)\<rparr>
     in (case out of
           NotSent e \<Rightarrow> (Inl e, s3, w')
         | NoReply e \<Rightarrow> (Inl e, s3, w')
         | Reply resp \<Rightarrow>
             (case codeError resp of Some e \<Rightarrow> (Inl e, s3, w') | None \<Rightarrow> (Inr resp, s3, w'))))"

section \<open>Random identifiers\<close>

text \<open>The random bytes (\<open>None\<close>: the reader failed) are arguments.\<close>

definition randomNonce :: "byte list option \<Rightarrow> session_error + string" where
  "randomNonce rnd = (case rnd of None \<Rightarrow> Inl RandomFailed | Some buf \<Rightarrow> Inr (b64_encode buf))"

definition hexdigits :: string where
  "hexdigits = ''0123456789ABCDEF''"

definition randomHexID :: "byte list option \<Rightarrow> string option" where
  "randomHexID rnd = (case rnd of None \<Rightarrow> None
     | Some buf \<Rightarrow> Some (concat (List.map (\<lambda>b.
         [hexdigits ! unat (drop_bit 4 b), hexdigits ! unat (b AND 0x0F)]) buf)))"

record session_config =
  AppName :: string
  AppID :: string
  SendTimeout :: int
  HandshakeTimeout :: int
  Heartbeat :: int

definition second :: int where
  "second = 1000000000"

definition NewSession_config :: "session_config \<Rightarrow> session_config" where
  "NewSession_config c =
     (let c1 = (if SendTimeout c = 0 then c\<lparr>SendTimeout := 20 * second\<rparr> else c);
          c2 = (if HandshakeTimeout c1 = 0 then c1\<lparr>HandshakeTimeout := 60 * second\<rparr> else c1)
      in if AppName c2 = [] then c2\<lparr>AppName := ''go-homeconnect2mqtt''\<rparr> else c2)"

definition appID :: "session_config \<Rightarrow> byte list option \<Rightarrow> string" where
  "appID c rnd =
     (if AppID c \<noteq> [] then AppID c
      else (case randomHexID rnd of Some i \<Rightarrow> i | None \<Rightarrow> ''0000000000000000''))"

section \<open>Handshake\<close>

text \<open>What the first wait of the handshake ends with.\<close>

datatype await_init = GotInit message | RecvErr | InitTimeout | CtxDone

text \<open>Step 4: authentication for a \<^verbatim>\<open>ci\<close> service older than 3; an error of \<^verbatim>\<open>/ci/info\<close> is
  tolerated.\<close>

definition authenticate ::
  "byte list option \<Rightarrow> int \<Rightarrow> session \<times> net \<Rightarrow> session_error option \<times> session \<times> net" where
  "authenticate rndNonce ciVersion sw =
     (if 3 \<le> ciVersion then (None, sw)
      else (case randomNonce rndNonce of
          Inl e \<Rightarrow> (Some e, sw)
        | Inr nonce \<Rightarrow>
          (case sendSync 1 (request ''/ci/authentication'' ciVersion ActionGet
                [[(''nonce'', VStr nonce)]]) sw of
             (Inl e, sw') \<Rightarrow> (Some e, sw')
           | (Inr _, sw') \<Rightarrow> (None, snd (sendSync 2 (request ''/ci/info'' 0 ActionGet []) sw')))))"

text \<open>Steps 5 to 7: the optional requests, whose errors are tolerated.\<close>

definition optional_infos :: "int \<Rightarrow> session \<times> net \<Rightarrow> session \<times> net" where
  "optional_infos eiVersion sw =
     (let sw4 = (if serviceVersions (fst sw) ''iz'' \<noteq> None
            then snd (sendSync 3 (request ''/iz/info'' 0 ActionGet []) sw) else sw);
          sw5 = (if eiVersion = 2
            then snd (send (request ''/ei/deviceReady'' eiVersion ActionNotify []) sw4) else sw4)
      in if serviceVersions (fst sw5) ''ni'' \<noteq> None
         then snd (sendSync 4 (request ''/ni/info'' 0 ActionGet []) sw5) else sw5)"

text \<open>
  \<open>encodeInit\<close> is \<^verbatim>\<open>json.Marshal\<close> of the client identity (device type, name and id, in that
  order); \<open>rndID\<close> and \<open>rndNonce\<close> are the random bytes read for a missing app id and the nonce.
\<close>

definition init_response :: "message \<Rightarrow> string \<Rightarrow> message" where
  "init_response initMsg dat =
     (request ''/ei/initialValues'' (Version initMsg) ActionResponse [])
       \<lparr>SID := SID initMsg, MsgID := MsgID initMsg, orderedData := Some dat\<rparr>"

definition handshake ::
  "(any \<Rightarrow> string \<Rightarrow> string \<Rightarrow> string option) \<Rightarrow> session_config \<Rightarrow> byte list option \<Rightarrow> byte list option
   \<Rightarrow> await_init \<Rightarrow> session \<times> net \<Rightarrow> session_error option \<times> session \<times> net" where
  "handshake encodeInit cfg rndID rndNonce ini = (\<lambda>(s0, w0).
     case ini of
       RecvErr \<Rightarrow> (Some AwaitInitFailed, s0, w0)
     | InitTimeout \<Rightarrow> (Some AwaitInitTimeout, s0, w0)
     | CtxDone \<Rightarrow> (Some Cancelled, s0, w0)
     | GotInit initMsg \<Rightarrow>
       (let s = s0\<lparr>sID := SID initMsg, lastMsgID := firstInt (Data initMsg) ''edMsgID''\<rparr>;
            eiVersion = Version initMsg;
            deviceType = (if eiVersion = 1 then VInt 2 else VStr ''Application'')
        in case encodeInit deviceType (AppName cfg) (appID cfg rndID) of
             None \<Rightarrow> (Some EncodeFailed, s, w0)
           | Some dat \<Rightarrow>
         (case send (init_response initMsg dat) (s, w0) of
            (Some e, sw1) \<Rightarrow> (Some e, sw1)
          | (None, sw1) \<Rightarrow>
         (case sendSync 0 (request ''/ci/services'' 1 ActionGet []) sw1 of
            (Inl e, sw2) \<Rightarrow> (Some e, sw2)
          | (Inr servicesResp, s2', w2) \<Rightarrow>
         (let s2 = storeServices (Data servicesResp) s2';
              ciVersion = (case serviceVersions s2 ''ci'' of Some v \<Rightarrow> v | None \<Rightarrow> 0)
          in case authenticate rndNonce ciVersion (s2, w2) of
               (Some e, sw3) \<Rightarrow> (Some e, sw3)
             | (None, sw3) \<Rightarrow> (None, optional_infos eiVersion sw3))))))"

definition PostConnectInit ::
  "session \<times> net \<Rightarrow> (session_error + message option \<times> message option) \<times> session \<times> net" where
  "PostConnectInit sw =
     (let (r1, sw1) = sendSync 5 (request ''/ro/allDescriptionChanges'' 0 ActionGet []) sw in
      case (case r1 of Inr m \<Rightarrow> Inr (Some m) | Inl e \<Rightarrow> if tolerableInit e then Inr None else Inl e) of
        Inl e \<Rightarrow> (Inl e, sw1)
      | Inr descChanges \<Rightarrow>
          (let (r2, sw2) = sendSync 6 (request ''/ro/allMandatoryValues'' 0 ActionGet []) sw1 in
           case r2 of
             Inr m \<Rightarrow> (Inr (descChanges, Some m), sw2)
           | Inl e \<Rightarrow> if tolerableInit e then (Inr (descChanges, None), sw2) else (Inl e, sw2)))"

definition WriteValues :: "obj list \<Rightarrow> session \<times> net \<Rightarrow> (session_error + message) \<times> session \<times> net" where
  "WriteValues dat = sendSync 7 (request ''/ro/values'' 0 ActionPost dat)"

definition SendRaw :: "message \<Rightarrow> session \<times> net \<Rightarrow> (session_error + message) \<times> session \<times> net" where
  "SendRaw m = sendSync 8 m"

section \<open>The life of a connection\<close>

text \<open>Beside the session: whether a connection is current, its socket open, its receive loop and
  its heartbeat probe running.\<close>

record conn =
  cnSession :: session
  cnNet :: net
  cnCur :: bool
  cnSocket :: bool
  cnLoop :: bool
  cnHeartbeat :: bool

text \<open>Both goroutines are joined before it returns.\<close>

definition teardownCurrent :: "conn \<Rightarrow> conn" where
  "teardownCurrent c =
     (if \<not> cnCur c then c
      else c\<lparr>cnCur := False, cnSocket := False, cnLoop := False, cnHeartbeat := False\<rparr>)"

text \<open>\<open>hs\<close> is the handshake with its arguments, \<open>dialled\<close> whether the socket connected.\<close>

definition Connect ::
  "session_config \<Rightarrow> (session \<times> net \<Rightarrow> session_error option \<times> session \<times> net) \<Rightarrow> bool \<Rightarrow> conn
   \<Rightarrow> session_error option \<times> conn" where
  "Connect cfg hs dialled c =
     (let c1 = teardownCurrent c in
      if \<not> dialled then (Some DialFailed, c1)
      else (let c2 = c1\<lparr>cnSocket := True, cnSession := resetState (cnSession c1)\<rparr>;
                c3 = c2\<lparr>cnCur := True, cnLoop := True\<rparr>;
                (err, s, w) = hs (cnSession c3, cnNet c3);
                c4 = c3\<lparr>cnSession := s, cnNet := w\<rparr>
            in case err of
                 Some e \<Rightarrow> (Some e, teardownCurrent c4)
               | None \<Rightarrow> (None, if 0 < Heartbeat cfg then c4\<lparr>cnHeartbeat := True\<rparr> else c4)))"

text \<open>One round of the heartbeat probe: how its select ended, and for a tick how the ping did.\<close>

datatype beat = HbCtxDone | HbDropped | HbPingOk | HbPingFailed bool bool

text \<open>\<open>heartbeatLoop\<close> returns whether it closed the socket: on the first failed ping, unless
  the context was done or the connection had dropped by then. \<open>None\<close>: it is still probing.\<close>

fun heartbeatLoop :: "beat list \<Rightarrow> bool option" where
  "heartbeatLoop [] = None"
| "heartbeatLoop (HbCtxDone # bs) = Some False"
| "heartbeatLoop (HbDropped # bs) = Some False"
| "heartbeatLoop (HbPingOk # bs) = heartbeatLoop bs"
| "heartbeatLoop (HbPingFailed ctxDone dropped # bs) = Some (\<not> ctxDone \<and> \<not> dropped)"

text \<open>What runs belongs to the current connection.\<close>

definition conn_ok :: "conn \<Rightarrow> bool" where
  "conn_ok c \<longleftrightarrow> (cnSocket c \<or> cnLoop c \<or> cnHeartbeat c \<longrightarrow> cnCur c)"

section \<open>Message ids\<close>

fun ids_from :: "int \<Rightarrow> nat \<Rightarrow> int list" where
  "ids_from a 0 = []"
| "ids_from a (Suc n) = a # ids_from (wrap64 (a + 1)) n"

fun id_after :: "int \<Rightarrow> nat \<Rightarrow> int" where
  "id_after a 0 = a"
| "id_after a (Suc n) = id_after (wrap64 (a + 1)) n"

lemma ids_from_append: "ids_from a (m + n) = ids_from a m @ ids_from (id_after a m) n"
  by (induction m arbitrary: a) simp_all

lemma id_after_add: "id_after a (m + n) = id_after (id_after a m) n"
  by (induction m arbitrary: a) simp_all

lemma length_ids_from [simp]: "length (ids_from a n) = n"
  by (induction n arbitrary: a) simp_all

lemma ids_from_range:
  assumes "in_int64 a" and "in_int64 (a + int n)"
  shows "ids_from a n = List.map (\<lambda>i. a + int i) [0..<n]"
  using assms
proof (induction n arbitrary: a)
  case 0
  then show ?case by simp
next
  case (Suc n)
  then have "in_int64 (a + 1)" "in_int64 (a + 1 + int n)" by (auto simp: in_int64_def)
  with Suc.IH [of "a + 1"] have "ids_from (wrap64 (a + 1)) n = List.map (\<lambda>i. a + 1 + int i) [0..<n]"
    by (simp add: wrap64_id)
  then show ?case by (simp add: upt_conv_Cons map_Suc_upt [symmetric] comp_def del: upt_Suc)
qed

section \<open>What a run of requests leaves on the wire\<close>

definition no_failures :: "net \<Rightarrow> bool" where
  "no_failures w \<longleftrightarrow> (\<forall>e. NotSent e \<notin> set (script w))"

text \<open>
  From one state to the next, messages for the resources \<open>rs\<close> were written, each with the
  session's id and with the counter's ids one after another; nothing else of the session moved.
\<close>

definition wrote :: "string list \<Rightarrow> session \<times> net \<Rightarrow> session \<times> net \<Rightarrow> bool" where
  "wrote rs sw sw' \<longleftrightarrow>
     (\<exists>ms. wire (snd sw') = wire (snd sw) @ ms \<and> List.map Resource ms = rs
        \<and> List.map MsgID ms = ids_from (lastMsgID (fst sw)) (length rs)
        \<and> (\<forall>m\<in>set ms. SID m = sID (fst sw)))
   \<and> lastMsgID (fst sw') = id_after (lastMsgID (fst sw)) (length rs)
   \<and> sID (fst sw') = sID (fst sw)
   \<and> serviceVersions (fst sw') = serviceVersions (fst sw)
   \<and> no_failures (snd sw')"

lemma wrote_refl: "no_failures (snd sw) \<Longrightarrow> wrote [] sw sw"
  by (simp add: wrote_def)

lemma wrote_trans:
  assumes "wrote rs sw sw'" and "wrote rs' sw' sw''"
  shows "wrote (rs @ rs') sw sw''"
proof -
  from assms(1) obtain ms where ms: "wire (snd sw') = wire (snd sw) @ ms" "List.map Resource ms = rs"
    "List.map MsgID ms = ids_from (lastMsgID (fst sw)) (length rs)" "\<forall>m\<in>set ms. SID m = sID (fst sw)"
    by (auto simp: wrote_def)
  from assms(2) obtain ms' where ms': "wire (snd sw'') = wire (snd sw') @ ms'" "List.map Resource ms' = rs'"
    "List.map MsgID ms' = ids_from (lastMsgID (fst sw')) (length rs')" "\<forall>m\<in>set ms'. SID m = sID (fst sw')"
    by (auto simp: wrote_def)
  have "wire (snd sw'') = wire (snd sw) @ (ms @ ms') \<and> List.map Resource (ms @ ms') = rs @ rs'
      \<and> List.map MsgID (ms @ ms') = ids_from (lastMsgID (fst sw)) (length (rs @ rs'))
      \<and> (\<forall>m\<in>set (ms @ ms'). SID m = sID (fst sw))"
    using ms ms' assms(1) by (auto simp: wrote_def ids_from_append)
  then have "\<exists>ms. wire (snd sw'') = wire (snd sw) @ ms \<and> List.map Resource ms = rs @ rs'
      \<and> List.map MsgID ms = ids_from (lastMsgID (fst sw)) (length (rs @ rs'))
      \<and> (\<forall>m\<in>set ms. SID m = sID (fst sw))" by blast
  with assms show ?thesis by (simp add: wrote_def id_after_add)
qed

lemma next_outcome_wire:
  assumes "no_failures w"
  shows "\<exists>out w'. next_outcome m w = (out, w') \<and> wire w' = wire w @ [m] \<and> no_failures w'
     \<and> (\<forall>e. out \<noteq> NotSent e)"
  using assms by (auto simp: next_outcome_def no_failures_def split: list.split outcome.split)

lemma resolve_request:
  assumes "SID m = 0 \<or> SID m = sID s" and "MsgID m = 0"
  shows "\<exists>m'. resolveDefaults s m True = (s\<lparr>lastMsgID := wrap64 (lastMsgID s + 1)\<rparr>, m')
     \<and> MsgID m' = lastMsgID s \<and> SID m' = sID s \<and> Resource m' = Resource m"
  using assms by (auto simp: resolveDefaults_def Let_def)

lemma resolve_preset:
  assumes "MsgID m \<noteq> 0" and "SID m = sID s"
  shows "\<exists>m'. resolveDefaults s m b = (s, m') \<and> MsgID m' = MsgID m \<and> SID m' = SID m
     \<and> Resource m' = Resource m \<and> Action m' = Action m \<and> orderedData m' = orderedData m"
  using assms by (auto simp: resolveDefaults_def Let_def)

lemma send_wrote:
  assumes "no_failures (snd sw)" and "SID m = 0 \<or> SID m = sID (fst sw)" and "MsgID m = 0"
  shows "fst (send m sw) = None \<and> wrote [Resource m] sw (snd (send m sw))"
proof -
  obtain s w where sw: "sw = (s, w)" by (cases sw)
  obtain m' where m': "resolveDefaults s m True = (s\<lparr>lastMsgID := wrap64 (lastMsgID s + 1)\<rparr>, m')"
    "MsgID m' = lastMsgID s" "SID m' = sID s" "Resource m' = Resource m"
    using resolve_request [of m s] assms(2,3) sw by auto
  obtain out w' where w': "next_outcome m' w = (out, w')" "wire w' = wire w @ [m']" "no_failures w'"
    "\<forall>e. out \<noteq> NotSent e"
    using next_outcome_wire [of w m'] assms(1) sw by auto
  then show ?thesis using m' by (cases out) (simp_all add: sw send_def wrote_def)
qed

lemma sendSync_wrote:
  assumes "no_failures (snd sw)" and "SID m = 0 \<or> SID m = sID (fst sw)" and "MsgID m = 0"
  shows "wrote [Resource m] sw (snd (sendSync r m sw))"
proof -
  obtain s w where sw: "sw = (s, w)" by (cases sw)
  obtain m' where m': "resolveDefaults s m True = (s\<lparr>lastMsgID := wrap64 (lastMsgID s + 1)\<rparr>, m')"
    "MsgID m' = lastMsgID s" "SID m' = sID s" "Resource m' = Resource m"
    using resolve_request [of m s] assms(2,3) sw by auto
  obtain out w' where w': "next_outcome m' w = (out, w')" "wire w' = wire w @ [m']" "no_failures w'"
    using next_outcome_wire [of w m'] assms(1) sw by auto
  then show ?thesis using m' by (cases out) (simp_all add: sw sendSync_def wrote_def Let_def split: option.split)
qed

text \<open>Whatever happens, a request writes at most one message, with its own content, and exactly one
  when it is answered.\<close>

lemma sendSync_wire:
  "\<exists>ms. wire (snd (snd (sendSync r m sw))) = wire (snd sw) @ ms \<and> length ms \<le> 1
     \<and> (\<forall>x\<in>set ms. Resource x = Resource m \<and> Action x = Action m \<and> Data x = Data m)
     \<and> (\<not> isl (fst (sendSync r m sw)) \<longrightarrow> length ms = 1)"
proof -
  obtain s w where sw: "sw = (s, w)" by (cases sw)
  obtain s1 m' where m': "resolveDefaults s m True = (s1, m')" by (cases "resolveDefaults s m True")
  then have same: "Resource m' = Resource m" "Action m' = Action m" "Data m' = Data m"
    by (auto simp: resolveDefaults_def Let_def split: if_splits)
  obtain out w' where o: "next_outcome m' w = (out, w')" by (cases "next_outcome m' w")
  show ?thesis
  proof (cases "\<exists>e. out = NotSent e")
    case True
    with o have "wire w' = wire w" by (auto simp: next_outcome_def split: list.splits outcome.splits)
    with True o m' sw show ?thesis by (auto simp: sendSync_def Let_def)
  next
    case False
    with o have "wire w' = wire w @ [m']" by (auto simp: next_outcome_def split: list.splits outcome.splits)
    then have "wire (snd (snd (sendSync r m sw))) = wire (snd sw) @ [m']"
      using o m' sw by (simp add: sendSync_def Let_def split: outcome.split option.split)
    with same show ?thesis by (intro exI [of _ "[m']"]) simp
  qed
qed

lemma storeServices_keeps [simp]:
  "sID (storeServices items s) = sID s" "lastMsgID (storeServices items s) = lastMsgID s"
  "pending (storeServices items s) = pending s"
  by (induction items s rule: storeServices.induct) (simp_all add: Let_def)

lemma request_fields [simp]:
  "SID (request r v a d) = 0" "MsgID (request r v a d) = 0" "Resource (request r v a d) = r"
  "Version (request r v a d) = v" "Action (request r v a d) = a"
  by (simp_all add: request_def)

section \<open>The handshake on the wire\<close>

definition auth_resources :: "int \<Rightarrow> string list" where
  "auth_resources ciVersion = (if 3 \<le> ciVersion then [] else [''/ci/authentication'', ''/ci/info''])"

definition optional_resources :: "int \<Rightarrow> (string \<rightharpoonup> int) \<Rightarrow> string list" where
  "optional_resources eiVersion services =
     (if services ''iz'' \<noteq> None then [''/iz/info''] else [])
   @ (if eiVersion = 2 then [''/ei/deviceReady''] else [])
   @ (if services ''ni'' \<noteq> None then [''/ni/info''] else [])"

lemma wroteD:
  assumes "wrote rs sw sw'"
  shows "no_failures (snd sw')" and "serviceVersions (fst sw') = serviceVersions (fst sw)"
    and "sID (fst sw') = sID (fst sw)"
  using assms by (auto simp: wrote_def)

lemma authenticate_wrote:
  assumes "no_failures (snd sw)" and "authenticate rndNonce ciVersion sw = (None, sw')"
  shows "wrote (auth_resources ciVersion) sw sw'"
proof (cases "3 \<le> ciVersion")
  case True
  with assms show ?thesis by (simp add: authenticate_def auth_resources_def wrote_refl)
next
  case False
  with assms(2) obtain nonce resp sw1
    where r: "sendSync 1 (request ''/ci/authentication'' ciVersion ActionGet [[(''nonce'', VStr nonce)]]) sw = (Inr resp, sw1)"
      and sw': "sw' = snd (sendSync 2 (request ''/ci/info'' 0 ActionGet []) sw1)"
    by (auto simp: authenticate_def split: sum.splits prod.splits)
  have 1: "wrote [''/ci/authentication''] sw sw1"
    using sendSync_wrote [OF assms(1), of "request ''/ci/authentication'' ciVersion ActionGet [[(''nonce'', VStr nonce)]]" 1] r
    by simp
  have 2: "wrote [''/ci/info''] sw1 sw'"
    using sendSync_wrote [OF wroteD(1) [OF 1], of "request ''/ci/info'' 0 ActionGet []" 2] sw' by simp
  from wrote_trans [OF 1 2] False show ?thesis by (simp add: auth_resources_def)
qed

lemma wrote_if:
  assumes "c \<Longrightarrow> wrote rs sw sw'" and "no_failures (snd sw)"
  shows "wrote (if c then rs else []) sw (if c then sw' else sw)"
  using assms wrote_refl by simp

lemma optional_infos_wrote:
  assumes "no_failures (snd sw)"
  shows "wrote (optional_resources eiVersion (serviceVersions (fst sw))) sw (optional_infos eiVersion sw)"
proof -
  define sw4 where "sw4 = (if serviceVersions (fst sw) ''iz'' \<noteq> None
     then snd (sendSync 3 (request ''/iz/info'' 0 ActionGet []) sw) else sw)"
  define sw5 where "sw5 = (if eiVersion = 2
     then snd (send (request ''/ei/deviceReady'' eiVersion ActionNotify []) sw4) else sw4)"
  have 4: "wrote (if serviceVersions (fst sw) ''iz'' \<noteq> None then [''/iz/info''] else []) sw sw4"
    unfolding sw4_def using assms sendSync_wrote [OF assms, of "request ''/iz/info'' 0 ActionGet []" 3]
    by (intro wrote_if) simp_all
  note n4 = wroteD(1) [OF 4]
  have 5: "wrote (if eiVersion = 2 then [''/ei/deviceReady''] else []) sw4 sw5"
    unfolding sw5_def using n4 send_wrote [OF n4, of "request ''/ei/deviceReady'' eiVersion ActionNotify []"]
    by (intro wrote_if) simp_all
  note n5 = wroteD(1) [OF 5]
  have s5: "serviceVersions (fst sw5) = serviceVersions (fst sw)"
    using wroteD(2) [OF 4] wroteD(2) [OF 5] by simp
  have oi: "optional_infos eiVersion sw = (if serviceVersions (fst sw5) ''ni'' \<noteq> None
     then snd (sendSync 4 (request ''/ni/info'' 0 ActionGet []) sw5) else sw5)"
    by (simp only: optional_infos_def Let_def sw4_def sw5_def)
  have 6: "wrote (if serviceVersions (fst sw) ''ni'' \<noteq> None then [''/ni/info''] else []) sw5
     (optional_infos eiVersion sw)"
    unfolding oi s5 using n5 sendSync_wrote [OF n5, of "request ''/ni/info'' 0 ActionGet []" 4]
    by (intro wrote_if) simp_all
  from wrote_trans [OF 4 wrote_trans [OF 5 6]] show ?thesis by (simp add: optional_resources_def)
qed

text \<open>The first message: with a message id of its own the response takes no id of the counter.\<close>

lemma init_response_wire:
  assumes "no_failures w" and "MsgID initMsg \<noteq> 0" and "sID s = SID initMsg"
    and "send (init_response initMsg dat) (s, w) = (None, sw1)"
  shows "\<exists>m. wire (snd sw1) = wire w @ [m] \<and> Resource m = ''/ei/initialValues'' \<and> Action m = ActionResponse
     \<and> MsgID m = MsgID initMsg \<and> SID m = SID initMsg \<and> orderedData m = Some dat
     \<and> fst sw1 = s \<and> no_failures (snd sw1)"
proof -
  obtain m' where m': "resolveDefaults s (init_response initMsg dat) True = (s, m')"
    "Resource m' = ''/ei/initialValues''" "Action m' = ActionResponse" "MsgID m' = MsgID initMsg"
    "SID m' = SID initMsg" "orderedData m' = Some dat"
    using resolve_preset [of "init_response initMsg dat" s] assms(2,3)
    by (auto simp: init_response_def request_def)
  obtain out w' where "next_outcome m' w = (out, w')" "wire w' = wire w @ [m']" "no_failures w'"
    using next_outcome_wire [OF assms(1)] by blast
  with m' assms(4) show ?thesis by (auto simp: send_def split: outcome.splits)
qed

section \<open>Properties\<close>

text \<open>
  C5. A completed handshake wrote exactly the sequence of the protocol. It answered
  \<^verbatim>\<open>/ei/initialValues\<close> under the appliance's own message id, asked for the services, authenticated and
  asked for \<^verbatim>\<open>/ci/info\<close> exactly when the appliance's \<^verbatim>\<open>ci\<close> service is older than version 3 (or
  missing), asked for \<^verbatim>\<open>/iz/info\<close> and \<^verbatim>\<open>/ni/info\<close> exactly when it announced those services, and
  sent \<^verbatim>\<open>/ei/deviceReady\<close> exactly for \<^verbatim>\<open>ei\<close> version 2. Every message carries the appliance's session
  id, and the requests carry consecutive message ids that start at its \<^verbatim>\<open>edMsgID\<close>. (The appliance's
  message carries a message id other than 0, and every message reached the socket.)
\<close>

theorem handshake_sequence:
  assumes "handshake encodeInit cfg rndID rndNonce (GotInit ini) (s0, w0) = (None, s', w')"
    and "no_failures w0" and "MsgID ini \<noteq> 0"
  shows "\<exists>m ms. wire w' = wire w0 @ m # ms
     \<and> Resource m = ''/ei/initialValues'' \<and> Action m = ActionResponse \<and> MsgID m = MsgID ini
     \<and> List.map Resource ms = ''/ci/services'' #
         auth_resources (case serviceVersions s' ''ci'' of Some v \<Rightarrow> v | None \<Rightarrow> 0)
         @ optional_resources (Version ini) (serviceVersions s')
     \<and> List.map MsgID ms = ids_from (firstInt (Data ini) ''edMsgID'') (length ms)
     \<and> (\<forall>x\<in>set (m # ms). SID x = SID ini)"
proof -
  define s where "s = s0\<lparr>sID := SID ini, lastMsgID := firstInt (Data ini) ''edMsgID''\<rparr>"
  let ?services = "request ''/ci/services'' 1 ActionGet []"
  from assms(1) obtain dat sw1 resp s2' w2 where
    send: "send (init_response ini dat) (s, w0) = (None, sw1)"
    and services: "sendSync 0 ?services sw1 = (Inr resp, s2', w2)"
    and rest: "(let s2 = storeServices (Data resp) s2';
          ciVersion = (case serviceVersions s2 ''ci'' of Some v \<Rightarrow> v | None \<Rightarrow> 0)
      in case authenticate rndNonce ciVersion (s2, w2) of
           (Some e, sw3) \<Rightarrow> (Some e, sw3)
         | (None, sw3) \<Rightarrow> (None, optional_infos (Version ini) sw3)) = (None, s', w')"
    unfolding handshake_def
    by (auto simp: Let_def simp flip: s_def split: option.splits sum.splits prod.splits)
  obtain m where m: "wire (snd sw1) = wire w0 @ [m]" "Resource m = ''/ei/initialValues''"
    "Action m = ActionResponse" "MsgID m = MsgID ini" "SID m = SID ini" "fst sw1 = s" "no_failures (snd sw1)"
    using init_response_wire [OF assms(2,3) _ send] by (auto simp: s_def)
  have 2: "wrote [''/ci/services''] sw1 (s2', w2)"
    using sendSync_wrote [OF m(7), of ?services 0] services by simp
  define s2 where "s2 = storeServices (Data resp) s2'"
  define ci where "ci = (case serviceVersions s2 ''ci'' of Some v \<Rightarrow> v | None \<Rightarrow> 0)"
  have srv: "wrote [''/ci/services''] (fst sw1\<lparr>serviceVersions := serviceVersions s2\<rparr>, snd sw1) (s2, w2)"
    using 2 by (simp add: wrote_def s2_def)
  from rest obtain sw3 where auth: "authenticate rndNonce ci (s2, w2) = (None, sw3)"
    and fin: "(s', w') = optional_infos (Version ini) sw3"
    by (auto simp: Let_def simp flip: s2_def ci_def split: option.splits prod.splits)
  have 3: "wrote (auth_resources ci) (s2, w2) sw3"
    using authenticate_wrote [OF _ auth] wroteD(1) [OF 2] by simp
  have sv: "serviceVersions (fst sw3) = serviceVersions s2" using wroteD(2) [OF 3] by simp
  have 4: "wrote (optional_resources (Version ini) (serviceVersions s2)) sw3 (s', w')"
    using optional_infos_wrote [OF wroteD(1) [OF 3], of "Version ini"] by (simp add: sv fin)
  have sv': "serviceVersions s' = serviceVersions s2" using wroteD(2) [OF 4] sv by simp
  from wrote_trans [OF srv wrote_trans [OF 3 4]] obtain ms where
    ms: "wire w' = wire (snd sw1) @ ms"
    "List.map Resource ms = ''/ci/services'' # auth_resources ci @ optional_resources (Version ini) (serviceVersions s2)"
    "List.map MsgID ms = ids_from (lastMsgID s) (length (List.map Resource ms))"
    "\<forall>x\<in>set ms. SID x = sID s"
    unfolding wrote_def using m(6) by auto
  have "wire w' = wire w0 @ m # ms" using ms(1) m(1) by simp
  moreover have "List.map MsgID ms = ids_from (firstInt (Data ini) ''edMsgID'') (length ms)"
    using ms(3) by (simp add: s_def)
  moreover have "\<forall>x\<in>set (m # ms). SID x = SID ini" using ms(4) m(5) by (simp add: s_def)
  ultimately show ?thesis using m(2-4) ms(2) unfolding sv' ci_def [symmetric] by (intro exI conjI)
qed

definition ini_example :: message where
  "ini_example = (request ''/ei/initialValues'' 2 ActionPost [[(''edMsgID'', VInt 100)]])\<lparr>SID := 7, MsgID := 9\<rparr>"

definition net_example :: net where
  "net_example = \<lparr>script =
     [Reply ini_example,
      Reply (request ''/ci/services'' 1 ActionResponse
        [[(''service'', VStr ''ci''), (''version'', VInt 3)], [(''service'', VStr ''iz''), (''version'', VInt 1)]]),
      Reply ini_example, Reply ini_example, Reply ini_example], wire = []\<rparr>"

definition config_example :: session_config where
  "config_example = \<lparr>AppName = ''hc'', AppID = ''0123456789ABCDEF'', SendTimeout = 0, HandshakeTimeout = 0, Heartbeat = 0\<rparr>"

lemma handshake_sequence_witness:
  "\<exists>s' w'. handshake (\<lambda>_ _ _. Some ''x'') config_example None None (GotInit ini_example) (session0, net_example)
      = (None, s', w')
    \<and> List.map Resource (wire w') =
        [''/ei/initialValues'', ''/ci/services'', ''/iz/info'', ''/ei/deviceReady'']
    \<and> List.map MsgID (wire w') = [9, 100, 101, 102]"
proof -
  define r where "r = handshake (\<lambda>_ _ _. Some ''x'') config_example None None (GotInit ini_example) (session0, net_example)"
  obtain err s' w' where r': "r = (err, s', w')" by (cases r)
  have err: "fst r = None" unfolding r_def by code_simp
  have sv: "serviceVersions (fst (snd r)) ''ci'' = Some 3" "serviceVersions (fst (snd r)) ''iz'' = Some 1"
    "serviceVersions (fst (snd r)) ''ni'' = None" unfolding r_def by code_simp+
  have nf: "no_failures net_example" by (simp add: no_failures_def net_example_def)
  have i: "MsgID ini_example = 9" "Version ini_example = 2" "firstInt (Data ini_example) ''edMsgID'' = 100"
    by code_simp+
  have wr: "wire net_example = []" by (simp add: net_example_def)
  have h: "handshake (\<lambda>_ _ _. Some ''x'') config_example None None (GotInit ini_example) (session0, net_example)
      = (None, s', w')" using r' err by (simp add: r_def)
  have ids: "ids_from 100 3 = [100, 101, 102]" by code_simp
  have res: "auth_resources (case serviceVersions s' ''ci'' of Some v \<Rightarrow> v | None \<Rightarrow> 0) = []"
    "optional_resources 2 (serviceVersions s') = [''/iz/info'', ''/ei/deviceReady'']"
    using sv r' by (simp_all add: auth_resources_def optional_resources_def)
  have "MsgID ini_example \<noteq> 0" using i by simp
  from handshake_sequence [OF h nf this] obtain m ms where
    m: "wire w' = m # ms" "Resource m = ''/ei/initialValues''" "MsgID m = 9"
    "List.map Resource ms = [''/ci/services'', ''/iz/info'', ''/ei/deviceReady'']"
    "List.map MsgID ms = ids_from 100 (length ms)"
    unfolding i res wr append_Nil by (elim exE conjE) (rule that)
  from arg_cong [OF m(4), of length] have "length ms = 3" by simp
  with m h ids show ?thesis by simp
qed

text \<open>
  The initialisation after the handshake, on an appliance that answers both bulk requests: an
  answer without a code is used, an answer with a code of 500 or more is dropped and the connection
  stays up, and an answer with a smaller code fails the connection with that code (and, when it is the
  first, the second request is never sent).
\<close>

definition bulk_answer :: "message \<Rightarrow> session_error + message option" where
  "bulk_answer m = (case Code m of None \<Rightarrow> Inr (Some m)
     | Some c \<Rightarrow> if 500 \<le> c then Inr None else Inl (CodeResponse c (Resource m)))"

theorem PostConnectInit_codes:
  assumes "script w = [Reply d, Reply m]"
  shows "fst (PostConnectInit (s, w)) =
      (case bulk_answer d of Inl e \<Rightarrow> Inl e
       | Inr a \<Rightarrow> (case bulk_answer m of Inl e \<Rightarrow> Inl e | Inr b \<Rightarrow> Inr (a, b)))
    \<and> length (wire (snd (snd (PostConnectInit (s, w))))) =
        length (wire w) + (if isl (bulk_answer d) then 1 else 2)"
  using assms
  by (cases "Code d"; cases "Code m")
    (auto simp: PostConnectInit_def sendSync_def next_outcome_def codeError_def tolerableInit_def
      bulk_answer_def Let_def split: prod.splits)

text \<open>
  A failed attempt to connect leaves nothing behind: no socket open, no receive loop and no
  heartbeat running, no current connection; and a successful one leaves exactly its own.
\<close>

theorem Connect_leaves_nothing:
  assumes "conn_ok c"
  shows "(case Connect cfg hs dialled c of
      (Some e, c') \<Rightarrow> \<not> cnCur c' \<and> \<not> cnSocket c' \<and> \<not> cnLoop c' \<and> \<not> cnHeartbeat c'
    | (None, c') \<Rightarrow> cnCur c' \<and> cnSocket c' \<and> cnLoop c' \<and> (cnHeartbeat c' \<longleftrightarrow> 0 < Heartbeat cfg) \<and> dialled)
    \<and> conn_ok (snd (Connect cfg hs dialled c))"
  using assms by (auto simp: Connect_def teardownCurrent_def conn_ok_def Let_def split: option.splits prod.splits)

lemma PostConnectInit_codes_witness:
  "fst (PostConnectInit (session0, \<lparr>script =
      [Reply ((request ''/ro/allDescriptionChanges'' 1 ActionResponse [])\<lparr>Code := Some 541\<rparr>),
       Reply ((request ''/ro/allMandatoryValues'' 1 ActionResponse [])\<lparr>Code := Some 404\<rparr>)], wire = []\<rparr>))
   = Inl (CodeResponse 404 ''/ro/allMandatoryValues'')"
  using PostConnectInit_codes [of
    "\<lparr>script = [Reply ((request ''/ro/allDescriptionChanges'' 1 ActionResponse [])\<lparr>Code := Some 541\<rparr>),
       Reply ((request ''/ro/allMandatoryValues'' 1 ActionResponse [])\<lparr>Code := Some 404\<rparr>)], wire = []\<rparr>"
    _ _ session0]
  by (simp add: bulk_answer_def)

definition conn0 :: conn where
  "conn0 = \<lparr>cnSession = session0, cnNet = net_example, cnCur = False, cnSocket = False, cnLoop = False,
     cnHeartbeat = False\<rparr>"

lemma Connect_leaves_nothing_witness:
  "\<exists>e c'. Connect config_example (handshake (\<lambda>_ _ _. None) config_example None None (GotInit ini_example)) True conn0
      = (Some e, c') \<and> \<not> cnSocket c' \<and> \<not> cnLoop c'"
proof -
  let ?r = "Connect config_example (handshake (\<lambda>_ _ _. None) config_example None None (GotInit ini_example)) True conn0"
  have "conn_ok conn0" by (simp add: conn_ok_def conn0_def)
  note * = Connect_leaves_nothing [OF this, where cfg = config_example and dialled = True
    and hs = "handshake (\<lambda>_ _ _. None) config_example None None (GotInit ini_example)"]
  have "fst ?r \<noteq> None" by code_simp
  with * show ?thesis by (cases ?r) (auto split: option.splits)
qed

end
