(* ===== verification/Session_Steps.thy ===== *)
theory Session_Steps
  imports Session
begin

text \<open>
  The session with everything that runs at once: the callers of \<open>sendSync\<close>, each at its own point
  of the function, the receive loop, and the resets of a new connection. One step is what happens
  under one lock or at one channel operation of \<^verbatim>\<open>internal/homeconnect/session.go\<close>.
\<close>

section \<open>State\<close>

text \<open>A Go channel of capacity one.\<close>

record chan =
  buf :: "message option"
  closed :: bool

datatype phase =
    Registering
  | Sending
  | Waiting
  | Returning "session_error + message"
  | Finished "session_error + message"

record req =
  rqMsg :: message
  rqPhase :: phase
  rqChan :: chan

record sys =
  sySession :: session
  syReqs :: "req list"
  syInflight :: "(nat \<times> message) option"
  sySent :: "message list"
  syInit :: "message option"
  syNotified :: "message list"
  syLoop :: bool

definition new_req :: "message \<Rightarrow> req" where
  "new_req m = \<lparr>rqMsg = m, rqPhase = Registering, rqChan = \<lparr>buf = None, closed = False\<rparr>\<rparr>"

definition set_phase :: "nat \<Rightarrow> phase \<Rightarrow> sys \<Rightarrow> sys" where
  "set_phase r ph s = s\<lparr>syReqs := (syReqs s)[r := (syReqs s ! r)\<lparr>rqPhase := ph\<rparr>]\<rparr>"

definition set_chan :: "nat \<Rightarrow> chan \<Rightarrow> sys \<Rightarrow> sys" where
  "set_chan r c s = s\<lparr>syReqs := (syReqs s)[r := (syReqs s ! r)\<lparr>rqChan := c\<rparr>]\<rparr>"

definition set_pending :: "int \<Rightarrow> nat option \<Rightarrow> sys \<Rightarrow> sys" where
  "set_pending i v s = s\<lparr>sySession := (sySession s)\<lparr>pending := (pending (sySession s))(i := v)\<rparr>\<rparr>"

text \<open>Closing the channels of the pending requests and forgetting them.\<close>

definition close_pending :: "sys \<Rightarrow> sys" where
  "close_pending s =
     s\<lparr>syReqs := map (\<lambda>(r, q). if pending (sySession s) (MsgID (rqMsg q)) = Some r
          then q\<lparr>rqChan := (rqChan q)\<lparr>closed := True\<rparr>\<rparr> else q) (zip [0..<length (syReqs s)] (syReqs s)),
       sySession := (sySession s)\<lparr>pending := Map.empty\<rparr>\<rparr>"

definition sys0 :: sys where
  "sys0 = \<lparr>sySession = session0, syReqs = [], syInflight = None, sySent = [], syInit = None,
     syNotified = [], syLoop = False\<rparr>"

section \<open>Steps\<close>

text \<open>What one call of \<open>sendSync\<close> does: take an id, register, send, wait, and on the way out
  remove its id.\<close>

definition answered :: "message \<Rightarrow> session_error + message" where
  "answered m = (case codeError m of Some e \<Rightarrow> Inl e | None \<Rightarrow> Inr m)"

inductive traffic :: "sys \<Rightarrow> sys \<Rightarrow> bool" where
  begin_request: "\<lbrakk>MsgID m = 0; resolveDefaults (sySession s) m True = (ses, m')\<rbrakk> \<Longrightarrow>
    traffic s (s\<lparr>sySession := ses, syReqs := syReqs s @ [new_req m']\<rparr>)"
| register: "\<lbrakk>r < length (syReqs s); rqPhase (syReqs s ! r) = Registering\<rbrakk> \<Longrightarrow>
    traffic s (set_pending (MsgID (rqMsg (syReqs s ! r))) (Some r) (set_phase r Sending s))"
| send_ok: "\<lbrakk>r < length (syReqs s); rqPhase (syReqs s ! r) = Sending\<rbrakk> \<Longrightarrow>
    traffic s (set_phase r Waiting (s\<lparr>sySent := sySent s @ [rqMsg (syReqs s ! r)]\<rparr>))"
| send_fail: "\<lbrakk>r < length (syReqs s); rqPhase (syReqs s ! r) = Sending\<rbrakk> \<Longrightarrow>
    traffic s (set_phase r (Returning (Inl SendFailed)) s)"
| answer: "\<lbrakk>r < length (syReqs s); rqPhase (syReqs s ! r) = Waiting; rqChan (syReqs s ! r) = c; buf c = Some m\<rbrakk> \<Longrightarrow>
    traffic s (set_phase r (Returning (answered m)) (set_chan r (c\<lparr>buf := None\<rparr>) s))"
| chan_closed: "\<lbrakk>r < length (syReqs s); rqPhase (syReqs s ! r) = Waiting; rqChan (syReqs s ! r) = c;
      buf c = None; closed c\<rbrakk> \<Longrightarrow>
    traffic s (set_phase r (Returning (Inl ConnectionClosed)) s)"
| give_up: "\<lbrakk>r < length (syReqs s); rqPhase (syReqs s ! r) = Waiting;
      e = ResponseTimeout (Resource (rqMsg (syReqs s ! r))) (MsgID (rqMsg (syReqs s ! r))) \<or> e = Cancelled\<rbrakk> \<Longrightarrow>
    traffic s (set_phase r (Returning (Inl e)) s)"
| deferred_delete: "\<lbrakk>r < length (syReqs s); rqPhase (syReqs s ! r) = Returning res\<rbrakk> \<Longrightarrow>
    traffic s (set_pending (MsgID (rqMsg (syReqs s ! r))) None (set_phase r (Finished res) s))"
| take_pending: "\<lbrakk>syLoop s; syInflight s = None; Action msg = ActionResponse;
      pending (sySession s) (MsgID msg) = Some r\<rbrakk> \<Longrightarrow>
    traffic s (set_pending (MsgID msg) None (s\<lparr>syInflight := Some (r, msg)\<rparr>))"
| deliver: "\<lbrakk>syInflight s = Some (r, msg); rqChan (syReqs s ! r) = c; buf c = None; \<not> closed c\<rbrakk> \<Longrightarrow>
    traffic s (set_chan r (c\<lparr>buf := Some msg\<rparr>) (s\<lparr>syInflight := None\<rparr>))"
| initial_values: "\<lbrakk>syLoop s; syInflight s = None;
      Action msg = ActionPost; Resource msg = ''/ei/initialValues''\<rbrakk> \<Longrightarrow>
    traffic s (if syInit s = None then s\<lparr>syInit := Some msg\<rparr> else s)"
| notify: "\<lbrakk>syLoop s; syInflight s = None;
      Action msg = ActionResponse \<longrightarrow> pending (sySession s) (MsgID msg) = None;
      \<not> (Action msg = ActionPost \<and> Resource msg = ''/ei/initialValues'')\<rbrakk> \<Longrightarrow>
    traffic s (s\<lparr>syNotified := syNotified s @ [msg]\<rparr>)"
| loop_fails: "\<lbrakk>syLoop s; syInflight s = None\<rbrakk> \<Longrightarrow>
    traffic s ((close_pending s)\<lparr>syLoop := False\<rparr>)"

text \<open>A new connection (its receive loop starts after the old one was joined and the state
  reset), and the ids the handshake takes from the appliance.\<close>

inductive step :: "sys \<Rightarrow> sys \<Rightarrow> bool" where
  traffic_step: "traffic s t \<Longrightarrow> step s t"
| reconnect: "\<lbrakk>\<not> syLoop s; syInflight s = None\<rbrakk> \<Longrightarrow>
    step s ((close_pending s)\<lparr>sySession := resetState (sySession s), syInit := None, syLoop := True\<rparr>)"
| set_ids: "syLoop s \<Longrightarrow>
    step s (s\<lparr>sySession := (sySession s)\<lparr>sID := a, lastMsgID := b\<rparr>\<rparr>)"

section \<open>The invariant\<close>

definition matches :: "message \<Rightarrow> req \<Rightarrow> bool" where
  "matches m q \<longleftrightarrow> MsgID m = MsgID (rqMsg q) \<and> Action m = ActionResponse"

text \<open>A request that is waiting for a message nobody has given it: its channel is open and empty.\<close>

definition expecting :: "req \<Rightarrow> bool" where
  "expecting q \<longleftrightarrow> rqChan q = \<lparr>buf = None, closed = False\<rparr> \<and> rqPhase q \<noteq> Registering"

definition is_finished :: "req \<Rightarrow> bool" where
  "is_finished q \<longleftrightarrow> (case rqPhase q of Finished r \<Rightarrow> True | _ \<Rightarrow> False)"

definition pending_ok :: "sys \<Rightarrow> bool" where
  "pending_ok s \<longleftrightarrow> (\<forall>i r. pending (sySession s) i = Some r \<longrightarrow>
     r < length (syReqs s) \<and> MsgID (rqMsg (syReqs s ! r)) = i
   \<and> expecting (syReqs s ! r) \<and> \<not> is_finished (syReqs s ! r))"

definition inflight_ok :: "sys \<Rightarrow> bool" where
  "inflight_ok s \<longleftrightarrow> (\<forall>r m. syInflight s = Some (r, m) \<longrightarrow>
     r < length (syReqs s) \<and> matches m (syReqs s ! r)
   \<and> expecting (syReqs s ! r) \<and> pending (sySession s) (MsgID m) \<noteq> Some r)"

text \<open>What is in a channel answers its request, and so does what the request returned.\<close>

definition req_ok :: "req \<Rightarrow> bool" where
  "req_ok q \<longleftrightarrow>
     (\<forall>m. buf (rqChan q) = Some m \<longrightarrow> matches m q)
   \<and> (rqPhase q = Registering \<longrightarrow> rqChan q = \<lparr>buf = None, closed = False\<rparr>)
   \<and> (\<forall>m. rqPhase q = Returning (Inr m) \<or> rqPhase q = Finished (Inr m) \<longrightarrow> matches m q \<and> Code m = None)"

definition reqs_ok :: "sys \<Rightarrow> bool" where
  "reqs_ok s \<longleftrightarrow> (\<forall>r<length (syReqs s). req_ok (syReqs s ! r))"

definition sys_ok :: "sys \<Rightarrow> bool" where
  "sys_ok s \<longleftrightarrow> pending_ok s \<and> inflight_ok s \<and> reqs_ok s"

lemma set_simps [simp]:
  "syReqs (set_phase r ph s) = (syReqs s)[r := (syReqs s ! r)\<lparr>rqPhase := ph\<rparr>]"
  "syReqs (set_chan r c s) = (syReqs s)[r := (syReqs s ! r)\<lparr>rqChan := c\<rparr>]"
  "sySession (set_phase r ph s) = sySession s" "sySession (set_chan r c s) = sySession s"
  "syInflight (set_phase r ph s) = syInflight s" "syInflight (set_chan r c s) = syInflight s"
  "syReqs (set_pending i v s) = syReqs s" "syInflight (set_pending i v s) = syInflight s"
  "pending (sySession (set_pending i v s)) = (pending (sySession s))(i := v)"
  "syLoop (set_phase r ph s) = syLoop s" "syLoop (set_chan r c s) = syLoop s"
  "syLoop (set_pending i v s) = syLoop s"
  "lastMsgID (sySession (set_pending i v s)) = lastMsgID (sySession s)"
  by (simp_all add: set_phase_def set_chan_def set_pending_def)

lemma close_pending_simps [simp]:
  "pending (sySession (close_pending s)) = Map.empty"
  "syInflight (close_pending s) = syInflight s"
  "length (syReqs (close_pending s)) = length (syReqs s)"
  "lastMsgID (sySession (close_pending s)) = lastMsgID (sySession s)"
  by (simp_all add: close_pending_def)

lemma close_pending_nth:
  "r < length (syReqs s) \<Longrightarrow> syReqs (close_pending s) ! r =
     (if pending (sySession s) (MsgID (rqMsg (syReqs s ! r))) = Some r
      then (syReqs s ! r)\<lparr>rqChan := (rqChan (syReqs s ! r))\<lparr>closed := True\<rparr>\<rparr> else syReqs s ! r)"
  by (simp add: close_pending_def)

lemma resolve_keeps:
  assumes "resolveDefaults ses m True = (ses', m')" and "MsgID m = 0"
  shows "pending ses' = pending ses" "MsgID m' = lastMsgID ses" "lastMsgID ses' = wrap64 (lastMsgID ses + 1)"
  using assms by (auto simp: resolveDefaults_def Let_def split: if_splits)

lemma pending_okD:
  assumes "pending_ok s" and "pending (sySession s) i = Some r"
  shows "r < length (syReqs s)" "MsgID (rqMsg (syReqs s ! r)) = i" "expecting (syReqs s ! r)"
    "\<not> is_finished (syReqs s ! r)"
  using assms by (auto simp: pending_ok_def)

lemma inflight_okD:
  assumes "inflight_ok s" and "syInflight s = Some (r, m)"
  shows "r < length (syReqs s)" "matches m (syReqs s ! r)" "expecting (syReqs s ! r)"
    "pending (sySession s) (MsgID m) \<noteq> Some r"
  using assms by (auto simp: inflight_ok_def)

text \<open>A step that changes one request, in a way that leaves what the tables need of it.\<close>

lemma pending_ok_update:
  assumes "pending_ok s" and "syReqs s' = (syReqs s)[r := q]" and "sySession s' = sySession s"
    and "pending (sySession s) (MsgID (rqMsg (syReqs s ! r))) = Some r \<Longrightarrow>
      MsgID (rqMsg q) = MsgID (rqMsg (syReqs s ! r)) \<and> expecting q \<and> \<not> is_finished q"
  shows "pending_ok s'"
  unfolding pending_ok_def
proof (intro allI impI)
  fix i r'
  assume "pending (sySession s') i = Some r'"
  then have "pending (sySession s) i = Some r'" by (simp add: assms(3))
  with pending_okD [OF assms(1) this] assms(2,4)
  show "r' < length (syReqs s') \<and> MsgID (rqMsg (syReqs s' ! r')) = i \<and>
    expecting (syReqs s' ! r') \<and> \<not> is_finished (syReqs s' ! r')"
    by (cases "r' = r") auto
qed

lemma inflight_ok_update:
  assumes "inflight_ok s" and "syReqs s' = (syReqs s)[r := q]" and "sySession s' = sySession s"
    and "syInflight s' = syInflight s"
    and "\<And>m. syInflight s = Some (r, m) \<Longrightarrow> expecting q \<and> rqMsg q = rqMsg (syReqs s ! r)"
  shows "inflight_ok s'"
  unfolding inflight_ok_def
proof (intro allI impI)
  fix r' m
  assume "syInflight s' = Some (r', m)"
  then have "syInflight s = Some (r', m)" by (simp add: assms(4))
  with inflight_okD [OF assms(1) this] assms(2,3,5)
  show "r' < length (syReqs s') \<and> matches m (syReqs s' ! r') \<and> expecting (syReqs s' ! r') \<and>
    pending (sySession s') (MsgID m) \<noteq> Some r'"
    by (cases "r' = r") (auto simp: matches_def)
qed

lemma reqs_ok_update:
  assumes "reqs_ok s" and "syReqs s' = (syReqs s)[r := q]" and "req_ok q"
  shows "reqs_ok s'"
  unfolding reqs_ok_def
proof (intro allI impI)
  fix r' assume "r' < length (syReqs s')"
  with assms show "req_ok (syReqs s' ! r')" by (cases "r' = r") (auto simp: reqs_ok_def)
qed

lemma req_ok_phase:
  assumes "req_ok q" and "ph \<noteq> Registering"
    and "\<And>m. ph = Returning (Inr m) \<or> ph = Finished (Inr m) \<Longrightarrow> matches m q \<and> Code m = None"
  shows "req_ok (q\<lparr>rqPhase := ph\<rparr>)"
  using assms by (simp add: req_ok_def matches_def)

lemma req_ok_chan:
  assumes "req_ok q" and "rqPhase q \<noteq> Registering" and "\<And>m. buf c = Some m \<Longrightarrow> matches m q"
  shows "req_ok (q\<lparr>rqChan := c\<rparr>)"
  using assms by (simp add: req_ok_def matches_def)

text \<open>The phase of a request moves on, past registering and short of finished.\<close>

lemma expecting_phase [simp]:
  "ph \<noteq> Registering \<Longrightarrow> expecting q \<Longrightarrow> expecting (q\<lparr>rqPhase := ph\<rparr>)"
  by (simp add: expecting_def)

lemma finished_phase [simp]:
  "is_finished (q\<lparr>rqPhase := ph\<rparr>) \<longleftrightarrow> (\<exists>res. ph = Finished res)"
  by (auto simp: is_finished_def split: phase.splits)

lemma finished_chan [simp]: "is_finished (q\<lparr>rqChan := c\<rparr>) = is_finished q"
  by (simp add: is_finished_def)

lemma matches_upd [simp]:
  "matches m (q\<lparr>rqPhase := ph\<rparr>) = matches m q" "matches m (q\<lparr>rqChan := c\<rparr>) = matches m q"
  by (simp_all add: matches_def)

lemma sys_ok_phase:
  assumes ok: "sys_ok s" and r: "r < length (syReqs s)"
    and ph: "ph \<noteq> Registering" "\<And>res. ph \<noteq> Finished res"
    and res: "\<And>m. ph = Returning (Inr m) \<Longrightarrow> matches m (syReqs s ! r) \<and> Code m = None"
  shows "sys_ok (set_phase r ph s)"
proof -
  have p: "pending_ok s" and i: "inflight_ok s" and q: "reqs_ok s" using ok by (simp_all add: sys_ok_def)
  have "pending_ok (set_phase r ph s)"
    by (rule pending_ok_update [OF p]) (use ph(1) ph(2) pending_okD(3) [OF p] in auto)
  moreover have "inflight_ok (set_phase r ph s)"
    by (rule inflight_ok_update [OF i]) (use ph(1) inflight_okD(3) [OF i] in auto)
  moreover have "reqs_ok (set_phase r ph s)"
  proof (rule reqs_ok_update [OF q])
    show "req_ok ((syReqs s ! r)\<lparr>rqPhase := ph\<rparr>)"
    proof (rule req_ok_phase)
      show "req_ok (syReqs s ! r)" using q r by (simp add: reqs_ok_def)
      show "\<And>m. ph = Returning (Inr m) \<or> ph = Finished (Inr m) \<Longrightarrow> matches m (syReqs s ! r) \<and> Code m = None"
        using res ph by blast
    qed (rule ph)
  qed simp
  ultimately show ?thesis by (simp add: sys_ok_def)
qed

text \<open>The steps that are not such a change of phase.\<close>

lemma sys_ok_begin:
  assumes ok: "sys_ok s" and m: "resolveDefaults (sySession s) m True = (ses, m')" "MsgID m = 0"
  shows "sys_ok (s\<lparr>sySession := ses, syReqs := syReqs s @ [new_req m']\<rparr>)"
proof -
  have p: "pending_ok s" and i: "inflight_ok s" and q: "reqs_ok s" using ok by (simp_all add: sys_ok_def)
  note keep = resolve_keeps [OF m]
  have "pending_ok (s\<lparr>sySession := ses, syReqs := syReqs s @ [new_req m']\<rparr>)"
    unfolding pending_ok_def using pending_okD [OF p] by (auto simp: keep nth_append less_SucI)
  moreover have "inflight_ok (s\<lparr>sySession := ses, syReqs := syReqs s @ [new_req m']\<rparr>)"
    unfolding inflight_ok_def using inflight_okD [OF i] by (auto simp: keep nth_append less_SucI)
  moreover have "reqs_ok (s\<lparr>sySession := ses, syReqs := syReqs s @ [new_req m']\<rparr>)"
    using q by (auto simp: reqs_ok_def nth_append less_Suc_eq new_req_def req_ok_def)
  ultimately show ?thesis by (simp add: sys_ok_def)
qed

lemma sys_ok_register:
  assumes ok: "sys_ok s" and r: "r < length (syReqs s)" "rqPhase (syReqs s ! r) = Registering"
  shows "sys_ok (set_pending (MsgID (rqMsg (syReqs s ! r))) (Some r) (set_phase r Sending s))"
proof -
  have ok': "sys_ok (set_phase r Sending s)" using ok r by (intro sys_ok_phase) auto
  then have p: "pending_ok (set_phase r Sending s)" and i: "inflight_ok (set_phase r Sending s)"
    and q: "reqs_ok (set_phase r Sending s)" by (simp_all add: sys_ok_def)
  have free: "rqChan (syReqs s ! r) = \<lparr>buf = None, closed = False\<rparr>"
    using ok r by (auto simp: sys_ok_def reqs_ok_def req_ok_def)
  have "inflight_ok s" using ok by (simp add: sys_ok_def)
  then have nr: "syInflight s \<noteq> Some (r, m)" for m
    using inflight_okD(3) [of s r m] r(2) by (auto simp: expecting_def)
  let ?t = "set_pending (MsgID (rqMsg (syReqs s ! r))) (Some r) (set_phase r Sending s)"
  have "pending_ok ?t"
    unfolding pending_ok_def using pending_okD [OF p] r free
    by (auto simp: expecting_def is_finished_def split: if_splits)
  moreover have "inflight_ok ?t"
    unfolding inflight_ok_def using inflight_okD [OF i] by (auto simp: nr)
  moreover have "reqs_ok ?t" using q by (simp add: reqs_ok_def)
  ultimately show ?thesis by (simp add: sys_ok_def)
qed

lemma sys_ok_deferred:
  assumes ok: "sys_ok s" and r: "r < length (syReqs s)" "rqPhase (syReqs s ! r) = Returning res"
  shows "sys_ok (set_pending (MsgID (rqMsg (syReqs s ! r))) None (set_phase r (Finished res) s))"
proof -
  have p: "pending_ok s" and i: "inflight_ok s" and q: "reqs_ok s" using ok by (simp_all add: sys_ok_def)
  let ?t = "set_pending (MsgID (rqMsg (syReqs s ! r))) None (set_phase r (Finished res) s)"
  have "pending_ok ?t"
    unfolding pending_ok_def
  proof (intro allI impI)
    fix i r' assume "pending (sySession ?t) i = Some r'"
    then have i: "pending (sySession s) i = Some r'" and "i \<noteq> MsgID (rqMsg (syReqs s ! r))"
      by (auto split: if_splits)
    then have "r' \<noteq> r" using pending_okD(2) [OF p i] by auto
    with pending_okD [OF p i]
    show "r' < length (syReqs ?t) \<and> MsgID (rqMsg (syReqs ?t ! r')) = i \<and> expecting (syReqs ?t ! r')
      \<and> \<not> is_finished (syReqs ?t ! r')" by simp
  qed
  moreover have "inflight_ok ?t"
    unfolding inflight_ok_def
  proof (intro allI impI)
    fix r' m assume "syInflight ?t = Some (r', m)"
    then have "syInflight s = Some (r', m)" by simp
    from inflight_okD [OF i this]
    show "r' < length (syReqs ?t) \<and> matches m (syReqs ?t ! r') \<and> expecting (syReqs ?t ! r')
      \<and> pending (sySession ?t) (MsgID m) \<noteq> Some r'"
      by (cases "r' = r") auto
  qed
  moreover have "reqs_ok ?t"
  proof (rule reqs_ok_update [OF q])
    show "req_ok ((syReqs s ! r)\<lparr>rqPhase := Finished res\<rparr>)"
      using q r by (intro req_ok_phase) (auto simp: reqs_ok_def req_ok_def)
  qed simp
  ultimately show ?thesis by (simp add: sys_ok_def)
qed

lemma sys_ok_take:
  assumes ok: "sys_ok s" and msg: "Action msg = ActionResponse" "pending (sySession s) (MsgID msg) = Some r"
  shows "sys_ok (set_pending (MsgID msg) None (s\<lparr>syInflight := Some (r, msg)\<rparr>))"
proof -
  have p: "pending_ok s" and q: "reqs_ok s" using ok by (simp_all add: sys_ok_def)
  let ?t = "set_pending (MsgID msg) None (s\<lparr>syInflight := Some (r, msg)\<rparr>)"
  have "pending_ok ?t"
    unfolding pending_ok_def using pending_okD [OF p] by (auto simp: set_pending_def split: if_splits)
  moreover have "inflight_ok ?t"
    unfolding inflight_ok_def using pending_okD [OF p msg(2)] msg
    by (auto simp: set_pending_def matches_def)
  moreover have "reqs_ok ?t" using q by (simp add: reqs_ok_def)
  ultimately show ?thesis by (simp add: sys_ok_def)
qed

lemma sys_ok_deliver:
  assumes ok: "sys_ok s" and fly: "syInflight s = Some (r, msg)"
  shows "sys_ok (set_chan r ((rqChan (syReqs s ! r))\<lparr>buf := Some msg\<rparr>) (s\<lparr>syInflight := None\<rparr>))"
proof -
  have p: "pending_ok s" and i: "inflight_ok s" and q: "reqs_ok s" using ok by (simp_all add: sys_ok_def)
  note f = inflight_okD [OF i fly]
  have np: "pending (sySession s) j \<noteq> Some r" for j
    using pending_okD(2) [OF p, of j r] f(2,4) by (auto simp: matches_def)
  let ?t = "set_chan r ((rqChan (syReqs s ! r))\<lparr>buf := Some msg\<rparr>) (s\<lparr>syInflight := None\<rparr>)"
  have "pending_ok ?t"
    unfolding pending_ok_def
  proof (intro allI impI)
    fix j r' assume "pending (sySession ?t) j = Some r'"
    then have j: "pending (sySession s) j = Some r'" by simp
    then have "r' \<noteq> r" using np by auto
    with pending_okD [OF p j]
    show "r' < length (syReqs ?t) \<and> MsgID (rqMsg (syReqs ?t ! r')) = j \<and> expecting (syReqs ?t ! r')
      \<and> \<not> is_finished (syReqs ?t ! r')" by simp
  qed
  moreover have "inflight_ok ?t" by (simp add: inflight_ok_def)
  moreover have "reqs_ok ?t"
  proof (rule reqs_ok_update [OF q])
    show "req_ok ((syReqs s ! r)\<lparr>rqChan := (rqChan (syReqs s ! r))\<lparr>buf := Some msg\<rparr>\<rparr>)"
      using q f by (intro req_ok_chan) (auto simp: reqs_ok_def expecting_def)
  qed simp
  ultimately show ?thesis by (simp add: sys_ok_def)
qed

lemma sys_ok_answer:
  assumes ok: "sys_ok s" and r: "r < length (syReqs s)" "rqPhase (syReqs s ! r) = Waiting"
    and m: "buf (rqChan (syReqs s ! r)) = Some m"
  shows "sys_ok (set_phase r (Returning (answered m))
     (set_chan r ((rqChan (syReqs s ! r))\<lparr>buf := None\<rparr>) s))"
proof -
  have p: "pending_ok s" and i: "inflight_ok s" and q: "reqs_ok s" using ok by (simp_all add: sys_ok_def)
  have ne: "\<not> expecting (syReqs s ! r)" using m by (auto simp: expecting_def)
  let ?u = "set_chan r ((rqChan (syReqs s ! r))\<lparr>buf := None\<rparr>) s"
  have mm: "matches m (syReqs s ! r)" using q r m by (auto simp: reqs_ok_def req_ok_def)
  have "pending_ok ?u"
    by (rule pending_ok_update [OF p]) (use pending_okD(3) [OF p] ne in auto)
  moreover have "inflight_ok ?u"
    by (rule inflight_ok_update [OF i]) (use inflight_okD(3) [OF i] ne in auto)
  moreover have "reqs_ok ?u"
  proof (rule reqs_ok_update [OF q])
    show "req_ok ((syReqs s ! r)\<lparr>rqChan := (rqChan (syReqs s ! r))\<lparr>buf := None\<rparr>\<rparr>)"
      using q r by (intro req_ok_chan) (auto simp: reqs_ok_def)
  qed simp
  ultimately have "sys_ok ?u" by (simp add: sys_ok_def)
  then show ?thesis
  proof (rule sys_ok_phase)
    fix m' assume "Returning (answered m) = Returning (Inr m')"
    with mm show "matches m' (syReqs ?u ! r) \<and> Code m' = None"
      using r by (auto simp: answered_def codeError_def matches_def split: option.splits)
  qed (use r in auto)
qed

lemma sys_ok_close:
  assumes ok: "sys_ok s" and fly: "syInflight s = None"
  shows "sys_ok (close_pending s)"
proof -
  have q: "reqs_ok s" and p: "pending_ok s" using ok by (simp_all add: sys_ok_def)
  have "req_ok (syReqs (close_pending s) ! r)" if r: "r < length (syReqs s)" for r
  proof (cases "pending (sySession s) (MsgID (rqMsg (syReqs s ! r))) = Some r")
    case True
    then have "expecting (syReqs s ! r)" using pending_okD(3) [OF p] by blast
    then have "req_ok ((syReqs s ! r)\<lparr>rqChan := (rqChan (syReqs s ! r))\<lparr>closed := True\<rparr>\<rparr>)"
      using q r by (intro req_ok_chan) (auto simp: reqs_ok_def expecting_def)
    with True r show ?thesis by (simp add: close_pending_nth)
  next
    case False
    with q r show ?thesis by (simp add: close_pending_nth reqs_ok_def)
  qed
  then show ?thesis using fly by (simp add: sys_ok_def pending_ok_def inflight_ok_def reqs_ok_def)
qed

lemma sys_ok_frame:
  assumes "sys_ok s" and "syReqs t = syReqs s" and "pending (sySession t) = pending (sySession s)"
    and "syInflight t = syInflight s"
  shows "sys_ok t"
  using assms by (simp add: sys_ok_def pending_ok_def inflight_ok_def reqs_ok_def)

lemma traffic_ok: "traffic s t \<Longrightarrow> sys_ok s \<Longrightarrow> sys_ok t"
proof (induction rule: traffic.induct)
  case (begin_request m s ses m')
  then show ?case by (intro sys_ok_begin)
next
  case (register r s)
  then show ?case by (intro sys_ok_register)
next
  case (send_ok r s)
  have "sys_ok (s\<lparr>sySent := sySent s @ [rqMsg (syReqs s ! r)]\<rparr>)"
    by (rule sys_ok_frame [OF send_ok.prems]) simp_all
  then show ?case by (rule sys_ok_phase) (use send_ok in auto)
next
  case (send_fail r s)
  then show ?case by (intro sys_ok_phase) auto
next
  case (answer r s c m)
  then show ?case using sys_ok_answer by auto
next
  case (chan_closed r s c)
  then show ?case by (intro sys_ok_phase) auto
next
  case (give_up r s e)
  then show ?case by (intro sys_ok_phase) auto
next
  case (deferred_delete r s res)
  then show ?case by (intro sys_ok_deferred)
next
  case (take_pending s msg r)
  then show ?case by (intro sys_ok_take)
next
  case (deliver s r msg c)
  then show ?case using sys_ok_deliver by auto
next
  case (initial_values s msg)
  show ?case by (rule sys_ok_frame [OF initial_values.prems]) simp_all
next
  case (notify s msg)
  show ?case by (rule sys_ok_frame [OF notify.prems]) simp_all
next
  case (loop_fails s)
  show ?case by (rule sys_ok_frame [OF sys_ok_close, of s]) (use loop_fails in simp_all)
qed

lemma step_ok: "step s t \<Longrightarrow> sys_ok s \<Longrightarrow> sys_ok t"
proof (induction rule: step.induct)
  case (traffic_step s t)
  then show ?case by (rule traffic_ok)
next
  case (reconnect s)
  show ?case by (rule sys_ok_frame [OF sys_ok_close, of s]) (use reconnect in \<open>simp_all add: resetState_def\<close>)
next
  case (set_ids s a b)
  show ?case by (rule sys_ok_frame [OF set_ids.prems]) simp_all
qed

lemma sys_ok_start: "sys_ok sys0"
  by (simp add: sys_ok_def pending_ok_def inflight_ok_def reqs_ok_def sys0_def session0_def)

interpretation sys_steps: step_invariant "\<lambda>s. s = sys0" step sys_ok
  by unfold_locales (simp_all add: step_ok sys_ok_start)

section \<open>Within one connection\<close>

text \<open>
  Traffic from a state in which every earlier call has returned: \<open>n0\<close> is the number of calls
  there were, \<open>a\<close> the counter. The ids of the calls since are then distinct, as long as the counter
  has not wrapped, and no call's slot can be taken by another.
\<close>

definition settled :: "sys \<Rightarrow> bool" where
  "settled s \<longleftrightarrow> syInflight s = None \<and> pending (sySession s) = Map.empty
     \<and> (\<forall>q\<in>set (syReqs s). is_finished q)"

definition served :: "sys \<Rightarrow> nat \<Rightarrow> bool" where
  "served s r \<longleftrightarrow> pending (sySession s) (MsgID (rqMsg (syReqs s ! r))) = Some r
     \<or> (\<exists>m. syInflight s = Some (r, m))
     \<or> buf (rqChan (syReqs s ! r)) \<noteq> None \<or> closed (rqChan (syReqs s ! r))"

definition awaiting :: "req \<Rightarrow> bool" where
  "awaiting q \<longleftrightarrow> rqPhase q = Sending \<or> rqPhase q = Waiting"

text \<open>The ids handed out since: one after another from \<open>a\<close>.\<close>

definition numbered :: "nat \<Rightarrow> int \<Rightarrow> sys \<Rightarrow> bool" where
  "numbered n0 a s \<longleftrightarrow> n0 \<le> length (syReqs s)
     \<and> lastMsgID (sySession s) = a + int (length (syReqs s) - n0)
     \<and> (\<forall>r<length (syReqs s). n0 \<le> r \<longrightarrow> MsgID (rqMsg (syReqs s ! r)) = a + int (r - n0))
     \<and> (\<forall>r<n0. is_finished (syReqs s ! r))"

definition connection_ok :: "nat \<Rightarrow> int \<Rightarrow> sys \<Rightarrow> bool" where
  "connection_ok n0 a s \<longleftrightarrow> sys_ok s \<and>
     (a + int (length (syReqs s) - n0) \<le> int64_max \<longrightarrow> numbered n0 a s
        \<and> (\<forall>r<length (syReqs s). awaiting (syReqs s ! r) \<longrightarrow> served s r))"

lemma length_traffic: "traffic s t \<Longrightarrow> length (syReqs s) \<le> length (syReqs t)"
  by (induction rule: traffic.induct) (simp_all add: close_pending_def)

lemma numbered_traffic:
  assumes "traffic s t" and "numbered n0 a s" and "in_int64 a"
    and "a + int (length (syReqs t) - n0) \<le> int64_max"
  shows "numbered n0 a t"
  using assms
proof (induction rule: traffic.induct)
  case (begin_request m s ses m')
  note keep = resolve_keeps [OF begin_request(2,1)]
  have n: "n0 \<le> length (syReqs s)" "lastMsgID (sySession s) = a + int (length (syReqs s) - n0)"
    using begin_request.prems(1) by (auto simp: numbered_def)
  have "in_int64 (lastMsgID (sySession s) + 1)"
    using begin_request.prems n by (auto simp: in_int64_def)
  then have "lastMsgID ses = a + int (Suc (length (syReqs s)) - n0)"
    using n by (simp add: keep wrap64_id)
  then show ?case
    using begin_request.prems(1) keep
    by (auto simp: numbered_def nth_append new_req_def less_Suc_eq)
next
  case (deliver s r msg c)
  then show ?case by (simp add: numbered_def is_finished_def nth_update_field)
qed (auto simp: numbered_def nth_list_update is_finished_def close_pending_nth)

lemma numbered_distinct:
  assumes "numbered n0 a s" and "r < length (syReqs s)" "r' < length (syReqs s)"
    and "\<not> is_finished (syReqs s ! r)" "\<not> is_finished (syReqs s ! r')"
    and "MsgID (rqMsg (syReqs s ! r)) = MsgID (rqMsg (syReqs s ! r'))"
  shows "r = r'"
proof -
  have "n0 \<le> r" "n0 \<le> r'" using assms by (auto simp: numbered_def not_less [symmetric])
  then have "a + int (r - n0) = a + int (r' - n0)" using assms by (auto simp: numbered_def)
  with \<open>n0 \<le> r\<close> \<open>n0 \<le> r'\<close> show ?thesis by simp
qed

lemma awaiting_simps [simp]:
  "awaiting (q\<lparr>rqChan := c\<rparr>) = awaiting q"
  "awaiting (q\<lparr>rqPhase := ph\<rparr>) \<longleftrightarrow> ph = Sending \<or> ph = Waiting"
  by (simp_all add: awaiting_def)

lemma awaiting_not_finished: "awaiting q \<Longrightarrow> \<not> is_finished q"
  by (auto simp: awaiting_def is_finished_def)

text \<open>A step that changes neither the slot of a call nor its channel leaves it served.\<close>

lemma served_cong:
  assumes "served s r" and "rqMsg (syReqs t ! r) = rqMsg (syReqs s ! r)"
    and "rqChan (syReqs t ! r) = rqChan (syReqs s ! r)"
    and "pending (sySession t) (MsgID (rqMsg (syReqs s ! r))) = pending (sySession s) (MsgID (rqMsg (syReqs s ! r)))"
    and "syInflight t = syInflight s"
  shows "served t r"
  using assms by (simp add: served_def)

lemma served_traffic:
  assumes "traffic s t" and "sys_ok s" and "numbered n0 a s"
    and "\<forall>r<length (syReqs s). awaiting (syReqs s ! r) \<longrightarrow> served s r"
    and "r < length (syReqs t)" and "awaiting (syReqs t ! r)"
  shows "served t r"
  using assms
proof (induction rule: traffic.induct)
  case (begin_request m s ses m')
  have r: "r < length (syReqs s)"
    using begin_request by (cases "r = length (syReqs s)") (auto simp: new_req_def awaiting_def)
  with begin_request have "served s r" by (simp add: nth_append)
  then show ?case
    by (rule served_cong) (use r resolve_keeps [OF begin_request(2,1)] in \<open>simp_all add: nth_append\<close>)
next
  case (register r0 s)
  show ?case
  proof (cases "r = r0")
    case True
    with register show ?thesis by (simp add: served_def)
  next
    case False
    with register have aw: "awaiting (syReqs s ! r)" and r: "r < length (syReqs s)" by simp_all
    have "\<not> is_finished (syReqs s ! r0)" using register by (simp add: is_finished_def)
    then have dn: "MsgID (rqMsg (syReqs s ! r)) \<noteq> MsgID (rqMsg (syReqs s ! r0))"
      using numbered_distinct [OF register.prems(2) r] register(1) awaiting_not_finished [OF aw] False by blast
    show ?thesis by (rule served_cong [of s r]) (use False register r aw dn in simp_all)
  qed
next
  case (send_ok r0 s)
  have "served s r" using send_ok by (cases "r = r0") (auto simp: awaiting_def)
  then show ?case by (rule served_cong) (cases "r = r0"; use send_ok in simp)+
next
  case (send_fail r0 s)
  then have ne: "r \<noteq> r0" by auto
  show ?case by (rule served_cong [of s r]) (use ne send_fail in simp_all)
next
  case (answer r0 s c m)
  then have ne: "r \<noteq> r0" by auto
  show ?case by (rule served_cong [of s r]) (use ne answer in simp_all)
next
  case (chan_closed r0 s c)
  then have ne: "r \<noteq> r0" by auto
  show ?case by (rule served_cong [of s r]) (use ne chan_closed in simp_all)
next
  case (give_up r0 s e)
  then have ne: "r \<noteq> r0" by auto
  show ?case by (rule served_cong [of s r]) (use ne give_up in simp_all)
next
  case (deferred_delete r0 s res)
  then have ne: "r \<noteq> r0" by auto
  with deferred_delete have aw: "awaiting (syReqs s ! r)" and r: "r < length (syReqs s)" by simp_all
  have "\<not> is_finished (syReqs s ! r0)" using deferred_delete by (simp add: is_finished_def)
  then have dn: "MsgID (rqMsg (syReqs s ! r)) \<noteq> MsgID (rqMsg (syReqs s ! r0))"
    using numbered_distinct [OF deferred_delete.prems(2) r] deferred_delete(1) awaiting_not_finished [OF aw] ne by blast
  show ?case by (rule served_cong [of s r]) (use ne deferred_delete r aw dn in simp_all)
next
  case (take_pending s msg r0)
  then have p: "pending_ok s" by (simp add: sys_ok_def)
  note q = pending_okD [OF p take_pending(4)]
  show ?case
  proof (cases "r = r0")
    case True
    then show ?thesis by (simp add: served_def)
  next
    case False
    with take_pending have aw: "awaiting (syReqs s ! r)" and r: "r < length (syReqs s)" by simp_all
    have "MsgID (rqMsg (syReqs s ! r)) \<noteq> MsgID msg"
      using numbered_distinct [OF take_pending.prems(2) r q(1)] awaiting_not_finished [OF aw] q False by metis
    with take_pending r aw show ?thesis by (auto simp: served_def)
  qed
next
  case (deliver s r0 msg c)
  then have "inflight_ok s" by (simp add: sys_ok_def)
  from inflight_okD(1) [OF this deliver(1)] have r0: "r0 < length (syReqs s)" .
  show ?case
  proof (cases "r = r0")
    case True
    with r0 show ?thesis by (simp add: served_def)
  next
    case False
    with deliver show ?thesis by (auto simp: served_def)
  qed
next
  case (initial_values s msg)
  then have "served s r" by (auto split: if_splits)
  then show ?case by (rule served_cong) simp_all
next
  case (notify s msg)
  then have "served s r" by auto
  then show ?case by (rule served_cong) simp_all
next
  case (loop_fails s)
  have r: "r < length (syReqs s)" using loop_fails by simp
  have "awaiting (syReqs s ! r)" using loop_fails r by (simp add: close_pending_nth split: if_splits)
  with loop_fails r have "served s r" by blast
  with loop_fails r show ?case by (auto simp: served_def close_pending_nth)
qed

lemma connection_ok_step:
  assumes "traffic s t" and "connection_ok n0 a s" and "in_int64 a"
  shows "connection_ok n0 a t"
proof -
  have le: "length (syReqs s) \<le> length (syReqs t)" using length_traffic [OF assms(1)] .
  have "sys_ok t" using traffic_ok [OF assms(1)] assms(2) by (simp add: connection_ok_def)
  moreover
  { assume b: "a + int (length (syReqs t) - n0) \<le> int64_max"
    then have "a + int (length (syReqs s) - n0) \<le> int64_max" using le by linarith
    then have s: "sys_ok s" "numbered n0 a s" "\<forall>r<length (syReqs s). awaiting (syReqs s ! r) \<longrightarrow> served s r"
      using assms(2) by (auto simp: connection_ok_def)
    have "numbered n0 a t \<and> (\<forall>r<length (syReqs t). awaiting (syReqs t ! r) \<longrightarrow> served t r)"
      using numbered_traffic [OF assms(1) s(2) assms(3) b] served_traffic [OF assms(1) s] by blast }
  ultimately show ?thesis by (simp add: connection_ok_def)
qed

section \<open>Properties\<close>

text \<open>
  C2. Correlation: however callers, the receive loop, connection losses and reconnects interleave, a
  call that returns a message returns a response that carries the id of its own request and no error
  code.
\<close>

theorem answers_correlated:
  assumes "step\<^sup>*\<^sup>* sys0 s" and "r < length (syReqs s)"
    and "rqPhase (syReqs s ! r) = Returning (Inr m) \<or> rqPhase (syReqs s ! r) = Finished (Inr m)"
  shows "MsgID m = MsgID (rqMsg (syReqs s ! r)) \<and> Action m = ActionResponse \<and> Code m = None"
  using sys_steps.reachable_inv [OF assms(1)] assms(2,3)
  by (auto simp: sys_ok_def reqs_ok_def req_ok_def matches_def)

text \<open>
  C3. The receive loop is never stuck and never panics in a delivery: whenever it has taken a response
  for a call, that call's channel is open and empty, so the send goes through.
\<close>

theorem delivery_never_blocks:
  assumes "step\<^sup>*\<^sup>* sys0 s" and "syInflight s = Some (r, m)"
  shows "r < length (syReqs s) \<and> rqChan (syReqs s ! r) = \<lparr>buf = None, closed = False\<rparr>
     \<and> traffic s (set_chan r \<lparr>buf = Some m, closed = False\<rparr> (s\<lparr>syInflight := None\<rparr>))"
proof -
  have "inflight_ok s" using sys_steps.reachable_inv [OF assms(1)] by (simp add: sys_ok_def)
  from inflight_okD [OF this assms(2)]
  have c: "r < length (syReqs s)" "rqChan (syReqs s ! r) = \<lparr>buf = None, closed = False\<rparr>"
    by (simp_all add: expecting_def)
  then show ?thesis using traffic.deliver [OF assms(2) c(2)] by simp
qed

text \<open>
  C4. No answer is lost within a connection: from a moment when no earlier call is outstanding, as long
  as the id counter has not wrapped, every call that has sent (or is sending) its request still has its
  slot under its id, or its answer is on the way or in its channel, or its channel was closed.
\<close>

theorem calls_stay_served:
  assumes "step\<^sup>*\<^sup>* sys0 s0" and "settled s0" and "traffic\<^sup>*\<^sup>* s0 s"
    and "in_int64 (lastMsgID (sySession s0))"
    and "lastMsgID (sySession s0) + int (length (syReqs s) - length (syReqs s0)) \<le> int64_max"
    and "r < length (syReqs s)" and "rqPhase (syReqs s ! r) = Waiting"
  shows "pending (sySession s) (MsgID (rqMsg (syReqs s ! r))) = Some r
     \<or> (\<exists>m. syInflight s = Some (r, m) \<and> MsgID m = MsgID (rqMsg (syReqs s ! r)))
     \<or> buf (rqChan (syReqs s ! r)) \<noteq> None \<or> closed (rqChan (syReqs s ! r))"
proof -
  have "\<not> awaiting (syReqs s0 ! r)" if "r < length (syReqs s0)" for r
    using assms(2) nth_mem [OF that] awaiting_not_finished unfolding settled_def by blast
  then have "connection_ok (length (syReqs s0)) (lastMsgID (sySession s0)) s0"
    using assms(2) sys_steps.reachable_inv [OF assms(1)]
    by (auto simp: connection_ok_def numbered_def settled_def)
  with assms(3) have ok: "connection_ok (length (syReqs s0)) (lastMsgID (sySession s0)) s"
    by (induction rule: rtranclp_induct) (auto intro: connection_ok_step [OF _ _ assms(4)])
  then have "served s r" using assms(5-7) by (simp add: connection_ok_def awaiting_def)
  moreover have "inflight_ok s" using ok by (simp add: connection_ok_def sys_ok_def)
  ultimately show ?thesis using inflight_okD(2) by (auto simp: served_def matches_def)
qed

section \<open>A run\<close>

text \<open>
  One call, cut off by a connection loss; then a second call of the next connection that is given the
  same id (the appliance's counter starts anew). The states of the run, from the first connection on.
\<close>

definition call_ex :: message where
  "call_ex = request ''/ro/values'' 1 ActionPost []"

definition q_ex :: "phase \<Rightarrow> bool \<Rightarrow> req" where
  "q_ex ph c = \<lparr>rqMsg = call_ex, rqPhase = ph, rqChan = \<lparr>buf = None, closed = c\<rparr>\<rparr>"

definition st_ex :: "int \<Rightarrow> (int \<rightharpoonup> nat) \<Rightarrow> req list \<Rightarrow> message list \<Rightarrow> bool \<Rightarrow> sys" where
  "st_ex n p rs sent loop = \<lparr>sySession = session0\<lparr>lastMsgID := n, pending := p\<rparr>, syReqs = rs, syInflight = None,
     sySent = sent, syInit = None, syNotified = [], syLoop = loop\<rparr>"

lemmas run_defs = st_ex_def q_ex_def session0_def call_ex_def request_def new_req_def set_pending_def set_phase_def
  close_pending_def resetState_def

lemma run1: "step sys0 (st_ex 0 Map.empty [] [] True)"
  using reconnect [of sys0] by (simp add: run_defs sys0_def)

lemma run_begin: "traffic (st_ex 0 Map.empty rs sent True) (st_ex 1 Map.empty (rs @ [q_ex Registering False]) sent True)"
proof -
  have "resolveDefaults (sySession (st_ex 0 Map.empty rs sent True)) call_ex True
      = (sySession (st_ex 1 Map.empty (rs @ [q_ex Registering False]) sent True), call_ex)"
    by (simp add: resolveDefaults_def run_defs wrap64_def)
  from begin_request [OF _ this] show ?thesis by (simp add: run_defs)
qed

lemma run_register:
  "traffic (st_ex 1 Map.empty (rs @ [q_ex Registering False]) sent True)
     (st_ex 1 [0 \<mapsto> length rs] (rs @ [q_ex Sending False]) sent True)"
  using register [of "length rs" "st_ex 1 Map.empty (rs @ [q_ex Registering False]) sent True"]
  by (simp add: run_defs)

lemma run_send:
  "traffic (st_ex 1 p (rs @ [q_ex Sending False]) sent True) (st_ex 1 p (rs @ [q_ex Waiting False]) (sent @ [call_ex]) True)"
  using send_ok [of "length rs" "st_ex 1 p (rs @ [q_ex Sending False]) sent True"]
  by (simp add: run_defs)

lemma run_call:
  "traffic\<^sup>*\<^sup>* (st_ex 0 Map.empty rs sent True) (st_ex 1 [0 \<mapsto> length rs] (rs @ [q_ex Waiting False]) (sent @ [call_ex]) True)"
  using run_begin run_register run_send by (meson converse_rtranclp_into_rtranclp rtranclp.rtrancl_refl)

lemma traffic_run: "traffic\<^sup>*\<^sup>* s t \<Longrightarrow> step\<^sup>*\<^sup>* s t"
  by (rule mono_rtranclp [rule_format, of traffic step]) (auto intro: traffic_step)

lemma waiting_reachable: "step\<^sup>*\<^sup>* sys0 (st_ex 1 [0 \<mapsto> 0] [q_ex Waiting False] [call_ex] True)"
  using converse_rtranclp_into_rtranclp [OF run1 traffic_run [OF run_call [of "[]" "[]"]]] by simp

lemma calls_stay_served_witness:
  "pending (sySession (st_ex 1 [0 \<mapsto> 0] [q_ex Waiting False] [call_ex] True)) 0 = Some 0"
  using calls_stay_served [OF r_into_rtranclp [of step, OF run1] _ run_call [of "[]" "[]", simplified], of 0]
  by (simp add: settled_def in_int64_def int64_min_def int64_max_def run_defs)

text \<open>The answer arrives.\<close>

definition reply_ex :: message where
  "reply_ex = call_ex\<lparr>Action := ActionResponse\<rparr>"

definition taken_ex :: sys where
  "taken_ex = (st_ex 1 Map.empty [q_ex Waiting False] [call_ex] True)\<lparr>syInflight := Some (0, reply_ex)\<rparr>"

lemma taken_reachable: "step\<^sup>*\<^sup>* sys0 taken_ex"
proof -
  have "traffic (st_ex 1 [0 \<mapsto> 0] [q_ex Waiting False] [call_ex] True) taken_ex"
    using take_pending [of "st_ex 1 [0 \<mapsto> 0] [q_ex Waiting False] [call_ex] True" reply_ex 0]
    by (simp add: run_defs taken_ex_def reply_ex_def)
  from traffic_step [OF this] waiting_reachable show ?thesis by simp
qed

lemma delivery_never_blocks_witness:
  "traffic taken_ex (set_chan 0 \<lparr>buf = Some reply_ex, closed = False\<rparr> (taken_ex\<lparr>syInflight := None\<rparr>))"
  using delivery_never_blocks [OF taken_reachable, of 0 reply_ex] by (simp add: taken_ex_def)

definition answered_ex :: sys where
  "answered_ex = set_phase 0 (Returning (Inr reply_ex)) (st_ex 1 Map.empty [q_ex Waiting False] [call_ex] True)"

lemma answered_reachable: "step\<^sup>*\<^sup>* sys0 answered_ex"
proof -
  let ?d = "set_chan 0 \<lparr>buf = Some reply_ex, closed = False\<rparr> (taken_ex\<lparr>syInflight := None\<rparr>)"
  have "traffic ?d answered_ex"
    using answer [of 0 ?d "\<lparr>buf = Some reply_ex, closed = False\<rparr>" reply_ex]
    by (simp add: run_defs taken_ex_def answered_ex_def set_chan_def reply_ex_def answered_def codeError_def)
  with taken_reachable delivery_never_blocks_witness show ?thesis
    by (meson rtranclp.rtrancl_into_rtrancl traffic_step)
qed

lemma answers_correlated_witness: "MsgID reply_ex = 0 \<and> Action reply_ex = ActionResponse \<and> Code reply_ex = None"
  using answers_correlated [OF answered_reachable, of 0 reply_ex]
  by (simp add: answered_ex_def run_defs)

text \<open>
  Across connections the guarantee ends: the deferred removal of a call of the lost connection
  removes the slot of the call of the next one that was given the same id. That call then waits with no
  slot, no answer on the way, none in its channel and its channel open; its answer is handed to the
  notification handler instead.
\<close>

theorem stale_delete_loses_answer:
  "\<exists>s r. step\<^sup>*\<^sup>* sys0 s \<and> r < length (syReqs s) \<and> rqPhase (syReqs s ! r) = Waiting \<and> \<not> served s r
     \<and> traffic s (s\<lparr>syNotified := syNotified s @ [reply_ex]\<rparr>) \<and> matches reply_ex (syReqs s ! r)"
proof -
  let ?cut = "[q_ex Waiting True]"
  let ?lost = "st_ex 1 Map.empty [q_ex (Finished (Inl ConnectionClosed)) True, q_ex Waiting False] [call_ex, call_ex] True"
  have "traffic (st_ex 1 [0 \<mapsto> 0] [q_ex Waiting False] [call_ex] True) (st_ex 1 Map.empty ?cut [call_ex] False)"
    using loop_fails [of "st_ex 1 [0 \<mapsto> 0] [q_ex Waiting False] [call_ex] True"] by (simp add: run_defs)
  then have 1: "step\<^sup>*\<^sup>* sys0 (st_ex 1 Map.empty ?cut [call_ex] False)"
    using waiting_reachable traffic_step by (meson rtranclp.rtrancl_into_rtrancl)
  have "step (st_ex 1 Map.empty ?cut [call_ex] False) (st_ex 0 Map.empty ?cut [call_ex] True)"
    using reconnect [of "st_ex 1 Map.empty ?cut [call_ex] False"] by (simp add: run_defs)
  with 1 have "step\<^sup>*\<^sup>* sys0 (st_ex 0 Map.empty ?cut [call_ex] True)" by simp
  then have 2: "step\<^sup>*\<^sup>* sys0 (st_ex 1 [0 \<mapsto> 1] (?cut @ [q_ex Waiting False]) [call_ex, call_ex] True)"
    using traffic_run [OF run_call [of ?cut "[call_ex]"]] by simp
  have 3: "traffic (st_ex 1 [0 \<mapsto> 1] (?cut @ [q_ex Waiting False]) [call_ex, call_ex] True)
      (st_ex 1 [0 \<mapsto> 1] [q_ex (Returning (Inl ConnectionClosed)) True, q_ex Waiting False] [call_ex, call_ex] True)"
    using chan_closed [of 0 "st_ex 1 [0 \<mapsto> 1] (?cut @ [q_ex Waiting False]) [call_ex, call_ex] True"
      "\<lparr>buf = None, closed = True\<rparr>"]
    by (simp add: run_defs)
  have 4: "traffic (st_ex 1 [0 \<mapsto> 1] [q_ex (Returning (Inl ConnectionClosed)) True, q_ex Waiting False] [call_ex, call_ex] True) ?lost"
    using deferred_delete [of 0 "st_ex 1 [0 \<mapsto> 1] [q_ex (Returning (Inl ConnectionClosed)) True, q_ex Waiting False] [call_ex, call_ex] True"]
    by (simp add: run_defs)
  from 2 3 4 have "step\<^sup>*\<^sup>* sys0 ?lost" by (meson rtranclp.rtrancl_into_rtrancl traffic_step)
  moreover have "\<not> served ?lost 1" by (simp add: served_def run_defs)
  moreover have "traffic ?lost (?lost\<lparr>syNotified := syNotified ?lost @ [reply_ex]\<rparr>)"
    by (rule notify) (simp_all add: run_defs reply_ex_def action_defs)
  moreover have "matches reply_ex (syReqs ?lost ! 1)"
    by (simp add: matches_def run_defs reply_ex_def)
  moreover have "1 < length (syReqs ?lost)" "rqPhase (syReqs ?lost ! 1) = Waiting" by (simp_all add: run_defs)
  ultimately show ?thesis by blast
qed

end
