(* ===== verification/Appliance.thy ===== *)
theory Appliance
  imports Entities Session "HOL-Library.List_Lexorder" "HOL-Library.Char_ord" "HOL-Library.Product_Lexorder"
begin

text \<open>
  \<^verbatim>\<open>internal/homeconnect/appliance.go\<close>: the entities of one appliance, the routing of received
  items to them, and the requests that write values and control programs.

  The maps hold pointers to the entities of the list; as in \<open>Profile\<close> they are positions in it.
  Callbacks are recorded as the list of the entities they were called with.
\<close>

section \<open>Entities by uid and name\<close>

record appliance =
  apEntities :: "entity list"
  apByUID :: "int \<rightharpoonup> nat"
  apByName :: "string \<rightharpoonup> nat"

definition appliance0 :: appliance where
  "appliance0 = \<lparr>apEntities = [], apByUID = Map.empty, apByName = Map.empty\<rparr>"

definition enUID :: "entity \<Rightarrow> int" where "enUID e = eUID (enDesc e)"
definition enName :: "entity \<Rightarrow> string" where "enName e = eName (enDesc e)"

text \<open>The body of the loop of \<open>buildEntities\<close>, for an entity just made.\<close>

definition add_entity :: "entity \<Rightarrow> appliance \<Rightarrow> appliance" where
  "add_entity e a =
     (let i = length (apEntities a) in
      a\<lparr>apEntities := apEntities a @ [e], apByUID := (apByUID a)(enUID e \<mapsto> i),
        apByName := (if enName e \<noteq> [] then (apByName a)(enName e \<mapsto> i) else apByName a)\<rparr>)"

definition buildEntities :: "(string \<Rightarrow> string) \<Rightarrow> description \<Rightarrow> appliance \<Rightarrow> appliance" where
  "buildEntities u d a = fold add_entity (List.map (newEntity u) (Entries d)) a"

definition NewAppliance :: "(string \<Rightarrow> string) \<Rightarrow> description \<Rightarrow> appliance" where
  "NewAppliance u d = buildEntities u d appliance0"

definition entity_ptr :: "appliance \<Rightarrow> nat option \<Rightarrow> entity option" where
  "entity_ptr a p = (case p of None \<Rightarrow> None
     | Some i \<Rightarrow> if i < length (apEntities a) then Some (apEntities a ! i) else None)"

definition Entity :: "appliance \<Rightarrow> int \<Rightarrow> entity option" where
  "Entity a uid = entity_ptr a (apByUID a uid)"

definition EntityByName :: "appliance \<Rightarrow> string \<Rightarrow> entity option" where
  "EntityByName a name = entity_ptr a (apByName a name)"

text \<open>Sorted by name, then uid (the code's sort leaves the order of equal keys open; here it is
  that of the list).\<close>

definition sorted_entities :: "appliance \<Rightarrow> entity list" where
  "sorted_entities a = sort_key (\<lambda>e. (enName e, enUID e)) (apEntities a)"

section \<open>Applying what the appliance reports\<close>

text \<open>The entity at a position replaced, as a write through the pointer does.\<close>

definition set_entity :: "nat \<Rightarrow> entity \<Rightarrow> appliance \<Rightarrow> appliance" where
  "set_entity i e a = a\<lparr>apEntities := (apEntities a)[i := e]\<rparr>"

definition applyItem ::
  "(any \<Rightarrow> string) \<Rightarrow> (string \<Rightarrow> string) \<Rightarrow> obj \<Rightarrow> appliance \<times> entity list \<Rightarrow> appliance \<times> entity list" where
  "applyItem fmt u item = (\<lambda>(a, cbs).
     case asInt (obj_get item ''uid'') of
       None \<Rightarrow> (a, cbs)
     | Some uid \<Rightarrow>
         (case apByUID a uid of
            None \<Rightarrow> (a, cbs)
          | Some i \<Rightarrow> (let e = update fmt u (apEntities a ! i) item in (set_entity i e a, cbs @ [e]))))"

text \<open>A missing message (a tolerated error) applies nothing.\<close>

definition applyMessage ::
  "(any \<Rightarrow> string) \<Rightarrow> (string \<Rightarrow> string) \<Rightarrow> message option \<Rightarrow> appliance \<times> entity list \<Rightarrow> appliance \<times> entity list" where
  "applyMessage fmt u msg ac = (case msg of None \<Rightarrow> ac | Some m \<Rightarrow> fold (applyItem fmt u) (Data m) ac)"

definition ApplyValues ::
  "(any \<Rightarrow> string) \<Rightarrow> (string \<Rightarrow> string) \<Rightarrow> obj list \<Rightarrow> appliance \<times> entity list \<Rightarrow> appliance \<times> entity list" where
  "ApplyValues fmt u items ac = fold (applyItem fmt u) items ac"

definition handleNotify ::
  "(any \<Rightarrow> string) \<Rightarrow> (string \<Rightarrow> string) \<Rightarrow> message \<Rightarrow> appliance \<times> entity list \<Rightarrow> appliance \<times> entity list" where
  "handleNotify fmt u msg ac =
     (if Resource msg = ''/ro/values'' \<or> Resource msg = ''/ro/descriptionChange''
      then applyMessage fmt u (Some msg) ac else ac)"

text \<open>Connecting: \<open>dial\<close> is the session's \<open>Connect\<close>; the bulk answers are applied in order.\<close>

definition appliance_connect ::
  "(any \<Rightarrow> string) \<Rightarrow> (string \<Rightarrow> string) \<Rightarrow> (session \<times> net \<Rightarrow> session_error option \<times> session \<times> net)
   \<Rightarrow> appliance \<times> entity list \<Rightarrow> session \<times> net
   \<Rightarrow> session_error option \<times> (appliance \<times> entity list) \<times> session \<times> net" where
  "appliance_connect fmt u dial ac sw =
     (case dial sw of
        (Some e, sw1) \<Rightarrow> (Some e, ac, sw1)
      | (None, sw1) \<Rightarrow>
          (case PostConnectInit sw1 of
             (Inl e, sw2) \<Rightarrow> (Some e, ac, sw2)
           | (Inr (descChanges, mandatory), sw2) \<Rightarrow>
               (None, applyMessage fmt u mandatory (applyMessage fmt u descChanges ac), sw2)))"

section \<open>Requests\<close>

datatype request_error =
    UnknownUID int
  | NotWritable int string bool
  | BadValue write_error
  | SessionError session_error
  | StartCommandMissing

definition WriteValue ::
  "(string \<Rightarrow> string) \<Rightarrow> int \<Rightarrow> any \<Rightarrow> appliance \<Rightarrow> session \<times> net
   \<Rightarrow> request_error option \<times> appliance \<times> session \<times> net" where
  "WriteValue u uid val a sw =
     (case apByUID a uid of
        None \<Rightarrow> (Some (UnknownUID uid), a, sw)
      | Some i \<Rightarrow>
         (let e = apEntities a ! i in
          if \<not> Writable e then (Some (NotWritable uid (enAccess e) (enAvailable e)), a, sw)
          else (case resolveWriteValue u e val of
              Inl err \<Rightarrow> (Some (BadValue err), a, sw)
            | Inr raw \<Rightarrow>
                (case WriteValues [[(''uid'', VInt uid), (''value'', raw)]] sw of
                   (Inl err, sw') \<Rightarrow> (Some (SessionError err), a, sw')
                 | (Inr resp, sw') \<Rightarrow>
                     (None, if Code resp = None then set_entity i (e\<lparr>enValueShadow := raw\<rparr>) a else a, sw')))))"

datatype start_strategy = StartStandard | StartHob | StartCommand

definition program_data :: "int \<Rightarrow> obj list option \<Rightarrow> obj" where
  "program_data programUID opts =
     (''program'', VInt programUID) # (case opts of None \<Rightarrow> [] | Some os \<Rightarrow> [(''options'', VList (List.map VMap os))])"

definition SelectProgram ::
  "int \<Rightarrow> obj list option \<Rightarrow> session \<times> net \<Rightarrow> (session_error + message) \<times> session \<times> net" where
  "SelectProgram programUID opts =
     SendRaw (request ''/ro/selectedProgram'' 0 ActionPost [program_data programUID opts])"

definition StartProgram ::
  "appliance \<Rightarrow> int \<Rightarrow> obj list option \<Rightarrow> start_strategy \<Rightarrow> session \<times> net
   \<Rightarrow> (request_error + message) \<times> session \<times> net" where
  "StartProgram a programUID opts strategy sw =
     (case strategy of
        StartHob \<Rightarrow> (let (r, sw') = SelectProgram programUID opts sw in (map_sum SessionError id r, sw'))
      | StartCommand \<Rightarrow>
          (case EntityByName a ''BSH.Common.Command.StartProgram'' of
             None \<Rightarrow> (Inl StartCommandMissing, sw)
           | Some cmd \<Rightarrow>
               (let (r, sw') = WriteValues [[(''uid'', VInt (enUID cmd)), (''value'', VBool True)]] sw
                in (map_sum SessionError id r, sw')))
      | StartStandard \<Rightarrow>
          (let (r, sw') = SendRaw (request ''/ro/activeProgram'' 0 ActionPost [program_data programUID opts]) sw
           in (map_sum SessionError id r, sw')))"

definition StopActiveProgram :: "session \<times> net \<Rightarrow> (session_error + message) \<times> session \<times> net" where
  "StopActiveProgram = SendRaw (request ''/ro/activeProgram'' 0 ActionDelete [])"

section \<open>The index invariant\<close>

definition appliance_ok :: "appliance \<Rightarrow> bool" where
  "appliance_ok a \<longleftrightarrow>
     (\<forall>k i. apByUID a k = Some i \<longrightarrow> i < length (apEntities a) \<and> enUID (apEntities a ! i) = k)
   \<and> (\<forall>k i. apByName a k = Some i \<longrightarrow> i < length (apEntities a) \<and> enName (apEntities a ! i) = k)"

lemma appliance_okD:
  assumes "appliance_ok a"
  shows "apByUID a k = Some i \<Longrightarrow> i < length (apEntities a) \<and> enUID (apEntities a ! i) = k"
    and "apByName a n = Some i \<Longrightarrow> i < length (apEntities a) \<and> enName (apEntities a ! i) = n"
  using assms by (simp_all add: appliance_ok_def)

definition ent_uid_key :: "entity \<Rightarrow> int option" where
  "ent_uid_key e = Some (enUID e)"

definition ent_name_key :: "entity \<Rightarrow> string option" where
  "ent_name_key e = (if enName e \<noteq> [] then Some (enName e) else None)"

lemma add_entity_simps [simp]:
  "apEntities (add_entity e a) = apEntities a @ [e]"
  "apByUID (add_entity e a) = (apByUID a)(enUID e \<mapsto> length (apEntities a))"
  "apByName (add_entity e a) =
     (if enName e \<noteq> [] then (apByName a)(enName e \<mapsto> length (apEntities a)) else apByName a)"
  by (simp_all add: add_entity_def Let_def)

lemma entity_ptr_None [simp]: "entity_ptr a None = None"
  by (simp add: entity_ptr_def)

lemma entity_ptr_add [simp]:
  "i < length (apEntities a) \<Longrightarrow> entity_ptr (add_entity e a) (Some i) = entity_ptr a (Some i)"
  "entity_ptr (add_entity e a) (Some (length (apEntities a))) = Some e"
  by (simp_all add: entity_ptr_def nth_append)

lemma appliance_ok_add: "appliance_ok a \<Longrightarrow> appliance_ok (add_entity e a)"
  by (auto simp: appliance_ok_def nth_append less_Suc_eq split: if_splits)

lemma Entity_add:
  assumes "appliance_ok a"
  shows "Entity (add_entity e a) k = (if ent_uid_key e = Some k then Some e else Entity a k)"
  using appliance_okD(1) [OF assms, of k]
  by (cases "apByUID a k") (auto simp: Entity_def ent_uid_key_def)

lemma EntityByName_add:
  assumes "appliance_ok a"
  shows "EntityByName (add_entity e a) k = (if ent_name_key e = Some k then Some e else EntityByName a k)"
  using appliance_okD(2) [OF assms, of k]
  by (cases "apByName a k") (auto simp: EntityByName_def ent_name_key_def)

lemma lookup_appliance0: "Entity appliance0 k = None" "EntityByName appliance0 n = None"
  by (simp_all add: Entity_def EntityByName_def appliance0_def)

interpretation ent_uid: keyed_index appliance0 add_entity Entity ent_uid_key appliance_ok
  by unfold_locales (simp_all add: appliance_ok_add Entity_add lookup_appliance0, simp add: appliance_ok_def appliance0_def)

interpretation ent_name: keyed_index appliance0 add_entity EntityByName ent_name_key appliance_ok
  by unfold_locales (simp_all add: appliance_ok_add EntityByName_add lookup_appliance0, simp add: appliance_ok_def appliance0_def)

lemma NewAppliance_ok: "appliance_ok (NewAppliance u d)"
  unfolding NewAppliance_def buildEntities_def by (rule ent_uid.inv_fold) (rule ent_uid.inv_empty)

section \<open>Updates\<close>

lemma update_keys [simp]: "enUID (update fmt u e item) = enUID e" "enName (update fmt u e item) = enName e"
  by (simp_all add: enUID_def enName_def)

lemma set_entity_simps [simp]:
  "apByUID (set_entity i e a) = apByUID a" "apByName (set_entity i e a) = apByName a"
  "apEntities (set_entity i e a) = (apEntities a)[i := e]"
  by (simp_all add: set_entity_def)

lemma set_entity_ok:
  assumes "appliance_ok a" and "enUID e = enUID (apEntities a ! i)" "enName e = enName (apEntities a ! i)"
  shows "appliance_ok (set_entity i e a)"
  using assms by (auto simp: appliance_ok_def nth_update_field [of enUID] nth_update_field [of enName])

lemma Entity_set:
  assumes "appliance_ok a" and "apByUID a uid = Some i"
  shows "Entity (set_entity i e a) k = (if k = uid then Some e else Entity a k)"
proof (cases "apByUID a k")
  case None
  with assms show ?thesis by (auto simp: Entity_def)
next
  case (Some j)
  have i: "i < length (apEntities a)" "enUID (apEntities a ! i) = uid"
    using appliance_okD(1) [OF assms] by auto
  have j: "j < length (apEntities a)" "enUID (apEntities a ! j) = k"
    using appliance_okD(1) [OF assms(1) Some] by auto
  show ?thesis
  proof (cases "k = uid")
    case True
    with assms(2) i show ?thesis by (simp add: Entity_def entity_ptr_def)
  next
    case False
    with i j have "j \<noteq> i" by auto
    with False Some j show ?thesis by (simp add: Entity_def entity_ptr_def)
  qed
qed

definition item_for :: "int \<Rightarrow> obj \<Rightarrow> bool" where
  "item_for uid item \<longleftrightarrow> asInt (obj_get item ''uid'') = Some uid"

lemma applyItem_ok: "appliance_ok a \<Longrightarrow> appliance_ok (fst (applyItem fmt u item (a, cbs)))"
  by (simp add: applyItem_def Let_def set_entity_ok split: option.split)

lemma applyItem_Entity:
  assumes "appliance_ok a"
  shows "Entity (fst (applyItem fmt u item (a, cbs))) k =
     (if item_for k item then map_option (\<lambda>e. update fmt u e item) (Entity a k) else Entity a k)"
proof (cases "asInt (obj_get item ''uid'')")
  case None
  then show ?thesis by (simp add: applyItem_def item_for_def)
next
  case (Some uid)
  show ?thesis
  proof (cases "apByUID a uid")
    case None
    with Some show ?thesis by (auto simp: applyItem_def item_for_def Entity_def)
  next
    case i: (Some i)
    with appliance_okD(1) [OF assms i] Some show ?thesis
      by (simp add: applyItem_def Let_def item_for_def Entity_set [OF assms i])
        (auto simp: Entity_def entity_ptr_def)
  qed
qed

lemma fold_applyItem:
  assumes "appliance_ok a"
  shows "appliance_ok (fst (fold (applyItem fmt u) items (a, cbs)))
     \<and> Entity (fst (fold (applyItem fmt u) items (a, cbs))) k =
        map_option (\<lambda>e. fold (\<lambda>item e. update fmt u e item) (filter (item_for k) items) e) (Entity a k)"
  using assms
proof (induction items arbitrary: a cbs)
  case Nil
  then show ?case by (simp add: option.map_ident)
next
  case (Cons item items)
  obtain a' cbs' where ac: "applyItem fmt u item (a, cbs) = (a', cbs')" by (cases "applyItem fmt u item (a, cbs)")
  have "appliance_ok a'" using applyItem_ok [OF Cons.prems, of fmt u item cbs] ac by simp
  from Cons.IH [OF this, of cbs'] applyItem_Entity [OF Cons.prems, of fmt u item cbs k] ac
  show ?case by (auto simp: option.map_comp comp_def)
qed

section \<open>Properties\<close>

text \<open>
  C8. Routing: applying a message updates, for every uid, the entity that answers to it with exactly the
  items addressed to that uid, in their order, and leaves every other entity as it was. Items whose uid
  is missing, malformed or unknown change nothing.
\<close>

theorem applyMessage_routes:
  assumes "appliance_ok a"
  shows "Entity (fst (applyMessage fmt u (Some m) (a, cbs))) k =
     map_option (\<lambda>e. fold (\<lambda>item e. update fmt u e item)
        (filter (\<lambda>item. asInt (obj_get item ''uid'') = Some k) (Data m)) e) (Entity a k)"
  using fold_applyItem [OF assms, of fmt u "Data m" cbs k]
  by (simp add: applyMessage_def item_for_def [abs_def])

text \<open>What a write puts on the wire, and that it goes nowhere else.\<close>

lemma WriteValue_wire:
  assumes "appliance_ok a" and "WriteValue u uid val a sw = (err, a', sw')"
  shows "\<exists>ms. wire (snd sw') = wire (snd sw) @ ms \<and> length ms \<le> 1
     \<and> (\<forall>m\<in>set ms. Resource m = ''/ro/values'' \<and> Action m = ActionPost
          \<and> (\<exists>e raw. Entity a uid = Some e \<and> Writable e \<and> resolveWriteValue u e val = Inr raw
               \<and> Data m = [[(''uid'', VInt uid), (''value'', raw)]]))
     \<and> (err = None \<longrightarrow> length ms = 1) \<and> (err \<noteq> None \<longrightarrow> a' = a)"
proof (cases "apByUID a uid")
  case None
  with assms show ?thesis by (auto simp: WriteValue_def)
next
  case (Some i)
  define e where "e = apEntities a ! i"
  have e: "Entity a uid = Some e"
    using appliance_okD(1) [OF assms(1) Some] Some by (simp add: Entity_def entity_ptr_def e_def)
  show ?thesis
  proof (cases "Writable e \<and> \<not> isl (resolveWriteValue u e val)")
    case False
    with assms(2) Some show ?thesis
      by (auto simp: WriteValue_def Let_def split: sum.splits if_splits simp flip: e_def)
  next
    case True
    then obtain raw where raw: "resolveWriteValue u e val = Inr raw" by (cases "resolveWriteValue u e val") auto
    obtain res sw'' where ws: "WriteValues [[(''uid'', VInt uid), (''value'', raw)]] sw = (res, sw'')"
      by (cases "WriteValues [[(''uid'', VInt uid), (''value'', raw)]] sw")
    obtain ms where ms: "wire (snd sw'') = wire (snd sw) @ ms" "length ms \<le> 1"
      "\<forall>x\<in>set ms. Resource x = ''/ro/values'' \<and> Action x = ActionPost
         \<and> Data x = [[(''uid'', VInt uid), (''value'', raw)]]"
      "\<not> isl res \<longrightarrow> length ms = 1"
      using sendSync_wire [of 7 "request ''/ro/values'' 0 ActionPost [[(''uid'', VInt uid), (''value'', raw)]]" sw] ws
      by (auto simp: WriteValues_def request_def)
    have "sw'' = sw' \<and> (err = None \<longrightarrow> \<not> isl res) \<and> (err \<noteq> None \<longrightarrow> a' = a)"
      using assms(2) Some True raw ws by (auto simp: WriteValue_def Let_def split: sum.splits simp flip: e_def)
    with ms e True raw show ?thesis by (intro exI [of _ ms]) auto
  qed
qed

text \<open>
  C6. A write reaches the wire only when it is allowed: a request goes out only for a feature the
  appliance has, that is writable now, with a value that converts; it is then one message to
  \<^verbatim>\<open>/ro/values\<close> with that uid and the converted value. In every other case the session is untouched,
  and a failed write never changes an entity.
\<close>

theorem WriteValue_guarded:
  assumes "appliance_ok a" and "WriteValue u uid val a sw = (err, a', sw')"
  shows "\<exists>ms. wire (snd sw') = wire (snd sw) @ ms \<and> length ms \<le> 1
     \<and> (\<forall>m\<in>set ms. Resource m = ''/ro/values'' \<and> Action m = ActionPost
          \<and> (\<exists>e raw. Entity a uid = Some e \<and> Writable e \<and> resolveWriteValue u e val = Inr raw
               \<and> Data m = [[(''uid'', VInt uid), (''value'', raw)]]))
     \<and> (err = None \<longrightarrow> length ms = 1) \<and> (err \<noteq> None \<longrightarrow> a' = a)"
  using assms by (rule WriteValue_wire)

definition dishwasher :: appliance where
  "dishwasher = NewAppliance (\<lambda>s. s) \<lparr>dHaID = ''ha'', dInfo = info0, Entries =
     [entry0\<lparr>eUID := 539, eName := ''BSH.Common.Setting.PowerState'', eKind := KindSetting,
        eProtocolType := ProtocolInteger, eAccess := ''readwrite'', eAvailable := True,
        eEnumeration := [(1, ''Off''), (2, ''On'')]\<rparr>],
     byUID = Map.empty, byName = Map.empty, Enumerations = Map.empty\<rparr>"

lemma applyMessage_routes_witness:
  "map_option Value (Entity (fst (applyMessage (\<lambda>_. []) (\<lambda>s. s)
      (Some (request ''/ro/values'' 1 ActionNotify
         [[(''uid'', VInt 539), (''value'', VInt 1)], [(''uid'', VInt 7)], [(''uid'', VInt 539), (''value'', VInt 2)]]))
      (dishwasher, []))) 539) = Some (VStr ''On'')"
proof -
  have "map_option Value (map_option (\<lambda>e. fold (\<lambda>item e. update (\<lambda>_. []) (\<lambda>s. s) e item)
        (filter (\<lambda>item. asInt (obj_get item ''uid'') = Some 539)
          [[(''uid'', VInt 539), (''value'', VInt 1)], [(''uid'', VInt 7)], [(''uid'', VInt 539), (''value'', VInt 2)]]) e)
      (Entity dishwasher 539)) = Some (VStr ''On'')"
    by code_simp
  moreover have "appliance_ok dishwasher" unfolding dishwasher_def by (rule NewAppliance_ok)
  ultimately show ?thesis by (simp only: applyMessage_routes) (simp add: request_def)
qed

lemma WriteValue_guarded_witness:
  "\<exists>a' sw' m. WriteValue (\<lambda>s. s) 539 (VStr ''off'') dishwasher (session0, \<lparr>script = [Reply ini_example], wire = []\<rparr>)
       = (None, a', sw') \<and> wire (snd sw') = [m]
     \<and> Resource m = ''/ro/values'' \<and> Data m = [[(''uid'', VInt 539), (''value'', VInt 1)]]"
proof -
  let ?w = "WriteValue (\<lambda>s. s) 539 (VStr ''off'') dishwasher (session0, \<lparr>script = [Reply ini_example], wire = []\<rparr>)"
  obtain err a' sw' where r: "?w = (err, a', sw')" by (cases ?w)
  have "fst ?w = None" by code_simp
  with r have err: "err = None" by simp
  have ok: "appliance_ok dishwasher" unfolding dishwasher_def by (rule NewAppliance_ok)
  have raw: "map_option (\<lambda>e. resolveWriteValue (\<lambda>s. s) e (VStr ''off'')) (Entity dishwasher 539)
      = Some (Inr (VInt 1))" by code_simp
  from WriteValue_guarded [OF ok r] err obtain ms where ms: "wire (snd sw') = ms" "length ms = 1"
    "\<forall>m\<in>set ms. Resource m = ''/ro/values'' \<and> Action m = ActionPost
       \<and> (\<exists>e raw. Entity dishwasher 539 = Some e \<and> Writable e \<and> resolveWriteValue (\<lambda>s. s) e (VStr ''off'') = Inr raw
            \<and> Data m = [[(''uid'', VInt 539), (''value'', raw)]])"
    by (elim exE conjE) (rule that, simp_all)
  then obtain m where "ms = [m]" by (auto simp: length_Suc_conv)
  with ms raw err r show ?thesis by auto
qed

end
