(* ===== verification/Reconnect.thy ===== *)
theory Reconnect
  imports Prelude
begin

text \<open>
  The reconnect manager of \<^verbatim>\<open>internal/homeconnect/reconnect.go\<close>: the loop that keeps one
  appliance connected. What the world answers in one turn of the loop is a \<open>round\<close>; the loop runs
  over a list of rounds, and what it does is its trace. Durations are nanoseconds, 64 bits wide.
\<close>

section \<open>Manager\<close>

datatype conn_state =
  StateConnecting | StateConnected | StateReconnecting | StateClosing | StateClosed | StateOffline

record reconnect_config =
  InitialBackoff :: int
  MaxBackoff :: int
  Jitter :: int
  ConnectTimeout :: int
  LogThrottle :: int
  hasOnState :: bool

text \<open>\<open>OnState s\<close> is a call of the state callback; \<open>ConnectCall\<close> carries the timeout put on the
  attempt, if any; \<open>OfflineLog\<close> the number of attempts it reports.\<close>

datatype mgr_event =
    OnState conn_state
  | ConnectCall "int option"
  | CloseCall
  | Slept int
  | OfflineLog int

record manager =
  mgState :: conn_state
  mgLastOffline :: "int option"
  mgOfflineRuns :: int
  mgTrace :: "mgr_event list"

definition second_ns :: int where
  "second_ns = 1000000000"

definition NewManager_config :: "reconnect_config \<Rightarrow> reconnect_config" where
  "NewManager_config c =
     (let c1 = (if InitialBackoff c \<le> 0 then c\<lparr>InitialBackoff := second_ns\<rparr> else c);
          c2 = (if MaxBackoff c1 \<le> 0 then c1\<lparr>MaxBackoff := 30 * second_ns\<rparr> else c1)
      in if LogThrottle c2 \<le> 0 then c2\<lparr>LogThrottle := 30 * second_ns\<rparr> else c2)"

definition NewManager :: manager where
  "NewManager = \<lparr>mgState = StateClosed, mgLastOffline = None, mgOfflineRuns = 0, mgTrace = []\<rparr>"

definition emit :: "mgr_event \<Rightarrow> manager \<Rightarrow> manager" where
  "emit e m = m\<lparr>mgTrace := mgTrace m @ [e]\<rparr>"

definition setState :: "reconnect_config \<Rightarrow> conn_state \<Rightarrow> manager \<Rightarrow> manager" where
  "setState c s m =
     (let changed = (mgState m \<noteq> s); m1 = m\<lparr>mgState := s\<rparr> in
      if changed \<and> hasOnState c then emit (OnState s) m1 else m1)"

definition nextBackoff :: "reconnect_config \<Rightarrow> int \<Rightarrow> int" where
  "nextBackoff c d0 = (let d = wrap64 (d0 * 2) in if MaxBackoff c < d then MaxBackoff c else d)"

text \<open>\<open>r\<close> is what the random generator returns for twice the jitter.\<close>

definition jittered :: "reconnect_config \<Rightarrow> int \<Rightarrow> int \<Rightarrow> int" where
  "jittered c r d =
     (if Jitter c \<le> 0 then d
      else (let delta = wrap64 (r - Jitter c) in
        if wrap64 (d + delta) < 0 then 0 else wrap64 (d + delta)))"

definition logOffline :: "reconnect_config \<Rightarrow> int \<Rightarrow> manager \<Rightarrow> manager" where
  "logOffline c now m =
     (let m1 = m\<lparr>mgOfflineRuns := mgOfflineRuns m + 1\<rparr> in
      case mgLastOffline m1 of
        Some t \<Rightarrow> if now - t < LogThrottle c then m1
          else (emit (OfflineLog (mgOfflineRuns m1)) m1)\<lparr>mgLastOffline := Some now\<rparr>
      | None \<Rightarrow> (emit (OfflineLog (mgOfflineRuns m1)) m1)\<lparr>mgLastOffline := Some now\<rparr>)"

definition resetOfflineLog :: "manager \<Rightarrow> manager" where
  "resetOfflineLog m = m\<lparr>mgLastOffline := None, mgOfflineRuns := 0\<rparr>"

text \<open>The attempt, under a timeout when one is configured.\<close>

definition connectOnce :: "reconnect_config \<Rightarrow> manager \<Rightarrow> manager" where
  "connectOnce c m = emit (ConnectCall (if ConnectTimeout c \<le> 0 then None else Some (ConnectTimeout c))) m"

section \<open>The loop\<close>

text \<open>
  One round: whether the context was cancelled at the top; whether the attempt connected; if so,
  whether the connection dropped (otherwise the context was cancelled); whether a wait ran its time
  (otherwise the context was cancelled first); the random number and the clock.
\<close>

record round =
  rdCancelled :: bool
  rdConnects :: bool
  rdDrops :: bool
  rdWaits :: bool
  rdRand :: int
  rdNow :: int

definition sleep :: "reconnect_config \<Rightarrow> round \<Rightarrow> int \<Rightarrow> manager \<Rightarrow> manager" where
  "sleep c r d m = emit (Slept (jittered c (rdRand r) d)) m"

text \<open>The Boolean result is whether the loop has returned.\<close>

fun run_loop :: "reconnect_config \<Rightarrow> int \<Rightarrow> round list \<Rightarrow> manager \<Rightarrow> bool \<times> manager" where
  "run_loop c backoff [] m = (False, m)"
| "run_loop c backoff (r # rs) m =
     (if rdCancelled r then (True, setState c StateClosed m)
      else (let m1 = connectOnce c (setState c StateConnecting m) in
        if \<not> rdConnects r then
          (let m2 = logOffline c (rdNow r) (setState c StateOffline (emit CloseCall m1));
               m3 = sleep c r backoff m2
           in if \<not> rdWaits r then (True, setState c StateClosed m3)
              else run_loop c (nextBackoff c backoff) rs m3)
        else
          (let m2 = resetOfflineLog (setState c StateConnected m1) in
           if \<not> rdDrops r then
             (True, setState c StateClosed (emit CloseCall (setState c StateClosing m2)))
           else
             (let m3 = sleep c r (InitialBackoff c) (emit CloseCall (setState c StateReconnecting m2)) in
              if \<not> rdWaits r then (True, setState c StateClosed m3)
              else run_loop c (InitialBackoff c) rs m3))))"

definition Run :: "reconnect_config \<Rightarrow> round list \<Rightarrow> manager \<Rightarrow> bool \<times> manager" where
  "Run c rs m = run_loop c (InitialBackoff c) rs m"

section \<open>Reading the trace\<close>

definition sleeps :: "mgr_event list \<Rightarrow> int list" where
  "sleeps es = List.map_filter (\<lambda>e. case e of Slept d \<Rightarrow> Some d | _ \<Rightarrow> None) es"

definition reported :: "mgr_event list \<Rightarrow> conn_state list" where
  "reported es = List.map_filter (\<lambda>e. case e of OnState s \<Rightarrow> Some s | _ \<Rightarrow> None) es"

text \<open>Whether a connection is held after the events; \<open>None\<close> when an attempt was made with one
  held, or one was closed that was not.\<close>

fun hold :: "bool option \<Rightarrow> mgr_event \<Rightarrow> bool option" where
  "hold (Some False) (ConnectCall t) = Some True"
| "hold (Some True) CloseCall = Some False"
| "hold b (ConnectCall t) = None"
| "hold b CloseCall = None"
| "hold b e = b"

definition held :: "mgr_event list \<Rightarrow> bool option" where
  "held es = foldl hold (Some False) es"

fun legal :: "conn_state \<Rightarrow> conn_state \<Rightarrow> bool" where
  "legal StateClosed t = (t = StateConnecting)"
| "legal StateConnecting t = (t = StateConnected \<or> t = StateOffline)"
| "legal StateConnected t = (t = StateReconnecting \<or> t = StateClosing)"
| "legal StateReconnecting t = (t = StateConnecting \<or> t = StateClosed)"
| "legal StateOffline t = (t = StateConnecting \<or> t = StateClosed)"
| "legal StateClosing t = (t = StateClosed)"

lemma hold_keep [simp]: "hold b (OnState s) = b" "hold b (Slept d) = b" "hold b (OfflineLog n) = b"
  by (cases b; simp)+

lemma held_simps [simp]:
  "held [] = Some False"
  "held (es @ [OnState s]) = held es" "held (es @ [Slept d]) = held es" "held (es @ [OfflineLog n]) = held es"
  "held (es @ [ConnectCall t]) = (if held es = Some False then Some True else None)"
  "held (es @ [CloseCall]) = (if held es = Some True then Some False else None)"
  by (simp_all add: held_def) (cases "foldl hold (Some False) es"; auto)+

lemma map_filter_snoc: "List.map_filter f (xs @ [x]) = List.map_filter f xs @ (case f x of None \<Rightarrow> [] | Some y \<Rightarrow> [y])"
  by (simp add: List.map_filter_def split: option.split)

lemma trace_emit [simp]: "mgTrace (emit e m) = mgTrace m @ [e]" "mgState (emit e m) = mgState m"
  by (simp_all add: emit_def)

lemma sleeps_simps [simp]:
  "sleeps [] = []" "sleeps (es @ [Slept d]) = sleeps es @ [d]"
  "sleeps (es @ [OnState s]) = sleeps es" "sleeps (es @ [ConnectCall t]) = sleeps es"
  "sleeps (es @ [CloseCall]) = sleeps es" "sleeps (es @ [OfflineLog n]) = sleeps es"
  by (simp_all add: sleeps_def map_filter_snoc List.map_filter_simps)

lemma reported_simps [simp]:
  "reported [] = []" "reported (es @ [OnState s]) = reported es @ [s]"
  "reported (es @ [Slept d]) = reported es" "reported (es @ [ConnectCall t]) = reported es"
  "reported (es @ [CloseCall]) = reported es" "reported (es @ [OfflineLog n]) = reported es"
  by (simp_all add: reported_def map_filter_snoc List.map_filter_simps)

text \<open>What is true of the manager at every point of the loop: it has reported a path of the state
  machine that ends in its state.\<close>

definition on_path :: "reconnect_config \<Rightarrow> manager \<Rightarrow> bool" where
  "on_path c m \<longleftrightarrow> (hasOnState c \<longrightarrow>
     successively legal (StateClosed # reported (mgTrace m))
   \<and> last (StateClosed # reported (mgTrace m)) = mgState m)"

definition reach :: "reconnect_config \<Rightarrow> bool option \<Rightarrow> conn_state \<Rightarrow> manager \<Rightarrow> bool" where
  "reach c h s m \<longleftrightarrow> on_path c m \<and> held (mgTrace m) = h \<and> mgState m = s"

lemma setState_reach:
  assumes "reach c h s m" and "s = t \<or> legal s t"
  shows "reach c h t (setState c t m)"
  using assms
  by (auto simp: reach_def on_path_def setState_def Let_def successively_append_iff successively_Cons)

lemma reach_other [simp]:
  "reach c h s (emit (Slept d) m) = reach c h s m"
  "reach c h s (resetOfflineLog m) = reach c h s m"
  "reach c h s (logOffline cf now m) = reach c h s m"
  "reach c h s (sleep cf r d m) = reach c h s m"
  by (simp_all add: reach_def on_path_def resetOfflineLog_def logOffline_def sleep_def emit_def Let_def
      split: option.split)

lemma reach_connect: "reach c (Some False) s m \<Longrightarrow> reach c (Some True) s (connectOnce cf m)"
  by (simp add: reach_def on_path_def connectOnce_def)

lemma reach_close: "reach c (Some True) s m \<Longrightarrow> reach c (Some False) s (emit CloseCall m)"
  by (simp add: reach_def on_path_def)

text \<open>The states in which a turn of the loop starts.\<close>

definition ready :: "conn_state \<Rightarrow> bool" where
  "ready s \<longleftrightarrow> s = StateClosed \<or> s = StateOffline \<or> s = StateReconnecting"

lemma run_loop_reach:
  assumes "reach c (Some False) s m" and "ready s"
  shows "(fst (run_loop c b rs m) \<longrightarrow> reach c (Some False) StateClosed (snd (run_loop c b rs m)))
     \<and> (\<not> fst (run_loop c b rs m) \<longrightarrow> (\<exists>s'. ready s' \<and> reach c (Some False) s' (snd (run_loop c b rs m))))"
  using assms
proof (induction c b rs m arbitrary: s rule: run_loop.induct)
  case (1 c backoff m)
  then show ?case by auto
next
  case (2 c backoff r rs m)
  define m1 where "m1 = connectOnce c (setState c StateConnecting m)"
  have top: "reach c (Some False) StateClosed (setState c StateClosed m)"
    using "2.prems" by (intro setState_reach [of c _ s]) (auto simp: ready_def)
  have m1: "reach c (Some True) StateConnecting m1"
    unfolding m1_def using "2.prems" by (intro reach_connect setState_reach [of c _ s]) (auto simp: ready_def)
  define m2 where "m2 = sleep c r backoff (logOffline c (rdNow r) (setState c StateOffline (emit CloseCall m1)))"
  have m2: "reach c (Some False) StateOffline m2"
    unfolding m2_def using reach_close [OF m1] by (simp add: setState_reach)
  define m3 where "m3 = resetOfflineLog (setState c StateConnected m1)"
  have m3: "reach c (Some True) StateConnected m3"
    unfolding m3_def using m1 by (simp add: setState_reach)
  have closing: "reach c (Some False) StateClosed
      (setState c StateClosed (emit CloseCall (setState c StateClosing m3)))"
    using setState_reach [OF reach_close [OF setState_reach [OF m3, of StateClosing]], of StateClosed] by simp
  define m4 where "m4 = sleep c r (InitialBackoff c) (emit CloseCall (setState c StateReconnecting m3))"
  have m4: "reach c (Some False) StateReconnecting m4"
    unfolding m4_def using reach_close [OF setState_reach [OF m3, of StateReconnecting]] by simp
  have ends: "reach c (Some False) StateClosed (setState c StateClosed m2)"
    "reach c (Some False) StateClosed (setState c StateClosed m4)"
    using m2 m4 by (auto intro: setState_reach)
  have step: "run_loop c backoff (r # rs) m =
    (if rdCancelled r then (True, setState c StateClosed m)
     else if \<not> rdConnects r then
       if \<not> rdWaits r then (True, setState c StateClosed m2) else run_loop c (nextBackoff c backoff) rs m2
     else if \<not> rdDrops r then (True, setState c StateClosed (emit CloseCall (setState c StateClosing m3)))
     else if \<not> rdWaits r then (True, setState c StateClosed m4) else run_loop c (InitialBackoff c) rs m4)"
    by (simp add: m1_def m2_def m3_def m4_def Let_def)
  show ?case
  proof (cases "rdCancelled r \<or> \<not> rdWaits r \<or> rdConnects r \<and> \<not> rdDrops r")
    case True
    then show ?thesis unfolding step using top closing ends by auto
  next
    case go: False
    show ?thesis
    proof (cases "rdConnects r")
      case True
      with go have "run_loop c backoff (r # rs) m = run_loop c (InitialBackoff c) rs m4" by (simp add: step del: run_loop.simps)
      moreover have "ready StateReconnecting" by (simp add: ready_def)
      ultimately show ?thesis
        using "2.IH"(2) [OF _ m1_def _ m3_def _ m4_def _ m4] go True by simp
    next
      case False
      with go have "run_loop c backoff (r # rs) m = run_loop c (nextBackoff c backoff) rs m2" by (simp add: step del: run_loop.simps)
      moreover have "ready StateOffline" by (simp add: ready_def)
      ultimately show ?thesis
        using "2.IH"(1) [OF _ m1_def _ _ _ _ m2] go False by (simp add: m2_def)
    qed
  qed
qed

section \<open>Backoff\<close>

definition failing :: "round \<Rightarrow> bool" where
  "failing r \<longleftrightarrow> \<not> rdCancelled r \<and> \<not> rdConnects r \<and> rdWaits r"

lemma sleeps_other [simp]:
  "sleeps (mgTrace (setState c s m)) = sleeps (mgTrace m)"
  "sleeps (mgTrace (logOffline c now m)) = sleeps (mgTrace m)"
  "sleeps (mgTrace (connectOnce c m)) = sleeps (mgTrace m)"
  "sleeps (mgTrace (sleep c r d m)) = sleeps (mgTrace m) @ [jittered c (rdRand r) d]"
  by (simp_all add: setState_def logOffline_def connectOnce_def sleep_def Let_def split: option.split)

lemma failing_step:
  assumes "failing r"
  shows "\<exists>m'. run_loop c b (r # rs) m = run_loop c (nextBackoff c b) rs m'
     \<and> sleeps (mgTrace m') = sleeps (mgTrace m) @ [jittered c (rdRand r) b]"
proof -
  let ?m' = "sleep c r b (logOffline c (rdNow r) (setState c StateOffline
     (emit CloseCall (connectOnce c (setState c StateConnecting m)))))"
  have "run_loop c b (r # rs) m = run_loop c (nextBackoff c b) rs ?m'"
    using assms by (simp add: failing_def Let_def)
  moreover have "sleeps (mgTrace ?m') = sleeps (mgTrace m) @ [jittered c (rdRand r) b]" by simp
  ultimately show ?thesis by blast
qed

lemma nextBackoff_double:
  assumes "0 < b" and "b \<le> MaxBackoff c" and "MaxBackoff c < 2 ^ 62"
  shows "nextBackoff c b = min (MaxBackoff c) (2 * b)"
proof -
  have "in_int64 (b * 2)" using assms by (auto simp: in_int64_def int64_min_def int64_max_def)
  then show ?thesis by (simp add: nextBackoff_def wrap64_id min_def Let_def)
qed

lemma jittered_bounds:
  assumes "0 < d" and "d < 2 ^ 62" and "Jitter c < 2 ^ 61" and "0 \<le> r" and "r < 2 * Jitter c \<or> Jitter c \<le> 0"
  shows "0 \<le> jittered c r d \<and> d - max 0 (Jitter c) \<le> jittered c r d \<and> jittered c r d \<le> d + max 0 (Jitter c)"
proof (cases "Jitter c \<le> 0")
  case True
  with assms show ?thesis by (simp add: jittered_def)
next
  case False
  with assms have "in_int64 (r - Jitter c)" "in_int64 (d + (r - Jitter c))"
    by (auto simp: in_int64_def int64_min_def int64_max_def)
  with False assms show ?thesis by (auto simp: jittered_def wrap64_id Let_def)
qed

lemma run_failing:
  assumes "0 < b" and "b \<le> MaxBackoff c" and "MaxBackoff c < 2 ^ 62" and "\<forall>r\<in>set rs. failing r"
  shows "\<not> fst (run_loop c b rs m)
    \<and> sleeps (mgTrace (snd (run_loop c b rs m))) = sleeps (mgTrace m)
        @ List.map (\<lambda>k. jittered c (rdRand (rs ! k)) (min (MaxBackoff c) (b * 2 ^ k))) [0..<length rs]"
  using assms
proof (induction rs arbitrary: b m)
  case Nil
  then show ?case by simp
next
  case (Cons r rs)
  obtain m' where m': "run_loop c b (r # rs) m = run_loop c (nextBackoff c b) rs m'"
    "sleeps (mgTrace m') = sleeps (mgTrace m) @ [jittered c (rdRand r) b]"
    using failing_step [of r c b rs m] Cons.prems(4) by auto
  have nb: "nextBackoff c b = min (MaxBackoff c) (2 * b)" using nextBackoff_double Cons.prems by blast
  have "min (MaxBackoff c) (min (MaxBackoff c) (2 * b) * 2 ^ k) = min (MaxBackoff c) (b * 2 ^ Suc k)" for k
  proof -
    have "MaxBackoff c \<le> MaxBackoff c * 2 ^ k" using Cons.prems by (simp add: mult_le_cancel_left1)
    moreover have "2 * b \<le> 2 * b * 2 ^ k" using Cons.prems by (simp add: mult_le_cancel_left1)
    ultimately show ?thesis by (auto simp: min_def mult.commute mult.left_commute)
  qed
  then show ?case
    using Cons.IH [of "nextBackoff c b" m'] Cons.prems
    by (simp add: m' nb map_upt_Suc del: upt_Suc run_loop.simps)
qed

lemma Run_reach:
  "(fst (Run c rs NewManager) \<longrightarrow> reach c (Some False) StateClosed (snd (Run c rs NewManager)))
   \<and> (\<not> fst (Run c rs NewManager) \<longrightarrow> (\<exists>s'. ready s' \<and> reach c (Some False) s' (snd (Run c rs NewManager))))"
  unfolding Run_def by (rule run_loop_reach) (simp add: reach_def on_path_def NewManager_def, simp add: ready_def)

section \<open>Properties\<close>

text \<open>
  Offline is normal, and the waits back off: while every attempt fails the loop never returns, it
  waits after every attempt, and the wait after attempt \<open>k\<close> (from 0) is within the jitter of the initial
  backoff doubled \<open>k\<close> times and capped, and never negative. (The configured durations are positive and
  below half the range of a duration.)
\<close>

theorem backoff_schedule:
  assumes "0 < InitialBackoff c" and "InitialBackoff c \<le> MaxBackoff c" and "MaxBackoff c < 2 ^ 62"
    and "Jitter c < 2 ^ 61" and "sleeps (mgTrace m) = []"
    and "\<forall>r\<in>set rs. failing r \<and> 0 \<le> rdRand r \<and> (rdRand r < 2 * Jitter c \<or> Jitter c \<le> 0)"
  shows "\<not> fst (Run c rs m) \<and> length (sleeps (mgTrace (snd (Run c rs m)))) = length rs
    \<and> (\<forall>k<length rs. let w = sleeps (mgTrace (snd (Run c rs m))) ! k;
                          d = min (MaxBackoff c) (InitialBackoff c * 2 ^ k)
         in 0 \<le> w \<and> d - max 0 (Jitter c) \<le> w \<and> w \<le> d + max 0 (Jitter c))"
proof -
  have r: "\<not> fst (Run c rs m)" "sleeps (mgTrace (snd (Run c rs m))) =
      List.map (\<lambda>k. jittered c (rdRand (rs ! k)) (min (MaxBackoff c) (InitialBackoff c * 2 ^ k))) [0..<length rs]"
    using run_failing [OF assms(1,2,3), of rs m] assms(5,6) by (simp_all add: Run_def)
  have "0 < min (MaxBackoff c) (InitialBackoff c * 2 ^ k) \<and> min (MaxBackoff c) (InitialBackoff c * 2 ^ k) < 2 ^ 62" for k
    using assms(1-3) by (auto simp: min_def)
  with r assms(4,6) show ?thesis by (auto simp: Let_def intro!: jittered_bounds [THEN conjunct1]
      jittered_bounds [THEN conjunct2, THEN conjunct1] jittered_bounds [THEN conjunct2, THEN conjunct2])
qed

text \<open>
  C10. Every attempt is closed again before the next one, whatever the world does: at no point of the
  trace is a connection attempted while one is held, or closed while none is; and when the loop has
  returned, none is held and the state is \<open>StateClosed\<close>.
\<close>

theorem Run_closes_attempts:
  "held (mgTrace (snd (Run c rs NewManager))) = Some False
   \<and> (if fst (Run c rs NewManager) then mgState (snd (Run c rs NewManager)) = StateClosed
      else mgState (snd (Run c rs NewManager)) \<in> {StateClosed, StateOffline, StateReconnecting})"
  using Run_reach [of c rs] by (auto simp: reach_def ready_def)

text \<open>
  The callback sees a path of the state machine: from the initial \<open>StateClosed\<close> on, each reported
  state follows the one before by a legal transition (so no state is reported twice in a row), and the
  last one reported is the manager's state.
\<close>

theorem Run_reports_path:
  assumes "hasOnState c"
  shows "successively legal (StateClosed # reported (mgTrace (snd (Run c rs NewManager))))
   \<and> last (StateClosed # reported (mgTrace (snd (Run c rs NewManager)))) = mgState (snd (Run c rs NewManager))"
  using Run_reach [of c rs] assms by (cases "fst (Run c rs NewManager)") (auto simp: reach_def on_path_def)

section \<open>A run\<close>

definition mgr_example :: reconnect_config where
  "mgr_example = \<lparr>InitialBackoff = 5, MaxBackoff = 12, Jitter = 2, ConnectTimeout = 0, LogThrottle = 30, hasOnState = True\<rparr>"

definition fail_round :: round where
  "fail_round = \<lparr>rdCancelled = False, rdConnects = False, rdDrops = False, rdWaits = True, rdRand = 3, rdNow = 0\<rparr>"

lemma backoff_schedule_witness:
  "sleeps (mgTrace (snd (Run mgr_example [fail_round, fail_round, fail_round] NewManager))) = [6, 11, 13]
   \<and> length (sleeps (mgTrace (snd (Run mgr_example [fail_round, fail_round, fail_round] NewManager)))) = 3"
proof -
  have "sleeps (mgTrace (snd (Run mgr_example [fail_round, fail_round, fail_round] NewManager))) = [6, 11, 13]"
    by code_simp
  moreover have "length (sleeps (mgTrace (snd (Run mgr_example [fail_round, fail_round, fail_round] NewManager)))) = 3"
    using backoff_schedule [of mgr_example NewManager "[fail_round, fail_round, fail_round]"]
    by (simp add: mgr_example_def fail_round_def failing_def NewManager_def)
  ultimately show ?thesis by blast
qed

lemma Run_reports_path_witness:
  "successively legal (StateClosed # reported (mgTrace (snd (Run mgr_example
     [fail_round, fail_round\<lparr>rdConnects := True, rdDrops := True\<rparr>, fail_round\<lparr>rdConnects := True\<rparr>] NewManager))))"
  using Run_reports_path [of mgr_example
    "[fail_round, fail_round\<lparr>rdConnects := True, rdDrops := True\<rparr>, fail_round\<lparr>rdConnects := True\<rparr>]"]
  by (simp add: mgr_example_def)

end
