(* ===== verification/Go_Text.thy ===== *)
theory Go_Text
  imports Prelude
begin

text \<open>
  What the program uses of Go's \<^verbatim>\<open>unicode/utf8\<close>, \<^verbatim>\<open>path\<close> and \<^verbatim>\<open>path/filepath\<close> (on Unix) on byte
  strings: decoding of runes, validity of UTF-8, and the lexical path functions.
\<close>

section \<open>Runes\<close>

definition cont_byte :: "char \<Rightarrow> bool" where
  "cont_byte c \<longleftrightarrow> 0x80 \<le> (of_char c :: nat) \<and> (of_char c :: nat) \<le> 0xBF"

definition cont_bits :: "char \<Rightarrow> nat" where
  "cont_bits c = of_char c - 0x80"

text \<open>
  \<^verbatim>\<open>utf8.DecodeRuneInString\<close> on a non-empty string: the rune and its width; \<open>None\<close> is the error rune
  of an invalid encoding (too short, overlong, a surrogate or past the last rune), of width 1.
\<close>

definition decode_rune :: "char \<Rightarrow> string \<Rightarrow> nat option \<times> nat" where
  "decode_rune c s =
     (let n = of_char c :: nat in
      if n < 0x80 then (Some n, 1)
      else if 0xC2 \<le> n \<and> n \<le> 0xDF then
        (case s of a # _ \<Rightarrow> if cont_byte a then (Some ((n - 0xC0) * 64 + cont_bits a), 2) else (None, 1)
         | [] \<Rightarrow> (None, 1))
      else if 0xE0 \<le> n \<and> n \<le> 0xEF then
        (case s of a # b # _ \<Rightarrow>
            (let r = (n - 0xE0) * 4096 + cont_bits a * 64 + cont_bits b in
             if cont_byte a \<and> cont_byte b \<and> 0x800 \<le> r \<and> \<not> (0xD800 \<le> r \<and> r \<le> 0xDFFF)
             then (Some r, 3) else (None, 1))
         | _ \<Rightarrow> (None, 1))
      else if 0xF0 \<le> n \<and> n \<le> 0xF4 then
        (case s of a # b # d # _ \<Rightarrow>
            (let r = (n - 0xF0) * 262144 + cont_bits a * 4096 + cont_bits b * 64 + cont_bits d in
             if cont_byte a \<and> cont_byte b \<and> cont_byte d \<and> 0x10000 \<le> r \<and> r \<le> 0x10FFFF
             then (Some r, 4) else (None, 1))
         | _ \<Rightarrow> (None, 1))
      else (None, 1))"

text \<open>The runes a \<^verbatim>\<open>for _, r := range s\<close> visits.\<close>

function runes :: "string \<Rightarrow> nat option list" where
  "runes [] = []"
| "runes (c # s) = (let (r, w) = decode_rune c s in r # runes (drop (w - 1) s))"
  by pat_completeness auto
termination by (relation "measure length") auto

declare runes.simps [simp del]

text \<open>\<^verbatim>\<open>WriteRune\<close>: the encoding of a rune; the error rune is U+FFFD.\<close>

definition encode_rune :: "nat option \<Rightarrow> string" where
  "encode_rune r = (case r of
      None \<Rightarrow> [CHR 0xEF, CHR 0xBF, CHR 0xBD]
    | Some n \<Rightarrow>
        if n < 0x80 then [char_of n]
        else if n < 0x800 then [char_of (0xC0 + n div 64), char_of (0x80 + n mod 64)]
        else if n < 0x10000 then
          [char_of (0xE0 + n div 4096), char_of (0x80 + n div 64 mod 64), char_of (0x80 + n mod 64)]
        else [char_of (0xF0 + n div 262144), char_of (0x80 + n div 4096 mod 64),
              char_of (0x80 + n div 64 mod 64), char_of (0x80 + n mod 64)])"

definition utf8_valid :: "string \<Rightarrow> bool" where
  "utf8_valid s \<longleftrightarrow> list_all (\<lambda>r. r \<noteq> None) (runes s)"

lemma decode_rune_ascii: "is_ascii c \<Longrightarrow> decode_rune c s = (Some (of_char c), 1)"
  by (simp add: decode_rune_def is_ascii_def Let_def)

lemma runes_ascii: "list_all is_ascii s \<Longrightarrow> runes s = List.map (\<lambda>c. Some (of_char c)) s"
  by (induction s) (simp_all add: runes.simps decode_rune_ascii)

text \<open>A rune below 128 stands for its own byte.\<close>

lemma decode_rune_small:
  assumes "decode_rune c s = (Some r, w)" and "r < 128"
  shows "of_char c = r"
  using assms
  by (auto simp: decode_rune_def Let_def cont_byte_def cont_bits_def split: if_splits list.splits)

lemma runes_small: "Some r \<in> set (runes s) \<Longrightarrow> r < 128 \<Longrightarrow> char_of r \<in> set s"
proof (induction s rule: runes.induct)
  case 1
  then show ?case by (simp add: runes.simps)
next
  case (2 c s)
  obtain q w where d: "decode_rune c s = (q, w)" by (cases "decode_rune c s")
  from "2.prems"(1) d consider "q = Some r" | "Some r \<in> set (runes (drop (w - 1) s))"
    by (auto simp: runes.simps)
  then show ?case
  proof cases
    case 1
    with d "2.prems"(2) have "of_char c = r" by (simp add: decode_rune_small)
    then have "char_of r = c" by auto
    then show ?thesis by simp
  next
    case 2
    from "2.IH" [OF d [symmetric] refl 2 "2.prems"(2)]
    have "char_of r \<in> set (drop (w - 1) s)" .
    then show ?thesis by (meson in_set_dropD list.set_intros(2))
  qed
qed

section \<open>Paths\<close>

text \<open>\<^verbatim>\<open>path.Base\<close> (\<^verbatim>\<open>filepath.Base\<close> is the same on Unix).\<close>

definition path_base :: "string \<Rightarrow> string" where
  "path_base p =
     (if p = [] then ''.''
      else (let q = trim_right_char (CHR ''/'') p; b = last (split_on (CHR ''/'') q) in
            if b = [] then ''/'' else b))"

text \<open>\<^verbatim>\<open>filepath.Ext\<close>: from the last dot of the last element.\<close>

definition path_ext :: "string \<Rightarrow> string" where
  "path_ext p =
     (let e = last (split_on (CHR ''/'') p) in
      case cut_last (CHR ''.'') e of None \<Rightarrow> [] | Some (_, x) \<Rightarrow> CHR ''.'' # x)"

text \<open>\<^verbatim>\<open>strings.TrimSuffix\<close>.\<close>

definition trim_suffix :: "string \<Rightarrow> string \<Rightarrow> string" where
  "trim_suffix x s = (case cut_suffix x s of Some r \<Rightarrow> r | None \<Rightarrow> s)"

text \<open>
  \<^verbatim>\<open>path.Clean\<close> by its documented rules: empty elements and \<^verbatim>\<open>.\<close> go, a \<^verbatim>\<open>..\<close> takes the element before
  it, one at the start of a rooted path goes, and the empty result is \<^verbatim>\<open>.\<close> (or \<^verbatim>\<open>/\<close>).
\<close>

fun clean_elements :: "bool \<Rightarrow> string list \<Rightarrow> string list \<Rightarrow> string list" where
  "clean_elements rooted out [] = rev out"
| "clean_elements rooted out (e # es) =
     (if e = [] \<or> e = ''.'' then clean_elements rooted out es
      else if e = ''..'' then
        (case out of
           [] \<Rightarrow> clean_elements rooted (if rooted then [] else [''..'']) es
         | x # out' \<Rightarrow> if x = ''..'' then clean_elements rooted (''..'' # out) es
                       else clean_elements rooted out' es)
      else clean_elements rooted (e # out) es)"

definition path_clean :: "string \<Rightarrow> string" where
  "path_clean p =
     (let rooted = prefix ''/'' p;
          es = clean_elements rooted [] (split_on (CHR ''/'') p)
      in if rooted then CHR ''/'' # join ''/'' es
         else if es = [] then ''.'' else join ''/'' es)"

text \<open>\<^verbatim>\<open>path.Dir\<close> cleans what \<^verbatim>\<open>path.Split\<close> leaves before the last element.\<close>

definition path_dir :: "string \<Rightarrow> string" where
  "path_dir p = path_clean (take (length p - length (last (split_on (CHR ''/'') p))) p)"

text \<open>\<^verbatim>\<open>path.Join\<close>: empty elements are ignored.\<close>

definition path_join :: "string list \<Rightarrow> string" where
  "path_join es = (let fs = filter (\<lambda>e. e \<noteq> []) es in if fs = [] then [] else path_clean (join ''/'' fs))"

lemma split_on_append_sep:
  "split_on c (a @ c # b) = split_on c a @ split_on c b"
  by (induction a) (auto split: list.split)

lemma last_split_on_append: "c \<notin> set b \<Longrightarrow> last (split_on c (a @ c # b)) = b"
  by (simp add: split_on_append_sep split_on_notin)

lemma trim_right_char_id: "s = [] \<or> last s \<noteq> c \<Longrightarrow> trim_right_char c s = s"
  by (cases s rule: rev_cases) (auto simp: trim_right_char_def)

lemma path_base_file:
  assumes "f \<noteq> []" and "CHR ''/'' \<notin> set f"
  shows "path_base (d @ CHR ''/'' # f) = f" and "path_base f = f"
proof -
  have "last f \<noteq> CHR ''/''" using assms by (metis last_in_set)
  then show "path_base (d @ CHR ''/'' # f) = f" "path_base f = f"
    using assms by (simp_all add: path_base_def trim_right_char_id last_split_on_append split_on_notin Let_def)
qed

lemma last_split_notin: "c \<notin> set (last (split_on c s))"
  by (meson last_in_set split_on_ne split_on_parts)

text \<open>A base name is never empty, and has a slash only when it is the root.\<close>

lemma path_base_ne [simp]: "path_base p \<noteq> []"
  by (simp add: path_base_def Let_def)

lemma path_base_no_slash: "path_base p = ''/'' \<or> CHR ''/'' \<notin> set (path_base p)"
  using last_split_notin by (auto simp: path_base_def Let_def)

lemma cut_first_append: "c \<notin> set a \<Longrightarrow> cut_first c (a @ c # b) = Some (a, b)"
  by (induction a) auto

lemma path_ext_file:
  assumes "CHR ''/'' \<notin> set f" and "CHR ''/'' \<notin> set x" and "CHR ''.'' \<notin> set x"
  shows "path_ext (f @ CHR ''.'' # x) = CHR ''.'' # x"
proof -
  have "cut_last (CHR ''.'') (f @ CHR ''.'' # x) = Some (f, x)"
    using cut_first_append [of "CHR ''.''" "rev x" "rev f"] assms(3) by (simp add: cut_last_def)
  moreover have "last (split_on (CHR ''/'') (f @ CHR ''.'' # x)) = f @ CHR ''.'' # x"
    using assms(1,2) by (simp add: split_on_notin)
  ultimately show ?thesis by (simp add: path_ext_def)
qed

lemma trim_suffix_append [simp]: "trim_suffix x (s @ x) = s"
  by (simp add: trim_suffix_def cut_suffix_def suffix_def)

end
