(* ===== verification/Layout.thy ===== *)
theory Layout
  imports Go_Text
begin

text \<open>
  The topic layout (\<^verbatim>\<open>internal/layout\<close>) and the identifier fold (\<^verbatim>\<open>internal/slug\<close>).

  The topic grammar of the shared library (\<^verbatim>\<open>go-hamqtt/topic\<close>, not part of this repository) is the
  parameter \<open>topic_lib\<close>; \<open>topic_ok\<close> states what the layout relies on: a topic of the grammar is the
  instance name, the function and the items, each made safe, separated by slashes; an instance name is a
  single level without wildcards.
\<close>

section \<open>Slugs\<close>

text \<open>\<^verbatim>\<open>umlautReplacer\<close> on UTF-8 bytes.\<close>

fun umlauts :: "string \<Rightarrow> string" where
  "umlauts (a # b # s) =
     (if a = CHR 0xC3 \<and> b = CHR 0xA4 then CHR ''a'' # umlauts s
      else if a = CHR 0xC3 \<and> b = CHR 0xB6 then CHR ''o'' # umlauts s
      else if a = CHR 0xC3 \<and> b = CHR 0xBC then CHR ''u'' # umlauts s
      else if a = CHR 0xC3 \<and> b = CHR 0x9F then ''ss'' @ umlauts s
      else a # umlauts (b # s))"
| "umlauts s = s"

definition slug_char :: "char \<Rightarrow> bool" where
  "slug_char c \<longleftrightarrow> is_lower c \<or> is_digit c"

text \<open>
  The loop of \<open>Slug\<close>. It runs over runes; every byte of a rune outside ASCII fails the test as the
  rune does, and the underscore flag makes a run of them one underscore either way.
\<close>

fun slug_loop :: "bool \<Rightarrow> string \<Rightarrow> string" where
  "slug_loop prevUnderscore [] = []"
| "slug_loop prevUnderscore (r # rs) =
     (if slug_char r then r # slug_loop False rs
      else if \<not> prevUnderscore then CHR ''_'' # slug_loop True rs
      else slug_loop prevUnderscore rs)"

definition trim_char :: "char \<Rightarrow> string \<Rightarrow> string" where
  "trim_char c s = trim_right_char c (dropWhile (\<lambda>x. x = c) s)"

definition Slug :: "(string \<Rightarrow> string) \<Rightarrow> string \<Rightarrow> string" where
  "Slug u s = trim_char (CHR ''_'') (slug_loop False (umlauts (to_lower u s)))"

definition Fold :: "(string \<Rightarrow> string) \<Rightarrow> string \<Rightarrow> string" where
  "Fold u s = umlauts (to_lower u s)"

section \<open>Topics\<close>

record topic_lib =
  Safe :: "string \<Rightarrow> string"
  Join :: "string list \<Rightarrow> string"
  shStatus :: "string \<Rightarrow> string list \<Rightarrow> string"
  shSet :: "string \<Rightarrow> string list \<Rightarrow> string"
  shConnected :: "string \<Rightarrow> string"
  shAccepts :: "string \<Rightarrow> bool"

definition functionSet :: string where "functionSet = ''set''"
definition functionStatus :: string where "functionStatus = ''status''"

definition topic_ok :: "topic_lib \<Rightarrow> bool" where
  "topic_ok T \<longleftrightarrow>
     (\<forall>n is. shStatus T n is = n @ ''/'' @ functionStatus @ ''/'' @ join ''/'' (List.map (Safe T) is))
   \<and> (\<forall>n is. shSet T n is = n @ ''/'' @ functionSet @ ''/'' @ join ''/'' (List.map (Safe T) is))
   \<and> (\<forall>is. Join T is = join ''/'' (List.map (Safe T) is))
   \<and> (\<forall>s. CHR ''/'' \<notin> set (Safe T s))
   \<and> (\<forall>n. shConnected T n = n @ ''/connected'')
   \<and> (\<forall>n. shAccepts T n \<longleftrightarrow> n \<noteq> [] \<and> CHR ''/'' \<notin> set n \<and> CHR ''+'' \<notin> set n \<and> CHR ''#'' \<notin> set n)"

definition ControlStartProgram :: string where "ControlStartProgram = ''start_program''"
definition ControlStopProgram :: string where "ControlStopProgram = ''stop_program''"
definition controlPrefix :: string where "controlPrefix = ''_control''"
definition unnamedPrefix :: string where "unnamedPrefix = ''_uid''"
definition itemOnline :: string where "itemOnline = ''online''"
definition itemConnectionState :: string where "itemConnectionState = ''connection_state''"

record device_layout =
  dlName :: string
  dlHaID :: string

text \<open>\<open>New\<close> refuses a name that is not one topic level; an instance is its name.\<close>

definition layout_New :: "topic_lib \<Rightarrow> string \<Rightarrow> string option" where
  "layout_New T name = (if shAccepts T name then Some name else None)"

definition Connected :: "topic_lib \<Rightarrow> string \<Rightarrow> string" where
  "Connected T inst = shConnected T inst"

definition SetFilter :: "string \<Rightarrow> string" where
  "SetFilter inst = inst @ ''/'' @ functionSet @ ''/#''"

definition Device_layout :: "string \<Rightarrow> string \<Rightarrow> device_layout" where
  "Device_layout inst haID = \<lparr>dlName = inst, dlHaID = haID\<rparr>"

definition Status :: "topic_lib \<Rightarrow> device_layout \<Rightarrow> string list \<Rightarrow> string" where
  "Status T d item = shStatus T (dlName d) (dlHaID d # item)"

definition Set_topic :: "topic_lib \<Rightarrow> device_layout \<Rightarrow> string list \<Rightarrow> string" where
  "Set_topic T d item = shSet T (dlName d) (dlHaID d # item)"

definition Online :: "topic_lib \<Rightarrow> device_layout \<Rightarrow> string" where
  "Online T d = Status T d [itemOnline]"

definition ConnectionState :: "topic_lib \<Rightarrow> device_layout \<Rightarrow> string" where
  "ConnectionState T d = Status T d [itemConnectionState]"

definition FeatureItem :: "string \<Rightarrow> int \<Rightarrow> string list" where
  "FeatureItem name uid = (if name = [] then [unnamedPrefix, itoa uid] else split_on (CHR ''.'') name)"

definition FeaturePath :: "topic_lib \<Rightarrow> string \<Rightarrow> int \<Rightarrow> string" where
  "FeaturePath T name uid = Join T (FeatureItem name uid)"

text \<open>The name and uid of a relative path; the Boolean says that the uid is meant.\<close>

definition FeatureName :: "string \<Rightarrow> string \<times> int \<times> bool" where
  "FeatureName rel =
     (case cut_prefix (unnamedPrefix @ ''/'') rel of
        Some s \<Rightarrow> (case atoi s of None \<Rightarrow> ([], 0, False) | Some n \<Rightarrow> ([], n, True))
      | None \<Rightarrow> (replace_char (CHR ''/'') (CHR ''.'') rel, 0, False))"

definition State :: "topic_lib \<Rightarrow> device_layout \<Rightarrow> string \<Rightarrow> int \<Rightarrow> string" where
  "State T d feature uid = Status T d (FeatureItem feature uid)"

definition Command :: "topic_lib \<Rightarrow> device_layout \<Rightarrow> string \<Rightarrow> int \<Rightarrow> string" where
  "Command T d feature uid = Set_topic T d (FeatureItem feature uid)"

definition ControlCommand :: "topic_lib \<Rightarrow> device_layout \<Rightarrow> string \<Rightarrow> string" where
  "ControlCommand T d key = Set_topic T d [controlPrefix, key]"

definition setBase :: "topic_lib \<Rightarrow> device_layout \<Rightarrow> string" where
  "setBase T d = dlName d @ ''/'' @ functionSet @ ''/'' @ Safe T (dlHaID d) @ ''/''"

definition CommandFilter :: "topic_lib \<Rightarrow> device_layout \<Rightarrow> string" where
  "CommandFilter T d = setBase T d @ ''#''"

definition StatusPrefix :: "topic_lib \<Rightarrow> device_layout \<Rightarrow> string" where
  "StatusPrefix T d = dlName d @ ''/'' @ functionStatus @ ''/'' @ Safe T (dlHaID d) @ ''/''"

definition Relative :: "topic_lib \<Rightarrow> device_layout \<Rightarrow> string \<Rightarrow> string option" where
  "Relative T d topic = (case cut_prefix (setBase T d) topic of
      None \<Rightarrow> None | Some rest \<Rightarrow> if rest = [] then None else Some rest)"

definition ControlPath :: "string \<Rightarrow> string" where
  "ControlPath key = controlPrefix @ ''/'' @ key"

section \<open>The layout before 0.15.0\<close>

definition trimRoot :: "string \<Rightarrow> string" where
  "trimRoot base_topic = trim_right_char (CHR ''/'') base_topic"

definition LegacyBridge :: "string \<Rightarrow> string" where
  "LegacyBridge base_topic = trimRoot base_topic @ ''/status''"

definition NewLegacyDevice :: "string \<Rightarrow> string \<Rightarrow> string" where
  "NewLegacyDevice base_topic device = trimRoot base_topic @ ''/'' @ device"

definition legacyFeaturePath :: "string \<Rightarrow> int \<Rightarrow> string" where
  "legacyFeaturePath name uid = join ''/'' (FeatureItem name uid)"

definition LegacyAvailability :: "string \<Rightarrow> string" where
  "LegacyAvailability base = base @ ''/availability''"

definition LegacyConnectionState :: "string \<Rightarrow> string" where
  "LegacyConnectionState base = base @ ''/connection_state''"

definition LegacyState :: "string \<Rightarrow> string \<Rightarrow> int \<Rightarrow> string" where
  "LegacyState base feature uid = base @ ''/'' @ legacyFeaturePath feature uid @ ''/state''"

definition LegacyCommand :: "string \<Rightarrow> string \<Rightarrow> int \<Rightarrow> string" where
  "LegacyCommand base feature uid = base @ ''/'' @ legacyFeaturePath feature uid @ ''/set''"

definition LegacyControlCommand :: "string \<Rightarrow> string \<Rightarrow> string" where
  "LegacyControlCommand base key = base @ ''/'' @ ControlPath key @ ''/set''"

section \<open>Slug facts\<close>

fun no_double :: "char \<Rightarrow> string \<Rightarrow> bool" where
  "no_double c (a # b # s) \<longleftrightarrow> \<not> (a = c \<and> b = c) \<and> no_double c (b # s)"
| "no_double c s \<longleftrightarrow> True"

definition slug_shaped :: "string \<Rightarrow> bool" where
  "slug_shaped s \<longleftrightarrow> list_all (\<lambda>c. slug_char c \<or> c = CHR ''_'') s \<and> no_double (CHR ''_'') s
     \<and> (s \<noteq> [] \<longrightarrow> hd s \<noteq> CHR ''_'' \<and> last s \<noteq> CHR ''_'')"

lemma slug_char_underscore [simp]: "\<not> slug_char (CHR ''_'')"
  by (simp add: slug_char_def is_lower_def is_digit_def)

lemma slug_loop_chars: "list_all (\<lambda>c. slug_char c \<or> c = CHR ''_'') (slug_loop b s)"
  by (induction b s rule: slug_loop.induct) auto

lemma slug_loop_True_hd: "slug_loop True s = c # r \<Longrightarrow> c \<noteq> CHR ''_''"
  by (induction s) (auto split: if_splits)

lemma no_double_Cons_iff:
  "no_double c (a # s) \<longleftrightarrow> no_double c s \<and> \<not> (a = c \<and> s \<noteq> [] \<and> hd s = c)"
  by (cases s) auto

lemma slug_loop_no_double: "no_double (CHR ''_'') (slug_loop b s)"
proof (induction b s rule: slug_loop.induct)
  case (1 b)
  then show ?case by simp
next
  case (2 b r rs)
  have "slug_loop True rs \<noteq> [] \<Longrightarrow> hd (slug_loop True rs) \<noteq> CHR ''_''"
    using slug_loop_True_hd by (cases "slug_loop True rs") auto
  with 2 show ?case by (auto simp: no_double_Cons_iff)
qed

lemma no_double_append: "no_double c (xs @ ys) \<Longrightarrow> no_double c xs \<and> no_double c ys"
  by (induction xs) (auto simp: no_double_Cons_iff)

lemma dropWhile_suffix: "\<exists>p. s = p @ dropWhile P s"
  by (metis takeWhile_dropWhile_id)

lemma trim_char_parts: "\<exists>p q. s = p @ trim_char c s @ q"
proof -
  obtain p where p: "s = p @ dropWhile (\<lambda>x. x = c) s" using dropWhile_suffix by blast
  let ?t = "dropWhile (\<lambda>x. x = c) s"
  obtain q where "rev ?t = q @ dropWhile (\<lambda>x. x = c) (rev ?t)" using dropWhile_suffix by blast
  then have "?t = trim_char c s @ rev q"
    by (metis rev_append rev_rev_ident trim_char_def trim_right_char_def)
  with p show ?thesis by metis
qed

lemma trim_right_last: "trim_right_char c s \<noteq> [] \<Longrightarrow> last (trim_right_char c s) \<noteq> c"
  by (metis (full_types) hd_dropWhile last_rev rev_is_Nil_conv trim_right_char_def)

lemma trim_char_last: "trim_char c s \<noteq> [] \<Longrightarrow> last (trim_char c s) \<noteq> c"
  by (simp add: trim_char_def trim_right_last)

lemma trim_right_prefix: "\<exists>q. s = trim_right_char c s @ q"
  by (metis dropWhile_suffix rev_append rev_rev_ident trim_right_char_def)

lemma trim_char_hd: "trim_char c s \<noteq> [] \<Longrightarrow> hd (trim_char c s) \<noteq> c"
proof -
  assume ne: "trim_char c s \<noteq> []"
  let ?t = "dropWhile (\<lambda>x. x = c) s"
  obtain q where q: "?t = trim_char c s @ q"
    unfolding trim_char_def using trim_right_prefix by blast
  with ne have "?t \<noteq> []" and "hd ?t = hd (trim_char c s)" by (metis append_is_Nil_conv, metis hd_append2)
  then show ?thesis using hd_dropWhile [of "\<lambda>x. x = c" s] by simp
qed

lemma Slug_shaped: "slug_shaped (Slug u s)"
proof -
  let ?l = "slug_loop False (umlauts (to_lower u s))"
  obtain p q where pq: "?l = p @ trim_char (CHR ''_'') ?l @ q" using trim_char_parts by blast
  have "list_all (\<lambda>c. slug_char c \<or> c = CHR ''_'') (trim_char (CHR ''_'') ?l)"
    using slug_loop_chars [of False "umlauts (to_lower u s)"] by (subst (asm) pq) simp
  moreover have "no_double (CHR ''_'') (trim_char (CHR ''_'') ?l)"
    using slug_loop_no_double [of False "umlauts (to_lower u s)"] no_double_append by (metis pq)
  ultimately show ?thesis
    using trim_char_hd trim_char_last by (simp add: slug_shaped_def Slug_def)
qed

lemma slug_ascii: "slug_char c \<or> c = CHR ''_'' \<Longrightarrow> is_ascii c \<and> lower_char c = c"
  by (auto simp: slug_char_def is_lower_def is_digit_def is_ascii_def lower_char_def)

lemma umlauts_ascii: "list_all is_ascii s \<Longrightarrow> umlauts s = s"
  by (induction s rule: umlauts.induct) (auto simp: is_ascii_def)

lemma slug_loop_shaped:
  "list_all (\<lambda>c. slug_char c \<or> c = CHR ''_'') s \<Longrightarrow> no_double (CHR ''_'') s \<Longrightarrow>
   (b \<longrightarrow> s \<noteq> [] \<longrightarrow> hd s \<noteq> CHR ''_'') \<Longrightarrow> slug_loop b s = s"
  by (induction b s rule: slug_loop.induct) (auto simp: no_double_Cons_iff)

lemma trim_char_id: "(s \<noteq> [] \<longrightarrow> hd s \<noteq> c \<and> last s \<noteq> c) \<Longrightarrow> trim_char c s = s"
proof -
  assume e: "s \<noteq> [] \<longrightarrow> hd s \<noteq> c \<and> last s \<noteq> c"
  have "dropWhile (\<lambda>x. x = c) s = s" using e by (cases s) auto
  moreover have "dropWhile (\<lambda>x. x = c) (rev s) = rev s"
    using e by (cases s rule: rev_cases) auto
  ultimately show ?thesis by (simp add: trim_char_def trim_right_char_def)
qed

lemma Slug_fixed:
  assumes "slug_shaped s"
  shows "Slug u s = s"
proof -
  have l: "list_all (\<lambda>c. slug_char c \<or> c = CHR ''_'') s" and n: "no_double (CHR ''_'') s"
    and e: "s \<noteq> [] \<longrightarrow> hd s \<noteq> CHR ''_'' \<and> last s \<noteq> CHR ''_''"
    using assms by (auto simp: slug_shaped_def)
  have asc: "list_all is_ascii s" using l slug_ascii by (auto simp: list_all_iff)
  have low: "to_lower u s = s"
    using l slug_ascii by (simp add: to_lower_ascii [OF asc] list_all_iff map_idI)
  show ?thesis using slug_loop_shaped [OF l n, of False] e
    by (simp add: Slug_def low umlauts_ascii [OF asc] trim_char_id)
qed

section \<open>Topic facts\<close>

text \<open>A word that the library's rendering leaves alone, as every Home Connect identifier is.\<close>

definition safe_word :: "topic_lib \<Rightarrow> string \<Rightarrow> bool" where
  "safe_word T w \<longleftrightarrow> Safe T w = w"

lemma safe_word_no_slash: "topic_ok T \<Longrightarrow> safe_word T w \<Longrightarrow> CHR ''/'' \<notin> set w"
  by (metis safe_word_def topic_ok_def)

lemma join_safe: "list_all (safe_word T) ws \<Longrightarrow> join sep (List.map (Safe T) ws) = join sep ws"
  by (simp add: list_all_iff safe_word_def map_idI)

lemma Set_topic_shape:
  assumes "topic_ok T" and "item \<noteq> []"
  shows "Set_topic T d item = setBase T d @ join ''/'' (List.map (Safe T) item)"
  using assms by (simp add: topic_ok_def Set_topic_def setBase_def join_Cons)

lemma Status_shape:
  assumes "topic_ok T" and "item \<noteq> []"
  shows "Status T d item = StatusPrefix T d @ join ''/'' (List.map (Safe T) item)"
  using assms by (simp add: topic_ok_def Status_def StatusPrefix_def join_Cons)

lemma join_ne: "ws \<noteq> [] \<Longrightarrow> hd ws \<noteq> [] \<Longrightarrow> join sep ws \<noteq> []"
  by (cases ws rule: list.exhaust; cases "tl ws") auto

lemma FeatureItem_ne: "FeatureItem name uid \<noteq> []"
  by (simp add: FeatureItem_def)

lemma replace_char_set: "a \<noteq> b \<Longrightarrow> a \<notin> set (replace_char a b s)"
  by (auto simp: replace_char_def)

lemma split_slash: "CHR ''/'' \<notin> set s \<Longrightarrow> list_all (\<lambda>w. CHR ''/'' \<notin> set w) (split_on c s)"
  by (induction s) (auto split: list.split)

lemma split_parts_no_char: "list_all (\<lambda>w. a \<notin> set w) (split_on c s) \<Longrightarrow> a \<noteq> c \<Longrightarrow> a \<notin> set s"
  by (induction s) (auto split: list.split_asm if_splits)

lemma prefix_slash_eq:
  assumes "CHR ''/'' \<notin> set a" and "CHR ''/'' \<notin> set b" and "a @ CHR ''/'' # x = b @ CHR ''/'' # y"
  shows "a = b \<and> x = y"
proof -
  have cut: "takeWhile (\<lambda>c. c \<noteq> CHR ''/'') (w @ CHR ''/'' # z) = w" if "CHR ''/'' \<notin> set w" for w z :: string
    using that by (induction w) auto
  have "a = b" using cut [OF assms(1), of x] cut [OF assms(2), of y] assms(3) by simp
  with assms(3) show ?thesis by simp
qed

text \<open>The relative path of a feature, for a name whose segments are safe.\<close>

lemma Relative_Command:
  assumes "topic_ok T" and "name \<noteq> []" and "list_all (safe_word T) (split_on (CHR ''.'') name)"
  shows "Relative T d (Command T d name uid) = Some (replace_char (CHR ''.'') (CHR ''/'') name)"
  using assms
  by (simp add: Relative_def Command_def Set_topic_shape FeatureItem_ne FeatureItem_def join_safe go_string)

lemma FeatureName_path:
  assumes "CHR ''/'' \<notin> set name" and "\<not> prefix (unnamedPrefix @ ''.'') name"
  shows "FeatureName (replace_char (CHR ''.'') (CHR ''/'') name) = (name, 0, False)"
proof -
  have "\<not> prefix (unnamedPrefix @ ''/'') (replace_char (CHR ''.'') (CHR ''/'') name)"
  proof
    assume "prefix (unnamedPrefix @ ''/'') (replace_char (CHR ''.'') (CHR ''/'') name)"
    then obtain r where "replace_char (CHR ''.'') (CHR ''/'') name = unnamedPrefix @ ''/'' @ r"
      by (auto simp: prefix_def)
    then have "replace_char (CHR ''/'') (CHR ''.'') (replace_char (CHR ''.'') (CHR ''/'') name)
      = replace_char (CHR ''/'') (CHR ''.'') (unnamedPrefix @ ''/'' @ r)" by simp
    then have "name = unnamedPrefix @ ''.'' @ replace_char (CHR ''/'') (CHR ''.'') r"
      using assms(1) by (simp add: replace_char_back) (simp add: replace_char_def unnamedPrefix_def)
    with assms(2) show False by (simp add: prefix_def)
  qed
  then show ?thesis using assms(1) by (simp add: FeatureName_def cut_prefix_def replace_char_back)
qed

lemma FeatureName_uid:
  assumes "in_int64 uid"
  shows "FeatureName (unnamedPrefix @ ''/'' @ itoa uid) = ([], uid, True)"
  using assms cut_prefix_append [of "unnamedPrefix @ ''/''" "itoa uid"]
  by (simp add: FeatureName_def atoi_itoa)

section \<open>Properties\<close>

text \<open>
  A slug is an identifier: it has only lower-case letters, digits and single inner underscores,
  and folding it again changes nothing.
\<close>

theorem Slug_identifier: "slug_shaped (Slug u s) \<and> Slug u (Slug u s) = Slug u s"
  using Slug_shaped Slug_fixed by simp

text \<open>
  The command path is the inverse of the discovery path: what a device extracts from the command
  topic it advertises for a feature names that feature again, by name, or by uid when it has none.
\<close>

theorem command_topic_roundtrip:
  assumes "topic_ok T" and "in_int64 uid"
    and "list_all (safe_word T) (FeatureItem name uid)" and "\<not> prefix (unnamedPrefix @ ''.'') name"
  shows "\<exists>rel. Relative T d (Command T d name uid) = Some rel
     \<and> FeatureName rel = (if name = [] then ([], uid, True) else (name, 0, False))"
proof (cases "name = []")
  case True
  have "Relative T d (Command T d name uid) = Some (join ''/'' [unnamedPrefix, itoa uid])"
    using assms(1,3) True
    by (simp add: Relative_def Command_def Set_topic_shape FeatureItem_ne FeatureItem_def safe_word_def
        unnamedPrefix_def)
  with True FeatureName_uid [OF assms(2)] show ?thesis by simp
next
  case False
  with assms(3) have l: "list_all (safe_word T) (split_on (CHR ''.'') name)" by (simp add: FeatureItem_def)
  then have "list_all (\<lambda>w. CHR ''/'' \<notin> set w) (split_on (CHR ''.'') name)"
    using safe_word_no_slash [OF assms(1)] by (simp add: list_all_iff)
  then have "CHR ''/'' \<notin> set name" using split_parts_no_char by auto
  with False show ?thesis using Relative_Command [OF assms(1) False l] FeatureName_path assms(4) by simp
qed

text \<open>A topic library that replaces the characters a level cannot carry.\<close>

definition plain_topics :: topic_lib where
  "plain_topics =
     (let safe = List.map (\<lambda>c. if c = CHR ''/'' \<or> c = CHR ''+'' \<or> c = CHR ''#'' then CHR ''_'' else c);
          path = (\<lambda>is. join ''/'' (List.map safe is))
      in \<lparr>Safe = safe, Join = path,
          shStatus = (\<lambda>n is. n @ ''/'' @ functionStatus @ ''/'' @ path is),
          shSet = (\<lambda>n is. n @ ''/'' @ functionSet @ ''/'' @ path is),
          shConnected = (\<lambda>n. n @ ''/connected''),
          shAccepts = (\<lambda>n. n \<noteq> [] \<and> \<not> list_ex (\<lambda>c. c = CHR ''/'' \<or> c = CHR ''+'' \<or> c = CHR ''#'') n)\<rparr>)"

lemma plain_topics_ok: "topic_ok plain_topics"
  by (auto simp: topic_ok_def plain_topics_def Let_def list_ex_iff)

definition oven_layout :: device_layout where
  "oven_layout = \<lparr>dlName = ''homeconnect'', dlHaID = ''010203''\<rparr>"

lemma command_topic_roundtrip_witness:
  "\<exists>rel. Relative plain_topics oven_layout
       (Command plain_topics oven_layout ''BSH.Common.Setting.PowerState'' 539) = Some rel
     \<and> FeatureName rel = (if ''BSH.Common.Setting.PowerState'' = [] then ([], 539, True)
         else (''BSH.Common.Setting.PowerState'', 0, False))"
  by (rule command_topic_roundtrip [OF plain_topics_ok])
    (simp_all add: in_int64_def int64_min_def int64_max_def FeatureItem_def safe_word_def plain_topics_def
      Let_def unnamedPrefix_def)

text \<open>
  Command topics are disjoint from status topics, and those of one appliance from those of another:
  a status topic is never taken for a command, and a command topic only by the appliance it addresses.
\<close>

theorem command_routes_disjoint:
  assumes "topic_ok T" and "CHR ''/'' \<notin> set (dlName d)" and "CHR ''/'' \<notin> set (dlName d')" and "item \<noteq> []"
  shows "Relative T d (Status T d' item) = None
     \<and> (Relative T d (Set_topic T d' item) \<noteq> None
         \<longrightarrow> dlName d = dlName d' \<and> Safe T (dlHaID d) = Safe T (dlHaID d'))"
proof (intro conjI impI)
  show "Relative T d (Status T d' item) = None"
  proof (rule ccontr)
    assume "Relative T d (Status T d' item) \<noteq> None"
    then obtain r where "Status T d' item = setBase T d @ r"
      by (auto simp: Relative_def cut_prefix_Some split: option.splits)
    then have "dlName d' @ CHR ''/'' # (functionStatus @ ''/'' @ Safe T (dlHaID d') @ ''/'' @ join ''/'' (List.map (Safe T) item))
      = dlName d @ CHR ''/'' # (functionSet @ ''/'' @ Safe T (dlHaID d) @ ''/'' @ r)"
      using Status_shape [OF assms(1,4), of d'] by (simp add: StatusPrefix_def setBase_def)
    from prefix_slash_eq [OF assms(3,2) this] show False by (simp add: functionStatus_def functionSet_def)
  qed
next
  assume "Relative T d (Set_topic T d' item) \<noteq> None"
  then obtain r where "Set_topic T d' item = setBase T d @ r"
    by (auto simp: Relative_def cut_prefix_Some split: option.splits)
  then have "dlName d' @ CHR ''/'' # (functionSet @ ''/'' @ Safe T (dlHaID d') @ CHR ''/'' # join ''/'' (List.map (Safe T) item))
      = dlName d @ CHR ''/'' # (functionSet @ ''/'' @ Safe T (dlHaID d) @ CHR ''/'' # r)"
    using Set_topic_shape [OF assms(1,4), of d'] by (simp add: setBase_def)
  from prefix_slash_eq [OF assms(3,2) this] have n: "dlName d' = dlName d"
    and e: "Safe T (dlHaID d') @ CHR ''/'' # join ''/'' (List.map (Safe T) item) = Safe T (dlHaID d) @ CHR ''/'' # r"
    by (simp_all add: functionSet_def)
  have "CHR ''/'' \<notin> set (Safe T (dlHaID d'))" "CHR ''/'' \<notin> set (Safe T (dlHaID d))"
    using assms(1) by (simp_all add: topic_ok_def)
  from prefix_slash_eq [OF this e] n show "dlName d = dlName d'" and "Safe T (dlHaID d) = Safe T (dlHaID d')"
    by simp_all
qed

lemma command_routes_disjoint_witness:
  "Relative plain_topics oven_layout (Status plain_topics (oven_layout\<lparr>dlHaID := ''040506''\<rparr>) [itemOnline]) = None
   \<and> Relative plain_topics oven_layout (Set_topic plain_topics (oven_layout\<lparr>dlHaID := ''040506''\<rparr>) [itemOnline]) = None"
  using command_routes_disjoint [OF plain_topics_ok, of oven_layout "oven_layout\<lparr>dlHaID := ''040506''\<rparr>" "[itemOnline]"]
  by (simp add: oven_layout_def plain_topics_def Let_def)

end
