(* ===== verification/Devices.thy ===== *)
theory Devices
  imports Layout Go_Text Profile
begin

text \<open>
  \<^verbatim>\<open>internal/profile/devices.go\<close>: the operator's devices file and its validation, and where an
  appliance's haId comes from; \<open>ValidHaID\<close> of \<^verbatim>\<open>archive.go\<close>.

  Reading a file and decoding YAML are the parameters \<open>rd\<close> and \<open>yaml\<close>; \<open>u\<close> and \<open>up\<close> are the case
  tables of \<^verbatim>\<open>strings.ToLower\<close> and \<^verbatim>\<open>ToUpper\<close> for strings that are not ASCII.
\<close>

section \<open>haIds\<close>

definition haid_char :: "char \<Rightarrow> bool" where
  "haid_char c \<longleftrightarrow> is_upper c \<or> is_lower c \<or> is_digit c \<or> c = CHR ''.'' \<or> c = CHR ''_'' \<or> c = CHR ''-''"

definition ValidHaID :: "string \<Rightarrow> bool" where
  "ValidHaID s \<longleftrightarrow> \<not> (s = ''.'' \<or> s = ''..'') \<and> s \<noteq> [] \<and> list_all haid_char s"

lemma haid_char_safe: "haid_char c \<Longrightarrow> c \<noteq> CHR ''/'' \<and> c \<noteq> CHR ''+'' \<and> c \<noteq> CHR ''#'' \<and> is_ascii c"
  by (auto simp: haid_char_def is_upper_def is_lower_def is_digit_def is_ascii_def)

lemma ValidHaID_chars: "ValidHaID s \<Longrightarrow> c \<in> set s \<Longrightarrow> haid_char c"
  by (simp add: ValidHaID_def list_all_iff)

section \<open>The devices file\<close>

definition ConnectionAES :: string where "ConnectionAES = ''AES''"
definition ConnectionTLS :: string where "ConnectionTLS = ''TLS''"

record device_config =
  dcName :: string
  dcHaID :: string
  dcHost :: string
  dcManualHost :: bool
  dcConnectionType :: string
  dcPSK64 :: string
  dcIV64 :: string
  dcDescription :: string

datatype name_error = NotUTF8 | Wildcard char | ControlCharacter | NoLetterOrDigit

definition control_rune :: "nat \<Rightarrow> bool" where
  "control_rune r \<longleftrightarrow> r < 0x20 \<or> 0x7F \<le> r \<and> r < 0xA0"

definition alnum_rune :: "nat \<Rightarrow> bool" where
  "alnum_rune r \<longleftrightarrow> 97 \<le> r \<and> r \<le> 122 \<or> 65 \<le> r \<and> r \<le> 90 \<or> 48 \<le> r \<and> r \<le> 57"

text \<open>\<open>None\<close> is the nil error.\<close>

definition validateDeviceName :: "string \<Rightarrow> name_error option" where
  "validateDeviceName name =
     (if \<not> utf8_valid name then Some NotUTF8
      else (case find (\<lambda>bad. bad \<in> set name) [CHR ''+'', CHR ''#''] of
          Some bad \<Rightarrow> Some (Wildcard bad)
        | None \<Rightarrow>
            if list_ex (\<lambda>r. case r of Some n \<Rightarrow> control_rune n | None \<Rightarrow> False) (runes name) then Some ControlCharacter
            else if list_ex (\<lambda>r. case r of Some n \<Rightarrow> alnum_rune n | None \<Rightarrow> False) (runes name) then None
            else Some NoLetterOrDigit))"

datatype devices_error =
    ReadDevices
  | ParseDevices
  | NoDevices
  | NoName nat
  | BadName nat name_error
  | DuplicateName string
  | NodeIDClash string string string
  | InvalidHaID string string
  | InvalidConnectionType string string
  | MissingPSK string
  | MissingIV string

text \<open>The loop over the entries: the index, the names seen, and the first name of every node id.\<close>

fun validate_devices ::
  "(string \<Rightarrow> string) \<Rightarrow> (string \<Rightarrow> string) \<Rightarrow> nat \<Rightarrow> string set \<Rightarrow> (string \<rightharpoonup> string) \<Rightarrow> device_config list
   \<Rightarrow> devices_error + device_config list" where
  "validate_devices u up i seen byNodeID [] = Inr []"
| "validate_devices u up i seen byNodeID (d0 # ds) =
     (let d = d0\<lparr>dcConnectionType := to_upper up (dcConnectionType d0)\<rparr>; name = dcName d; node = Slug u name in
      if name = [] then Inl (NoName i)
      else (case validateDeviceName name of
          Some e \<Rightarrow> Inl (BadName i e)
        | None \<Rightarrow>
            if name \<in> seen then Inl (DuplicateName name)
            else (case byNodeID node of
                Some first \<Rightarrow> Inl (NodeIDClash first name node)
              | None \<Rightarrow>
                  if dcHaID d \<noteq> [] \<and> \<not> ValidHaID (dcHaID d) then Inl (InvalidHaID name (dcHaID d))
                  else if dcConnectionType d \<noteq> ConnectionAES \<and> dcConnectionType d \<noteq> ConnectionTLS
                    then Inl (InvalidConnectionType name (dcConnectionType d))
                  else if dcPSK64 d = [] then Inl (MissingPSK name)
                  else if dcConnectionType d = ConnectionAES \<and> dcIV64 d = [] then Inl (MissingIV name)
                  else (case validate_devices u up (Suc i) (insert name seen) (byNodeID(node \<mapsto> name)) ds of
                      Inl e \<Rightarrow> Inl e | Inr rest \<Rightarrow> Inr (d # rest)))))"

definition LoadDevices ::
  "(string \<Rightarrow> string option) \<Rightarrow> (string \<Rightarrow> device_config list option)
   \<Rightarrow> (string \<Rightarrow> string) \<Rightarrow> (string \<Rightarrow> string) \<Rightarrow> string \<Rightarrow> devices_error + device_config list" where
  "LoadDevices rd yaml u up file =
     (case rd file of
        None \<Rightarrow> Inl ReadDevices
      | Some bytes \<Rightarrow>
          (case yaml bytes of
             None \<Rightarrow> Inl ParseDevices
           | Some ds \<Rightarrow> if ds = [] then Inl NoDevices else validate_devices u up 0 {} Map.empty ds))"

section \<open>Where a haId comes from\<close>

datatype haid_source = HaIDFromConfig | HaIDFromDescription | HaIDFromFileName
datatype haid_error = ConfigHaIDInvalid string string | DescriptionHaIDInvalid string string | ErrNoHaID string

definition file_haid :: "device_config \<Rightarrow> haid_error + string \<times> haid_source" where
  "file_haid dc =
     (let b = path_base (dcDescription dc); i = trim_suffix (path_ext b) b in
      if dcDescription dc \<noteq> [] \<and> i \<noteq> [] \<and> ValidHaID i then Inr (i, HaIDFromFileName)
      else Inl (ErrNoHaID (dcName dc)))"

definition ResolveHaID :: "device_config \<Rightarrow> description option \<Rightarrow> haid_error + string \<times> haid_source" where
  "ResolveHaID dc desc =
     (if dcHaID dc \<noteq> [] then
        (if \<not> ValidHaID (dcHaID dc) then Inl (ConfigHaIDInvalid (dcName dc) (dcHaID dc))
         else Inr (dcHaID dc, HaIDFromConfig))
      else (case desc of
          Some d \<Rightarrow>
            if dHaID d \<noteq> [] then
              (if \<not> ValidHaID (dHaID d) then Inl (DescriptionHaIDInvalid (dcName dc) (dHaID d))
               else Inr (dHaID d, HaIDFromDescription))
            else file_haid dc
        | None \<Rightarrow> file_haid dc))"

section \<open>Slugs of device names\<close>

text \<open>The case table maps an ASCII byte to its lower case and leaves it in the string.\<close>

definition lower_ok :: "(string \<Rightarrow> string) \<Rightarrow> bool" where
  "lower_ok u \<longleftrightarrow> (\<forall>s c. c \<in> set s \<and> is_ascii c \<longrightarrow> lower_char c \<in> set (u s))"

lemma to_lower_keeps:
  assumes "lower_ok u" and "c \<in> set s" and "is_ascii c"
  shows "lower_char c \<in> set (to_lower u s)"
proof (cases "list_all is_ascii s")
  case True
  with assms(2) show ?thesis by (simp add: to_lower_def)
next
  case False
  with assms show ?thesis by (simp add: to_lower_def lower_ok_def)
qed

lemma umlauts_keeps: "c \<in> set s \<Longrightarrow> is_ascii c \<Longrightarrow> c \<in> set (umlauts s)"
proof (induction s rule: umlauts.induct)
  case (1 a b s)
  have "\<not> is_ascii x" if "x = CHR 0xC3 \<or> x = CHR 0xA4 \<or> x = CHR 0xB6 \<or> x = CHR 0xBC \<or> x = CHR 0x9F" for x
    using that by (elim disjE) (simp_all add: is_ascii_def)
  with "1.prems"(2) have "c \<noteq> CHR 0xC3 \<and> c \<noteq> CHR 0xA4 \<and> c \<noteq> CHR 0xB6 \<and> c \<noteq> CHR 0xBC \<and> c \<noteq> CHR 0x9F" by metis
  moreover have "c = a \<or> c = b \<or> c \<in> set s" using "1.prems"(1) by simp
  ultimately show ?case using "1.IH" "1.prems"(2) by (simp del: umlauts.simps add: umlauts.simps(1)) metis
qed simp_all

lemma slug_loop_keeps: "c \<in> set s \<Longrightarrow> slug_char c \<Longrightarrow> c \<in> set (slug_loop b s)"
  by (induction b s rule: slug_loop.induct) auto

lemma dropWhile_keeps: "c \<in> set s \<Longrightarrow> \<not> P c \<Longrightarrow> c \<in> set (dropWhile P s)"
  by (induction s) auto

lemma trim_char_keeps: "c \<in> set s \<Longrightarrow> c \<noteq> x \<Longrightarrow> c \<in> set (trim_char x s)"
  by (simp add: trim_char_def trim_right_char_def dropWhile_keeps)

lemma Slug_ne:
  assumes "lower_ok u" and "c \<in> set name" and "slug_char (lower_char c)"
  shows "Slug u name \<noteq> []"
proof -
  have a: "is_ascii (lower_char c)" using slug_ascii assms(3) by blast
  then have "is_ascii c" by simp
  from to_lower_keeps [OF assms(1,2) this] a
  have "lower_char c \<in> set (slug_loop False (umlauts (to_lower u name)))"
    by (intro slug_loop_keeps umlauts_keeps assms(3))
  then have "lower_char c \<in> set (Slug u name)"
    unfolding Slug_def using assms(3) by (intro trim_char_keeps) auto
  then show ?thesis by auto
qed

lemma alnum_slug: "alnum_rune r \<Longrightarrow> slug_char (lower_char (char_of r))"
proof -
  assume r: "alnum_rune r"
  then have "r < 256" by (auto simp: alnum_rune_def)
  then have "(of_char (char_of r :: char) :: nat) = r" by simp
  with r show ?thesis
    by (auto simp: slug_char_def is_lower_def is_digit_def of_char_lower_char alnum_rune_def)
qed

lemma validateDeviceName_None:
  assumes "validateDeviceName name = None"
  shows "utf8_valid name \<and> CHR ''+'' \<notin> set name \<and> CHR ''#'' \<notin> set name
     \<and> (\<exists>c\<in>set name. slug_char (lower_char c))"
proof -
  have v: "utf8_valid name" "CHR ''+'' \<notin> set name" "CHR ''#'' \<notin> set name"
    and ex: "list_ex (\<lambda>r. case r of Some n \<Rightarrow> alnum_rune n | None \<Rightarrow> False) (runes name)"
    using assms by (auto simp: validateDeviceName_def split: if_splits option.splits)
  from ex obtain r where r: "Some r \<in> set (runes name)" "alnum_rune r"
    by (auto simp: list_ex_iff split: option.splits)
  then have "char_of r \<in> set name" by (intro runes_small) (auto simp: alnum_rune_def)
  with r(2) v alnum_slug show ?thesis by blast
qed

section \<open>What a loaded devices file guarantees\<close>

definition device_ok :: "(string \<Rightarrow> string) \<Rightarrow> device_config \<Rightarrow> bool" where
  "device_ok u d \<longleftrightarrow> utf8_valid (dcName d) \<and> CHR ''+'' \<notin> set (dcName d) \<and> CHR ''#'' \<notin> set (dcName d)
     \<and> Slug u (dcName d) \<noteq> [] \<and> (dcHaID d = [] \<or> ValidHaID (dcHaID d))
     \<and> (dcConnectionType d = ConnectionAES \<and> dcIV64 d \<noteq> [] \<or> dcConnectionType d = ConnectionTLS)
     \<and> dcPSK64 d \<noteq> []"

lemma validate_devices_Cons:
  assumes "validate_devices u up i seen byNodeID (d0 # ds) = Inr out" and "lower_ok u"
  obtains d rest where "out = d # rest" and "device_ok u d" and "dcName d = dcName d0"
    and "byNodeID (Slug u (dcName d)) = None"
    and "validate_devices u up (Suc i) (insert (dcName d) seen) (byNodeID(Slug u (dcName d) \<mapsto> dcName d)) ds = Inr rest"
proof -
  define d where "d = d0\<lparr>dcConnectionType := to_upper up (dcConnectionType d0)\<rparr>"
  have n: "dcName d = dcName d0" by (simp add: d_def)
  have v: "validateDeviceName (dcName d) = None" and b: "byNodeID (Slug u (dcName d)) = None"
    and h: "dcHaID d = [] \<or> ValidHaID (dcHaID d)"
    and c: "dcConnectionType d = ConnectionAES \<or> dcConnectionType d = ConnectionTLS"
    and p: "dcPSK64 d \<noteq> []" "dcConnectionType d = ConnectionAES \<Longrightarrow> dcIV64 d \<noteq> []"
    using assms(1) by (auto simp: Let_def simp flip: d_def split: if_splits option.splits)
  obtain rest where r: "out = d # rest"
    "validate_devices u up (Suc i) (insert (dcName d) seen) (byNodeID(Slug u (dcName d) \<mapsto> dcName d)) ds = Inr rest"
    using assms(1) by (auto simp: Let_def simp flip: d_def split: if_splits option.splits sum.splits)
  have "device_ok u d"
    using validateDeviceName_None [OF v] Slug_ne [OF assms(2)] h c p by (auto simp: device_ok_def)
  then show ?thesis by (rule that [OF r(1) _ n b r(2)])
qed

lemma validate_devices_ok:
  assumes "validate_devices u up i seen byNodeID ds = Inr out" and "lower_ok u"
  shows "List.map dcName out = List.map dcName ds \<and> list_all (device_ok u) out
     \<and> distinct (List.map (\<lambda>d. Slug u (dcName d)) out)
     \<and> (\<forall>d\<in>set out. byNodeID (Slug u (dcName d)) = None)"
  using assms(1)
proof (induction ds arbitrary: i seen byNodeID out)
  case Nil
  then show ?case by simp
next
  case (Cons d0 ds)
  obtain d rest where d: "out = d # rest" "device_ok u d" "dcName d = dcName d0"
      "byNodeID (Slug u (dcName d)) = None"
    and r: "validate_devices u up (Suc i) (insert (dcName d) seen) (byNodeID(Slug u (dcName d) \<mapsto> dcName d)) ds = Inr rest"
    using validate_devices_Cons [OF Cons.prems assms(2)] .
  from Cons.IH [OF r] d show ?case by (auto split: if_splits)
qed

section \<open>Properties\<close>

text \<open>
  A devices file that loads has at least one device; every device can become a Home Assistant node
  and a topic segment (a name in UTF-8 without wildcards, a non-empty node id, a file-safe haId, a
  known connection type with its keys), and no two devices share a node id.
\<close>

theorem LoadDevices_valid:
  assumes "lower_ok u" and "LoadDevices rd yaml u up file = Inr ds"
  shows "ds \<noteq> [] \<and> list_all (device_ok u) ds \<and> distinct (List.map (\<lambda>d. Slug u (dcName d)) ds)"
proof -
  obtain ds0 where ne: "ds0 \<noteq> []" and v: "validate_devices u up 0 {} Map.empty ds0 = Inr ds"
    using assms(2) by (auto simp: LoadDevices_def split: option.splits if_splits)
  from validate_devices_ok [OF v assms(1)] ne show ?thesis by (metis Nil_is_map_conv)
qed

definition kitchen :: "device_config list" where
  "kitchen =
     [\<lparr>dcName = ''Oven'', dcHaID = ''010203'', dcHost = ''h1'', dcManualHost = False, dcConnectionType = ''aes'',
        dcPSK64 = ''k'', dcIV64 = ''i'', dcDescription = []\<rparr>,
      \<lparr>dcName = ''Hob'', dcHaID = [], dcHost = ''h2'', dcManualHost = False, dcConnectionType = ''TLS'',
        dcPSK64 = ''k'', dcIV64 = [], dcDescription = ''cache/4711.json''\<rparr>]"

definition kitchen_loaded :: "device_config list" where
  "kitchen_loaded = (kitchen ! 0)\<lparr>dcConnectionType := ''AES''\<rparr> # tl kitchen"

lemma kitchen_loads:
  "LoadDevices (\<lambda>_. Some []) (\<lambda>_. Some kitchen) (List.map lower_char) (List.map upper_char) ''devices.yaml''
   = Inr kitchen_loaded"
  by code_simp

lemma lower_ok_ascii: "lower_ok (List.map lower_char)"
  by (simp add: lower_ok_def)

lemma LoadDevices_valid_witness:
  "kitchen_loaded \<noteq> [] \<and> list_all (device_ok (List.map lower_char)) kitchen_loaded
   \<and> distinct (List.map (\<lambda>d. Slug (List.map lower_char) (dcName d)) kitchen_loaded)"
  by (rule LoadDevices_valid [OF lower_ok_ascii kitchen_loads])

text \<open>
  A resolved haId is a valid one: usable as a file name and as one level of a topic, whatever its
  source.
\<close>

theorem ResolveHaID_valid:
  assumes "ResolveHaID dc desc = Inr (i, src)"
  shows "ValidHaID i \<and> path_base i = i \<and> i \<noteq> ''..'' \<and> list_all (\<lambda>c. c \<noteq> CHR ''/'' \<and> c \<noteq> CHR ''+'' \<and> c \<noteq> CHR ''#'') i"
proof -
  have v: "ValidHaID i"
    using assms by (auto simp: ResolveHaID_def file_haid_def Let_def split: if_splits option.splits)
  then have "list_all (\<lambda>c. c \<noteq> CHR ''/'' \<and> c \<noteq> CHR ''+'' \<and> c \<noteq> CHR ''#'') i"
    using haid_char_safe by (auto simp: ValidHaID_def list_all_iff)
  moreover from this have "CHR ''/'' \<notin> set i" by (auto simp: list_all_iff)
  moreover have "i \<noteq> []" "i \<noteq> ''..''" using v by (auto simp: ValidHaID_def)
  ultimately show ?thesis using v path_base_file(2) by metis
qed

lemma ResolveHaID_valid_witness:
  "ValidHaID ''4711'' \<and> path_base ''4711'' = ''4711'' \<and> ''4711'' \<noteq> ''..''
   \<and> list_all (\<lambda>c. c \<noteq> CHR ''/'' \<and> c \<noteq> CHR ''+'' \<and> c \<noteq> CHR ''#'') ''4711''"
  by (rule ResolveHaID_valid [of "kitchen ! 1" None _ HaIDFromFileName]) code_simp

text \<open>
  The documented setup path: a description cached as \<^verbatim>\<open><dir>/<haId>.json\<close> (as the onboarding tool
  names it) resolves to that haId when neither the configuration nor the description records one.
\<close>

theorem ResolveHaID_cached:
  assumes "ValidHaID i" and "dcHaID dc = []" and "\<forall>d. desc = Some d \<longrightarrow> dHaID d = []"
    and "dcDescription dc = dir @ ''/'' @ i @ ''.json''"
  shows "ResolveHaID dc desc = Inr (i, HaIDFromFileName)"
proof -
  have i: "CHR ''/'' \<notin> set i" "i \<noteq> []"
    using assms(1) haid_char_safe by (auto simp: ValidHaID_def list_all_iff)
  then have "path_base (dcDescription dc) = i @ ''.json''"
    using path_base_file(1) [of "i @ ''.json''" dir] assms(4) by simp
  moreover have "path_ext (i @ ''.json'') = ''.json''"
    using path_ext_file [of i "''json''"] i by simp
  ultimately have "file_haid dc = Inr (i, HaIDFromFileName)"
    using assms(1,4) i by (simp add: file_haid_def)
  with assms(2,3) show ?thesis by (simp add: ResolveHaID_def split: option.split)
qed

lemma ResolveHaID_cached_witness: "ResolveHaID (kitchen ! 1) None = Inr (''4711'', HaIDFromFileName)"
  by (rule ResolveHaID_cached [where dir = "''cache''"])
    (simp_all add: kitchen_def ValidHaID_def haid_char_def is_digit_def)

end
