(* ===== verification/Archive.thy ===== *)
theory Archive
  imports Devices Profile_Parser "HOL-Library.AList" "HOL-Library.Multiset"
begin

text \<open>
  \<^verbatim>\<open>internal/profile/archive.go\<close>: reading a profile archive under the limits that keep a crafted one
  from exhausting memory, and finding the appliances in it; \<^verbatim>\<open>inventory.go\<close>'s entries.

  The readers of a ZIP directory, of a JSON index and of a directory of the file system are parameters
  (\<open>archive_lib\<close>). A Go map is an association list with distinct keys; \<open>iter\<close> is the order in which the
  runtime happens to visit it.
\<close>

definition maxEntrySize :: int where "maxEntrySize = 16 * 2 ^ 20"
definition maxArchiveSize :: int where "maxArchiveSize = 64 * 2 ^ 20"

record device_index =
  ixHaID :: string
  ixDeviceDescriptionFileName :: string
  ixFeatureMappingFileName :: string
  ixConnectionType :: string
  ixKey :: string
  ixIV :: string
  ixBrand :: string
  ixType :: string
  ixVib :: string
  ixModel :: string

record device_profile =
  dpHaID :: string
  dpConnectionType :: string
  dpPSK64 :: string
  dpIV64 :: string
  dpBrand :: string
  dpType :: string
  dpVib :: string
  dpModel :: string
  dpDescription :: description

definition DefaultHost :: "device_profile \<Rightarrow> string" where
  "DefaultHost p =
     (if dpConnectionType p = ConnectionTLS
      then dpBrand p @ ''-'' @ dpType p @ ''-'' @ dpHaID p else dpHaID p)"

text \<open>
  A member of a ZIP file: its name, the size its header declares, whether it opens, the bytes it inflates
  to, and whether the stream then fails instead of ending.
\<close>

record zip_entry =
  zeName :: string
  zeDeclared :: int
  zeOpens :: bool
  zeData :: string
  zeFails :: bool

type_synonym file_set = "(string \<times> string) list"

record archive_lib =
  zipReader :: "string \<Rightarrow> zip_entry list option"
  unmarshalIndex :: "string \<Rightarrow> device_index option"
  iter :: "file_set \<Rightarrow> file_set"
  descXML :: xml_lib
  lowers :: "string \<Rightarrow> string"
  uppers :: "string \<Rightarrow> string"

datatype invalid_reason =
    NotReadable | NotAZip
  | DeclaredEntry string | DeclaredTotal
  | OpenEntry string | ReadEntry string | EntryTooBig string | ArchiveTooBig string
  | NoIndex | BadIndex string | MissingFile string | NoValidProfile | NoArchive

datatype archive_error = ErrInvalidProfile invalid_reason | ErrParser

section \<open>Inflating\<close>

text \<open>The sizes the headers declare, summed in a \<^verbatim>\<open>uint64\<close>.\<close>

fun declared_sizes :: "int \<Rightarrow> zip_entry list \<Rightarrow> archive_error + int" where
  "declared_sizes dsum [] = Inr dsum"
| "declared_sizes dsum (f # fs) =
     (if zeDeclared f > maxEntrySize then Inl (ErrInvalidProfile (DeclaredEntry (zeName f)))
      else declared_sizes ((dsum + zeDeclared f) mod 2 ^ 64) fs)"

text \<open>Reading an entry through a limit of one byte more than it may have. The flag says it failed.\<close>

definition read_entry :: "zip_entry \<Rightarrow> string \<times> bool" where
  "read_entry f =
     (let limit = nat (maxEntrySize + 1) in
      (take limit (zeData f), zeFails f \<and> length (zeData f) < limit))"

text \<open>
  The read loop. The second component counts the bytes inflated so far; the code does not keep it, the
  bound below is about it.
\<close>

fun inflate :: "file_set \<Rightarrow> int \<Rightarrow> nat \<Rightarrow> zip_entry list \<Rightarrow> (archive_error + file_set) \<times> nat" where
  "inflate files sofar n [] = (Inr files, n)"
| "inflate files sofar n (f # fs) =
     (if \<not> zeOpens f then (Inl (ErrInvalidProfile (OpenEntry (zeName f))), n)
      else (let (b, failed) = read_entry f; n' = n + length b; sofar' = sofar + int (length b) in
        if failed then (Inl (ErrInvalidProfile (ReadEntry (zeName f))), n')
        else if int (length b) > maxEntrySize then (Inl (ErrInvalidProfile (EntryTooBig (zeName f))), n')
        else if sofar' > maxArchiveSize then (Inl (ErrInvalidProfile (ArchiveTooBig (zeName f))), n')
        else inflate (AList.update (zeName f) b files) sofar' n' fs))"

section \<open>Finding the files\<close>

definition lookupFile :: "(file_set \<Rightarrow> file_set) \<Rightarrow> file_set \<Rightarrow> string \<Rightarrow> string \<Rightarrow> string option" where
  "lookupFile it files ref indexName =
     (if ref = [] then None
      else (case map_of files ref of
          Some b \<Rightarrow> Some b
        | None \<Rightarrow>
            (let base = path_base ref in
             case map_of files base of
               Some b \<Rightarrow> Some b
             | None \<Rightarrow>
                 (let dir = path_dir indexName;
                      beside = (if dir \<noteq> ''.'' then map_of files (path_join [dir, base]) else None)
                  in case beside of
                    Some b \<Rightarrow> Some b
                  | None \<Rightarrow> map_option snd (find (\<lambda>(name, b). path_base name = base) (it files))))))"

text \<open>One index: \<open>Inr None\<close> is a profile skipped for its haId.\<close>

definition parse_index :: "archive_lib \<Rightarrow> file_set \<Rightarrow> string \<Rightarrow> archive_error + device_profile option" where
  "parse_index L files name =
     (case unmarshalIndex L (case map_of files name of Some b \<Rightarrow> b | None \<Rightarrow> []) of
        None \<Rightarrow> Inl (ErrInvalidProfile (BadIndex name))
      | Some pj \<Rightarrow>
          if \<not> ValidHaID (ixHaID pj) then Inr None
          else (case lookupFile (iter L) files (ixDeviceDescriptionFileName pj) name of
              None \<Rightarrow> Inl (ErrInvalidProfile (MissingFile (ixDeviceDescriptionFileName pj)))
            | Some dx \<Rightarrow>
                (case lookupFile (iter L) files (ixFeatureMappingFileName pj) name of
                   None \<Rightarrow> Inl (ErrInvalidProfile (MissingFile (ixFeatureMappingFileName pj)))
                 | Some fx \<Rightarrow>
                     (case ParseDescription (descXML L) (lowers L) dx fx of
                        None \<Rightarrow> Inl ErrParser
                      | Some desc \<Rightarrow>
                          Inr (Some \<lparr>dpHaID = ixHaID pj, dpConnectionType = to_upper (uppers L) (ixConnectionType pj),
                            dpPSK64 = ixKey pj, dpIV64 = ixIV pj, dpBrand = ixBrand pj, dpType = ixType pj,
                            dpVib = ixVib pj, dpModel = ixModel pj, dpDescription = desc\<lparr>dHaID := ixHaID pj\<rparr>\<rparr>)))))"

fun parse_indexes :: "archive_lib \<Rightarrow> file_set \<Rightarrow> string list \<Rightarrow> archive_error + device_profile list" where
  "parse_indexes L files [] = Inr []"
| "parse_indexes L files (name # names) =
     (case parse_index L files name of
        Inl e \<Rightarrow> Inl e
      | Inr p \<Rightarrow>
          (case parse_indexes L files names of
             Inl e \<Rightarrow> Inl e
           | Inr ps \<Rightarrow> Inr (case p of None \<Rightarrow> ps | Some q \<Rightarrow> q # ps)))"

definition parseFileSet :: "archive_lib \<Rightarrow> file_set \<Rightarrow> archive_error + device_profile list" where
  "parseFileSet L files =
     (let jsonNames = filter (\<lambda>name. suffix ''.json'' (to_lower (lowers L) name)) (List.map fst (iter L files)) in
      if jsonNames = [] then Inl (ErrInvalidProfile NoIndex)
      else (case parse_indexes L files jsonNames of
          Inl e \<Rightarrow> Inl e
        | Inr profiles \<Rightarrow> if profiles = [] then Inl (ErrInvalidProfile NoValidProfile) else Inr profiles))"

definition ParseArchiveBytes :: "archive_lib \<Rightarrow> string \<Rightarrow> (archive_error + device_profile list) \<times> nat" where
  "ParseArchiveBytes L data =
     (case zipReader L data of
        None \<Rightarrow> (Inl (ErrInvalidProfile NotAZip), 0)
      | Some fs \<Rightarrow>
          (case declared_sizes 0 fs of
             Inl e \<Rightarrow> (Inl e, 0)
           | Inr dsum \<Rightarrow>
               if dsum > maxArchiveSize then (Inl (ErrInvalidProfile DeclaredTotal), 0)
               else (case inflate [] 0 0 fs of
                   (Inl e, n) \<Rightarrow> (Inl e, n)
                 | (Inr files, n) \<Rightarrow> (parseFileSet L files, n))))"

definition ParseArchiveFile ::
  "archive_lib \<Rightarrow> (string \<Rightarrow> string option) \<Rightarrow> string \<Rightarrow> archive_error + device_profile list" where
  "ParseArchiveFile L rd zipPath =
     (case rd zipPath of
        None \<Rightarrow> Inl (ErrInvalidProfile NotReadable)
      | Some data \<Rightarrow> fst (ParseArchiveBytes L data))"

text \<open>The loop over a directory, whose members are given with whether they are directories.\<close>

definition is_zip :: "string \<times> bool \<Rightarrow> bool" where
  "is_zip e \<longleftrightarrow> \<not> snd e \<and> equal_fold (path_ext (fst e)) ''.zip''"

fun parse_dir ::
  "archive_lib \<Rightarrow> (string \<Rightarrow> string option) \<Rightarrow> string \<Rightarrow> (string \<times> bool) list
   \<Rightarrow> device_profile list \<Rightarrow> nat \<Rightarrow> device_profile list \<times> nat" where
  "parse_dir L rd dir [] profs zips = (profs, zips)"
| "parse_dir L rd dir (e # es) profs zips =
     (if \<not> is_zip e then parse_dir L rd dir es profs zips
      else (case ParseArchiveFile L rd (path_join [dir, fst e]) of
          Inl _ \<Rightarrow> parse_dir L rd dir es profs (Suc zips)
        | Inr ps \<Rightarrow> parse_dir L rd dir es (profs @ ps) (Suc zips)))"

definition ParseArchiveDir ::
  "archive_lib \<Rightarrow> (string \<Rightarrow> string option) \<Rightarrow> (string \<Rightarrow> (string \<times> bool) list option) \<Rightarrow> string
   \<Rightarrow> archive_error + device_profile list" where
  "ParseArchiveDir L rd rdDir dir =
     (case rdDir dir of
        None \<Rightarrow> Inl (ErrInvalidProfile NotReadable)
      | Some es \<Rightarrow> (let (profs, zips) = parse_dir L rd dir es [] 0 in
          if zips = 0 then Inl (ErrInvalidProfile NoArchive) else Inr profs))"

section \<open>The limits\<close>

definition files_size :: "file_set \<Rightarrow> int" where
  "files_size files = (\<Sum>(name, b)\<leftarrow>files. int (length b))"

lemma read_entry_length: "length (fst (read_entry f)) \<le> nat (maxEntrySize + 1)"
  by (simp add: read_entry_def Let_def)

lemma files_size_nonneg: "0 \<le> files_size files"
  unfolding files_size_def by (induction files) auto

lemma files_size_update: "files_size (AList.update k b files) \<le> files_size files + int (length b)"
  by (induction files) (auto simp: files_size_def)

lemma inflate_bound:
  assumes "int n \<le> maxArchiveSize" and "sofar = int n"
  shows "int (snd (inflate files sofar n fs)) \<le> maxArchiveSize + maxEntrySize + 1"
  using assms
proof (induction fs arbitrary: files sofar n)
  case Nil
  then show ?case by (simp add: maxEntrySize_def)
next
  case (Cons f fs)
  obtain b failed where r: "read_entry f = (b, failed)" by (cases "read_entry f")
  have "length b \<le> nat (maxEntrySize + 1)" using read_entry_length [of f] r by simp
  then have "int (n + length b) \<le> maxArchiveSize + maxEntrySize + 1"
    using Cons.prems by (simp add: maxEntrySize_def maxArchiveSize_def)
  moreover have "int n \<le> maxArchiveSize + maxEntrySize + 1" using Cons.prems by (simp add: maxEntrySize_def)
  ultimately show ?case
    using Cons.IH [of "n + length b" "sofar + int (length b)" "AList.update (zeName f) b files"] Cons.prems
    by (simp add: r Let_def)
qed

lemma inflate_files:
  assumes "inflate files sofar n fs = (Inr out, m)" and "files_size files \<le> sofar"
    and "sofar \<le> maxArchiveSize" and "list_all (\<lambda>(_, b). int (length b) \<le> maxEntrySize) files"
    and "distinct (List.map fst files)"
  shows "files_size out \<le> maxArchiveSize \<and> list_all (\<lambda>(_, b). int (length b) \<le> maxEntrySize) out
     \<and> distinct (List.map fst out)"
  using assms
proof (induction fs arbitrary: files sofar n)
  case Nil
  then show ?case by simp
next
  case (Cons f fs)
  obtain b failed where r: "read_entry f = (b, failed)" by (cases "read_entry f")
  have step: "inflate (AList.update (zeName f) b files) (sofar + int (length b)) (n + length b) fs = (Inr out, m)"
    and b: "int (length b) \<le> maxEntrySize" and t: "sofar + int (length b) \<le> maxArchiveSize"
    using Cons.prems(1) by (auto simp: r Let_def split: if_splits)
  have "files_size (AList.update (zeName f) b files) \<le> sofar + int (length b)"
    using files_size_update [of "zeName f" b files] Cons.prems(2) by simp
  moreover have "list_all (\<lambda>(_, b). int (length b) \<le> maxEntrySize) (AList.update (zeName f) b files)"
    using Cons.prems(4) b by (induction files) auto
  moreover have "distinct (List.map fst (AList.update (zeName f) b files))"
    using Cons.prems(5) by (rule distinct_update)
  ultimately show ?case using Cons.IH [OF step _ t] by simp
qed

section \<open>The profiles\<close>

lemma parse_index_Some:
  assumes "parse_index L files name = Inr (Some p)"
  shows "ValidHaID (dpHaID p) \<and> dHaID (dpDescription p) = dpHaID p"
  using assms by (auto simp: parse_index_def split: option.splits if_splits)

lemma parse_indexes_ok:
  "parse_indexes L files names = Inr ps \<Longrightarrow> list_all (\<lambda>p. ValidHaID (dpHaID p) \<and> dHaID (dpDescription p) = dpHaID p) ps"
  by (induction names arbitrary: ps) (auto dest: parse_index_Some split: sum.splits option.splits)

lemma parseFileSet_ok:
  "parseFileSet L files = Inr ps \<Longrightarrow>
     ps \<noteq> [] \<and> list_all (\<lambda>p. ValidHaID (dpHaID p) \<and> dHaID (dpDescription p) = dpHaID p) ps"
  by (auto simp: parseFileSet_def Let_def dest: parse_indexes_ok split: if_splits sum.splits)

section \<open>The directory loop in one expression\<close>

definition dir_archives :: "archive_lib \<Rightarrow> (string \<Rightarrow> string option) \<Rightarrow> string \<Rightarrow> (string \<times> bool) list
    \<Rightarrow> (archive_error + device_profile list) list" where
  "dir_archives L rd dir es = List.map (\<lambda>e. ParseArchiveFile L rd (path_join [dir, fst e])) (filter is_zip es)"

definition parsed :: "archive_error + device_profile list \<Rightarrow> device_profile list" where
  "parsed r = (case r of Inl _ \<Rightarrow> [] | Inr ps \<Rightarrow> ps)"

lemma parse_dir_closed:
  "parse_dir L rd dir es profs zips =
     (profs @ concat (List.map parsed (dir_archives L rd dir es)), zips + length (dir_archives L rd dir es))"
  by (induction es arbitrary: profs zips) (simp_all add: dir_archives_def parsed_def split: sum.split)

section \<open>Properties\<close>

text \<open>
  C24. No archive, however crafted, makes the parser inflate more than the archive limit and one entry;
  the files that reach the profile parser keep within the limit of the archive and of each entry, and
  every name stands once.
\<close>

theorem archive_bounded:
  "int (snd (ParseArchiveBytes L data)) \<le> maxArchiveSize + maxEntrySize + 1
   \<and> (case inflate [] 0 0 fs of
        (Inr files, n) \<Rightarrow> files_size files \<le> maxArchiveSize
          \<and> list_all (\<lambda>(_, b). int (length b) \<le> maxEntrySize) files \<and> distinct (List.map fst files)
      | (Inl _, n) \<Rightarrow> True)"
proof
  have "int (snd (inflate [] 0 0 fs)) \<le> maxArchiveSize + maxEntrySize + 1" for fs
    by (rule inflate_bound) (simp_all add: maxArchiveSize_def)
  moreover have "0 \<le> maxArchiveSize + maxEntrySize + 1" by (simp add: maxArchiveSize_def maxEntrySize_def)
  ultimately show "int (snd (ParseArchiveBytes L data)) \<le> maxArchiveSize + maxEntrySize + 1"
    by (auto simp: ParseArchiveBytes_def split: option.split sum.split prod.split) (metis snd_conv)+
next
  show "case inflate [] 0 0 fs of
        (Inr files, n) \<Rightarrow> files_size files \<le> maxArchiveSize
          \<and> list_all (\<lambda>(_, b). int (length b) \<le> maxEntrySize) files \<and> distinct (List.map fst files)
      | (Inl _, n) \<Rightarrow> True"
    using inflate_files [of "[]" 0 0 fs]
    by (auto simp: files_size_def maxArchiveSize_def split: prod.split sum.split)
qed

text \<open>
  What an archive yields is usable: at least one profile, every haId a valid file name that stays in
  the directory it is joined to, and recorded in the description as well.
\<close>

theorem archive_profiles_safe:
  assumes "fst (ParseArchiveBytes L data) = Inr ps"
  shows "ps \<noteq> [] \<and> list_all (\<lambda>p. ValidHaID (dpHaID p) \<and> dHaID (dpDescription p) = dpHaID p
     \<and> path_base (dir @ ''/'' @ dpHaID p @ ''.json'') = dpHaID p @ ''.json'') ps"
proof -
  have ps: "ps \<noteq> [] \<and> list_all (\<lambda>p. ValidHaID (dpHaID p) \<and> dHaID (dpDescription p) = dpHaID p) ps"
    using assms by (auto simp: ParseArchiveBytes_def split: option.splits sum.splits if_splits prod.splits
        dest: parseFileSet_ok)
  have "path_base (dir @ ''/'' @ i @ ''.json'') = i @ ''.json''" if "ValidHaID i" for i
  proof -
    have "CHR ''/'' \<notin> set (i @ ''.json'')"
      using that haid_char_safe by (auto simp: ValidHaID_def list_all_iff)
    then show ?thesis using path_base_file(1) [of "i @ ''.json''" dir] by simp
  qed
  with ps show ?thesis by (auto simp: list_all_iff)
qed

text \<open>
  Loading a directory is lenient: the profiles are those of every archive in it that parses, in
  directory order; an archive that fails is left out and nothing else, and only a directory without an
  archive is an error.
\<close>

theorem ParseArchiveDir_lenient:
  "ParseArchiveDir L rd rdDir dir =
     (case rdDir dir of
        None \<Rightarrow> Inl (ErrInvalidProfile NotReadable)
      | Some es \<Rightarrow>
          if filter is_zip es = [] then Inl (ErrInvalidProfile NoArchive)
          else Inr (concat (List.map (\<lambda>e. case ParseArchiveFile L rd (path_join [dir, fst e]) of
              Inl _ \<Rightarrow> [] | Inr ps \<Rightarrow> ps) (filter is_zip es))))"
  by (simp add: ParseArchiveDir_def parse_dir_closed dir_archives_def parsed_def comp_def split: option.split)

text \<open>
  A referenced file is found: the exact name when the archive has it, and otherwise some member
  whenever one has the same base name.
\<close>

theorem lookupFile_finds:
  assumes "ref \<noteq> []" and "set (it files) = set files"
    and "(name, b0) \<in> set files" and "path_base name = path_base ref"
  shows "\<exists>b. lookupFile it files ref indexName = Some b \<and> b \<in> snd ` set files
     \<and> (\<forall>b'. map_of files ref = Some b' \<longrightarrow> b = b')"
proof -
  have img: "map_of files k = Some b \<Longrightarrow> b \<in> snd ` set files" for k b
    by (metis image_eqI map_of_SomeD snd_conv)
  have "find (\<lambda>(n, b). path_base n = path_base ref) (it files) \<noteq> None"
    using assms(2-4) by (auto simp: find_None_iff)
  then obtain n' b' where f: "find (\<lambda>(n, b). path_base n = path_base ref) (it files) = Some (n', b')" by auto
  then have "(n', b') \<in> set files" using assms(2) by (auto simp: find_Some_iff in_set_conv_nth)
  then have "b' \<in> snd ` set files" by force
  with f img assms(1) show ?thesis
    by (auto simp: lookupFile_def Let_def split: option.split) 
qed

section \<open>An archive\<close>

definition member :: "string \<Rightarrow> string \<Rightarrow> zip_entry" where
  "member name b = \<lparr>zeName = name, zeDeclared = int (length b), zeOpens = True, zeData = b, zeFails = False\<rparr>"

definition oven_index :: device_index where
  "oven_index =
     \<lparr>ixHaID = ''4711'', ixDeviceDescriptionFileName = ''4711_dd.xml'', ixFeatureMappingFileName = ''fm.xml'',
      ixConnectionType = ''aes'', ixKey = ''k'', ixIV = ''i'', ixBrand = ''BOSCH'', ixType = ''Oven'',
      ixVib = [], ixModel = []\<rparr>"

definition oven_archive :: archive_lib where
  "oven_archive =
     \<lparr>zipReader = (\<lambda>_. Some [member ''p/4711.json'' ''j'', member ''p/4711_dd.xml'' ''d'', member ''fm.xml'' ''m'']),
      unmarshalIndex = (\<lambda>b. if b = ''j'' then Some oven_index else None), iter = rev, descXML = example_xml,
      lowers = (\<lambda>s. s), uppers = (\<lambda>s. s)\<rparr>"

lemma read_member: "length b \<le> 9 \<Longrightarrow> read_entry (member n b) = (b, False)"
  by (simp add: read_entry_def member_def maxEntrySize_def)

lemma inflate_member:
  "length b \<le> 9 \<Longrightarrow> sofar \<le> 90 \<Longrightarrow>
   inflate files sofar n (member name b # fs) =
     inflate (AList.update name b files) (sofar + int (length b)) (n + length b) fs"
  by (simp add: read_member) (simp add: member_def maxEntrySize_def maxArchiveSize_def)

definition oven_profile :: device_profile where
  "oven_profile =
     \<lparr>dpHaID = ''4711'', dpConnectionType = ''AES'', dpPSK64 = ''k'', dpIV64 = ''i'', dpBrand = ''BOSCH'',
      dpType = ''Oven'', dpVib = [], dpModel = [], dpDescription = example_description\<lparr>dHaID := ''4711''\<rparr>\<rparr>"

lemma oven_files:
  "parse_index oven_archive [(''p/4711.json'', ''j''), (''p/4711_dd.xml'', ''d''), (''fm.xml'', ''m'')] ''p/4711.json''
   = Inr (Some oven_profile)"
proof -
  let ?fs = "[(''p/4711.json'', ''j''), (''p/4711_dd.xml'', ''d''), (''fm.xml'', ''m'')]"
  have "lookupFile rev ?fs ''4711_dd.xml'' ''p/4711.json'' = Some ''d''" by code_simp
  moreover have "lookupFile rev ?fs ''fm.xml'' ''p/4711.json'' = Some ''m''" by code_simp
  moreover have "ValidHaID ''4711''" by code_simp
  moreover have "to_upper (\<lambda>s. s) ''aes'' = ''AES''" by code_simp
  ultimately show ?thesis
    by (simp add: parse_index_def oven_archive_def oven_index_def example_parsed oven_profile_def)
qed

lemma oven_parses: "fst (ParseArchiveBytes oven_archive data) = Inr [oven_profile]"
proof -
  have z: "zipReader oven_archive data =
      Some [member ''p/4711.json'' ''j'', member ''p/4711_dd.xml'' ''d'', member ''fm.xml'' ''m'']"
    by (simp add: oven_archive_def)
  have d: "declared_sizes 0 [member ''p/4711.json'' ''j'', member ''p/4711_dd.xml'' ''d'', member ''fm.xml'' ''m''] = Inr 3"
    by (simp add: member_def maxEntrySize_def)
  have i: "inflate [] 0 0 [member ''p/4711.json'' ''j'', member ''p/4711_dd.xml'' ''d'', member ''fm.xml'' ''m''] =
      (Inr [(''p/4711.json'', ''j''), (''p/4711_dd.xml'', ''d''), (''fm.xml'', ''m'')], 3)"
    by (simp add: inflate_member del: inflate.simps(2)) 
  have j: "filter (\<lambda>name. suffix ''.json'' (to_lower (lowers oven_archive) name))
      (List.map fst (iter oven_archive [(''p/4711.json'', ''j''), (''p/4711_dd.xml'', ''d''), (''fm.xml'', ''m'')])) = [''p/4711.json'']"
    by code_simp
  show ?thesis
    by (simp add: ParseArchiveBytes_def z d i parseFileSet_def j oven_files maxArchiveSize_def
        del: declared_sizes.simps inflate.simps)
qed

lemma archive_profiles_safe_witness:
  "[oven_profile] \<noteq> [] \<and> list_all (\<lambda>p. ValidHaID (dpHaID p) \<and> dHaID (dpDescription p) = dpHaID p
     \<and> path_base (''out'' @ ''/'' @ dpHaID p @ ''.json'') = dpHaID p @ ''.json'') [oven_profile]"
  by (rule archive_profiles_safe [OF oven_parses [of "[]"]])

lemma lookupFile_finds_witness:
  "\<exists>b. lookupFile rev [(''p/4711_dd.xml'', ''d''), (''fm.xml'', ''m'')] ''4711_dd.xml'' ''q/1.json'' = Some b
     \<and> b \<in> snd ` set [(''p/4711_dd.xml'', ''d''), (''fm.xml'', ''m'')]"
  using lookupFile_finds [of "''4711_dd.xml''" rev "[(''p/4711_dd.xml'', ''d''), (''fm.xml'', ''m'')]" "''p/4711_dd.xml''" "''d''"
      "''q/1.json''"]
  by (auto simp: path_base_def trim_right_char_def)

end
