(* ===== verification/Secrets.thy ===== *)
theory Secrets
  imports Archive
begin

text \<open>
  How secrets are kept out of the logs and where they are written: \<^verbatim>\<open>redact.go\<close>, \<^verbatim>\<open>logvalue.go\<close> and
  \<^verbatim>\<open>inventory.go\<close> of \<^verbatim>\<open>internal/profile\<close>.

  A log attribute is a key and a value: a text, a group of attributes, or a value that renders itself
  later (\<^verbatim>\<open>slog.LogValuer\<close>). \<open>show_group\<close> is slog's rendering of a group.
\<close>

section \<open>Secret keys\<close>

definition secretKeys :: "string set" where
  "secretKeys = {''psk'', ''key'', ''psk64'', ''iv'', ''aesiv'', ''iv64'', ''deviceid'', ''serialnumber'',
     ''shipski'', ''mac''}"

definition normalizeKey :: "(string \<Rightarrow> string) \<Rightarrow> string \<Rightarrow> string" where
  "normalizeKey u name =
     filter (\<lambda>c. c \<noteq> CHR ''-'') (filter (\<lambda>c. c \<noteq> CHR ''_'') (to_lower u name))"

definition needsNormalization :: "string \<Rightarrow> bool" where
  "needsNormalization name = list_ex (\<lambda>c. is_upper c \<or> c = CHR ''_'' \<or> c = CHR ''-'') name"

definition IsSecretKey :: "(string \<Rightarrow> string) \<Rightarrow> string \<Rightarrow> bool" where
  "IsSecretKey u name =
     (if name \<in> secretKeys then True
      else if \<not> needsNormalization name then False
      else normalizeKey u name \<in> secretKeys)"

definition Redact :: "string \<Rightarrow> string" where
  "Redact v =
     (if v = [] then []
      else if length v \<le> 4 then ''****''
      else take 2 v @ [CHR 0xE2, CHR 0x80, CHR 0xA6] @ ''****'')"

section \<open>Log attributes\<close>

datatype log_value = Text string | Group "(string \<times> log_value) list" | Valuer log_value

fun log_string :: "((string \<times> log_value) list \<Rightarrow> string) \<Rightarrow> log_value \<Rightarrow> string" where
  "log_string show_group (Text s) = s"
| "log_string show_group (Group as) = show_group as"
| "log_string show_group (Valuer v) = log_string show_group v"

definition is_group :: "log_value \<Rightarrow> bool" where
  "is_group v = (case v of Group _ \<Rightarrow> True | _ \<Rightarrow> False)"

definition RedactAttr ::
  "(string \<Rightarrow> string) \<Rightarrow> ((string \<times> log_value) list \<Rightarrow> string) \<Rightarrow> string \<times> log_value \<Rightarrow> string \<times> log_value" where
  "RedactAttr u show_group a =
     (if \<not> is_group (snd a) \<and> IsSecretKey u (fst a)
      then (fst a, Text (Redact (log_string show_group (snd a)))) else a)"

definition config_LogValue :: "device_config \<Rightarrow> log_value" where
  "config_LogValue c = Group
     [(''name'', Text (dcName c)), (''host'', Text (dcHost c)), (''connectionType'', Text (dcConnectionType c)),
      (''psk64'', Text (Redact (dcPSK64 c))), (''iv64'', Text (Redact (dcIV64 c)))]"

definition profile_LogValue :: "device_profile \<Rightarrow> log_value" where
  "profile_LogValue p = Group
     [(''haId'', Text (dpHaID p)), (''connectionType'', Text (dpConnectionType p)), (''brand'', Text (dpBrand p)),
      (''type'', Text (dpType p)), (''vib'', Text (dpVib p)), (''model'', Text (dpModel p)),
      (''psk64'', Text (Redact (dpPSK64 p))), (''iv64'', Text (Redact (dpIV64 p)))]"

section \<open>The inventory file\<close>

record inventory_entry =
  ieHaID :: string
  ieConnectionType :: string
  iePSK64 :: string
  ieIV64 :: string
  ieType :: string
  ieBrand :: string
  ieVib :: string
  ieDefaultHost :: string

definition inventory_entry_of :: "device_profile \<Rightarrow> inventory_entry" where
  "inventory_entry_of p =
     \<lparr>ieHaID = dpHaID p, ieConnectionType = dpConnectionType p, iePSK64 = dpPSK64 p, ieIV64 = dpIV64 p,
      ieType = dpType p, ieBrand = dpBrand p, ieVib = dpVib p, ieDefaultHost = DefaultHost p\<rparr>"

definition inventory_LogValue :: "inventory_entry \<Rightarrow> log_value" where
  "inventory_LogValue e = Group
     [(''haId'', Text (ieHaID e)), (''connectionType'', Text (ieConnectionType e)), (''type'', Text (ieType e)),
      (''brand'', Text (ieBrand e)), (''vib'', Text (ieVib e)), (''host'', Text (ieDefaultHost e)),
      (''psk64'', Text (Redact (iePSK64 e))), (''iv64'', Text (Redact (ieIV64 e)))]"

text \<open>
  A file is its mode and content. \<open>file_calls\<close> is how the calls on the file system come out: whether the
  file opens, whether its mode can be set, how many bytes a write gets through, whether it closes.
\<close>

record file_calls =
  fcOpens :: bool
  fcChmods :: bool
  fcWritten :: nat
  fcCloses :: bool

datatype inventory_error = Marshal | OpenInventory | ChmodInventory | WriteFailed | CloseFailed

type_synonym file_image = "nat \<times> string"

definition ownerOnly :: nat where "ownerOnly = 384"

text \<open>Opening creates the file with the mode (less what the umask removes) or truncates the one that is there.\<close>

definition open_trunc :: "nat \<Rightarrow> file_image option \<Rightarrow> file_image" where
  "open_trunc created old = (case old of None \<Rightarrow> (created, []) | Some (mode, _) \<Rightarrow> (mode, []))"

definition WriteInventory ::
  "(inventory_entry list \<Rightarrow> string option) \<Rightarrow> file_calls \<Rightarrow> nat \<Rightarrow> device_profile list \<Rightarrow> file_image option
   \<Rightarrow> inventory_error option \<times> file_image option" where
  "WriteInventory marshal c created profiles old =
     (case marshal (List.map inventory_entry_of profiles) of
        None \<Rightarrow> (Some Marshal, old)
      | Some data \<Rightarrow>
          if \<not> fcOpens c then (Some OpenInventory, old)
          else (let f = open_trunc created old in
            if \<not> fcChmods c then (Some ChmodInventory, Some f)
            else (let g = (ownerOnly, take (fcWritten c) data) in
              if fcWritten c < length data then (Some WriteFailed, Some g)
              else if \<not> fcCloses c then (Some CloseFailed, Some g)
              else (None, Some g))))"

section \<open>Facts\<close>

lemma lower_char_not_upper: "is_ascii c \<Longrightarrow> \<not> is_upper c \<Longrightarrow> lower_char c = c"
  by (auto simp: lower_char_def is_upper_def)

lemma normalizeKey_fixed:
  assumes "list_all is_ascii name" and "\<not> needsNormalization name"
  shows "normalizeKey u name = name"
proof -
  have "List.map lower_char name = name"
    using assms lower_char_not_upper by (auto simp: needsNormalization_def list_all_iff list_ex_iff intro: map_idI)
  moreover have "filter (\<lambda>c. c \<noteq> CHR ''-'') (filter (\<lambda>c. c \<noteq> CHR ''_'') name) = name"
    using assms(2) by (auto simp: needsNormalization_def list_ex_iff filter_id_conv)
  ultimately show ?thesis using assms(1) by (simp add: normalizeKey_def to_lower_ascii)
qed

lemma secretKeys_normal:
  assumes "name \<in> secretKeys"
  shows "list_all is_ascii name \<and> \<not> needsNormalization name"
  using assms unfolding secretKeys_def
  by (elim insertE emptyE) (simp_all add: is_ascii_def needsNormalization_def is_upper_def)

lemma IsSecretKey_iff:
  assumes "list_all is_ascii name"
  shows "IsSecretKey u name \<longleftrightarrow> normalizeKey u name \<in> secretKeys"
proof (cases "needsNormalization name")
  case True
  then have "name \<notin> secretKeys" using secretKeys_normal by blast
  with True show ?thesis by (simp add: IsSecretKey_def)
next
  case False
  with normalizeKey_fixed [OF assms] show ?thesis by (simp add: IsSecretKey_def)
qed

text \<open>What \<open>Redact\<close> lets through of a value: whether there is one, and the first two bytes of a long one.\<close>

definition visible :: "string \<Rightarrow> bool \<times> string" where
  "visible v = (v \<noteq> [], if length v \<le> 4 then [] else take 2 v)"

lemma Redact_visible: "visible v = visible w \<Longrightarrow> Redact v = Redact w"
proof -
  assume v: "visible v = visible w"
  have two: "length s > 4 \<Longrightarrow> take 2 s \<noteq> []" for s :: string by (cases s) auto
  show ?thesis
  proof (cases "length v \<le> 4")
    case True
    with v two have "length w \<le> 4" by (auto simp: visible_def split: if_splits)
    with True v show ?thesis by (auto simp: visible_def Redact_def)
  next
    case False
    with v two have "\<not> length w \<le> 4" by (auto simp: visible_def split: if_splits)
    with False v show ?thesis by (auto simp: visible_def Redact_def)
  qed
qed

section \<open>Properties\<close>

text \<open>
  The fast path of the key test changes nothing: on ASCII keys the test agrees with looking up the
  normal form of every key.
\<close>

theorem IsSecretKey_normal:
  assumes "list_all is_ascii name"
  shows "IsSecretKey u name \<longleftrightarrow> normalizeKey u name \<in> secretKeys"
  using assms by (rule IsSecretKey_iff)

lemma IsSecretKey_normal_witness:
  "IsSecretKey (\<lambda>s. s) ''Serial-Number'' \<longleftrightarrow> normalizeKey (\<lambda>s. s) ''Serial-Number'' \<in> secretKeys"
  by (rule IsSecretKey_normal) (simp add: is_ascii_def)

text \<open>
  C25. Secrets do not show in the log: for a key in any spelling of a secret one, and in the log forms of a
  device, what is logged depends on the secret only through its first two bytes (when it has more than
  four).
\<close>

theorem secrets_hidden:
  assumes "list_all is_ascii k" and "normalizeKey u k \<in> secretKeys"
    and "visible v = visible w" and "visible v' = visible w'"
  shows "RedactAttr u g (k, Text v) = RedactAttr u g (k, Text w)
     \<and> RedactAttr u g (k, Valuer (Text v)) = RedactAttr u g (k, Text w)
     \<and> config_LogValue (c\<lparr>dcPSK64 := v, dcIV64 := v'\<rparr>) = config_LogValue (c\<lparr>dcPSK64 := w, dcIV64 := w'\<rparr>)
     \<and> profile_LogValue (p\<lparr>dpPSK64 := v, dpIV64 := v'\<rparr>) = profile_LogValue (p\<lparr>dpPSK64 := w, dpIV64 := w'\<rparr>)
     \<and> inventory_LogValue (e\<lparr>iePSK64 := v, ieIV64 := v'\<rparr>) = inventory_LogValue (e\<lparr>iePSK64 := w, ieIV64 := w'\<rparr>)"
proof -
  have "Redact v = Redact w" "Redact v' = Redact w'" by (rule Redact_visible [OF assms(3)], rule Redact_visible [OF assms(4)])
  moreover have "IsSecretKey u k" using assms(1,2) by (simp add: IsSecretKey_iff)
  ultimately show ?thesis
    by (simp add: RedactAttr_def is_group_def config_LogValue_def profile_LogValue_def inventory_LogValue_def)
qed

lemma secrets_hidden_witness:
  "RedactAttr (\<lambda>s. s) (\<lambda>_. []) (''PSK_64'', Text ''abcdefgh'') = RedactAttr (\<lambda>s. s) (\<lambda>_. []) (''PSK_64'', Text ''ab999'')"
proof -
  have "normalizeKey (\<lambda>s. s) ''PSK_64'' \<in> secretKeys" by code_simp
  then show ?thesis
    using secrets_hidden [of "''PSK_64''" "\<lambda>s. s" "''abcdefgh''" "''ab999''" "[]" "[]"]
    by (simp add: visible_def is_ascii_def)
qed

text \<open>
  The inventory with the keys is written only to a file whose mode lets nobody but the owner read it,
  whatever the file was before and whichever call fails.
\<close>

theorem inventory_owner_only:
  assumes "WriteInventory marshal c created profiles old = (err, Some (mode, content))"
  shows "Some (mode, content) = old \<or> content = [] \<or> mode = ownerOnly"
  using assms by (auto simp: WriteInventory_def open_trunc_def Let_def split: option.splits if_splits prod.splits)

lemma inventory_owner_only_witness:
  "Some (ownerOnly, ''ab'') = Some (420, ''old'') \<or> ''ab'' = [] \<or> ownerOnly = ownerOnly"
  by (rule inventory_owner_only [of "\<lambda>_. Some ''abc''"
      "\<lparr>fcOpens = True, fcChmods = True, fcWritten = 2, fcCloses = True\<rparr>" 384 "[]" "Some (420, ''old'')" "Some WriteFailed"])
    (simp add: WriteInventory_def open_trunc_def)

end
