(* ===== verification/Publisher.thy ===== *)
theory Publisher
  imports Go_Values "HOL-Library.Sublist"
begin

text \<open>
  The per-device publish queue of \<^verbatim>\<open>internal/bridge/device.go\<close> (\<open>devicePublisher\<close>): updates are appended
  by the appliance's receive goroutine (and by the broker connect hook) and published in order by one
  drain goroutine; when the backlog cap is reached the oldest update is dropped.

  \<open>bounded_fifo\<close> is the contract, stated on what the queue holds; the code's two operations provide it.
  \<open>pub_step\<close> then interleaves the goroutines at the critical sections: the append and the wake-up of
  an \<open>enqueue\<close> are two steps, as they are in the code.
\<close>

section \<open>The contract\<close>

locale bounded_fifo =
  fixes abs :: "'s \<Rightarrow> 'm list"
    and push :: "'m \<Rightarrow> 's \<Rightarrow> 's"
    and pop :: "'s \<Rightarrow> 'm option \<times> 's"
    and cap :: nat
  assumes cap_pos: "0 < cap"
    and abs_push: "length (abs s) \<le> cap \<Longrightarrow>
      abs (push m s) = (if length (abs s) < cap then abs s @ [m] else tl (abs s) @ [m])"
    and pop_empty: "abs s = [] \<Longrightarrow> fst (pop s) = None \<and> abs (snd (pop s)) = []"
    and pop_head: "abs s = m # ms \<Longrightarrow> fst (pop s) = Some m \<and> abs (snd (pop s)) = ms"
begin

lemma push_bounded: "length (abs s) \<le> cap \<Longrightarrow> length (abs (push m s)) \<le> cap"
  using cap_pos by (auto simp: abs_push)

lemma pop_bounded: "length (abs s) \<le> cap \<Longrightarrow> length (abs (snd (pop s))) \<le> cap"
  using pop_empty pop_head by (cases "abs s") auto

text \<open>What a queue holds after a burst: the newest \<open>cap\<close> of what it held and what came.\<close>

lemma push_newest:
  assumes "length (abs s) \<le> cap"
  shows "abs (fold push ms s) = drop (length (abs s @ ms) - cap) (abs s @ ms)"
  using assms
proof (induction ms arbitrary: s)
  case Nil
  then show ?case by simp
next
  case (Cons m ms)
  show ?case
  proof (cases "length (abs s) < cap")
    case True
    then have "abs (push m s) = abs s @ [m]" by (simp add: abs_push)
    with Cons.IH [of "push m s"] True show ?thesis by simp
  next
    case False
    with Cons.prems have l: "length (abs s) = cap" by simp
    with cap_pos obtain a as where as: "abs s = a # as" by (cases "abs s") auto
    from l have p: "abs (push m s) = as @ [m]" by (simp add: abs_push as)
    with l as have "length (abs (push m s)) \<le> cap" by simp
    have c: "cap = Suc (length as)" using l as by simp
    from Cons.IH [OF \<open>length (abs (push m s)) \<le> cap\<close>]
    have "abs (fold push ms (push m s)) = drop (length ms) (as @ m # ms)" by (simp only: p c) simp
    then show ?thesis by (simp only: as c) simp
  qed
qed

text \<open>The pops that empty a queue take out what it holds, in order.\<close>

fun drain_all :: "nat \<Rightarrow> 's \<Rightarrow> 'm list" where
  "drain_all 0 s = []"
| "drain_all (Suc n) s = (case pop s of (None, s') \<Rightarrow> [] | (Some m, s') \<Rightarrow> m # drain_all n s')"

lemma drain_all_abs: "drain_all n s = take n (abs s)"
proof (induction n arbitrary: s)
  case 0
  then show ?case by simp
next
  case (Suc n)
  show ?case
  proof (cases "abs s")
    case Nil
    with pop_empty [of s] show ?thesis by (cases "pop s") simp
  next
    case (Cons m ms)
    with pop_head [of s m ms] Suc show ?thesis by (cases "pop s") simp
  qed
qed

end

section \<open>The code's queue\<close>

text \<open>\<open>pbWarned\<close> records the topics the overflow warning was logged with.\<close>

record publisher =
  pbQueue :: "(string \<times> any) list"
  pbDropped :: nat
  pbWake :: bool
  pbWarned :: "(string \<times> nat) list"

definition maxQueuedPublishes :: nat where "maxQueuedPublishes = 1024"

definition newDevicePublisher :: publisher where
  "newDevicePublisher = \<lparr>pbQueue = [], pbDropped = 0, pbWake = False, pbWarned = []\<rparr>"

text \<open>The part of \<open>enqueue\<close> under the lock, and its send to the wake channel (of capacity one).\<close>

definition push :: "string \<times> any \<Rightarrow> publisher \<Rightarrow> publisher" where
  "push x p =
     (let p' = (if maxQueuedPublishes \<le> length (pbQueue p) then
            (let n = pbDropped p + 1 in
             p\<lparr>pbQueue := tl (pbQueue p), pbDropped := n,
               pbWarned := (if n = 1 \<or> n mod 100 = 0 then pbWarned p @ [(fst (hd (pbQueue p)), n)] else pbWarned p)\<rparr>)
          else p)
      in p'\<lparr>pbQueue := pbQueue p' @ [x]\<rparr>)"

definition signal :: "publisher \<Rightarrow> publisher" where
  "signal p = p\<lparr>pbWake := True\<rparr>"

definition enqueue :: "string \<Rightarrow> any \<Rightarrow> publisher \<Rightarrow> publisher" where
  "enqueue topic v p = signal (push (topic, v) p)"

definition next_update :: "publisher \<Rightarrow> (string \<times> any) option \<times> publisher" where
  "next_update p =
     (case pbQueue p of
        [] \<Rightarrow> (None, p\<lparr>pbQueue := [], pbDropped := 0\<rparr>)
      | q # qs \<Rightarrow> (Some q, p\<lparr>pbQueue := qs\<rparr>))"

lemma pbQueue_push:
  "pbQueue (push x p) =
     (if length (pbQueue p) < maxQueuedPublishes then pbQueue p @ [x] else tl (pbQueue p) @ [x])"
  by (simp add: push_def Let_def)

interpretation device_queue: bounded_fifo pbQueue push next_update maxQueuedPublishes
  by unfold_locales (simp_all add: maxQueuedPublishes_def pbQueue_push next_update_def)

lemma pbQueue_signal [simp]: "pbQueue (signal p) = pbQueue p"
  by (simp add: signal_def)

section \<open>The goroutines\<close>

datatype drain_phase = Waiting_wake | Checking | Publishing "string \<times> any" | Stopped

text \<open>
  \<open>psSignals\<close> counts the callers of \<open>enqueue\<close> between the lock and the wake-up; \<open>psOut\<close> is what the drain
  goroutine has published. \<open>psIn\<close> (everything handed to \<open>enqueue\<close>) and \<open>psLost\<close> (how many were
  dropped) are kept for the statements only.
\<close>

record pub_sys =
  psPub :: publisher
  psPhase :: drain_phase
  psSignals :: nat
  psCancelled :: bool
  psOut :: "(string \<times> any) list"
  psIn :: "(string \<times> any) list"
  psLost :: nat

definition pub_start :: "pub_sys \<Rightarrow> bool" where
  "pub_start s \<longleftrightarrow> s = \<lparr>psPub = newDevicePublisher, psPhase = Waiting_wake, psSignals = 0, psCancelled = False,
     psOut = [], psIn = [], psLost = 0\<rparr>"

inductive pub_step :: "pub_sys \<Rightarrow> pub_sys \<Rightarrow> bool" where
  enqueue_lock:
    "pub_step s (s\<lparr>psPub := push x (psPub s), psSignals := Suc (psSignals s), psIn := psIn s @ [x],
       psLost := (if length (pbQueue (psPub s)) < maxQueuedPublishes then psLost s else Suc (psLost s))\<rparr>)"
| enqueue_wake: "0 < psSignals s \<Longrightarrow>
    pub_step s (s\<lparr>psPub := signal (psPub s), psSignals := psSignals s - 1\<rparr>)"
| cancel: "pub_step s (s\<lparr>psCancelled := True\<rparr>)"
| stop_waiting: "psPhase s = Waiting_wake \<Longrightarrow> psCancelled s \<Longrightarrow> pub_step s (s\<lparr>psPhase := Stopped\<rparr>)"
| wake: "psPhase s = Waiting_wake \<Longrightarrow> pbWake (psPub s) \<Longrightarrow>
    pub_step s (s\<lparr>psPub := (psPub s)\<lparr>pbWake := False\<rparr>, psPhase := Checking\<rparr>)"
| stop_checking: "psPhase s = Checking \<Longrightarrow> psCancelled s \<Longrightarrow> pub_step s (s\<lparr>psPhase := Stopped\<rparr>)"
| take_next: "psPhase s = Checking \<Longrightarrow> \<not> psCancelled s \<Longrightarrow> next_update (psPub s) = (Some q, p') \<Longrightarrow>
    pub_step s (s\<lparr>psPub := p', psPhase := Publishing q\<rparr>)"
| take_none: "psPhase s = Checking \<Longrightarrow> \<not> psCancelled s \<Longrightarrow> next_update (psPub s) = (None, p') \<Longrightarrow>
    pub_step s (s\<lparr>psPub := p', psPhase := Waiting_wake\<rparr>)"
| publish_done: "psPhase s = Publishing q \<Longrightarrow> pub_step s (s\<lparr>psOut := psOut s @ [q], psPhase := Checking\<rparr>)"

section \<open>Invariants\<close>

definition in_hand :: "pub_sys \<Rightarrow> (string \<times> any) list" where
  "in_hand s = (case psPhase s of Publishing q \<Rightarrow> [q] | _ \<Rightarrow> [])"

lemma in_hand_simps [simp]:
  "in_hand (s\<lparr>psPub := p\<rparr>) = in_hand s" "in_hand (s\<lparr>psSignals := n\<rparr>) = in_hand s"
  "in_hand (s\<lparr>psCancelled := c\<rparr>) = in_hand s" "in_hand (s\<lparr>psOut := xs\<rparr>) = in_hand s"
  "in_hand (s\<lparr>psIn := xs\<rparr>) = in_hand s" "in_hand (s\<lparr>psLost := n\<rparr>) = in_hand s"
  "in_hand (s\<lparr>psPhase := ph\<rparr>) = (case ph of Publishing q \<Rightarrow> [q] | _ \<Rightarrow> [])"
  by (simp_all add: in_hand_def)

definition pub_inv :: "pub_sys \<Rightarrow> bool" where
  "pub_inv s \<longleftrightarrow>
     length (pbQueue (psPub s)) \<le> maxQueuedPublishes
   \<and> subseq (psOut s @ in_hand s @ pbQueue (psPub s)) (psIn s)
   \<and> length (psIn s) = length (psOut s @ in_hand s @ pbQueue (psPub s)) + psLost s
   \<and> (pbQueue (psPub s) \<noteq> [] \<and> psPhase s = Waiting_wake \<longrightarrow> pbWake (psPub s) \<or> 0 < psSignals s)
   \<and> (psPhase s = Stopped \<longrightarrow> psCancelled s)"

lemma next_update_Some: "next_update p = (Some q, p') \<Longrightarrow> pbQueue p = q # pbQueue p' \<and> pbWake p' = pbWake p"
  by (auto simp: next_update_def split: list.splits)

lemma next_update_None: "next_update p = (None, p') \<Longrightarrow> pbQueue p = [] \<and> pbQueue p' = []"
  by (auto simp: next_update_def split: list.splits)

lemma subseq_drop_mid: "subseq (xs @ ys @ x # zs) ws \<Longrightarrow> subseq (xs @ ys @ zs @ [y]) (ws @ [y])"
proof -
  assume "subseq (xs @ ys @ x # zs) ws"
  moreover have "subseq zs (x # zs)" by (rule list_emb_Cons) simp
  then have "subseq (xs @ ys @ zs) (xs @ ys @ x # zs)"
    using list_emb_append_mono [OF subseq_order.refl [of "xs @ ys"]] by simp
  ultimately have "subseq (xs @ ys @ zs) ws" by (rule subseq_order.order_trans [rotated])
  then show ?thesis using list_emb_append_mono [of "(=)" "xs @ ys @ zs" ws "[y]" "[y]"] by simp
qed

lemma pub_inv_push:
  assumes "pub_inv s"
  shows "pub_inv (s\<lparr>psPub := push x (psPub s), psSignals := Suc (psSignals s), psIn := psIn s @ [x],
       psLost := (if length (pbQueue (psPub s)) < maxQueuedPublishes then psLost s else Suc (psLost s))\<rparr>)"
    (is "pub_inv ?t")
proof -
  have b: "length (pbQueue (psPub s)) \<le> maxQueuedPublishes" and st: "psPhase s = Stopped \<longrightarrow> psCancelled s"
    and sub: "subseq (psOut s @ in_hand s @ pbQueue (psPub s)) (psIn s)"
    and len: "length (psIn s) = length (psOut s @ in_hand s @ pbQueue (psPub s)) + psLost s"
    using assms by (simp_all add: pub_inv_def)
  show ?thesis
  proof (cases "length (pbQueue (psPub s)) < maxQueuedPublishes")
    case True
    have "subseq (psOut s @ in_hand s @ pbQueue (psPub s) @ [x]) (psIn s @ [x])"
      using list_emb_append_mono [OF sub, of "[x]" "[x]"] by simp
    with True len st show ?thesis by (simp add: pub_inv_def pbQueue_push)
  next
    case False
    then obtain a as where as: "pbQueue (psPub s) = a # as"
      by (cases "pbQueue (psPub s)") (simp_all add: maxQueuedPublishes_def)
    have q: "pbQueue (push x (psPub s)) = as @ [x]" using False by (simp add: pbQueue_push as)
    show ?thesis
      unfolding pub_inv_def
    proof (intro conjI)
      show "length (pbQueue (psPub ?t)) \<le> maxQueuedPublishes" using device_queue.push_bounded [OF b] by simp
      have "subseq (psOut s @ in_hand s @ a # as) (psIn s)" using sub as by metis
      from subseq_drop_mid [OF this] show "subseq (psOut ?t @ in_hand ?t @ pbQueue (psPub ?t)) (psIn ?t)"
        by (simp add: q)
      show "length (psIn ?t) = length (psOut ?t @ in_hand ?t @ pbQueue (psPub ?t)) + psLost ?t"
        using False len by (simp add: q as)
    qed (use st in simp_all)
  qed
qed

lemma pub_inv_step: "pub_step s t \<Longrightarrow> pub_inv s \<Longrightarrow> pub_inv t"
proof (induction rule: pub_step.induct)
  case (enqueue_lock s x)
  then show ?case by (rule pub_inv_push)
next
  case (enqueue_wake s)
  then show ?case by (simp add: pub_inv_def in_hand_def signal_def)
next
  case (take_next s q p')
  then show ?case using next_update_Some [OF take_next(3)] by (simp add: pub_inv_def in_hand_def)
next
  case (take_none s p')
  then show ?case using next_update_None [OF take_none(3)] by (simp add: pub_inv_def in_hand_def)
qed (simp_all add: pub_inv_def in_hand_def)

lemma pub_inv_start: "pub_start s \<Longrightarrow> pub_inv s"
  by (simp add: pub_start_def pub_inv_def in_hand_def newDevicePublisher_def)

interpretation pub_steps: step_invariant pub_start pub_step pub_inv
  by (unfold_locales, erule pub_inv_start, erule (1) pub_inv_step)

section \<open>Draining\<close>

lemma drain_checking:
  assumes "psPhase s = Checking" and "\<not> psCancelled s"
  shows "\<exists>t. pub_step\<^sup>*\<^sup>* s t \<and> psOut t = psOut s @ pbQueue (psPub s) \<and> pbQueue (psPub t) = []"
  using assms
proof (induction "pbQueue (psPub s)" arbitrary: s)
  case Nil
  then show ?case by (intro exI [of _ s]) simp
next
  case (Cons q qs)
  define s1 where "s1 = s\<lparr>psPub := (psPub s)\<lparr>pbQueue := qs\<rparr>, psPhase := Publishing q\<rparr>"
  define s2 where "s2 = s1\<lparr>psOut := psOut s1 @ [q], psPhase := Checking\<rparr>"
  have "next_update (psPub s) = (Some q, (psPub s)\<lparr>pbQueue := qs\<rparr>)"
    using Cons.hyps(2) [symmetric] by (simp add: next_update_def)
  from take_next [OF Cons.prems this] have 1: "pub_step s s1" by (simp add: s1_def)
  have 2: "pub_step s1 s2" unfolding s2_def by (rule publish_done) (simp add: s1_def)
  have "psPhase s2 = Checking" "\<not> psCancelled s2" "qs = pbQueue (psPub s2)"
    using Cons.prems by (simp_all add: s1_def s2_def)
  from Cons.hyps(1) [OF this(3,1,2)] obtain t where t: "pub_step\<^sup>*\<^sup>* s2 t"
    "psOut t = psOut s2 @ pbQueue (psPub s2)" "pbQueue (psPub t) = []" by blast
  then have "psOut t = psOut s @ pbQueue (psPub s)"
    using Cons.hyps(2) [symmetric] by (simp add: s1_def s2_def)
  with 1 2 t show ?case by (meson converse_rtranclp_into_rtranclp)
qed

lemma reach_checking:
  assumes "pub_inv s" and "\<not> psCancelled s" and "pbQueue (psPub s) \<noteq> [] \<or> psPhase s \<noteq> Waiting_wake"
  shows "\<exists>t. pub_step\<^sup>*\<^sup>* s t \<and> psPhase t = Checking \<and> \<not> psCancelled t
     \<and> psOut t = psOut s @ in_hand s \<and> pbQueue (psPub t) = pbQueue (psPub s)"
proof (cases "psPhase s")
  case (Publishing q)
  define t where "t = s\<lparr>psOut := psOut s @ [q], psPhase := Checking\<rparr>"
  have "pub_step s t" unfolding t_def using Publishing by (rule publish_done)
  with Publishing assms(2) show ?thesis
    by (intro exI [of _ t]) (simp add: t_def in_hand_def r_into_rtranclp)
next
  case Waiting_wake
  with assms(1,3) have w: "pbWake (psPub s) \<or> 0 < psSignals s" by (simp add: pub_inv_def)
  define s1 where "s1 = (if pbWake (psPub s) then s else s\<lparr>psPub := signal (psPub s), psSignals := psSignals s - 1\<rparr>)"
  define t where "t = s1\<lparr>psPub := (psPub s1)\<lparr>pbWake := False\<rparr>, psPhase := Checking\<rparr>"
  have "pub_step\<^sup>*\<^sup>* s s1" unfolding s1_def using w enqueue_wake by auto
  moreover have "pub_step s1 t" unfolding t_def
    by (rule wake) (simp_all add: s1_def Waiting_wake signal_def)
  ultimately have "pub_step\<^sup>*\<^sup>* s t" by simp
  with Waiting_wake assms(2) show ?thesis
    by (intro exI [of _ t]) (simp add: t_def s1_def in_hand_def)
next
  case Stopped
  with assms(1,2) show ?thesis by (simp add: pub_inv_def)
next
  case Checking
  with assms(2) show ?thesis by (intro exI [of _ s]) (simp add: in_hand_def)
qed

section \<open>Properties\<close>

text \<open>The abstract queue: a list that keeps its newest entries.\<close>

datatype queue_op = Enq string any | Deq

fun spec_run :: "queue_op list \<Rightarrow> (string \<times> any) list \<Rightarrow> (string \<times> any) option list \<times> (string \<times> any) list" where
  "spec_run [] xs = ([], xs)"
| "spec_run (Enq t v # ops) xs = (let ys = xs @ [(t, v)] in spec_run ops (drop (length ys - maxQueuedPublishes) ys))"
| "spec_run (Deq # ops) xs =
     (let (os, ys) = spec_run ops (tl xs) in ((if xs = [] then None else Some (hd xs)) # os, ys))"

fun queue_run :: "queue_op list \<Rightarrow> publisher \<Rightarrow> (string \<times> any) option list \<times> publisher" where
  "queue_run [] p = ([], p)"
| "queue_run (Enq t v # ops) p = queue_run ops (enqueue t v p)"
| "queue_run (Deq # ops) p =
     (let (q, p') = next_update p; (os, p'') = queue_run ops p' in (q # os, p''))"

lemma queue_run_refines:
  assumes "length (pbQueue p) \<le> maxQueuedPublishes"
  shows "fst (queue_run ops p) = fst (spec_run ops (pbQueue p))
     \<and> pbQueue (snd (queue_run ops p)) = snd (spec_run ops (pbQueue p))"
  using assms
proof (induction ops arbitrary: p)
  case Nil
  then show ?case by simp
next
  case (Cons op ops)
  show ?case
  proof (cases op)
    case (Enq t v)
    have e: "pbQueue (enqueue t v p) =
        drop (length (pbQueue p @ [(t, v)]) - maxQueuedPublishes) (pbQueue p @ [(t, v)])"
      using device_queue.push_newest [OF Cons.prems, of "[(t, v)]"] by (simp add: enqueue_def)
    have "length (pbQueue (enqueue t v p)) \<le> maxQueuedPublishes"
      using device_queue.push_bounded [OF Cons.prems] by (simp add: enqueue_def)
    from Cons.IH [OF this] show ?thesis by (simp add: Enq e Let_def)
  next
    case Deq
    obtain q p' where n: "next_update p = (q, p')" by (cases "next_update p")
    have "length (pbQueue p') \<le> maxQueuedPublishes"
      using device_queue.pop_bounded [OF Cons.prems] n by simp
    from Cons.IH [OF this] show ?thesis
      using n by (auto simp: Deq next_update_def split: prod.splits list.splits)
  qed
qed

text \<open>
  The publish queue refines a list that keeps the newest 1024 entries: on every sequence of calls the
  code's queue returns what that list does, and holds what it holds.
\<close>

theorem publisher_refines:
  "fst (queue_run ops newDevicePublisher) = fst (spec_run ops [])
   \<and> pbQueue (snd (queue_run ops newDevicePublisher)) = snd (spec_run ops [])"
  using queue_run_refines [of newDevicePublisher ops] by (simp add: newDevicePublisher_def)

text \<open>
  C17. Order and accounting: under every interleaving of the appliance, the connect hook and the drain
  goroutine, what was published is what was enqueued, in that order, without the dropped entries; nothing
  is published twice or lost without being counted, and the backlog stays within its cap.
\<close>

theorem published_in_order:
  assumes "pub_start s0" and "pub_step\<^sup>*\<^sup>* s0 s"
  shows "subseq (psOut s @ in_hand s @ pbQueue (psPub s)) (psIn s)
     \<and> length (psIn s) = length (psOut s @ in_hand s @ pbQueue (psPub s)) + psLost s
     \<and> length (pbQueue (psPub s)) \<le> maxQueuedPublishes"
  using pub_steps.reachable_inv [OF assms(2,1)] by (simp add: pub_inv_def)

text \<open>
  C18. No wake-up is lost: as long as the worker is not cancelled, whatever has been enqueued can still be
  published in order without another update having to arrive.
\<close>

theorem backlog_drains:
  assumes "pub_start s0" and "pub_step\<^sup>*\<^sup>* s0 s" and "\<not> psCancelled s"
  shows "\<exists>t. pub_step\<^sup>*\<^sup>* s t \<and> psOut t = psOut s @ in_hand s @ pbQueue (psPub s) \<and> pbQueue (psPub t) = []"
proof (cases "pbQueue (psPub s) = [] \<and> psPhase s = Waiting_wake")
  case True
  then show ?thesis by (intro exI [of _ s]) (simp add: in_hand_def)
next
  case False
  with reach_checking [OF pub_steps.reachable_inv [OF assms(2,1)] assms(3)]
  obtain t where t: "pub_step\<^sup>*\<^sup>* s t" "psPhase t = Checking" "\<not> psCancelled t"
    "psOut t = psOut s @ in_hand s" "pbQueue (psPub t) = pbQueue (psPub s)" by blast
  from drain_checking [OF t(2,3)] obtain t' where "pub_step\<^sup>*\<^sup>* t t'"
    "psOut t' = psOut t @ pbQueue (psPub t)" "pbQueue (psPub t') = []" by blast
  with t show ?thesis by (intro exI [of _ t']) (simp add: rtranclp_trans [OF t(1)])
qed

definition pub_begin :: pub_sys where
  "pub_begin = \<lparr>psPub = newDevicePublisher, psPhase = Waiting_wake, psSignals = 0, psCancelled = False,
     psOut = [], psIn = [], psLost = 0\<rparr>"

lemma pub_begin_start: "pub_start pub_begin"
  by (simp add: pub_start_def pub_begin_def)

text \<open>A run: one update is queued, its wake-up still to come.\<close>

definition pub_queued :: pub_sys where
  "pub_queued = pub_begin\<lparr>psPub := push (''t'', VBool True) newDevicePublisher, psSignals := 1, psIn := [(''t'', VBool True)]\<rparr>"

lemma pub_queued_reached: "pub_step\<^sup>*\<^sup>* pub_begin pub_queued"
  using enqueue_lock [of pub_begin "(''t'', VBool True)"]
  by (intro r_into_rtranclp) (simp add: pub_queued_def pub_begin_def newDevicePublisher_def maxQueuedPublishes_def)

lemma published_in_order_witness:
  "subseq (psOut pub_queued @ in_hand pub_queued @ pbQueue (psPub pub_queued)) (psIn pub_queued)
     \<and> length (psIn pub_queued) = length (psOut pub_queued @ in_hand pub_queued @ pbQueue (psPub pub_queued)) + psLost pub_queued
     \<and> length (pbQueue (psPub pub_queued)) \<le> maxQueuedPublishes"
  by (rule published_in_order [OF pub_begin_start pub_queued_reached])

lemma backlog_drains_witness:
  "\<exists>t. pub_step\<^sup>*\<^sup>* pub_queued t \<and> psOut t = [(''t'', VBool True)] \<and> pbQueue (psPub t) = []"
  using backlog_drains [OF pub_begin_start pub_queued_reached]
  by (simp add: pub_queued_def pub_begin_def newDevicePublisher_def push_def maxQueuedPublishes_def in_hand_def)

end
