(* ===== verification/Enum_Labels.thy ===== *)
theory Enum_Labels
  imports Layout
begin

text \<open>
  \<^verbatim>\<open>internal/i18n/enums.go\<close>: localized labels of enumeration members and the way back from a label to a
  member.

  The generated catalogue (\<^verbatim>\<open>catalog_gen.go\<close>, data only) is the argument \<open>cat\<close>: its entries in the order in
  which the runtime visits the map when it builds the reverse table at start, which Go leaves open.
  \<open>u\<close> is the case table of \<^verbatim>\<open>strings.ToLower\<close> outside ASCII.
\<close>

type_synonym catalogue = "(string \<times> string) list"

text \<open>Only ASCII letters and digits survive, so the loop over runes is a filter on bytes.\<close>

definition norm_name :: "(string \<Rightarrow> string) \<Rightarrow> string \<Rightarrow> string" where
  "norm_name u s = filter slug_char (to_lower u s)"

fun enumENGen :: "(string \<Rightarrow> string) \<Rightarrow> catalogue \<Rightarrow> (string \<rightharpoonup> string) \<Rightarrow> (string \<rightharpoonup> string)" where
  "enumENGen u [] m = m"
| "enumENGen u ((en, de) # es) m = enumENGen u es (m(norm_name u de \<mapsto> en))"

definition isNumeric :: "string \<Rightarrow> bool" where
  "isNumeric s \<longleftrightarrow> s \<noteq> [] \<and> list_all is_digit s"

definition EnumLabel :: "(string \<Rightarrow> string) \<Rightarrow> catalogue \<Rightarrow> string \<Rightarrow> string \<Rightarrow> string" where
  "EnumLabel u cat name lang =
     (if lang = ''de'' \<and> \<not> isNumeric name
      then (case map_of cat (norm_name u name) of Some de \<Rightarrow> de | None \<Rightarrow> name) else name)"

definition EnumValue :: "(string \<Rightarrow> string) \<Rightarrow> catalogue \<Rightarrow> string \<Rightarrow> string \<Rightarrow> string" where
  "EnumValue u cat label lang =
     (if lang = ''de'' \<and> \<not> isNumeric label
      then (case enumENGen u cat Map.empty (norm_name u label) of Some en \<Rightarrow> en | None \<Rightarrow> label) else label)"

lemma enumENGen_lookup:
  "enumENGen u cat m k = (case find (\<lambda>(en, de). norm_name u de = k) (rev cat) of
      Some (en, de) \<Rightarrow> Some en | None \<Rightarrow> m k)"
proof (induction cat arbitrary: m rule: rev_induct)
  case Nil
  then show ?case by simp
next
  case (snoc e es)
  have app: "enumENGen u (xs @ ys) m = enumENGen u ys (enumENGen u xs m)" for xs ys m
    by (induction xs arbitrary: m) auto
  from snoc show ?case by (cases e) (simp add: app)
qed

text \<open>An entry whose label no other entry shares, up to the normal form.\<close>

definition unambiguous :: "(string \<Rightarrow> string) \<Rightarrow> catalogue \<Rightarrow> string \<Rightarrow> string \<Rightarrow> bool" where
  "unambiguous u cat en de \<longleftrightarrow> (en, de) \<in> set cat
     \<and> list_all (\<lambda>(en', de'). norm_name u de' = norm_name u de \<longrightarrow> en' = en) cat"

lemma enumENGen_unambiguous:
  assumes "unambiguous u cat en de"
  shows "enumENGen u cat m (norm_name u de) = Some en"
proof -
  have "find (\<lambda>(en', de'). norm_name u de' = norm_name u de) (rev cat) \<noteq> None"
    using assms by (auto simp: unambiguous_def find_None_iff)
  then obtain en' de' where f: "find (\<lambda>(en', de'). norm_name u de' = norm_name u de) (rev cat) = Some (en', de')"
    by auto
  then have "(en', de') \<in> set cat \<and> norm_name u de' = norm_name u de"
    by (auto simp: find_Some_iff) (metis nth_mem set_rev length_rev)
  with assms have "en' = en" by (auto simp: unambiguous_def list_all_iff)
  with f show ?thesis by (simp add: enumENGen_lookup)
qed

section \<open>Properties\<close>

text \<open>
  The label shown for a member leads back to it: a catalogued name whose German label is its own comes
  back, from its label, as the catalogue's name for it, whatever the order of the map.
\<close>

theorem label_roundtrip:
  assumes "distinct (List.map fst cat)" and "unambiguous u cat (norm_name u name) de"
    and "\<not> isNumeric name" and "\<not> isNumeric de"
  shows "EnumLabel u cat name ''de'' = de \<and> EnumValue u cat (EnumLabel u cat name ''de'') ''de'' = norm_name u name"
proof -
  have "map_of cat (norm_name u name) = Some de"
    using assms(1,2) by (simp add: unambiguous_def)
  then have "EnumLabel u cat name ''de'' = de" using assms(3) by (simp add: EnumLabel_def)
  with assms(4) enumENGen_unambiguous [OF assms(2)] show ?thesis by (simp add: EnumValue_def)
qed

text \<open>Entries of the generated catalogue.\<close>

definition catalogue_part :: catalogue where
  "catalogue_part = [(''off'', ''Aus''), (''closed'', ''Geschlossen''), (''uloff'', ''Aus'')]"

lemma label_roundtrip_witness:
  "EnumLabel id catalogue_part ''Closed'' ''de'' = ''Geschlossen''
   \<and> EnumValue id catalogue_part (EnumLabel id catalogue_part ''Closed'' ''de'') ''de'' = norm_name id ''Closed''"
proof (rule label_roundtrip)
  show "unambiguous id catalogue_part (norm_name id ''Closed'') ''Geschlossen''" by code_simp
qed (code_simp, code_simp, code_simp)

text \<open>
  Some labels do not lead back: two catalogue entries share the label \<^verbatim>\<open>Aus\<close>, so which of the two
  members a written \<^verbatim>\<open>Aus\<close> means depends on the order in which the runtime visits the map at start.
\<close>

theorem label_depends_on_order:
  "EnumValue u catalogue_part ''Aus'' ''de'' = ''uloff'' \<and> EnumValue u (rev catalogue_part) ''Aus'' ''de'' = ''off''"
proof -
  have asc: "list_all is_ascii ''Aus''" "list_all is_ascii ''Geschlossen''" by code_simp+
  have n: "norm_name u ''Aus'' = ''aus''" "norm_name u ''Geschlossen'' = ''geschlossen''"
    unfolding norm_name_def to_lower_ascii [OF asc(1)] to_lower_ascii [OF asc(2)] by code_simp+
  show ?thesis by (simp add: EnumValue_def catalogue_part_def n isNumeric_def is_digit_def)
qed

end
