(* ===== verification/Command.thy ===== *)
theory Command
  imports Appliance Enum_Labels
begin

text \<open>
  \<^verbatim>\<open>internal/bridge/command.go\<close> and \<^verbatim>\<open>dispatch.go\<close>: what a \<^verbatim>\<open>set\<close> message and a write of the web API do to
  an appliance.

  The normalised payload (\<^verbatim>\<open>publisher.SetValue\<close> of go-hamqtt) is the record \<open>set_value\<close> with its two
  conversions as functions; decoding JSON is \<open>ceJSON\<close>. What happens while a handler sleeps between two
  attempts (the appliance reports, the context ends) is \<open>ceTurn\<close>: \<open>None\<close> is the end of the context.
  A handler ends with at most one warning, its \<open>reject\<close>, or none.
\<close>

record set_value =
  svStructured :: bool
  svText :: string
  svParams :: string
  svBool :: "string + bool"
  svNumber :: "f64 \<Rightarrow> f64 \<Rightarrow> f64 \<Rightarrow> string + f64"

type_synonym world = "appliance \<times> session \<times> net"

record command_env =
  ceTopics :: topic_lib
  ceLayout :: device_layout
  ceCat :: catalogue
  ceLanguage :: string
  ceLower :: "string \<Rightarrow> string"
  ceFmt :: "any \<Rightarrow> string"
  ceJSON :: "string \<Rightarrow> any option"
  ceType :: string
  ceRetries :: nat
  ceTurn :: "nat \<Rightarrow> world \<Rightarrow> world option"

datatype value_error = NotStructured | BadJSON | NotConvertible string

datatype call = StopCall | StartCall | SelectCall

datatype reject =
    UnknownFeature
  | ProgramTakesPlainValue
  | BadSetValue value_error
  | WriteFailed int request_error
  | WriteNotWritable int string
  | NoSelectedProgram
  | NoProgramSelected
  | UnknownProgram string
  | CallFailed call request_error

section \<open>Small decisions\<close>

definition isProgramKind :: "entry_kind \<Rightarrow> bool" where
  "isProgramKind k \<longleftrightarrow> k = KindActiveProgram \<or> k = KindSelectedProgram"

definition isStopValue :: "(string \<Rightarrow> string) \<Rightarrow> string \<Rightarrow> bool" where
  "isStopValue u v \<longleftrightarrow> to_lower u v \<in> {''off'', ''stop'', ''0'', '''', ''false''}"

definition isWriteWindowError :: "request_error \<Rightarrow> bool" where
  "isWriteWindowError e = (case e of SessionError (CodeResponse c r) \<Rightarrow> c = 541 | _ \<Rightarrow> False)"

definition progLeaf :: "string \<Rightarrow> string" where
  "progLeaf name = (case cut_last (CHR ''.'') name of Some (_, after) \<Rightarrow> after | None \<Rightarrow> name)"

definition progNorm :: "(string \<Rightarrow> string) \<Rightarrow> string \<Rightarrow> string" where
  "progNorm u s = filter slug_char (to_lower u s)"

definition shouldDispatch :: "topic_lib \<Rightarrow> device_layout \<Rightarrow> string \<Rightarrow> bool \<Rightarrow> bool" where
  "shouldDispatch T d topic retained \<longleftrightarrow> \<not> retained \<and> Relative T d topic \<noteq> None"

section \<open>Values\<close>

definition number_bounds :: "protocol_type \<Rightarrow> bounds \<Rightarrow> f64 \<times> f64 \<times> f64" where
  "number_bounds pt bd =
     (let lo = (if bdHasMin bd then bdMin bd else NegInf);
          hi = (if bdHasMax bd then bdMax bd else PosInf);
          pos = (case bdStep bd of Fin q \<Rightarrow> 0 < q | PosInf \<Rightarrow> True | _ \<Rightarrow> False);
          st = (if bdHasStep bd \<and> pos then bdStep bd
                else if pt = ProtocolInteger then Fin 1 else Fin 0)
      in (lo, hi, st))"

definition writeValue :: "command_env \<Rightarrow> entity \<Rightarrow> set_value \<Rightarrow> value_error + any" where
  "writeValue env e v =
     (if svStructured v then
        (if eProtocolType (enDesc e) \<noteq> ProtocolObject then Inl NotStructured
         else (case ceJSON env (svParams v) of None \<Rightarrow> Inl BadJSON | Some body \<Rightarrow> Inr body))
      else if IsEnum (enDesc e) then Inr (VStr (EnumValue (ceLower env) (ceCat env) (svText v) (ceLanguage env)))
      else (case eProtocolType (enDesc e) of
          ProtocolBoolean \<Rightarrow> map_sum NotConvertible VBool (svBool v)
        | ProtocolInteger \<Rightarrow> (let (lo, hi, st) = number_bounds ProtocolInteger (Bounds e) in
            map_sum NotConvertible VFloat (svNumber v lo hi st))
        | ProtocolFloat \<Rightarrow> (let (lo, hi, st) = number_bounds ProtocolFloat (Bounds e) in
            map_sum NotConvertible VFloat (svNumber v lo hi st))
        | _ \<Rightarrow> Inr (VStr (svText v))))"

section \<open>Finding what is meant\<close>

text \<open>The position of the entity a relative path names (the code's pointer to it).\<close>

definition resolveEntity :: "appliance \<Rightarrow> string \<Rightarrow> nat option" where
  "resolveEntity a rel =
     (let (name, uid, byUID) = FeatureName rel in
      if byUID then apByUID a uid
      else if name = [] then None
      else apByName a name)"

definition resolveProgramUID :: "command_env \<Rightarrow> appliance \<Rightarrow> string \<Rightarrow> int option" where
  "resolveProgramUID env a name =
     (case EntityByName a name of
        Some e \<Rightarrow> Some (enUID e)
      | None \<Rightarrow>
          (case atoi name of
             Some uid \<Rightarrow> Some uid
           | None \<Rightarrow>
               (let key = progNorm (ceLower env) (EnumValue (ceLower env) (ceCat env) name (ceLanguage env)) in
                if key = [] then None
                else map_option enUID (find (\<lambda>e. eKind (enDesc e) = KindProgram
                    \<and> progNorm (ceLower env) (progLeaf (enName e)) = key) (sorted_entities a)))))"

definition startStrategy :: "command_env \<Rightarrow> appliance \<Rightarrow> start_strategy" where
  "startStrategy env a =
     (if equal_fold (ceType env) ''Hob'' \<or> equal_fold (ceType env) ''Cooktop'' then StartHob
      else if EntityByName a ''BSH.Common.Command.StartProgram'' \<noteq> None then StartCommand
      else StartStandard)"

section \<open>Program calls\<close>

definition runProgramCall ::
  "call \<Rightarrow> (session \<times> net \<Rightarrow> (request_error + message) \<times> session \<times> net) \<Rightarrow> world \<Rightarrow> reject option \<times> world" where
  "runProgramCall c fn = (\<lambda>(a, sw). case fn sw of
      (Inl e, sw') \<Rightarrow> (Some (CallFailed c e), a, sw')
    | (Inr _, sw') \<Rightarrow> (None, a, sw'))"

definition stop_call :: "session \<times> net \<Rightarrow> (request_error + message) \<times> session \<times> net" where
  "stop_call sw = (let (r, sw') = StopActiveProgram sw in (map_sum SessionError id r, sw'))"

definition select_call :: "int \<Rightarrow> session \<times> net \<Rightarrow> (request_error + message) \<times> session \<times> net" where
  "select_call uid sw = (let (r, sw') = SelectProgram uid None sw in (map_sum SessionError id r, sw'))"

definition start_program :: "command_env \<Rightarrow> int \<Rightarrow> string \<Rightarrow> world \<Rightarrow> reject option \<times> world" where
  "start_program env programUID v w =
     (if isStopValue (ceLower env) v then runProgramCall StopCall stop_call w
      else runProgramCall StartCall (StartProgram (fst w) programUID None (startStrategy env (fst w))) w)"

definition startNamedProgram :: "command_env \<Rightarrow> string \<Rightarrow> world \<Rightarrow> reject option \<times> world" where
  "startNamedProgram env name w =
     (case resolveProgramUID env (fst w) name of
        None \<Rightarrow> (Some (UnknownProgram name), w)
      | Some uid \<Rightarrow> start_program env uid name w)"

definition selectNamedProgram :: "command_env \<Rightarrow> string \<Rightarrow> world \<Rightarrow> reject option \<times> world" where
  "selectNamedProgram env name w =
     (case resolveProgramUID env (fst w) name of
        None \<Rightarrow> (Some (UnknownProgram name), w)
      | Some uid \<Rightarrow> runProgramCall SelectCall (select_call uid) w)"

definition startSelectedProgram :: "command_env \<Rightarrow> world \<Rightarrow> reject option \<times> world" where
  "startSelectedProgram env w =
     (case EntityByName (fst w) ''BSH.Common.Root.SelectedProgram'' of
        None \<Rightarrow> (Some NoSelectedProgram, w)
      | Some sp \<Rightarrow>
          (case Value sp of
             VStr sel \<Rightarrow>
               if sel = [] then (Some NoProgramSelected, w)
               else (case resolveProgramUID env (fst w) sel of
                   None \<Rightarrow> (Some (UnknownProgram sel), w)
                 | Some uid \<Rightarrow> start_program env uid sel w)
           | _ \<Rightarrow> (Some NoProgramSelected, w)))"

text \<open>\<open>None\<close>: the path is no program control.\<close>

definition handleProgramControl :: "command_env \<Rightarrow> string \<Rightarrow> world \<Rightarrow> (reject option \<times> world) option" where
  "handleProgramControl env rel w =
     (if rel = ControlPath ControlStartProgram then Some (startSelectedProgram env w)
      else if rel = ControlPath ControlStopProgram then Some (runProgramCall StopCall stop_call w)
      else None)"

section \<open>Writes within the access window\<close>

text \<open>
  The loop of \<open>writeWithWindow\<close> for the entity at position \<open>i\<close>, from an attempt on. Every path that
  goes round is below the retry budget.
\<close>

function write_window :: "command_env \<Rightarrow> nat \<Rightarrow> nat \<Rightarrow> any \<Rightarrow> world \<Rightarrow> reject option \<times> world" where
  "write_window env attempt i v w =
     (let a = fst w; e = apEntities a ! i in
      if Writable e then
        (case WriteValue (ceLower env) (enUID e) v a (snd w) of
           (None, w') \<Rightarrow> (None, w')
         | (Some err, w') \<Rightarrow>
             if isWriteWindowError err \<and> attempt < ceRetries env then
               (case ceTurn env attempt w' of
                  None \<Rightarrow> (None, w')
                | Some w'' \<Rightarrow> write_window env (Suc attempt) i v w'')
             else (Some (WriteFailed (enUID e) err), w'))
      else if attempt < ceRetries env then
        (case ceTurn env attempt w of
           None \<Rightarrow> (None, w)
         | Some w'' \<Rightarrow> write_window env (Suc attempt) i v w'')
      else (Some (WriteNotWritable (enUID e) (enAccess e)), w))"
  by pat_completeness auto
termination by (relation "measure (\<lambda>(env, attempt, i, v, w). ceRetries env - attempt)") auto

declare write_window.simps [simp del]

definition writeWithWindow :: "command_env \<Rightarrow> nat \<Rightarrow> any \<Rightarrow> world \<Rightarrow> reject option \<times> world" where
  "writeWithWindow env i v w = write_window env 0 i v w"

section \<open>The handler\<close>

definition handleSet :: "command_env \<Rightarrow> string \<Rightarrow> set_value \<Rightarrow> world \<Rightarrow> reject option \<times> world" where
  "handleSet env topic val w =
     (case Relative (ceTopics env) (ceLayout env) topic of
        None \<Rightarrow> (None, w)
      | Some rel \<Rightarrow>
          (case handleProgramControl env rel w of
             Some r \<Rightarrow> r
           | None \<Rightarrow>
               (case resolveEntity (fst w) rel of
                  None \<Rightarrow> (Some UnknownFeature, w)
                | Some i \<Rightarrow>
                    (let e = apEntities (fst w) ! i; kind = eKind (enDesc e) in
                     if (isProgramKind kind \<or> kind = KindProgram) \<and> svStructured val
                     then (Some ProgramTakesPlainValue, w)
                     else if kind = KindProgram then start_program env (enUID e) (svText val) w
                     else if kind = KindSelectedProgram then selectNamedProgram env (svText val) w
                     else if kind = KindActiveProgram then
                       (if isStopValue (ceLower env) (svText val) then runProgramCall StopCall stop_call w
                        else startNamedProgram env (svText val) w)
                     else (case writeValue env e val of
                         Inl err \<Rightarrow> (Some (BadSetValue err), w)
                       | Inr v \<Rightarrow> writeWithWindow env i v w)))))"

definition onCommand :: "command_env \<Rightarrow> string \<Rightarrow> bool \<Rightarrow> set_value \<Rightarrow> world \<Rightarrow> reject option \<times> world" where
  "onCommand env topic retained val w =
     (if \<not> shouldDispatch (ceTopics env) (ceLayout env) topic retained then (None, w)
      else handleSet env topic val w)"

section \<open>The web API\<close>

datatype dispatch_error =
    DeviceNotFound
  | FeatureNotFound string
  | ProgramNotFound any
  | FeatureNotWritable string
  | RequestFailed request_error

definition api_call ::
  "(session \<times> net \<Rightarrow> (request_error + message) \<times> session \<times> net) \<Rightarrow> world \<Rightarrow> dispatch_error option \<times> world" where
  "api_call fn = (\<lambda>(a, sw). case fn sw of
      (Inl e, sw') \<Rightarrow> (Some (RequestFailed e), a, sw') | (Inr _, sw') \<Rightarrow> (None, a, sw'))"

text \<open>\<open>deviceByName\<close> is the list of the workers with their names; the write goes to the first of the name.\<close>

definition deviceByName :: "(string \<times> 'd) list \<Rightarrow> string \<Rightarrow> 'd option" where
  "deviceByName ds name = map_option snd (find (\<lambda>d. fst d = name) ds)"

definition dispatch_to :: "command_env \<Rightarrow> string \<Rightarrow> any \<Rightarrow> world \<Rightarrow> dispatch_error option \<times> world" where
  "dispatch_to env feature val w =
     (case apByName (fst w) feature of
        None \<Rightarrow> (Some (FeatureNotFound feature), w)
      | Some i \<Rightarrow>
          (let a = fst w; e = apEntities a ! i; kind = eKind (enDesc e); txt = sprint (ceFmt env) val in
           if kind = KindProgram then
             (if isStopValue (ceLower env) txt then api_call stop_call w
              else api_call (StartProgram a (enUID e) None (startStrategy env a)) w)
           else if kind = KindSelectedProgram then
             (case resolveProgramUID env a txt of
                None \<Rightarrow> (Some (ProgramNotFound val), w)
              | Some uid \<Rightarrow> api_call (select_call uid) w)
           else if kind = KindActiveProgram then
             (if isStopValue (ceLower env) txt then api_call stop_call w
              else (case resolveProgramUID env a txt of
                  None \<Rightarrow> (Some (ProgramNotFound val), w)
                | Some uid \<Rightarrow> api_call (StartProgram a uid None (startStrategy env a)) w))
           else if \<not> Writable e then (Some (FeatureNotWritable feature), w)
           else (case WriteValue (ceLower env) (enUID e) val a (snd w) of
               (None, w') \<Rightarrow> (None, w') | (Some err, w') \<Rightarrow> (Some (RequestFailed err), w'))))"

definition DeviceErrorCode :: "dispatch_error \<Rightarrow> int option" where
  "DeviceErrorCode err = (case err of RequestFailed (SessionError (CodeResponse c r)) \<Rightarrow> Some c | _ \<Rightarrow> None)"

section \<open>What reaches the wire\<close>

abbreviation world_net :: "'x \<times> session \<times> net \<Rightarrow> net" where
  "world_net w \<equiv> snd (snd w)"

text \<open>At most \<open>n\<close> messages, all of the kind \<open>P\<close>, were written between two states of the wire.\<close>

definition sent :: "nat \<Rightarrow> (message \<Rightarrow> bool) \<Rightarrow> net \<Rightarrow> net \<Rightarrow> bool" where
  "sent n P w w' \<longleftrightarrow> (\<exists>ms. wire w' = wire w @ ms \<and> length ms \<le> n \<and> list_all P ms)"

lemma sent_refl [simp]: "sent n P w w"
  by (simp add: sent_def)

lemma sent_trans: "sent m P w w1 \<Longrightarrow> sent n P w1 w2 \<Longrightarrow> sent (m + n) P w w2"
  by (force simp: sent_def)

lemma sent_mono: "sent m P w w' \<Longrightarrow> m \<le> n \<Longrightarrow> (\<And>x. P x \<Longrightarrow> Q x) \<Longrightarrow> sent n Q w w'"
  unfolding sent_def by (meson le_trans list.pred_mono_strong)

lemma sent_same_wire: "wire w1 = wire w \<Longrightarrow> sent n P w w' = sent n P w1 w'" "wire w1 = wire w' \<Longrightarrow> sent n P w w' = sent n P w w1"
  by (simp_all add: sent_def)

text \<open>What happens between two attempts sends nothing of ours and keeps the tables in step.\<close>

definition turn_ok :: "command_env \<Rightarrow> bool" where
  "turn_ok env \<longleftrightarrow> (\<forall>n w w'. ceTurn env n w = Some w' \<longrightarrow>
     wire (world_net w') = wire (world_net w) \<and> (appliance_ok (fst w) \<longrightarrow> appliance_ok (fst w')))"

definition is_write :: "message \<Rightarrow> bool" where
  "is_write m \<longleftrightarrow> Resource m = ''/ro/values'' \<and> Action m = ActionPost"

lemma WriteValue_keeps:
  assumes "appliance_ok a" and "WriteValue u uid v a sw = (err, a', sw')"
  shows "appliance_ok a'"
proof -
  have "a' = a \<or> (\<exists>i raw. a' = set_entity i ((apEntities a ! i)\<lparr>enValueShadow := raw\<rparr>) a)"
    using assms(2) by (auto simp: WriteValue_def Let_def split: option.splits if_splits sum.splits prod.splits)
  moreover have "appliance_ok (set_entity i ((apEntities a ! i)\<lparr>enValueShadow := raw\<rparr>) a)" for i raw
    by (rule set_entity_ok [OF assms(1)]) (simp_all add: enUID_def enName_def)
  ultimately show ?thesis using assms(1) by auto
qed

lemma WriteValue_sends:
  assumes "appliance_ok a" and "WriteValue u uid v a sw = (err, w')"
  shows "sent 1 is_write (snd sw) (world_net w')"
proof -
  obtain a' sw' where w': "w' = (a', sw')" by (cases w')
  show ?thesis using WriteValue_wire [OF assms(1) assms(2) [unfolded w']]
    unfolding sent_def w' by (elim ex_forward) (auto simp: list_all_iff is_write_def)
qed

lemma turn_okD:
  assumes "turn_ok env" and "ceTurn env n w = Some w'"
  shows "wire (world_net w') = wire (world_net w)" and "appliance_ok (fst w) \<Longrightarrow> appliance_ok (fst w')"
  using assms unfolding turn_ok_def by blast+

lemma write_window_wire:
  assumes "appliance_ok (fst w)" and "turn_ok env" and "attempt \<le> ceRetries env"
    and "write_window env attempt i v w = (r, w')"
  shows "sent (ceRetries env - attempt + 1) is_write (world_net w) (world_net w')"
  using assms
proof (induction env attempt i v w rule: write_window.induct)
  case (1 env attempt i v w)
  define e where "e = apEntities (fst w) ! i"
  note unf = write_window.simps [of env attempt i v w, unfolded Let_def, folded e_def]
  show ?case
  proof (cases "Writable e")
    case False
    show ?thesis
    proof (cases "\<exists>w2. attempt < ceRetries env \<and> ceTurn env attempt w = Some w2")
      case True
      then obtain w2 where again: "attempt < ceRetries env" and t: "ceTurn env attempt w = Some w2" by blast
      have step: "write_window env (Suc attempt) i v w2 = (r, w')" using "1.prems"(4) again t False unf by simp
      from again have le: "Suc attempt \<le> ceRetries env" by simp
      have ok: "appliance_ok (fst w2)" using turn_okD(2) [OF "1.prems"(2) t] "1.prems"(1) by simp
      have "sent (ceRetries env - Suc attempt + 1) is_write (world_net w2) (world_net w')"
        by (rule "1.IH"(2) [OF refl e_def False again t ok "1.prems"(2) le step])
      then show ?thesis
        using sent_same_wire(1) [OF turn_okD(1) [OF "1.prems"(2) t]] by (auto elim: sent_mono)
    next
      case long: False
      then have "w' = w" using "1.prems"(4) False unf by (auto split: option.splits if_splits)
      then show ?thesis by simp
    qed
  next
    case True
    obtain err w1 where wv: "WriteValue (ceLower env) (enUID e) v (fst w) (snd w) = (err, w1)"
      by (cases "WriteValue (ceLower env) (enUID e) v (fst w) (snd w)") auto
    have sd: "sent 1 is_write (world_net w) (world_net w1)" by (rule WriteValue_sends [OF "1.prems"(1) wv])
    show ?thesis
    proof (cases "\<exists>x w2. err = Some x \<and> isWriteWindowError x \<and> attempt < ceRetries env \<and> ceTurn env attempt w1 = Some w2")
      case False
      then have "w' = w1" using "1.prems"(4) True unf wv by (auto split: option.splits if_splits)
      with sd show ?thesis by (auto elim: sent_mono)
    next
      case again: True
      then obtain x w2 where x: "err = Some x" "isWriteWindowError x \<and> attempt < ceRetries env" "ceTurn env attempt w1 = Some w2"
        by blast
      obtain a1 sw1 where w1: "w1 = (a1, sw1)" by (cases w1)
      have ok: "appliance_ok (fst w2)"
        using turn_okD(2) [OF "1.prems"(2) x(3)] WriteValue_keeps [OF "1.prems"(1) wv [unfolded w1]] w1 by simp
      have step: "write_window env (Suc attempt) i v w2 = (r, w')" using "1.prems"(4) True unf wv x by simp
      from x(2) have le: "Suc attempt \<le> ceRetries env" by simp
      have "sent (ceRetries env - Suc attempt + 1) is_write (world_net w2) (world_net w')"
        by (rule "1.IH"(1) [OF refl e_def True wv [symmetric] x(1,2,3) ok "1.prems"(2) le step])
      then have "sent (ceRetries env - Suc attempt + 1) is_write (world_net w1) (world_net w')"
        using sent_same_wire(1) [OF turn_okD(1) [OF "1.prems"(2) x(3)]] by auto
      from sent_trans [OF sd this] le show ?thesis by (simp add: Suc_diff_Suc)
    qed
  qed
qed

section \<open>Calls\<close>

text \<open>The requests a command may send.\<close>

definition is_command :: "message \<Rightarrow> bool" where
  "is_command m \<longleftrightarrow> is_write m
     \<or> Resource m = ''/ro/selectedProgram'' \<and> Action m = ActionPost
     \<or> Resource m = ''/ro/activeProgram'' \<and> (Action m = ActionPost \<or> Action m = ActionDelete)"

definition sends_command :: "(session \<times> net \<Rightarrow> (request_error + message) \<times> session \<times> net) \<Rightarrow> bool" where
  "sends_command fn \<longleftrightarrow> (\<forall>sw. sent 1 is_command (snd sw) (world_net (fn sw)))"

lemma sends_commandI:
  assumes "\<And>sw. snd (fn sw) = snd (sendSync n m sw)"
    and "\<And>x. Resource x = Resource m \<Longrightarrow> Action x = Action m \<Longrightarrow> is_command x"
  shows "sends_command fn"
  unfolding sends_command_def
proof
  fix sw
  show "sent 1 is_command (snd sw) (world_net (fn sw))"
    unfolding assms(1) sent_def using sendSync_wire [of n m sw]
    by (elim ex_forward) (auto simp: list_all_iff intro: assms(2))
qed

lemma sends_stop: "sends_command stop_call"
  by (rule sends_commandI [of _ 8 "request ''/ro/activeProgram'' 0 ActionDelete []"])
    (simp_all add: stop_call_def StopActiveProgram_def SendRaw_def is_command_def split: prod.split)

lemma sends_select: "sends_command (select_call uid)"
  by (rule sends_commandI [of _ 8 "request ''/ro/selectedProgram'' 0 ActionPost [program_data uid None]"])
    (simp_all add: select_call_def SelectProgram_def SendRaw_def is_command_def split: prod.split)

lemma sends_start: "sends_command (StartProgram a uid os strategy)"
proof (cases strategy)
  case StartStandard
  then show ?thesis
    by (intro sends_commandI [of _ 8 "request ''/ro/activeProgram'' 0 ActionPost [program_data uid os]"])
      (simp_all add: StartProgram_def SendRaw_def is_command_def split: prod.split)
next
  case StartHob
  then show ?thesis
    by (intro sends_commandI [of _ 8 "request ''/ro/selectedProgram'' 0 ActionPost [program_data uid os]"])
      (simp_all add: StartProgram_def SelectProgram_def SendRaw_def is_command_def split: prod.split)
next
  case StartCommand
  show ?thesis
  proof (cases "EntityByName a ''BSH.Common.Command.StartProgram''")
    case None
    with StartCommand show ?thesis by (auto simp: sends_command_def StartProgram_def)
  next
    case (Some cmd)
    with StartCommand show ?thesis
      by (intro sends_commandI [of _ 7 "request ''/ro/values'' 0 ActionPost [[(''uid'', VInt (enUID cmd)), (''value'', VBool True)]]"])
        (simp_all add: StartProgram_def WriteValues_def is_command_def is_write_def split: prod.split)
  qed
qed

text \<open>A handler's step sends at most one command.\<close>

definition one_command :: "world \<Rightarrow> reject option \<times> world \<Rightarrow> bool" where
  "one_command w r \<longleftrightarrow> sent 1 is_command (world_net w) (world_net (snd r))"

lemma one_command_none [simp]: "one_command w (x, w)"
  by (simp add: one_command_def)

lemma runProgramCall_one: "sends_command fn \<Longrightarrow> one_command w (runProgramCall c fn w)"
proof -
  assume "sends_command fn"
  moreover have "world_net (snd (runProgramCall c fn w)) = world_net (fn (snd w))"
    by (cases w) (simp add: runProgramCall_def split: prod.split sum.split)
  ultimately show ?thesis by (simp only: one_command_def sends_command_def)
qed

lemma start_program_one: "one_command w (start_program env uid v w)"
  by (simp add: start_program_def runProgramCall_one sends_stop sends_start)

lemma startNamedProgram_one: "one_command w (startNamedProgram env name w)"
  by (simp add: startNamedProgram_def start_program_one split: option.split)

lemma selectNamedProgram_one: "one_command w (selectNamedProgram env name w)"
  by (simp add: selectNamedProgram_def runProgramCall_one sends_select split: option.split)

lemma startSelectedProgram_one: "one_command w (startSelectedProgram env w)"
  by (simp add: startSelectedProgram_def start_program_one split: option.split any.split)

lemmas calls_one = runProgramCall_one [OF sends_stop] start_program_one startNamedProgram_one
  selectNamedProgram_one startSelectedProgram_one

lemma handleProgramControl_one: "handleProgramControl env rel w = Some r \<Longrightarrow> one_command w r"
  by (auto simp: handleProgramControl_def calls_one split: if_splits)

section \<open>One attempt against a scripted answer\<close>

lemma sendSync_reply:
  assumes "script w = Reply m # os"
  shows "\<exists>s' m'. sendSync n req (s, w) =
     ((case codeError m of Some e \<Rightarrow> Inl e | None \<Rightarrow> Inr m), s', w\<lparr>script := os, wire := wire w @ [m']\<rparr>)"
  using assms
  by (simp add: sendSync_def next_outcome_def Let_def split: prod.split option.split) blast

text \<open>The entity at a position that can be written, with the value it would send.\<close>

definition write_ready :: "command_env \<Rightarrow> nat \<Rightarrow> any \<Rightarrow> appliance \<Rightarrow> bool" where
  "write_ready env i v a \<longleftrightarrow> apByUID a (enUID (apEntities a ! i)) = Some i \<and> Writable (apEntities a ! i)
     \<and> \<not> isl (resolveWriteValue (ceLower env) (apEntities a ! i) v)"

lemma WriteValue_reply:
  assumes "write_ready env i v a" and "script w = Reply m # os"
  shows "\<exists>a' s' m'. WriteValue (ceLower env) (enUID (apEntities a ! i)) v a (s, w) =
     ((case codeError m of Some e \<Rightarrow> Some (SessionError e) | None \<Rightarrow> None),
      (case codeError m of Some e \<Rightarrow> a | None \<Rightarrow> a'), s', w\<lparr>script := os, wire := wire w @ [m']\<rparr>)"
proof -
  obtain raw where raw: "resolveWriteValue (ceLower env) (apEntities a ! i) v = Inr raw"
    using assms(1) by (cases "resolveWriteValue (ceLower env) (apEntities a ! i) v") (auto simp: write_ready_def)
  obtain s' m' where "sendSync 7 (request ''/ro/values'' 0 ActionPost [[(''uid'', VInt (enUID (apEntities a ! i))), (''value'', raw)]]) (s, w) =
     ((case codeError m of Some e \<Rightarrow> Inl e | None \<Rightarrow> Inr m), s', w\<lparr>script := os, wire := wire w @ [m']\<rparr>)"
    using sendSync_reply [OF assms(2)] by blast
  with assms(1) raw show ?thesis
    by (auto simp: WriteValue_def WriteValues_def write_ready_def Let_def split: option.split)
qed

lemma write_window_busy:
  assumes "write_ready env i v a" and "ceTurn env = (\<lambda>n w. Some w)"
    and "Code busy = Some 541" and "Code done_msg = None"
    and "script w = replicate k (Reply busy) @ Reply done_msg # os" and "attempt \<le> ceRetries env"
  shows "fst (write_window env attempt i v (a, s, w)) =
       (if attempt + k \<le> ceRetries env then None
        else Some (WriteFailed (enUID (apEntities a ! i)) (SessionError (CodeResponse 541 (Resource busy)))))
     \<and> length (wire (world_net (snd (write_window env attempt i v (a, s, w))))) =
       length (wire w) + Suc (min k (ceRetries env - attempt))"
  using assms(5,6)
proof (induction k arbitrary: attempt s w)
  case 0
  then have "script w = Reply done_msg # os" by simp
  from WriteValue_reply [OF assms(1) this, of s] assms(1,4) "0.prems"(2) show ?case
    by (auto simp: write_window.simps [of env attempt] Let_def write_ready_def codeError_def)
next
  case (Suc k)
  then have sc: "script w = Reply busy # (replicate k (Reply busy) @ Reply done_msg # os)" by simp
  obtain s' m' where wv: "WriteValue (ceLower env) (enUID (apEntities a ! i)) v a (s, w) =
     (Some (SessionError (CodeResponse 541 (Resource busy))), a, s',
      w\<lparr>script := replicate k (Reply busy) @ Reply done_msg # os, wire := wire w @ [m']\<rparr>)" (is "_ = (_, _, _, ?w')")
    using WriteValue_reply [OF assms(1) sc, of s] assms(3) by (auto simp: codeError_def)
  show ?case
  proof (cases "attempt < ceRetries env")
    case True
    have "write_window env attempt i v (a, s, w) = write_window env (Suc attempt) i v (a, s', ?w')"
      using assms(1,2) True by (simp add: write_window.simps [of env attempt] Let_def wv write_ready_def isWriteWindowError_def)
    with Suc.IH [of ?w' "Suc attempt" s'] True show ?thesis by (simp add: min_def) arith
  next
    case False
    then have "write_window env attempt i v (a, s, w) =
        (Some (WriteFailed (enUID (apEntities a ! i)) (SessionError (CodeResponse 541 (Resource busy)))), a, s', ?w')"
      using assms(1) by (simp add: write_window.simps [of env attempt] Let_def wv write_ready_def isWriteWindowError_def)
    with False show ?thesis by simp
  qed
qed

text \<open>Labels and short names.\<close>

lemma progNorm_norm: "progNorm u (norm_name u s) = norm_name u s"
proof -
  have "list_all slug_char (norm_name u s)" by (auto simp: norm_name_def list_all_iff)
  then have a: "list_all is_ascii (norm_name u s)" and l: "List.map lower_char (norm_name u s) = norm_name u s"
    using slug_ascii by (auto simp: list_all_iff intro: map_idI)
  show ?thesis unfolding progNorm_def to_lower_ascii [OF a] l by (simp add: norm_name_def)
qed

lemma EnumValue_EnumLabel_norm:
  assumes "distinct (List.map fst cat)"
    and "lang \<noteq> ''de'' \<or> \<not> isNumeric name \<and> \<not> isNumeric de \<and> unambiguous u cat (norm_name u name) de"
  shows "progNorm u (EnumValue u cat (EnumLabel u cat name lang) lang) = progNorm u name"
proof (cases "lang = ''de''")
  case False
  then show ?thesis by (simp add: EnumLabel_def EnumValue_def)
next
  case True
  with assms(2) have n: "\<not> isNumeric name" "\<not> isNumeric de" and un: "unambiguous u cat (norm_name u name) de" by simp_all
  have "map_of cat (norm_name u name) = Some de" using assms(1) un by (simp add: unambiguous_def)
  with True n enumENGen_unambiguous [OF un] have "EnumValue u cat (EnumLabel u cat name lang) lang = norm_name u name"
    by (simp add: EnumLabel_def EnumValue_def)
  then show ?thesis by (simp add: progNorm_norm) (simp add: progNorm_def norm_name_def)
qed

section \<open>Properties\<close>

text \<open>
  C19. The retry loop ends: a write makes at most one request more than the retry budget, whatever the
  appliance answers, however its access changes, and whenever the context ends.
\<close>

theorem retries_bounded:
  assumes "appliance_ok (fst w)" and "turn_ok env" and "writeWithWindow env i v w = (r, w')"
  shows "\<exists>ms. wire (world_net w') = wire (world_net w) @ ms \<and> length ms \<le> ceRetries env + 1
     \<and> list_all (\<lambda>m. Resource m = ''/ro/values'' \<and> Action m = ActionPost) ms"
  using write_window_wire [OF assms(1,2) _ assms(3) [unfolded writeWithWindow_def]]
  by (simp add: sent_def is_write_def [abs_def])

text \<open>
  A closed write window is waited out: a value that the appliance refuses \<open>k\<close> times because of its
  process state and then takes is written when \<open>k\<close> is within the budget; otherwise the write is given up with
  that error after the last attempt.
\<close>

theorem window_waited_out:
  assumes "write_ready env i v a" and "ceTurn env = (\<lambda>n w. Some w)"
    and "Code busy = Some 541" and "Code done_msg = None"
    and "script w = replicate k (Reply busy) @ Reply done_msg # os"
  shows "fst (writeWithWindow env i v (a, s, w)) =
       (if k \<le> ceRetries env then None
        else Some (WriteFailed (enUID (apEntities a ! i)) (SessionError (CodeResponse 541 (Resource busy)))))
     \<and> length (wire (world_net (snd (writeWithWindow env i v (a, s, w))))) = length (wire w) + Suc (min k (ceRetries env))"
  using write_window_busy [OF assms, of 0 s] by (simp add: writeWithWindow_def)

text \<open>
  C20. What a \<^verbatim>\<open>set\<close> message can cause: a retained message, or one on a topic that is not a command topic
  of the appliance, causes nothing; any other at most as many requests as a write may make, all of them
  value writes or program requests.
\<close>

theorem command_scope:
  assumes "appliance_ok (fst w)" and "turn_ok env" and "onCommand env topic retained val w = (r, w')"
  shows "\<exists>ms. wire (world_net w') = wire (world_net w) @ ms \<and> length ms \<le> ceRetries env + 1 \<and> list_all is_command ms
     \<and> (retained \<or> Relative (ceTopics env) (ceLayout env) topic = None \<longrightarrow> w' = w \<and> r = None)"
proof (cases "shouldDispatch (ceTopics env) (ceLayout env) topic retained")
  case False
  with assms(3) show ?thesis by (simp add: onCommand_def)
next
  case True
  then obtain rel where rel: "Relative (ceTopics env) (ceLayout env) topic = Some rel" and nr: "\<not> retained"
    by (auto simp: shouldDispatch_def)
  have h: "handleSet env topic val w = (r, w')" using assms(3) True by (simp add: onCommand_def)
  have one: "one_command w (r, w') \<Longrightarrow> sent (ceRetries env + 1) is_command (world_net w) (world_net w')"
    by (auto simp: one_command_def elim: sent_mono)
  have "sent (ceRetries env + 1) is_command (world_net w) (world_net w')"
  proof (cases "handleProgramControl env rel w")
    case (Some q)
    with h rel have "q = (r, w')" by (simp add: handleSet_def)
    with Some handleProgramControl_one one show ?thesis by blast
  next
    case ctl: None
    show ?thesis
    proof (cases "\<exists>i v. handleSet env topic val w = writeWithWindow env i v w")
      case True
      with h obtain i v where "write_window env 0 i v w = (r, w')" by (auto simp: writeWithWindow_def)
      from write_window_wire [OF assms(1,2) _ this] show ?thesis
        by (simp add: is_command_def sent_mono [where P = is_write])
    next
      case False
      have "one_command w (handleSet env topic val w)"
        using False rel ctl calls_one by (auto simp: handleSet_def Let_def split: option.splits sum.splits if_splits)
      with h one show ?thesis by simp
    qed
  qed
  with rel nr show ?thesis by (simp add: sent_def)
qed

text \<open>
  C22. The web API and MQTT agree on programs: a plain text written to a program, the active or the
  selected program has the same effect and the same outcome on both ways in.
\<close>

theorem web_matches_mqtt:
  assumes "Relative (ceTopics env) (ceLayout env) topic = Some rel" and "handleProgramControl env rel w = None"
    and "resolveEntity (fst w) rel = Some i" and "apByName (fst w) feature = Some i"
    and "isProgramKind (eKind (enDesc (apEntities (fst w) ! i))) \<or> eKind (enDesc (apEntities (fst w) ! i)) = KindProgram"
    and "\<not> svStructured val"
  shows "snd (handleSet env topic val w) = snd (dispatch_to env feature (VStr (svText val)) w)
     \<and> (fst (handleSet env topic val w) = None \<longleftrightarrow> fst (dispatch_to env feature (VStr (svText val)) w) = None)"
proof -
  have call: "snd (runProgramCall c fn w) = snd (api_call fn w) \<and> (fst (runProgramCall c fn w) = None \<longleftrightarrow> fst (api_call fn w) = None)"
    for c fn by (cases w) (simp add: runProgramCall_def api_call_def split: prod.split sum.split)
  have start: "start_program env uid t w =
      (if isStopValue (ceLower env) t then runProgramCall StopCall stop_call w
       else runProgramCall StartCall (StartProgram (fst w) uid None (startStrategy env (fst w))) w)" for uid t
    by (simp add: start_program_def)
  have d: "handleSet env topic val w =
      (let e = apEntities (fst w) ! i; kind = eKind (enDesc e); t = svText val in
       if kind = KindProgram then start_program env (enUID e) t w
       else if kind = KindSelectedProgram then selectNamedProgram env t w
       else if isStopValue (ceLower env) t then runProgramCall StopCall stop_call w
       else startNamedProgram env t w)"
    using assms by (auto simp: handleSet_def Let_def isProgramKind_def)
  show ?thesis
    unfolding d using assms(4,5) call
    by (auto simp: dispatch_to_def Let_def sprint_def start startNamedProgram_def selectNamedProgram_def isProgramKind_def
        split: option.split)
qed

text \<open>
  A select option leads back to its program: the label discovery shows for a program (its last segment,
  localized when the catalogue has it) resolves to the program's uid, when no other program has the same
  short name and the label is neither a feature name nor a number.
\<close>

theorem program_label_roundtrip:
  assumes "distinct (List.map fst (ceCat env))"
    and "e \<in> set (apEntities a)" and "eKind (enDesc e) = KindProgram" and "progNorm (ceLower env) (progLeaf (enName e)) \<noteq> []"
    and "\<forall>e'\<in>set (apEntities a). eKind (enDesc e') = KindProgram
       \<and> progNorm (ceLower env) (progLeaf (enName e')) = progNorm (ceLower env) (progLeaf (enName e)) \<longrightarrow> enUID e' = enUID e"
    and "ceLanguage env \<noteq> ''de'' \<or> \<not> isNumeric (progLeaf (enName e)) \<and> \<not> isNumeric de
       \<and> unambiguous (ceLower env) (ceCat env) (norm_name (ceLower env) (progLeaf (enName e))) de"
    and "label = EnumLabel (ceLower env) (ceCat env) (progLeaf (enName e)) (ceLanguage env)"
    and "EntityByName a label = None" and "atoi label = None"
  shows "resolveProgramUID env a label = Some (enUID e)"
proof -
  let ?key = "progNorm (ceLower env) (progLeaf (enName e))"
  let ?P = "\<lambda>e'. eKind (enDesc e') = KindProgram \<and> progNorm (ceLower env) (progLeaf (enName e')) = ?key"
  have k: "progNorm (ceLower env) (EnumValue (ceLower env) (ceCat env) label (ceLanguage env)) = ?key"
    using EnumValue_EnumLabel_norm [OF assms(1,6)] assms(7) by simp
  have "e \<in> set (sorted_entities a)" using assms(2) by (simp add: sorted_entities_def)
  then have "find ?P (sorted_entities a) \<noteq> None" using assms(3) by (auto simp: find_None_iff)
  then obtain e' where f: "find ?P (sorted_entities a) = Some e'" by auto
  then have p: "?P e'" and m: "e' \<in> set (sorted_entities a)" by (auto simp: find_Some_iff)
  then have "enUID e' = enUID e" using assms(5) by (simp add: sorted_entities_def)
  with f k show ?thesis using assms(4,8,9) by (simp add: resolveProgramUID_def)
qed

section \<open>A dishwasher under command\<close>

definition washer :: appliance where
  "washer = NewAppliance id \<lparr>dHaID = ''ha'', dInfo = info0, Entries =
     [entry0\<lparr>eUID := 539, eName := ''BSH.Common.Setting.PowerState'', eKind := KindSetting,
        eProtocolType := ProtocolInteger, eAccess := ''readwrite'', eAvailable := True,
        eEnumeration := [(1, ''Off''), (2, ''On'')]\<rparr>,
      entry0\<lparr>eUID := 8192, eName := ''Dishcare.Program.Eco50'', eKind := KindProgram\<rparr>,
      entry0\<lparr>eUID := 256, eName := ''BSH.Common.Root.ActiveProgram'', eKind := KindActiveProgram\<rparr>],
     byUID = Map.empty, byName = Map.empty, Enumerations = Map.empty\<rparr>"

definition washer_env :: command_env where
  "washer_env =
     \<lparr>ceTopics = plain_topics, ceLayout = oven_layout, ceCat = catalogue_part, ceLanguage = ''de'', ceLower = id,
      ceFmt = (\<lambda>_. []), ceJSON = (\<lambda>_. None), ceType = ''Dishwasher'', ceRetries = 3, ceTurn = (\<lambda>n w. Some w)\<rparr>"

definition plain_set :: "string \<Rightarrow> set_value" where
  "plain_set t = \<lparr>svStructured = False, svText = t, svParams = [], svBool = Inl t, svNumber = (\<lambda>_ _ _. Inl t)\<rparr>"

definition busy_msg :: message where
  "busy_msg = ini_example\<lparr>Code := Some 541\<rparr>"

definition washer_world :: world where
  "washer_world = (washer, session0, \<lparr>script = [Reply busy_msg, Reply busy_msg, Reply ini_example], wire = []\<rparr>)"

lemma washer_ok: "appliance_ok (fst washer_world)"
  unfolding washer_world_def washer_def fst_conv by (rule NewAppliance_ok)

lemma washer_turn: "turn_ok washer_env"
  by (simp add: turn_ok_def washer_env_def)

lemma washer_ready: "write_ready washer_env 0 (VStr ''on'') washer"
  by code_simp

lemma retries_bounded_witness:
  "\<exists>ms. wire (world_net (snd (writeWithWindow washer_env 0 (VStr ''on'') washer_world))) = ms \<and> length ms \<le> 4
     \<and> list_all (\<lambda>m. Resource m = ''/ro/values'' \<and> Action m = ActionPost) ms"
  using retries_bounded [OF washer_ok washer_turn prod.collapse [symmetric], of 0 "VStr ''on''"]
  by (simp add: washer_env_def washer_world_def)

lemma window_waited_out_witness:
  "fst (writeWithWindow washer_env 0 (VStr ''on'') washer_world) = None
     \<and> length (wire (world_net (snd (writeWithWindow washer_env 0 (VStr ''on'') washer_world)))) = 3"
proof -
  let ?w = "\<lparr>script = [Reply busy_msg, Reply busy_msg, Reply ini_example], wire = []\<rparr>"
  have sc: "script ?w = replicate 2 (Reply busy_msg) @ Reply ini_example # []"
    by (simp add: numeral_2_eq_2)
  have t: "ceTurn washer_env = (\<lambda>n w. Some w)" "ceRetries washer_env = 3" by (simp_all add: washer_env_def)
  have c: "Code busy_msg = Some 541" "Code ini_example = None"
    by (simp_all add: busy_msg_def ini_example_def request_def)
  from window_waited_out [OF washer_ready t(1) c sc, of session0] t(2)
  show ?thesis by (simp add: washer_world_def)
qed

lemma command_scope_witness:
  "snd (onCommand washer_env ''homeconnect/status/010203/x'' False (plain_set ''on'') washer_world) = washer_world"
proof -
  have "Relative (ceTopics washer_env) (ceLayout washer_env) ''homeconnect/status/010203/x'' = None" by code_simp
  with command_scope [OF washer_ok washer_turn prod.collapse [symmetric], of "''homeconnect/status/010203/x''" False "plain_set ''on''"]
  show ?thesis by auto
qed

lemma web_matches_mqtt_witness:
  "snd (handleSet washer_env ''homeconnect/set/010203/BSH/Common/Root/ActiveProgram'' (plain_set ''off'') washer_world)
     = snd (dispatch_to washer_env ''BSH.Common.Root.ActiveProgram'' (VStr ''off'') washer_world)"
proof -
  have "Relative (ceTopics washer_env) (ceLayout washer_env) ''homeconnect/set/010203/BSH/Common/Root/ActiveProgram''
      = Some ''BSH/Common/Root/ActiveProgram''" by code_simp
  moreover have "handleProgramControl washer_env ''BSH/Common/Root/ActiveProgram'' washer_world = None"
    by (simp add: handleProgramControl_def ControlPath_def controlPrefix_def)
  moreover have "resolveEntity washer ''BSH/Common/Root/ActiveProgram'' = Some 2" by code_simp
  moreover have "apByName washer ''BSH.Common.Root.ActiveProgram'' = Some 2" by code_simp
  moreover have "isProgramKind (eKind (enDesc (apEntities washer ! 2)))" by code_simp
  ultimately show ?thesis
    using web_matches_mqtt [of washer_env "''homeconnect/set/010203/BSH/Common/Root/ActiveProgram''" _ washer_world 2
        "''BSH.Common.Root.ActiveProgram''" "plain_set ''off''"]
    by (simp add: washer_world_def plain_set_def)
qed

lemma program_label_roundtrip_witness: "resolveProgramUID (washer_env\<lparr>ceLanguage := ''en''\<rparr>) washer ''Eco50'' = Some 8192"
proof -
  let ?e = "apEntities washer ! 1" and ?env = "washer_env\<lparr>ceLanguage := ''en''\<rparr>"
  have "resolveProgramUID ?env washer ''Eco50'' = Some (enUID ?e)"
  proof (rule program_label_roundtrip)
    show "?e \<in> set (apEntities washer)" by (rule nth_mem) code_simp
    show "distinct (List.map fst (ceCat ?env))" "eKind (enDesc ?e) = KindProgram"
      "progNorm (ceLower ?env) (progLeaf (enName ?e)) \<noteq> []" "EntityByName washer ''Eco50'' = None" "atoi ''Eco50'' = None"
      "''Eco50'' = EnumLabel (ceLower ?env) (ceCat ?env) (progLeaf (enName ?e)) (ceLanguage ?env)"
      by code_simp+
    show "\<forall>e'\<in>set (apEntities washer). eKind (enDesc e') = KindProgram
       \<and> progNorm (ceLower ?env) (progLeaf (enName e')) = progNorm (ceLower ?env) (progLeaf (enName ?e)) \<longrightarrow> enUID e' = enUID ?e"
      by code_simp
  qed simp
  moreover have "enUID ?e = 8192" by code_simp
  ultimately show ?thesis by simp
qed

end
