(* ===== verification/Config.thy ===== *)
theory Config
  imports Layout Go_Values Go_Text Session Reconnect "HOL-Library.AList" "HOL-Library.List_Lexorder" "HOL-Library.Char_ord"
begin

text \<open>
  \<^verbatim>\<open>internal/config\<close>: the configuration of the daemon, from the YAML file over the \<^verbatim>\<open>HC2M_\<close> environment and
  the defaults to the aggregated validation, and what is derived from it for the sessions and the reconnect
  loops.

  The YAML library is the parameter \<open>yaml_lib\<close>: reading a document into a generic map, writing such a map,
  and decoding a document into the struct. The map is an association list. A nil pointer is \<open>None\<close>. What is
  configured in seconds is multiplied as a Go \<^verbatim>\<open>Duration\<close>, so with wrap-around.
\<close>

section \<open>The configuration\<close>

record config =
  cfMQTTServer :: string
  cfMQTTLogin :: string
  cfMQTTPassword :: string
  cfMQTTTopic :: string
  cfMQTTTLSCA :: string
  cfMQTTTLSInsecure :: bool
  cfMQTTQoS :: "int option"
  cfMQTTMaintenance :: "bool option"
  cfMQTTStatsInterval :: "int option"
  cfHASSEnable :: bool
  cfHASSBaseTopic :: string
  cfHASSBirthGracetime :: int
  cfHASSDiscovery :: string
  cfHASSDiscoveryRefresh :: bool
  cfAppName :: string
  cfAppID :: string
  cfReconnectInitial :: int
  cfReconnectMax :: int
  cfReconnectJitter :: int
  cfHandshakeTimeout :: int
  cfSendTimeout :: int
  cfHeartbeat :: int
  cfWebEnable :: bool
  cfWebBind :: string
  cfWebUser :: string
  cfWebPassword :: string
  cfLanguage :: string
  cfDebug :: bool
  cfRemoved :: "string list"

definition removedKeys :: "string list" where "removedKeys = [''MQTT_RETAIN'']"

definition ReconnectInitialDuration :: "config \<Rightarrow> int" where
  "ReconnectInitialDuration c = wrap64 (cfReconnectInitial c * second_ns)"

definition ReconnectMaxDuration :: "config \<Rightarrow> int" where
  "ReconnectMaxDuration c = wrap64 (cfReconnectMax c * second_ns)"

definition ReconnectJitterDuration :: "config \<Rightarrow> int" where
  "ReconnectJitterDuration c = wrap64 (cfReconnectJitter c * 1000000)"

definition HandshakeTimeoutDuration :: "config \<Rightarrow> int" where
  "HandshakeTimeoutDuration c = wrap64 (cfHandshakeTimeout c * second_ns)"

definition SendTimeoutDuration :: "config \<Rightarrow> int" where
  "SendTimeoutDuration c = wrap64 (cfSendTimeout c * second_ns)"

definition HeartbeatDuration :: "config \<Rightarrow> int" where
  "HeartbeatDuration c = wrap64 (cfHeartbeat c * second_ns)"

definition HASSBirthGracetimeDuration :: "config \<Rightarrow> int" where
  "HASSBirthGracetimeDuration c = wrap64 (cfHASSBirthGracetime c * second_ns)"

section \<open>Defaults\<close>

definition DefaultMQTTTopic :: string where "DefaultMQTTTopic = ''homeconnect''"
definition DefaultMQTTQoS :: int where "DefaultMQTTQoS = 1"
definition DefaultMQTTStatsInterval :: int where "DefaultMQTTStatsInterval = 60"
definition DefaultHASSBaseTopic :: string where "DefaultHASSBaseTopic = ''homeassistant''"
definition DefaultHASSBirthGracetime :: int where "DefaultHASSBirthGracetime = 15"
definition DefaultHASSDiscovery :: string where "DefaultHASSDiscovery = ''curated''"
definition DefaultAppName :: string where "DefaultAppName = ''go-homeconnect2mqtt''"
definition DefaultReconnectInitial :: int where "DefaultReconnectInitial = 1"
definition DefaultReconnectMax :: int where "DefaultReconnectMax = 30"
definition DefaultReconnectJitter :: int where "DefaultReconnectJitter = 500"
definition DefaultHandshakeTimeout :: int where "DefaultHandshakeTimeout = 60"
definition DefaultSendTimeout :: int where "DefaultSendTimeout = 20"
definition DefaultHeartbeat :: int where "DefaultHeartbeat = 20"
definition DefaultWebBind :: string where "DefaultWebBind = ''127.0.0.1:8080''"
definition DefaultLanguage :: string where "DefaultLanguage = ''de''"

definition QoSLevel :: "config \<Rightarrow> int" where
  "QoSLevel c = (case cfMQTTQoS c of None \<Rightarrow> DefaultMQTTQoS | Some q \<Rightarrow> q)"

definition MaintenanceEnabled :: "config \<Rightarrow> bool" where
  "MaintenanceEnabled c \<longleftrightarrow> cfMQTTMaintenance c \<noteq> Some False"

definition StatsIntervalSeconds :: "config \<Rightarrow> int" where
  "StatsIntervalSeconds c = (case cfMQTTStatsInterval c of None \<Rightarrow> DefaultMQTTStatsInterval | Some s \<Rightarrow> s)"

text \<open>A field left at its zero value takes the default; each assignment is independent of the others.\<close>

definition or_default :: "string \<Rightarrow> string \<Rightarrow> string" where "or_default d s = (if s = [] then d else s)"
definition or_int :: "int \<Rightarrow> int \<Rightarrow> int" where "or_int d n = (if n = 0 then d else n)"
definition or_ptr :: "'a \<Rightarrow> 'a option \<Rightarrow> 'a option" where "or_ptr d p = (case p of None \<Rightarrow> Some d | Some v \<Rightarrow> Some v)"

definition applyDefaults :: "config \<Rightarrow> config" where
  "applyDefaults c = c\<lparr>
     cfMQTTTopic := or_default DefaultMQTTTopic (cfMQTTTopic c),
     cfMQTTMaintenance := or_ptr True (cfMQTTMaintenance c),
     cfMQTTStatsInterval := or_ptr DefaultMQTTStatsInterval (cfMQTTStatsInterval c),
     cfMQTTQoS := or_ptr DefaultMQTTQoS (cfMQTTQoS c),
     cfHASSBaseTopic := or_default DefaultHASSBaseTopic (cfHASSBaseTopic c),
     cfHASSBirthGracetime := or_int DefaultHASSBirthGracetime (cfHASSBirthGracetime c),
     cfHASSDiscovery := or_default DefaultHASSDiscovery (cfHASSDiscovery c),
     cfAppName := or_default DefaultAppName (cfAppName c),
     cfReconnectInitial := or_int DefaultReconnectInitial (cfReconnectInitial c),
     cfReconnectMax := or_int DefaultReconnectMax (cfReconnectMax c),
     cfReconnectJitter := or_int DefaultReconnectJitter (cfReconnectJitter c),
     cfHandshakeTimeout := or_int DefaultHandshakeTimeout (cfHandshakeTimeout c),
     cfSendTimeout := or_int DefaultSendTimeout (cfSendTimeout c),
     cfHeartbeat := or_int DefaultHeartbeat (cfHeartbeat c),
     cfWebBind := or_default DefaultWebBind (cfWebBind c),
     cfLanguage := or_default DefaultLanguage (cfLanguage c)\<rparr>"

section \<open>Validation\<close>

definition allowedLanguages :: "string list" where "allowedLanguages = [''de'', ''en'']"
definition allowedDiscovery :: "string list" where "allowedDiscovery = [''full'', ''curated'']"

text \<open>\<^verbatim>\<open>net.SplitHostPort\<close>, as far as it fails or not.\<close>

definition splits_host_port :: "string \<Rightarrow> bool" where
  "splits_host_port hp =
     (case cut_last (CHR '':'') hp of
        None \<Rightarrow> False
      | Some (before, port) \<Rightarrow>
          if hp ! 0 = CHR ''['' then
            (case cut_first (CHR '']'') hp of
               None \<Rightarrow> False
             | Some (host, rest) \<Rightarrow>
                 length host + 1 = length before \<and> CHR ''['' \<notin> set (drop 1 hp) \<and> CHR '']'' \<notin> set rest)
          else CHR '':'' \<notin> set before \<and> CHR ''['' \<notin> set hp \<and> CHR '']'' \<notin> set hp)"

datatype config_issue =
    OutOfRange string int int int
  | ServerRequired
  | TopicRequired
  | TopicInvalid string
  | CredentialsIncomplete
  | TLSContradiction
  | BaseTopicRequired
  | ReconnectOrder int int
  | WebBindInvalid string
  | WebCredentialsIncomplete
  | LanguageInvalid string
  | DiscoveryInvalid string

definition rangeCheck :: "string \<Rightarrow> int \<Rightarrow> int \<Rightarrow> int \<Rightarrow> config_issue list" where
  "rangeCheck name v lo hi = (if v < lo \<or> hi < v then [OutOfRange name lo hi v] else [])"

definition issue_if :: "bool \<Rightarrow> config_issue \<Rightarrow> config_issue list" where
  "issue_if b i = (if b then [i] else [])"

definition Validate :: "topic_lib \<Rightarrow> config \<Rightarrow> config_issue list" where
  "Validate T c =
     issue_if (cfMQTTServer c = []) ServerRequired
   @ (if cfMQTTTopic c = [] then [TopicRequired]
      else issue_if (layout_New T (cfMQTTTopic c) = None) (TopicInvalid (cfMQTTTopic c)))
   @ rangeCheck ''MQTT_QOS'' (QoSLevel c) 0 1
   @ rangeCheck ''MQTT_STATS_INTERVAL'' (StatsIntervalSeconds c) 0 86400
   @ issue_if ((cfMQTTLogin c = []) \<noteq> (cfMQTTPassword c = [])) CredentialsIncomplete
   @ issue_if (cfMQTTTLSCA c \<noteq> [] \<and> cfMQTTTLSInsecure c) TLSContradiction
   @ issue_if (cfHASSEnable c \<and> cfHASSBaseTopic c = []) BaseTopicRequired
   @ rangeCheck ''HASS_BIRTH_GRACETIME'' (cfHASSBirthGracetime c) 0 600
   @ rangeCheck ''RECONNECT_INITIAL'' (cfReconnectInitial c) 1 3600
   @ rangeCheck ''RECONNECT_MAX'' (cfReconnectMax c) 1 3600
   @ issue_if (cfReconnectMax c < cfReconnectInitial c) (ReconnectOrder (cfReconnectMax c) (cfReconnectInitial c))
   @ rangeCheck ''RECONNECT_JITTER'' (cfReconnectJitter c) 0 60000
   @ rangeCheck ''HANDSHAKE_TIMEOUT'' (cfHandshakeTimeout c) 1 600
   @ rangeCheck ''SEND_TIMEOUT'' (cfSendTimeout c) 1 600
   @ rangeCheck ''HEARTBEAT'' (cfHeartbeat c) 1 600
   @ (if cfWebEnable c
      then issue_if (\<not> splits_host_port (cfWebBind c)) (WebBindInvalid (cfWebBind c))
         @ issue_if ((cfWebUser c = []) \<noteq> (cfWebPassword c = [])) WebCredentialsIncomplete
      else [])
   @ issue_if (cfLanguage c \<notin> set allowedLanguages) (LanguageInvalid (cfLanguage c))
   @ issue_if (cfHASSDiscovery c \<notin> set allowedDiscovery) (DiscoveryInvalid (cfHASSDiscovery c))"

section \<open>Loading\<close>

definition EnvPrefix :: string where "EnvPrefix = ''HC2M_''"
definition AppDirName :: string where "AppDirName = ''homeconnect2mqtt''"
definition ConfigFile :: string where "ConfigFile = ''config.yaml''"

definition coerceEnvValue :: "(string \<Rightarrow> string) \<Rightarrow> string \<Rightarrow> any" where
  "coerceEnvValue u s =
     (let t = to_lower u (trim_space s) in
      if t = ''true'' then VBool True
      else if t = ''false'' then VBool False
      else case atoi s of
        Some i \<Rightarrow> VInt i
      | None \<Rightarrow> (case parse_float s of Some f \<Rightarrow> VFloat f | None \<Rightarrow> VStr s))"

definition env_override :: "(string \<Rightarrow> string) \<Rightarrow> string \<Rightarrow> (string \<times> any) option" where
  "env_override u kv =
     (case cut_first (CHR ''='') kv of
        None \<Rightarrow> None
      | Some (key, val) \<Rightarrow>
          (case cut_prefix EnvPrefix key of
             None \<Rightarrow> None
           | Some cfgKey \<Rightarrow> if cfgKey = [] then None else Some (cfgKey, coerceEnvValue u val)))"

definition applyEnvOverrides :: "(string \<Rightarrow> string) \<Rightarrow> string list \<Rightarrow> obj \<Rightarrow> obj" where
  "applyEnvOverrides u environ raw =
     fold (\<lambda>kv raw. case env_override u kv of None \<Rightarrow> raw | Some (k, v) \<Rightarrow> AList.update k v raw) environ raw"

definition removedIn :: "obj \<Rightarrow> string list" where
  "removedIn raw = sort (filter (\<lambda>k. k \<in> set removedKeys) (List.map fst raw))"

datatype yaml_document = EmptyFile | NotYaml | Document "obj option"

record yaml_lib =
  ylRead :: "string \<Rightarrow> yaml_document"
  ylMarshal :: "obj \<Rightarrow> string option"
  ylDecode :: "string \<Rightarrow> config option"

datatype config_error = OpenFailed | ParseYaml | Remarshal | DecodeMerged | Invalid "config_issue list"

definition Load_config :: "yaml_lib \<Rightarrow> topic_lib \<Rightarrow> (string \<Rightarrow> string) \<Rightarrow> string \<Rightarrow> string list option \<Rightarrow> config_error + config" where
  "Load_config Y T u bytes env =
     (case (case ylRead Y bytes of EmptyFile \<Rightarrow> Some [] | NotYaml \<Rightarrow> None
            | Document None \<Rightarrow> Some [] | Document (Some m) \<Rightarrow> Some m) of
        None \<Rightarrow> Inl ParseYaml
      | Some doc0 \<Rightarrow>
          (let raw = (case env of None \<Rightarrow> doc0 | Some environ \<Rightarrow> applyEnvOverrides u environ doc0) in
           case ylMarshal Y raw of
             None \<Rightarrow> Inl Remarshal
           | Some bs \<Rightarrow>
               (case ylDecode Y bs of
                  None \<Rightarrow> Inl DecodeMerged
                | Some cfg0 \<Rightarrow>
                    (let cfg = applyDefaults (cfg0\<lparr>cfRemoved := removedIn raw\<rparr>);
                         issues = Validate T cfg
                     in if issues \<noteq> [] then Inl (Invalid issues) else Inr cfg))))"

definition LoadFile :: "yaml_lib \<Rightarrow> topic_lib \<Rightarrow> (string \<Rightarrow> string) \<Rightarrow> string option \<Rightarrow> string list option \<Rightarrow> config_error + config" where
  "LoadFile Y T u file env = (case file of None \<Rightarrow> Inl OpenFailed | Some bytes \<Rightarrow> Load_config Y T u bytes env)"

text \<open>What the system answers to the search for the file.\<close>

record search_world =
  swCwd :: "string option"
  swWindows :: bool
  swEnv :: "string \<rightharpoonup> string"
  swHome :: "string option"
  swIsFile :: "string \<Rightarrow> bool"

definition config_candidates :: "search_world \<Rightarrow> string list" where
  "config_candidates w =
     (case swCwd w of Some cwd \<Rightarrow> [path_join [cwd, ConfigFile]] | None \<Rightarrow> [])
   @ (case swEnv w (if swWindows w then ''APPDATA'' else ''XDG_CONFIG_HOME'') of
        Some v \<Rightarrow> if v \<noteq> [] then [path_join [v, AppDirName, ConfigFile]] else []
      | None \<Rightarrow> [])
   @ (case swHome w of Some home \<Rightarrow> [path_join [home, ''.config'', AppDirName, ConfigFile]] | None \<Rightarrow> [])"

definition Locate :: "search_world \<Rightarrow> string option" where
  "Locate w = find (swIsFile w) (config_candidates w)"

section \<open>What a device gets\<close>

definition device_session :: "config \<Rightarrow> session_config" where
  "device_session c = NewSession_config
     \<lparr>AppName = cfAppName c, AppID = cfAppID c, SendTimeout = SendTimeoutDuration c,
      HandshakeTimeout = HandshakeTimeoutDuration c, Heartbeat = HeartbeatDuration c\<rparr>"

definition device_reconnect :: "config \<Rightarrow> reconnect_config" where
  "device_reconnect c = NewManager_config
     \<lparr>InitialBackoff = ReconnectInitialDuration c, MaxBackoff = ReconnectMaxDuration c, Jitter = ReconnectJitterDuration c,
      ConnectTimeout = 0, LogThrottle = 0, hasOnState = True\<rparr>"

section \<open>What a loaded configuration guarantees\<close>

lemma rangeCheck_Nil [simp]: "rangeCheck n v lo hi = [] \<longleftrightarrow> lo \<le> v \<and> v \<le> hi"
  by (auto simp: rangeCheck_def)

lemma issue_if_Nil [simp]: "issue_if b i = [] \<longleftrightarrow> \<not> b"
  by (simp add: issue_if_def)

lemma seconds_exact: "0 \<le> n \<Longrightarrow> n \<le> 86400 \<Longrightarrow> wrap64 (n * second_ns) = n * second_ns"
  by (simp add: wrap64_id in_int64_def int64_min_def int64_max_def second_ns_def)

lemma Load_config_Inr:
  assumes "Load_config Y T u bytes env = Inr c"
  obtains c0 where "c = applyDefaults c0" "Validate T c = []"
  using assms by (auto simp: Load_config_def Let_def split: option.splits if_splits)

lemma Validate_Nil:
  assumes "Validate T c = []"
  shows "cfMQTTServer c \<noteq> [] \<and> layout_New T (cfMQTTTopic c) = Some (cfMQTTTopic c)"
    and "0 \<le> QoSLevel c \<and> QoSLevel c \<le> 1"
    and "1 \<le> cfReconnectInitial c \<and> cfReconnectInitial c \<le> cfReconnectMax c \<and> cfReconnectMax c \<le> 3600
       \<and> 0 \<le> cfReconnectJitter c \<and> cfReconnectJitter c \<le> 60000"
    and "1 \<le> cfHandshakeTimeout c \<and> cfHandshakeTimeout c \<le> 600 \<and> 1 \<le> cfSendTimeout c \<and> cfSendTimeout c \<le> 600
       \<and> 1 \<le> cfHeartbeat c \<and> cfHeartbeat c \<le> 600"
    and "cfLanguage c \<in> {''de'', ''en''} \<and> cfHASSDiscovery c \<in> {''full'', ''curated''}"
  using assms
  by (auto simp: Validate_def layout_New_def allowedLanguages_def allowedDiscovery_def split: if_splits)

lemma jitter_exact: "0 \<le> n \<Longrightarrow> n \<le> 60000 \<Longrightarrow> wrap64 (n * 1000000) = n * 1000000"
  by (simp add: wrap64_id in_int64_def int64_min_def int64_max_def)

lemma device_reconnect_exact:
  assumes "Validate T c = []"
  shows "InitialBackoff (device_reconnect c) = cfReconnectInitial c * second_ns"
    "MaxBackoff (device_reconnect c) = cfReconnectMax c * second_ns"
    "Jitter (device_reconnect c) = cfReconnectJitter c * 1000000"
proof -
  note v = Validate_Nil(3) [OF assms]
  have "wrap64 (cfReconnectInitial c * second_ns) = cfReconnectInitial c * second_ns"
    "wrap64 (cfReconnectMax c * second_ns) = cfReconnectMax c * second_ns"
    using v by (intro seconds_exact; linarith)+
  moreover have "wrap64 (cfReconnectJitter c * 1000000) = cfReconnectJitter c * 1000000"
    using v by (intro jitter_exact) linarith+
  ultimately show "InitialBackoff (device_reconnect c) = cfReconnectInitial c * second_ns"
    "MaxBackoff (device_reconnect c) = cfReconnectMax c * second_ns"
    "Jitter (device_reconnect c) = cfReconnectJitter c * 1000000"
    using v by (simp_all add: device_reconnect_def NewManager_config_def ReconnectInitialDuration_def
      ReconnectMaxDuration_def ReconnectJitterDuration_def second_ns_def Let_def)
qed

text \<open>
  With a configuration that loaded, a device whose attempts keep failing is tried again and again, and
  before attempt \<open>k + 1\<close> waits the configured first delay doubled \<open>k\<close> times and capped at the configured
  greatest, give or take the configured jitter: no unit is lost and nothing overflows on the way.
\<close>

theorem configured_backoff:
  assumes "Load_config Y T u bytes env = Inr c"
    and "\<forall>r\<in>set rs. failing r \<and> 0 \<le> rdRand r \<and> rdRand r < 2 * (cfReconnectJitter c * 1000000)"
  shows "\<not> fst (Run (device_reconnect c) rs NewManager)
    \<and> length (sleeps (mgTrace (snd (Run (device_reconnect c) rs NewManager)))) = length rs
    \<and> (\<forall>k<length rs. \<bar>sleeps (mgTrace (snd (Run (device_reconnect c) rs NewManager))) ! k
           - min (cfReconnectMax c) (cfReconnectInitial c * 2 ^ k) * 1000000000\<bar> \<le> cfReconnectJitter c * 1000000)"
proof -
  obtain c0 where "c = applyDefaults c0" and v: "Validate T c = []" using assms(1) by (rule Load_config_Inr)
  note e = device_reconnect_exact [OF v] and b = Validate_Nil(3) [OF v]
  have m: "min (cfReconnectMax c * second_ns) (cfReconnectInitial c * second_ns * 2 ^ k) =
     min (cfReconnectMax c) (cfReconnectInitial c * 2 ^ k) * 1000000000" for k
    by (simp add: second_ns_def min_mult_distrib_right [symmetric] mult.assoc mult.commute mult.left_commute)
  show ?thesis
    using backoff_schedule [of "device_reconnect c" NewManager rs, unfolded e m] b assms(2)
    by (fastforce simp: second_ns_def NewManager_def Let_def abs_le_iff)
qed

text \<open>A file that sets only the server, the credentials and the two values zero.\<close>

definition small_config :: config where
  "small_config =
     \<lparr>cfMQTTServer = ''tcp://broker:1883'', cfMQTTLogin = [], cfMQTTPassword = [], cfMQTTTopic = [], cfMQTTTLSCA = [],
      cfMQTTTLSInsecure = False, cfMQTTQoS = Some 0, cfMQTTMaintenance = None, cfMQTTStatsInterval = None,
      cfHASSEnable = True, cfHASSBaseTopic = [], cfHASSBirthGracetime = 0, cfHASSDiscovery = [],
      cfHASSDiscoveryRefresh = False, cfAppName = [], cfAppID = [], cfReconnectInitial = 0, cfReconnectMax = 0,
      cfReconnectJitter = 0, cfHandshakeTimeout = 0, cfSendTimeout = 0, cfHeartbeat = 0, cfWebEnable = False,
      cfWebBind = [], cfWebUser = [], cfWebPassword = [], cfLanguage = ''en'', cfDebug = False, cfRemoved = []\<rparr>"

definition small_yaml :: yaml_lib where
  "small_yaml = \<lparr>ylRead = (\<lambda>_. Document (Some [])), ylMarshal = (\<lambda>_. Some []), ylDecode = (\<lambda>_. Some small_config)\<rparr>"

lemma small_loads:
  "Load_config small_yaml plain_topics u bytes (Some []) = Inr (applyDefaults small_config)"
  by (simp add: Load_config_def small_yaml_def applyEnvOverrides_def removedIn_def Validate_def applyDefaults_def small_config_def
      or_default_def or_int_def or_ptr_def plain_topics_def Let_def layout_New_def rangeCheck_def issue_if_def QoSLevel_def
      StatsIntervalSeconds_def allowedLanguages_def allowedDiscovery_def
      DefaultMQTTTopic_def DefaultMQTTStatsInterval_def DefaultHASSBaseTopic_def DefaultHASSBirthGracetime_def
      DefaultHASSDiscovery_def DefaultAppName_def DefaultReconnectInitial_def DefaultReconnectMax_def
      DefaultReconnectJitter_def DefaultHandshakeTimeout_def DefaultSendTimeout_def DefaultHeartbeat_def DefaultWebBind_def)

lemma configured_backoff_witness:
  "\<bar>sleeps (mgTrace (snd (Run (device_reconnect (applyDefaults small_config)) (replicate 7 fail_round) NewManager))) ! 6
     - 30 * 1000000000\<bar> \<le> 500 * 1000000"
proof -
  have "\<forall>r\<in>set (replicate 7 fail_round). failing r \<and> 0 \<le> rdRand r
      \<and> rdRand r < 2 * (cfReconnectJitter (applyDefaults small_config) * 1000000)"
    by (simp add: fail_round_def failing_def applyDefaults_def small_config_def or_int_def DefaultReconnectJitter_def)
  from configured_backoff [OF small_loads this] show ?thesis
    by (auto dest!: spec [where x = 6] simp: applyDefaults_def small_config_def or_int_def DefaultReconnectJitter_def
        DefaultReconnectInitial_def DefaultReconnectMax_def)
qed

text \<open>
  Two values an operator may write are lost: a loaded configuration never has a jitter or a birth grace
  time of zero, because a zero is taken for an absent key, although validation accepts zero for both.
\<close>

theorem zero_is_replaced:
  assumes "Load_config Y T u bytes env = Inr c"
  shows "cfReconnectJitter c \<noteq> 0 \<and> cfHASSBirthGracetime c \<noteq> 0
    \<and> Validate T (c\<lparr>cfReconnectJitter := 0, cfHASSBirthGracetime := 0\<rparr>) = []"
proof -
  obtain c0 where c: "c = applyDefaults c0" and v: "Validate T c = []" using assms by (rule Load_config_Inr)
  have "cfReconnectJitter c \<noteq> 0 \<and> cfHASSBirthGracetime c \<noteq> 0"
    by (simp add: c applyDefaults_def or_int_def DefaultReconnectJitter_def DefaultHASSBirthGracetime_def)
  moreover have "Validate T (c\<lparr>cfReconnectJitter := 0, cfHASSBirthGracetime := 0\<rparr>) = []"
    using v by (auto simp: Validate_def QoSLevel_def StatsIntervalSeconds_def split: if_splits)
  ultimately show ?thesis by simp
qed

lemma zero_is_replaced_witness:
  "cfReconnectJitter small_config = 0 \<and> cfReconnectJitter (applyDefaults small_config) \<noteq> 0"
  using zero_is_replaced [OF small_loads] by (simp add: small_config_def)

section \<open>Numbers and texts of the environment\<close>

lemma digit_val_le: "digit_val c = Some d \<Longrightarrow> d < 10 \<Longrightarrow> (of_char c :: nat) \<le> 57"
  by (auto simp: digit_val_def Let_def split: if_splits)

lemma parse_digits_chars: "parse_digits 10 acc s = Some n \<Longrightarrow> c \<in> set s \<Longrightarrow> (of_char c :: nat) \<le> 57"
proof (induction s arbitrary: acc)
  case (Cons d s)
  then show ?case by (auto simp: digit_val_def Let_def split: if_splits)
qed simp

lemma atoi_chars: "atoi s = Some n \<Longrightarrow> c \<in> set s \<Longrightarrow> (of_char c :: nat) \<le> 57"
  by (cases s) (auto simp: atoi_def parse_int_def Let_def split: if_splits option.splits
      dest: parse_digits_chars digit_val_le)

lemma set_strip_prefixes: "set (strip_prefixes n ws s) \<subseteq> set s"
  by (induction n ws s rule: strip_prefixes.induct) (auto split: option.splits dest: in_set_dropD)

lemma set_trim_space: "set (trim_space s) \<subseteq> set s"
  using set_strip_prefixes [of "length s" space_runes s]
    set_strip_prefixes [of _ "List.map rev space_runes" "rev (trim_left_space s)"]
  by (fastforce simp: trim_space_def trim_right_space_def trim_left_space_def)

lemma coerceEnvValue_int:
  assumes "atoi s = Some n" shows "coerceEnvValue u s = VInt n"
proof -
  have c: "(of_char c :: nat) \<le> 57" if "c \<in> set (trim_space s)" for c
    using that set_trim_space [of s] atoi_chars [OF assms] by blast
  then have "list_all is_ascii (trim_space s)" by (fastforce simp: list_all_iff is_ascii_def)
  then have "to_lower u (trim_space s) = List.map lower_char (trim_space s)" by (rule to_lower_ascii)
  moreover have "CHR ''e'' \<notin> set (List.map lower_char (trim_space s))"
  proof
    assume "CHR ''e'' \<in> set (List.map lower_char (trim_space s))"
    then obtain x where x: "x \<in> set (trim_space s)" "lower_char x = CHR ''e''" by auto
    have "(of_char (lower_char x) :: nat) = 101" unfolding x(2) by simp
    with c [OF x(1)] show False by (simp add: of_char_lower_char split: if_splits)
  qed
  ultimately have "to_lower u (trim_space s) \<noteq> ''true''" "to_lower u (trim_space s) \<noteq> ''false''" by auto
  with assms show ?thesis by (simp add: coerceEnvValue_def)
qed

lemma EnvPrefix_plain: "CHR ''='' \<notin> set EnvPrefix"
  by (simp add: EnvPrefix_def)

lemma env_override_assign:
  "k \<noteq> [] \<Longrightarrow> CHR ''='' \<notin> set k \<Longrightarrow> env_override u (EnvPrefix @ k @ ''='' @ v) = Some (k, coerceEnvValue u v)"
  using cut_first_append [of "CHR ''=''" "EnvPrefix @ k" v] EnvPrefix_plain
  by (simp add: env_override_def)

lemma applyEnvOverrides_append:
  "applyEnvOverrides u (xs @ ys) raw = applyEnvOverrides u ys (applyEnvOverrides u xs raw)"
  by (simp add: applyEnvOverrides_def)

text \<open>
  The environment wins over the file: a key has the value of its last assignment in the environment,
  coerced, and otherwise the value of the file.
\<close>

theorem environment_wins:
  "map_of (applyEnvOverrides u environ raw) k =
     (case map_of (rev (List.map_filter (env_override u) environ)) k of Some v \<Rightarrow> Some v | None \<Rightarrow> map_of raw k)"
proof (induction environ rule: rev_induct)
  case Nil
  then show ?case by (simp add: applyEnvOverrides_def map_filter_def)
next
  case (snoc kv environ)
  then show ?case
    by (cases "env_override u kv")
       (auto simp: applyEnvOverrides_def map_filter_def update_conv' split: option.split)
qed

text \<open>
  A numeric text of the environment loses its spelling: two values that read as the same integer give
  the same configuration, whatever the key, so a password of digits is not kept as it was written.
\<close>

theorem numeric_text_lost:
  assumes "atoi v = Some n" "atoi w = Some n" "k \<noteq> []" "CHR ''='' \<notin> set k"
  shows "Load_config Y T u bytes (Some (pre @ (EnvPrefix @ k @ ''='' @ v) # post)) =
         Load_config Y T u bytes (Some (pre @ (EnvPrefix @ k @ ''='' @ w) # post))"
proof -
  have "applyEnvOverrides u (pre @ (EnvPrefix @ k @ ''='' @ v) # post) =
        applyEnvOverrides u (pre @ (EnvPrefix @ k @ ''='' @ w) # post)"
    using env_override_assign [OF assms(3,4), of u v] env_override_assign [OF assms(3,4), of u w] assms(1,2)
    by (intro ext) (simp add: applyEnvOverrides_def coerceEnvValue_int)
  then show ?thesis by (simp only: Load_config_def option.case)
qed

lemma numeric_text_lost_witness:
  "Load_config small_yaml plain_topics id [] (Some [''HC2M_MQTT_PASSWORD=0123'']) = Load_config small_yaml plain_topics id [] (Some [''HC2M_MQTT_PASSWORD=123''])"
  using numeric_text_lost [of "''0123''" 123 "''123''" "''MQTT_PASSWORD''" small_yaml plain_topics id "[]" "[]" "[]"]
  by (simp add: EnvPrefix_def) (simp add: atoi_def parse_int_def in_int64_def int64_min_def int64_max_def digit_val_def)

end
