(* ===== verification/Plane.thy ===== *)
theory Plane
  imports Go_Values Config
begin

text \<open>
  \<^verbatim>\<open>internal/haplane\<close>: what the daemon puts between itself and the publishing runtime of \<^verbatim>\<open>go-hamqtt\<close>: the
  quality of service, the transport that is supplied late and the one that routes the availability markers
  around the circuit breaker, the size check before a device document is published, the level of the
  \<open>connected\<close> marker across reconnects, and the snapshot window.

  The library is a parameter: its transports are records of functions over a world \<open>'w\<close>, its runtime is
  \<open>'r\<close> with the functions the code calls, and the documented behaviour the code relies on is
  \<open>runtime_laws\<close>. The snapshot window, which deliveries enter concurrently, is a step relation.
\<close>

section \<open>Quality of service\<close>

datatype pub_qos = QoSUnset | QoSAtMostOnce | QoSAtLeastOnce | QoSExactlyOnce

text \<open>\<open>None\<close> is the panic.\<close>

definition QoS :: "int \<Rightarrow> pub_qos option" where
  "QoS q = (if q = 0 then Some QoSAtMostOnce else if q = 1 then Some QoSAtLeastOnce
            else if q = 2 then Some QoSExactlyOnce else None)"

definition resolveWireQoS :: "(pub_qos \<Rightarrow> pub_qos \<Rightarrow> pub_qos) \<Rightarrow> (pub_qos \<Rightarrow> nat option) \<Rightarrow> pub_qos \<Rightarrow> nat option" where
  "resolveWireQoS Or Wire q = Wire (Or q QoSAtLeastOnce)"

text \<open>The configured level is one of the two that \<^verbatim>\<open>MQTT_QOS\<close> allows, and never the unset one.\<close>

lemma configured_qos:
  assumes "Load_config Y T u bytes env = Inr c"
  shows "QoS (QoSLevel c) \<in> {Some QoSAtMostOnce, Some QoSAtLeastOnce}"
proof -
  obtain c0 where "c = applyDefaults c0" and v: "Validate T c = []" using assms by (rule Load_config_Inr)
  from Validate_Nil(2) [OF v] have "QoSLevel c = 0 \<or> QoSLevel c = 1" by linarith
  then show ?thesis by (auto simp: QoS_def)
qed

section \<open>Transports\<close>

datatype 'e plane_error =
    TransportNotWired
  | DocumentTooLarge string "64 word" "32 word"
  | NilDocument
  | MarshalFailed string 'e
  | LibraryError 'e

record ('w, 'e) transport =
  trPublish :: "string \<Rightarrow> string \<Rightarrow> nat \<Rightarrow> bool \<Rightarrow> 'w \<Rightarrow> 'e plane_error option \<times> 'w"
  trSubscribe :: "string \<Rightarrow> nat \<Rightarrow> 'w \<Rightarrow> 'e plane_error option \<times> 'w"
  trUnsubscribe :: "string \<Rightarrow> 'w \<Rightarrow> 'e plane_error option \<times> 'w"

text \<open>The transport whose target is supplied after construction.\<close>

definition Wire_transport :: "('w, 'e) transport \<Rightarrow> ('w, 'e) transport option \<Rightarrow> ('w, 'e) transport option" where
  "Wire_transport tr d = Some tr"

definition transport_target :: "('w, 'e) transport option \<Rightarrow> 'e plane_error + ('w, 'e) transport" where
  "transport_target d = (case d of None \<Rightarrow> Inl TransportNotWired | Some tr \<Rightarrow> Inr tr)"

definition late_transport :: "('w, 'e) transport option \<Rightarrow> ('w, 'e) transport" where
  "late_transport d =
     \<lparr>trPublish = (\<lambda>topic payload qos retain w. case transport_target d of
         Inl err \<Rightarrow> (Some err, w) | Inr tr \<Rightarrow> trPublish tr topic payload qos retain w),
      trSubscribe = (\<lambda>topic qos w. case transport_target d of Inl err \<Rightarrow> (Some err, w) | Inr tr \<Rightarrow> trSubscribe tr topic qos w),
      trUnsubscribe = (\<lambda>topic w. case transport_target d of Inl err \<Rightarrow> (Some err, w) | Inr tr \<Rightarrow> trUnsubscribe tr topic w)\<rparr>"

definition BypassFor :: "string \<Rightarrow> ('w, 'e) transport \<Rightarrow> ('w, 'e) transport \<Rightarrow> ('w, 'e) transport" where
  "BypassFor marker gated direct =
     \<lparr>trPublish = (\<lambda>topic payload qos retain w.
        if topic = marker then trPublish direct topic payload qos retain w else trPublish gated topic payload qos retain w),
      trSubscribe = trSubscribe gated, trUnsubscribe = trUnsubscribe gated\<rparr>"

section \<open>The size of a document\<close>

definition publishOverhead :: "64 word" where "publishOverhead = 64"

definition PacketSize :: "string \<Rightarrow> int \<Rightarrow> 64 word" where
  "PacketSize topic payloadLen = word_of_int payloadLen + word_of_int (int (length topic)) + publishOverhead"

text \<open>
  \<open>limit\<close> is the hook \<^verbatim>\<open>BrokerMaxPacketSize\<close> with its answer, \<open>marshal\<close> the JSON encoder and \<open>topic_of\<close>
  the library's topic of a document.
\<close>

definition preflight ::
  "(32 word \<times> bool) option \<Rightarrow> ('b \<Rightarrow> 'e + string) \<Rightarrow> ('b \<Rightarrow> string) \<Rightarrow> ('b \<Rightarrow> string) \<Rightarrow> 'b \<Rightarrow> 'e plane_error option" where
  "preflight hook marshal node topic_of b = (case hook of
      None \<Rightarrow> None
    | Some (limit, known) \<Rightarrow>
        if \<not> known \<or> limit = 0 then None
        else (case marshal b of
            Inl err \<Rightarrow> Some (MarshalFailed (node b) err)
          | Inr payload \<Rightarrow>
              (let topic = topic_of b; size = PacketSize topic (int (length payload)) in
               if size \<le> ucast limit then None else Some (DocumentTooLarge topic size limit))))"

definition PublishBundle_plane ::
  "(32 word \<times> bool) option \<Rightarrow> ('b \<Rightarrow> 'e + string) \<Rightarrow> ('b \<Rightarrow> string) \<Rightarrow> ('b \<Rightarrow> string)
   \<Rightarrow> ('b \<Rightarrow> 'w \<Rightarrow> (bool \<times> 'e plane_error option) \<times> 'w) \<Rightarrow> 'b option \<Rightarrow> 'w \<Rightarrow> (bool \<times> 'e plane_error option) \<times> 'w" where
  "PublishBundle_plane hook marshal node topic_of runtime b w = (case b of
      None \<Rightarrow> ((False, Some NilDocument), w)
    | Some d \<Rightarrow> (case preflight hook marshal node topic_of d of
          Some err \<Rightarrow> ((False, Some err), w)
        | None \<Rightarrow> runtime d w))"

lemma PacketSize_exact:
  assumes "n + length topic + 64 < 2 ^ 63"
  shows "unat (PacketSize topic (int n)) = n + length topic + 64"
proof -
  have "PacketSize topic (int n) = (word_of_nat (n + length topic + 64) :: 64 word)"
    by (simp add: PacketSize_def publishOverhead_def)
  moreover have "n + length topic + 64 < 2 ^ LENGTH(64)" using assms by simp
  ultimately show ?thesis by (simp only: unsigned_of_nat take_bit_nat_eq_self_iff [THEN iffD2] of_nat_id)
qed

text \<open>
  The size check is exact and comes before anything is written: with a limit the broker named, a document
  reaches the runtime exactly when payload, topic and overhead fit into the limit, and otherwise the world is
  as it was; without a named limit every document reaches it.
\<close>

theorem document_measured:
  assumes "marshal d = Inr payload" and "length payload + length (topic_of d) + 64 < 2 ^ 63"
  shows "PublishBundle_plane hook marshal node topic_of runtime (Some d) w =
    (case hook of
       Some (limit, True) \<Rightarrow>
         (if limit = 0 \<or> length payload + length (topic_of d) + 64 \<le> unat limit then runtime d w
          else ((False, Some (DocumentTooLarge (topic_of d) (PacketSize (topic_of d) (int (length payload))) limit)), w))
     | _ \<Rightarrow> runtime d w)"
proof -
  have u: "unat (ucast limit :: 64 word) = unat limit" for limit :: "32 word"
    using unsigned_less [of limit, where ?'a = nat] by (simp add: unsigned_ucast_eq take_bit_nat_eq_self)
  have "PacketSize (topic_of d) (int (length payload)) \<le> ucast limit
      \<longleftrightarrow> length payload + length (topic_of d) + 64 \<le> unat (limit :: 32 word)" for limit
    by (simp add: word_le_nat_alt PacketSize_exact [OF assms(2)] u)
  with assms(1) show ?thesis
    by (auto simp: PublishBundle_plane_def preflight_def Let_def split: option.split bool.split)
qed

lemma document_measured_witness:
  "PublishBundle_plane (Some (100, True)) (Inr :: string \<Rightarrow> nat + string) id (\<lambda>_. ''homeassistant/device/hc_oven/config'')
     (\<lambda>d w. ((True, None), d # w)) (Some ''{}'') []
   = ((False, Some (DocumentTooLarge ''homeassistant/device/hc_oven/config''
        (PacketSize ''homeassistant/device/hc_oven/config'' 2) 100)), [])"
  using document_measured [where marshal = "Inr :: string \<Rightarrow> nat + string" and d = "''{}''" and payload = "''{}''"
      and topic_of = "\<lambda>_. ''homeassistant/device/hc_oven/config''" and hook = "Some (100, True)" and node = id
      and runtime = "\<lambda>d w. ((True, None), d # w)" and w = "[]"]
  by simp

section \<open>The state publisher\<close>

text \<open>
  The state publisher of the library works on a world \<open>'w\<close>: \<open>soShown\<close> is what the broker retains on a topic, and
  \<open>soSent\<close> what the publisher's gate remembers to have sent there. Its documented contract: publishing the value
  the gate remembers does nothing and is no error, any other publish that succeeds leaves the value with the
  broker and in the gate, an eviction leaves none, neither touches another topic; a replay puts into the gate only
  what it sent; and a reset forgets what the gate remembers and nothing else.
\<close>

record ('w, 'e) status_ops =
  soShown :: "'w \<Rightarrow> string \<Rightarrow> any option"
  soSent :: "'w \<Rightarrow> string \<Rightarrow> any option"
  soPublish :: "string \<Rightarrow> any \<Rightarrow> 'w \<Rightarrow> 'e option \<times> 'w"
  soEvict :: "string list \<Rightarrow> 'w \<Rightarrow> 'e option \<times> 'w"
  soRepublish :: "'w \<Rightarrow> (nat \<times> 'e option) \<times> 'w"
  soReset :: "'w \<Rightarrow> 'w"

definition publish_law :: "('w, 'e) status_ops \<Rightarrow> bool" where
  "publish_law P \<longleftrightarrow> (\<forall>t v w w'. soPublish P t v w = (None, w') \<longrightarrow>
     (if soSent P w t = Some v then soShown P w' = soShown P w \<and> soSent P w' = soSent P w
      else soShown P w' = (soShown P w)(t \<mapsto> v) \<and> soSent P w' = (soSent P w)(t \<mapsto> v)))"

definition evict_law :: "('w, 'e) status_ops \<Rightarrow> bool" where
  "evict_law P \<longleftrightarrow> (\<forall>ts w w'. soEvict P ts w = (None, w') \<longrightarrow>
     soShown P w' = (\<lambda>t. if t \<in> set ts then None else soShown P w t)
     \<and> soSent P w' = (\<lambda>t. if t \<in> set ts then None else soSent P w t))"

definition failure_law :: "('w, 'e) status_ops \<Rightarrow> bool" where
  "failure_law P \<longleftrightarrow>
     (\<forall>t v w w' e t'. soPublish P t v w = (Some e, w') \<longrightarrow> t' \<noteq> t \<longrightarrow>
        soShown P w' t' = soShown P w t' \<and> soSent P w' t' = soSent P w t')
   \<and> (\<forall>ts w w' e t'. soEvict P ts w = (Some e, w') \<longrightarrow> t' \<notin> set ts \<longrightarrow>
        soShown P w' t' = soShown P w t' \<and> soSent P w' t' = soSent P w t')"

definition replay_law :: "('w, 'e) status_ops \<Rightarrow> bool" where
  "replay_law P \<longleftrightarrow> (\<forall>w r w' t v. soRepublish P w = (r, w') \<longrightarrow> soSent P w' t = Some v \<longrightarrow>
     soShown P w' t = Some v \<or> soSent P w t = Some v \<and> soShown P w' t = soShown P w t)"

definition reset_law :: "('w, 'e) status_ops \<Rightarrow> bool" where
  "reset_law P \<longleftrightarrow> (\<forall>w. soSent P (soReset P w) = (\<lambda>_. None) \<and> soShown P (soReset P w) = soShown P w)"

definition status_laws :: "('w, 'e) status_ops \<Rightarrow> bool" where
  "status_laws P \<longleftrightarrow> publish_law P \<and> evict_law P \<and> failure_law P \<and> replay_law P \<and> reset_law P"

text \<open>What the gate remembers is what the broker has. A lost connection can make this false.\<close>

definition gate_true :: "('w, 'e) status_ops \<Rightarrow> 'w \<Rightarrow> bool" where
  "gate_true P w \<longleftrightarrow> (\<forall>t v. soSent P w t = Some v \<longrightarrow> soShown P w t = Some v)"

lemma status_published:
  assumes "status_laws P" and "soPublish P t v w = (None, w')"
  shows "if soSent P w t = Some v then soShown P w' = soShown P w \<and> soSent P w' = soSent P w
      else soShown P w' = (soShown P w)(t \<mapsto> v) \<and> soSent P w' = (soSent P w)(t \<mapsto> v)"
proof -
  have "publish_law P" using assms(1) by (simp only: status_laws_def)
  from this [unfolded publish_law_def, rule_format, OF assms(2)] show ?thesis .
qed

lemma status_evicted:
  assumes "status_laws P" and "soEvict P ts w = (None, w')"
  shows "soShown P w' = (\<lambda>t. if t \<in> set ts then None else soShown P w t)
     \<and> soSent P w' = (\<lambda>t. if t \<in> set ts then None else soSent P w t)"
proof -
  have "evict_law P" using assms(1) by (simp only: status_laws_def)
  from this [unfolded evict_law_def, rule_format, OF assms(2)] show ?thesis .
qed

lemma status_publish_other:
  assumes "status_laws P" and "soPublish P t v w = (e, w')" and "t' \<noteq> t"
  shows "soShown P w' t' = soShown P w t' \<and> soSent P w' t' = soSent P w t'"
proof (cases e)
  case None
  with status_published [OF assms(1), of t v w w'] assms(2,3) show ?thesis by (auto split: if_splits)
next
  case (Some x)
  have "failure_law P" using assms(1) by (simp only: status_laws_def)
  from this [unfolded failure_law_def, THEN conjunct1, rule_format, OF assms(2) [unfolded Some] assms(3)]
  show ?thesis .
qed

lemma status_evict_other:
  assumes "status_laws P" and "soEvict P ts w = (e, w')" and "t' \<notin> set ts"
  shows "soShown P w' t' = soShown P w t' \<and> soSent P w' t' = soSent P w t'"
proof (cases e)
  case None
  with status_evicted [OF assms(1), of ts w w'] assms(2,3) show ?thesis by simp
next
  case (Some x)
  have "failure_law P" using assms(1) by (simp only: status_laws_def)
  from this [unfolded failure_law_def, THEN conjunct2, rule_format, OF assms(2) [unfolded Some] assms(3)]
  show ?thesis .
qed

lemma replay_gate:
  assumes "status_laws P" and "gate_true P w" and "soRepublish P w = (r, w')"
  shows "gate_true P w'"
proof -
  have l: "replay_law P" using assms(1) by (simp only: status_laws_def)
  have "soShown P w' t = Some v" if "soSent P w' t = Some v" for t v
    using l [unfolded replay_law_def, rule_format, OF assms(3) that] assms(2) by (auto simp: gate_true_def)
  then show ?thesis by (simp add: gate_true_def)
qed

lemma reset_gate: "status_laws P \<Longrightarrow> gate_true P (soReset P w)"
  by (simp add: status_laws_def reset_law_def gate_true_def)

section \<open>The level of the availability marker\<close>

text \<open>
  The plane remembers the level last asked for, and \<^verbatim>\<open>Reconnect\<close> replaces the runtime. \<open>set_connected\<close> and
  \<open>announce_online\<close> are the runtime's operations, whose world includes the transport's failures, and
  \<open>marker\<close> is what the broker retains on the status topic.
\<close>

definition ConnectedBroker :: int where "ConnectedBroker = 1"

record 'r plane =
  plRuntime :: 'r
  plConnected :: int

record ('r, 'w, 'e) runtime_ops =
  rtNew :: 'r
  rtLevel :: "'r \<Rightarrow> int"
  rtMarker :: "'w \<Rightarrow> int"
  rtSetConnected :: "int \<Rightarrow> 'r \<Rightarrow> 'w \<Rightarrow> (bool \<times> 'e option) \<times> 'r \<times> 'w"
  rtAnnounceOnline :: "'r \<Rightarrow> 'w \<Rightarrow> 'e option \<times> 'r \<times> 'w"
  rtClose :: "'r \<Rightarrow> 'w \<Rightarrow> 'w"

definition New_plane :: "('r, 'w, 'e) runtime_ops \<Rightarrow> 'r plane" where
  "New_plane R = \<lparr>plRuntime = rtNew R, plConnected = ConnectedBroker\<rparr>"

text \<open>\<open>Reconnect\<close> swaps the runtime, closes the old one and opens the gate of the state publisher.\<close>

definition Reconnect_plane ::
  "('r, 'w, 'e) runtime_ops \<Rightarrow> ('w, 'e) status_ops \<Rightarrow> 'r plane \<Rightarrow> 'w \<Rightarrow> 'r plane \<times> 'w" where
  "Reconnect_plane R P p w = (p\<lparr>plRuntime := rtNew R\<rparr>, soReset P (rtClose R (plRuntime p) w))"

definition AnnounceOnline ::
  "('r, 'w, 'e) runtime_ops \<Rightarrow> 'r plane \<Rightarrow> 'w \<Rightarrow> 'e option \<times> 'r plane \<times> 'w" where
  "AnnounceOnline R p w =
     (let announce = (\<lambda>r w. case rtAnnounceOnline R r w of (err, r', w') \<Rightarrow> (err, p\<lparr>plRuntime := r'\<rparr>, w')) in
      if plConnected p \<noteq> ConnectedBroker
      then (case rtSetConnected R (plConnected p) (plRuntime p) w of
          ((changed, err), r', w') \<Rightarrow> if changed then (err, p\<lparr>plRuntime := r'\<rparr>, w') else announce r' w')
      else announce (plRuntime p) w)"

definition SetConnected ::
  "('r, 'w, 'e) runtime_ops \<Rightarrow> int \<Rightarrow> 'r plane \<Rightarrow> 'w \<Rightarrow> 'e option \<times> 'r plane \<times> 'w" where
  "SetConnected R level p w = (case rtSetConnected R level (plRuntime p) w of
     ((changed, err), r', w') \<Rightarrow> (err, p\<lparr>plConnected := level, plRuntime := r'\<rparr>, w'))"

text \<open>
  What the code relies on: a new runtime stands at the level of a reachable broker, a transition publishes its
  level, a repeat does nothing, and announcing publishes the level the runtime stands at.
\<close>

definition runtime_laws :: "('r, 'w, 'e) runtime_ops \<Rightarrow> bool" where
  "runtime_laws R \<longleftrightarrow> rtLevel R (rtNew R) = ConnectedBroker
     \<and> (\<forall>l r w changed err r' w'. rtSetConnected R l r w = ((changed, err), r', w') \<longrightarrow>
          (changed \<longleftrightarrow> l \<noteq> rtLevel R r) \<and> (changed \<and> err = None \<longrightarrow> rtMarker R w' = l) \<and> (\<not> changed \<longrightarrow> r' = r \<and> w' = w))
     \<and> (\<forall>r w r' w'. rtAnnounceOnline R r w = (None, r', w') \<longrightarrow> rtMarker R w' = rtLevel R r)"

text \<open>What happens to the plane; \<open>Dropped w\<close> is whatever the connection and the will do to the world.\<close>

datatype 'w plane_event = Asked int | Dropped 'w | Reconnected | Announced

fun plane_next :: "('r, 'w, 'e) runtime_ops \<Rightarrow> ('w, 'e) status_ops \<Rightarrow> 'w plane_event \<Rightarrow> 'r plane \<times> 'w \<Rightarrow> 'r plane \<times> 'w" where
  "plane_next R P (Asked level) (p, w) = snd (SetConnected R level p w)"
| "plane_next R P (Dropped w') (p, w) = (p, w')"
| "plane_next R P Reconnected (p, w) = Reconnect_plane R P p w"
| "plane_next R P Announced (p, w) = snd (AnnounceOnline R p w)"

definition last_asked :: "'w plane_event list \<Rightarrow> int" where
  "last_asked es = last (ConnectedBroker # List.map_filter (\<lambda>e. case e of Asked l \<Rightarrow> Some l | _ \<Rightarrow> None) es)"

lemma AnnounceOnline_level: "plConnected (fst (snd (AnnounceOnline R p w))) = plConnected p"
  by (simp add: AnnounceOnline_def Let_def split: prod.split)

lemma level_remembered:
  "plConnected (fst (fold (plane_next R P) es (New_plane R, w0))) = last_asked es"
proof (induction es rule: rev_induct)
  case Nil
  then show ?case by (simp add: New_plane_def last_asked_def List.map_filter_simps)
next
  case (snoc e es)
  obtain p w where s: "fold (plane_next R P) es (New_plane R, w0) = (p, w)" by fastforce
  have "plConnected p = last_asked es" using snoc s by simp
  then show ?case using s
    by (cases e) (simp_all add: last_asked_def List.map_filter_def SetConnected_def Reconnect_plane_def
        AnnounceOnline_level split: prod.split)
qed

text \<open>
  A reconnect does not forget the level: after any history of level changes, failed publishes, drops and
  earlier reconnects, a reconnect whose announcement succeeds leaves exactly the level last asked for on the
  broker, although the runtime is new and the will has overwritten the marker.
\<close>

theorem level_survives_reconnect:
  assumes "runtime_laws R" and "fold (plane_next R P) es (New_plane R, w0) = (p, w)"
    and "Reconnect_plane R P p v0 = (p1, w')" and "AnnounceOnline R p1 w' = (None, p', w'')"
  shows "rtMarker R w'' = last_asked es"
proof -
  have l: "plConnected p = last_asked es" using level_remembered [of R P es w0] assms(2) by simp
  have p1: "p1 = p\<lparr>plRuntime := rtNew R\<rparr>" using assms(3) by (simp add: Reconnect_plane_def)
  obtain changed err r1 w1 where t: "rtSetConnected R (plConnected p) (rtNew R) w' = ((changed, err), r1, w1)"
    by (metis surj_pair)
  have laws: "changed \<longleftrightarrow> plConnected p \<noteq> ConnectedBroker" "changed \<and> err = None \<Longrightarrow> rtMarker R w1 = plConnected p"
      "rtAnnounceOnline R (rtNew R) v = (None, r2, v2) \<Longrightarrow> rtMarker R v2 = ConnectedBroker" for v r2 v2
    using assms(1) t unfolding runtime_laws_def by metis+
  show ?thesis
  proof (cases "plConnected p = ConnectedBroker")
    case True
    then show ?thesis using assms(4) laws(3) l p1
      by (auto simp: AnnounceOnline_def split: prod.splits)
  next
    case False
    then show ?thesis using assms(4) laws(1,2) t l p1 by (simp add: AnnounceOnline_def)
  qed
qed

text \<open>A runtime whose publishes all succeed, over a world that is the retained marker alone.\<close>

definition plain_runtime :: "(int, int, nat) runtime_ops" where
  "plain_runtime = \<lparr>rtNew = 1, rtLevel = id, rtMarker = id,
     rtSetConnected = (\<lambda>l r w. if l = r then ((False, None), r, w) else ((True, None), l, l)),
     rtAnnounceOnline = (\<lambda>r w. (None, r, r)), rtClose = (\<lambda>r w. w)\<rparr>"

definition no_status :: "(int, nat) status_ops" where
  "no_status = \<lparr>soShown = (\<lambda>_ _. None), soSent = (\<lambda>_ _. None), soPublish = (\<lambda>t v w. (Some 0, w)), soEvict = (\<lambda>ts w. (None, w)),
     soRepublish = (\<lambda>w. ((0, None), w)), soReset = id\<rparr>"

lemma plain_runtime_laws: "runtime_laws plain_runtime"
  by (auto simp: runtime_laws_def plain_runtime_def ConnectedBroker_def split: if_splits)

lemma level_survives_reconnect_witness:
  "\<exists>p1 w' p' w''. Reconnect_plane plain_runtime no_status
       (fst (fold (plane_next plain_runtime no_status) [Asked 2, Dropped 0] (New_plane plain_runtime, 1))) 0 = (p1, w')
     \<and> AnnounceOnline plain_runtime p1 w' = (None, p', w'') \<and> rtMarker plain_runtime w'' = 2"
proof -
  let ?s = "fold (plane_next plain_runtime no_status) [Asked 2, Dropped 0] (New_plane plain_runtime, 1)"
  obtain p1 w' where r: "Reconnect_plane plain_runtime no_status (fst ?s) 0 = (p1, w')" by fastforce
  have "fst (case Reconnect_plane plain_runtime no_status (fst ?s) 0 of (p1, w') \<Rightarrow> AnnounceOnline plain_runtime p1 w') = None"
    by code_simp
  then obtain p' w'' where a: "AnnounceOnline plain_runtime p1 w' = (None, p', w'')"
    unfolding r by (cases "AnnounceOnline plain_runtime p1 w'") auto
  from level_survives_reconnect [OF plain_runtime_laws surjective_pairing [of ?s] r a] r a
  show ?thesis by (simp add: last_asked_def List.map_filter_simps)
qed

end
