(* ===== verification/Snapshot_Window.thy ===== *)
theory Snapshot_Window
  imports Prelude
begin

text \<open>
  The snapshot window of \<^verbatim>\<open>internal/haplane/plane.go\<close>: filters are subscribed, deliveries are handed to the
  caller's \<open>visit\<close> until it has seen enough, the time is up or the context ends, and the subscriptions are
  taken down. Deliveries run on the transport's goroutines, so the window is a step relation over all
  interleavings; a delivery is handed in while a subscription is installed, but may wait arbitrarily long for
  the mutex. A delivery is its topic, its payload and its retain flag; \<open>visit\<close> answers from what it has seen.
\<close>

section \<open>The window\<close>

type_synonym delivery = "string \<times> string \<times> bool"

datatype win_error = ContextEnded | SubscribeFailed string

text \<open>\<open>Subscribing\<close> and \<open>Releasing\<close> hold the filters still to come, \<open>Releasing\<close> also the filter that was refused.\<close>

datatype win_phase =
    Subscribing "string list"
  | Collecting
  | Woken
  | Releasing "string list" "string option"
  | Returned "win_error option"

record window =
  wnPhase :: win_phase
  wnInstalled :: "string list"
  wnSubscribed :: "string list"
  wnReleased :: "string list"
  wnCancelled :: bool
  wnClosed :: bool
  wnComplete :: bool
  wnWaiting :: "delivery list"
  wnVisiting :: "delivery option"
  wnVisits :: "delivery list"

definition window0 :: "string list \<Rightarrow> window" where
  "window0 filters = \<lparr>wnPhase = Subscribing filters, wnInstalled = [], wnSubscribed = [], wnReleased = [], wnCancelled = False,
     wnClosed = False, wnComplete = False, wnWaiting = [], wnVisiting = None, wnVisits = []\<rparr>"

definition gated_in :: "bool \<Rightarrow> delivery \<Rightarrow> window \<Rightarrow> window" where
  "gated_in retainedOnly d s = (case d of (topic, payload, retained) \<Rightarrow>
     if payload = [] \<or> retainedOnly \<and> \<not> retained then s else s\<lparr>wnWaiting := wnWaiting s @ [d]\<rparr>)"

definition window_result :: "string option \<Rightarrow> bool \<Rightarrow> win_error option" where
  "window_result refused cancelled = (case refused of
      Some f \<Rightarrow> Some (SubscribeFailed f)
    | None \<Rightarrow> if cancelled then Some ContextEnded else None)"

inductive win_step :: "bool \<Rightarrow> (delivery list \<Rightarrow> delivery \<Rightarrow> bool) \<Rightarrow> window \<Rightarrow> window \<Rightarrow> bool"
  for retainedOnly visit where
  subscribe: "wnPhase s = Subscribing (f # fs) \<Longrightarrow>
    win_step retainedOnly visit s (s\<lparr>wnPhase := Subscribing fs, wnInstalled := wnInstalled s @ [f], wnSubscribed := wnSubscribed s @ [f]\<rparr>)"
| refused: "wnPhase s = Subscribing (f # fs) \<Longrightarrow>
    win_step retainedOnly visit s (s\<lparr>wnPhase := Releasing (wnSubscribed s) (Some f)\<rparr>)"
| subscribed: "wnPhase s = Subscribing [] \<Longrightarrow> win_step retainedOnly visit s (s\<lparr>wnPhase := Collecting\<rparr>)"
| arrive: "wnInstalled s \<noteq> [] \<Longrightarrow> win_step retainedOnly visit s (gated_in retainedOnly d s)"
| enter: "wnWaiting s = ds @ d # ds' \<Longrightarrow> wnVisiting s = None \<Longrightarrow> \<not> wnClosed s \<Longrightarrow>
    win_step retainedOnly visit s (s\<lparr>wnWaiting := ds @ ds', wnVisiting := Some d\<rparr>)"
| turned_away: "wnWaiting s = ds @ d # ds' \<Longrightarrow> wnVisiting s = None \<Longrightarrow> wnClosed s \<Longrightarrow>
    win_step retainedOnly visit s (s\<lparr>wnWaiting := ds @ ds'\<rparr>)"
| visited: "wnVisiting s = Some d \<Longrightarrow>
    win_step retainedOnly visit s (s\<lparr>wnVisiting := None, wnVisits := wnVisits s @ [d],
       wnComplete := (wnComplete s \<or> visit (wnVisits s) d)\<rparr>)"
| cancelled: "win_step retainedOnly visit s (s\<lparr>wnCancelled := True\<rparr>)"
| completed: "wnPhase s = Collecting \<Longrightarrow> wnComplete s \<or> wnCancelled s \<Longrightarrow> win_step retainedOnly visit s (s\<lparr>wnPhase := Woken\<rparr>)"
| timer: "wnPhase s = Collecting \<Longrightarrow> win_step retainedOnly visit s (s\<lparr>wnPhase := Woken\<rparr>)"
| close: "wnPhase s = Woken \<Longrightarrow> wnVisiting s = None \<Longrightarrow>
    win_step retainedOnly visit s (s\<lparr>wnClosed := True, wnPhase := Releasing (wnSubscribed s) None\<rparr>)"
| release: "wnPhase s = Releasing (f # fs) r \<Longrightarrow>
    win_step retainedOnly visit s (s\<lparr>wnPhase := Releasing fs r, wnReleased := wnReleased s @ [f],
       wnInstalled := (if accepted then remove1 f (wnInstalled s) else wnInstalled s)\<rparr>)"
| return: "wnPhase s = Releasing [] r \<Longrightarrow>
    win_step retainedOnly visit s (s\<lparr>wnPhase := Returned (window_result r (wnCancelled s))\<rparr>)"

section \<open>What holds of every window\<close>

fun phase_ok :: "string list \<Rightarrow> window \<Rightarrow> win_phase \<Rightarrow> bool" where
  "phase_ok filters s (Subscribing fs) \<longleftrightarrow> wnSubscribed s @ fs = filters \<and> wnReleased s = [] \<and> \<not> wnClosed s"
| "phase_ok filters s Collecting \<longleftrightarrow> wnSubscribed s = filters \<and> wnReleased s = [] \<and> \<not> wnClosed s"
| "phase_ok filters s Woken \<longleftrightarrow> wnSubscribed s = filters \<and> wnReleased s = [] \<and> \<not> wnClosed s"
| "phase_ok filters s (Releasing fs None) \<longleftrightarrow> wnReleased s @ fs = filters \<and> wnClosed s"
| "phase_ok filters s (Releasing fs (Some f)) \<longleftrightarrow> (\<exists>rest. filters = wnReleased s @ fs @ f # rest) \<and> \<not> wnClosed s"
| "phase_ok filters s (Returned (Some (SubscribeFailed f))) \<longleftrightarrow> (\<exists>rest. filters = wnReleased s @ f # rest) \<and> \<not> wnClosed s"
| "phase_ok filters s (Returned (Some ContextEnded)) \<longleftrightarrow> wnReleased s = filters \<and> wnClosed s \<and> wnCancelled s"
| "phase_ok filters s (Returned None) \<longleftrightarrow> wnReleased s = filters \<and> wnClosed s"

definition deliveries :: "window \<Rightarrow> delivery list" where
  "deliveries s = wnWaiting s @ (case wnVisiting s of None \<Rightarrow> [] | Some d \<Rightarrow> [d]) @ wnVisits s"

definition window_ok :: "string list \<Rightarrow> bool \<Rightarrow> window \<Rightarrow> bool" where
  "window_ok filters retainedOnly s \<longleftrightarrow> phase_ok filters s (wnPhase s)
     \<and> (wnClosed s \<longrightarrow> wnVisiting s = None)
     \<and> (\<forall>(topic, payload, retained)\<in>set (deliveries s). payload \<noteq> [] \<and> (retainedOnly \<longrightarrow> retained))"

lemma phase_ok_cong:
  assumes "wnSubscribed t = wnSubscribed s" "wnReleased t = wnReleased s" "wnClosed t = wnClosed s" "wnCancelled s \<longrightarrow> wnCancelled t"
    and "phase_ok filters s ph"
  shows "phase_ok filters t ph"
  using assms by (cases "(filters, s, ph)" rule: phase_ok.cases) auto

lemma window_ok_start: "window_ok filters ro (window0 filters)"
  by (simp add: window_ok_def window0_def deliveries_def)

lemma window_ok_step:
  assumes "win_step ro visit s t" and "window_ok filters ro s"
  shows "window_ok filters ro t"
  using assms
proof cases
  case (arrive d)
  moreover have "phase_ok filters (s\<lparr>wnWaiting := wnWaiting s @ [d]\<rparr>) (wnPhase s)"
    by (rule phase_ok_cong [of _ s]) (use assms(2) in \<open>simp_all add: window_ok_def\<close>)
  ultimately show ?thesis using assms(2) by (auto simp: gated_in_def window_ok_def deliveries_def split: prod.split)
next
  case (enter ds d ds')
  moreover have "phase_ok filters (s\<lparr>wnWaiting := ds @ ds', wnVisiting := Some d\<rparr>) (wnPhase s)"
    by (rule phase_ok_cong [of _ s]) (use assms(2) in \<open>simp_all add: window_ok_def\<close>)
  ultimately show ?thesis using assms(2) by (auto simp: window_ok_def deliveries_def)
next
  case (turned_away ds d ds')
  moreover have "phase_ok filters (s\<lparr>wnWaiting := ds @ ds'\<rparr>) (wnPhase s)"
    by (rule phase_ok_cong [of _ s]) (use assms(2) in \<open>simp_all add: window_ok_def\<close>)
  ultimately show ?thesis using assms(2) by (auto simp: window_ok_def deliveries_def)
next
  case (visited d)
  moreover have "phase_ok filters t (wnPhase s)"
    by (rule phase_ok_cong [of _ s]) (use visited assms(2) in \<open>simp_all add: window_ok_def\<close>)
  ultimately show ?thesis using assms(2) by (auto simp: window_ok_def deliveries_def)
next
  case cancelled
  moreover have "phase_ok filters (s\<lparr>wnCancelled := True\<rparr>) (wnPhase s)"
    by (rule phase_ok_cong [of _ s]) (use assms(2) in \<open>simp_all add: window_ok_def\<close>)
  ultimately show ?thesis using assms(2) by (auto simp: window_ok_def deliveries_def)
next
  case (release f fs r accepted)
  with assms(2) show ?thesis by (cases r) (auto simp: window_ok_def deliveries_def)
next
  case (return r)
  with assms(2) show ?thesis by (cases r) (auto simp: window_ok_def deliveries_def window_result_def)
qed (auto simp: window_ok_def deliveries_def)

interpretation window_steps: step_invariant "\<lambda>s. s = window0 filters" "win_step ro visit" "window_ok filters ro" for filters ro visit
  by unfold_locales (auto intro: window_ok_start window_ok_step)

lemma window_ok_reachable: "(win_step ro visit)\<^sup>*\<^sup>* (window0 filters) s \<Longrightarrow> window_ok filters ro s"
  by (erule window_steps.reachable_inv) (rule refl)

lemma closed_step:
  assumes "win_step ro visit s t" "wnClosed s" "wnVisiting s = None"
  shows "wnClosed t \<and> wnVisiting t = None \<and> wnVisits t = wnVisits s"
  using assms by cases (auto simp: gated_in_def split: prod.split)

lemma closed_steps:
  assumes "(win_step ro visit)\<^sup>*\<^sup>* s t" "wnClosed s" "wnVisiting s = None"
  shows "wnVisits t = wnVisits s"
proof -
  have "wnClosed t \<and> wnVisiting t = None \<and> wnVisits t = wnVisits s"
    using assms by (induction rule: rtranclp_induct) (auto dest: closed_step)
  then show ?thesis by simp
qed

text \<open>
  C36. A window that got all its subscriptions has, when it returns, released every one of them, and from then
  on the caller's \<open>visit\<close> is never run again, however late a delivery that was already under way gets the
  mutex and even if the broker refused an unsubscription; what was visited was not empty and, where asked for,
  retained. An error is reported exactly for a cancelled context.
\<close>

theorem window_closed:
  assumes "(win_step ro visit)\<^sup>*\<^sup>* (window0 filters) s" and "wnPhase s = Returned r" and "\<forall>f. r \<noteq> Some (SubscribeFailed f)"
  shows "wnReleased s = filters \<and> (\<forall>t. (win_step ro visit)\<^sup>*\<^sup>* s t \<longrightarrow> wnVisits t = wnVisits s)
    \<and> (\<forall>(topic, payload, retained)\<in>set (wnVisits s). payload \<noteq> [] \<and> (ro \<longrightarrow> retained))
    \<and> (r \<noteq> None \<longrightarrow> wnCancelled s)"
proof -
  have ok: "window_ok filters ro s" using assms(1) by (rule window_ok_reachable)
  with assms(2,3) have "wnReleased s = filters \<and> wnClosed s \<and> (r \<noteq> None \<longrightarrow> wnCancelled s)"
    by (cases r; cases "the r") (auto simp: window_ok_def)
  moreover from ok calculation have "wnVisiting s = None" by (simp add: window_ok_def)
  ultimately show ?thesis using ok closed_steps by (auto simp: window_ok_def deliveries_def)
qed

text \<open>Every window can end: from each of its states a return can be reached without the help of the broker.\<close>

definition can_return :: "bool \<Rightarrow> (delivery list \<Rightarrow> delivery \<Rightarrow> bool) \<Rightarrow> window \<Rightarrow> bool" where
  "can_return ro visit s \<longleftrightarrow> (\<exists>t r. (win_step ro visit)\<^sup>*\<^sup>* s t \<and> wnPhase t = Returned r)"

lemma can_return_step: "win_step ro visit s t \<Longrightarrow> can_return ro visit t \<Longrightarrow> can_return ro visit s"
  unfolding can_return_def by (meson converse_rtranclp_into_rtranclp)

lemma returned_can_return: "wnPhase s = Returned r \<Longrightarrow> can_return ro visit s"
  unfolding can_return_def by blast

lemma releasing_can_return: "wnPhase s = Releasing fs r \<Longrightarrow> can_return ro visit s"
proof (induction fs arbitrary: s)
  case Nil
  show ?case by (rule can_return_step [OF win_step.return [OF Nil]], rule returned_can_return) simp
next
  case (Cons f fs)
  show ?case by (rule can_return_step [OF win_step.release [OF Cons.prems, of _ _ True]], rule Cons.IH) simp
qed

lemma idle_can_return:
  assumes "wnPhase t = Woken" "wnVisiting t = None"
  shows "can_return ro visit t"
  by (rule can_return_step [OF win_step.close [OF assms]], rule releasing_can_return) simp

lemma woken_can_return: "wnPhase s = Woken \<Longrightarrow> can_return ro visit s"
proof (cases "wnVisiting s")
  case (Some d)
  assume "wnPhase s = Woken"
  then show ?thesis by (intro can_return_step [OF win_step.visited [OF Some]] idle_can_return) simp_all
qed (rule idle_can_return)

lemma collecting_can_return:
  assumes "wnPhase s = Collecting"
  shows "can_return ro visit s"
  by (rule can_return_step [OF win_step.timer [OF assms]], rule woken_can_return) simp

theorem window_ends: "can_return ro visit s"
proof (cases "wnPhase s")
  case (Subscribing fs)
  show ?thesis
  proof (cases fs)
    case Nil
    with Subscribing have "wnPhase s = Subscribing []" by simp
    then show ?thesis by (rule can_return_step [OF win_step.subscribed]) (rule collecting_can_return, simp)
  next
    case (Cons f fs')
    with Subscribing have "wnPhase s = Subscribing (f # fs')" by simp
    then show ?thesis by (rule can_return_step [OF win_step.refused]) (rule releasing_can_return, simp)
  qed
qed (rule collecting_can_return woken_can_return releasing_can_return returned_can_return; assumption)+

section \<open>Two runs\<close>

abbreviation win_at :: "win_phase \<Rightarrow> string list \<Rightarrow> string list \<Rightarrow> string list \<Rightarrow> bool \<Rightarrow> bool \<Rightarrow> delivery list
    \<Rightarrow> delivery option \<Rightarrow> delivery list \<Rightarrow> window" where
  "win_at ph inst sub rel shut full waiting visiting visits \<equiv> \<lparr>wnPhase = ph, wnInstalled = inst, wnSubscribed = sub,
     wnReleased = rel, wnCancelled = False, wnClosed = shut, wnComplete = full, wnWaiting = waiting,
     wnVisiting = visiting, wnVisits = visits\<rparr>"

lemma to_state: "(win_step ro visit)\<^sup>*\<^sup>* s t \<Longrightarrow> win_step ro visit t t' \<Longrightarrow> t' = t'' \<Longrightarrow> (win_step ro visit)\<^sup>*\<^sup>* s t''"
  by (simp add: rtranclp.rtrancl_into_rtrancl)

definition late_message :: delivery where "late_message = (''t'', ''x'', True)"

text \<open>A window with one filter: a delivery is visited and ends it, and the broker refuses the unsubscription.\<close>

definition one_filter_done :: window where
  "one_filter_done = win_at (Returned None) [''a''] [''a''] [''a''] True True [] None [late_message]"

lemma one_filter_reachable: "(win_step True (\<lambda>_ _. True))\<^sup>*\<^sup>* (window0 [''a'']) one_filter_done"
proof -
  let ?R = "(win_step True (\<lambda>_ _. True))\<^sup>*\<^sup>* (window0 [''a''])" and ?d = late_message
  have "?R (win_at (Subscribing [''a'']) [] [] [] False False [] None [])" by (simp add: window0_def)
  then have "?R (win_at (Subscribing []) [''a''] [''a''] [] False False [] None [])"
    by (rule to_state [OF _ win_step.subscribe]) simp_all
  then have "?R (win_at Collecting [''a''] [''a''] [] False False [] None [])"
    by (rule to_state [OF _ win_step.subscribed]) simp_all
  then have "?R (win_at Collecting [''a''] [''a''] [] False False [?d] None [])"
    by (rule to_state [OF _ win_step.arrive [where d = ?d]]) (simp_all add: gated_in_def late_message_def)
  then have "?R (win_at Collecting [''a''] [''a''] [] False False [] (Some ?d) [])"
    by (rule to_state [OF _ win_step.enter [where ds = "[]" and d = ?d and ds' = "[]"]]) simp_all
  then have "?R (win_at Collecting [''a''] [''a''] [] False True [] None [?d])"
    by (rule to_state [OF _ win_step.visited [where d = ?d]]) simp_all
  then have "?R (win_at Woken [''a''] [''a''] [] False True [] None [?d])"
    by (rule to_state [OF _ win_step.completed]) simp_all
  then have "?R (win_at (Releasing [''a''] None) [''a''] [''a''] [] True True [] None [?d])"
    by (rule to_state [OF _ win_step.close]) simp_all
  then have "?R (win_at (Releasing [] None) [''a''] [''a''] [''a''] True True [] None [?d])"
    by (rule to_state [OF _ win_step.release [where accepted = False and f = "''a''"]]) simp_all
  then show ?thesis unfolding one_filter_done_def
    by (rule to_state [OF _ win_step.return [where r = None]]) (simp_all add: window_result_def)
qed

lemma window_closed_witness:
  "wnReleased one_filter_done = [''a''] \<and> wnVisits one_filter_done = [late_message]
     \<and> {wnVisits t | t. (win_step True (\<lambda>_ _. True))\<^sup>*\<^sup>* one_filter_done t} = {[late_message]}"
proof -
  have ph: "wnPhase one_filter_done = Returned None" and v: "wnVisits one_filter_done = [late_message]"
    by (simp_all add: one_filter_done_def)
  let ?R = "(win_step True (\<lambda>_ _. True))\<^sup>*\<^sup>* one_filter_done"
  have c: "wnReleased one_filter_done = [''a'']" "\<forall>t. ?R t \<longrightarrow> wnVisits t = [late_message]"
    using window_closed [OF one_filter_reachable ph] by (simp_all add: v)
  then have "{wnVisits t | t. ?R t} \<subseteq> {[late_message]}" by blast
  moreover have "[late_message] \<in> {wnVisits t | t. ?R t}"
    unfolding mem_Collect_eq by (rule exI [of _ one_filter_done]) (simp add: v)
  ultimately show ?thesis using c(1) v by blast
qed

text \<open>
  The promise does not hold for a window that was refused a subscription: it returns without being closed,
  so a delivery of an earlier filter that was already under way runs \<open>visit\<close> after the return.
\<close>

theorem refused_window_visits:
  "\<exists>s t. (win_step ro visit)\<^sup>*\<^sup>* (window0 [''a'', ''b'']) s \<and> wnPhase s = Returned (Some (SubscribeFailed ''b''))
     \<and> wnInstalled s = [] \<and> wnVisits s = [] \<and> (win_step ro visit)\<^sup>*\<^sup>* s t \<and> wnVisits t = [late_message]"
proof -
  let ?R = "(win_step ro visit)\<^sup>*\<^sup>*" and ?w = "window0 [''a'', ''b'']" and ?d = late_message and ?r = "Returned (Some (SubscribeFailed ''b''))"
  let ?c = "visit [] ?d" and ?s = "win_at (Returned (Some (SubscribeFailed ''b''))) [] [''a''] [''a''] False False [late_message] None []"
  have "?R ?w (win_at (Subscribing [''a'', ''b'']) [] [] [] False False [] None [])" by (simp add: window0_def)
  then have "?R ?w (win_at (Subscribing [''b'']) [''a''] [''a''] [] False False [] None [])"
    by (rule to_state [OF _ win_step.subscribe]) simp_all
  then have "?R ?w (win_at (Subscribing [''b'']) [''a''] [''a''] [] False False [?d] None [])"
    by (rule to_state [OF _ win_step.arrive [where d = ?d]]) (simp_all add: gated_in_def late_message_def)
  then have "?R ?w (win_at (Releasing [''a''] (Some ''b'')) [''a''] [''a''] [] False False [?d] None [])"
    by (rule to_state [OF _ win_step.refused]) simp_all
  then have "?R ?w (win_at (Releasing [] (Some ''b'')) [] [''a''] [''a''] False False [?d] None [])"
    by (rule to_state [OF _ win_step.release [where accepted = True and f = "''a''"]]) simp_all
  then have r: "?R ?w ?s" by (rule to_state [OF _ win_step.return [where r = "Some ''b''"]]) (simp_all add: window_result_def)
  have "?R ?s ?s" by simp
  then have "?R ?s (win_at ?r [] [''a''] [''a''] False False [] (Some ?d) [])"
    by (rule to_state [OF _ win_step.enter [where ds = "[]" and d = ?d and ds' = "[]"]]) simp_all
  then have v: "?R ?s (win_at ?r [] [''a''] [''a''] False ?c [] None [?d])"
    by (rule to_state [OF _ win_step.visited [where d = ?d]]) simp_all
  from r v show ?thesis by (intro exI [of _ ?s] exI [of _ "win_at ?r [] [''a''] [''a''] False ?c [] None [?d]"]) simp
qed

end
