(* ===== verification/Plane_Status.thy ===== *)
theory Plane_Status
  imports Plane Snapshot_Window Prelude
begin

text \<open>
  The status items of \<^verbatim>\<open>internal/haplane/plane.go\<close>: publishing a value or evicting an item, replaying all of
  them on a new connection, and the reader-writer lock that keeps the replay apart from the others.

  The state publisher of \<^verbatim>\<open>go-hamqtt\<close> is the record \<open>status_ops\<close> of theory \<open>Plane\<close> with its laws \<open>status_laws\<close>,
  the gate that suppresses an unchanged value among them.
\<close>

section \<open>The operations\<close>

definition PublishStatus :: "('w, 'e) status_ops \<Rightarrow> string \<Rightarrow> any \<Rightarrow> 'w \<Rightarrow> 'e option \<times> 'w" where
  "PublishStatus P topic v w = (if v = VNil then soEvict P [topic] w else soPublish P topic v w)"

definition RepublishStatus :: "('w, 'e) status_ops \<Rightarrow> 'w \<Rightarrow> (nat \<times> 'e option) \<times> 'w" where
  "RepublishStatus P w = soRepublish P w"

definition Evict :: "('w, 'e) status_ops \<Rightarrow> string list \<Rightarrow> 'w \<Rightarrow> 'e option \<times> 'w" where
  "Evict P topics w = soEvict P topics w"

text \<open>What a value leaves on its topic.\<close>

definition shown_value :: "any \<Rightarrow> any option" where
  "shown_value v = (if v = VNil then None else Some v)"

lemma PublishStatus_other:
  assumes "status_laws P" and "PublishStatus P t v w = (e, w')" and "t' \<noteq> t"
  shows "soShown P w' t' = soShown P w t' \<and> soSent P w' t' = soSent P w t'"
  using assms status_publish_other [OF assms(1), of t v w e w'] status_evict_other [OF assms(1), of "[t]" w e w']
  by (auto simp: PublishStatus_def split: if_splits)

text \<open>A publish leaves its value, when what the gate remembers is what the broker has, and keeps that so.\<close>

lemma PublishStatus_ok:
  assumes "status_laws P" and "gate_true P w" and "PublishStatus P t v w = (None, w')"
  shows "soShown P w' t = shown_value v \<and> gate_true P w'"
proof (cases "v = VNil")
  case True
  then have "soEvict P [t] w = (None, w')" using assms(3) by (simp add: PublishStatus_def)
  from status_evicted [OF assms(1) this] assms(2) True show ?thesis by (auto simp: gate_true_def shown_value_def)
next
  case False
  then have "soPublish P t v w = (None, w')" using assms(3) by (simp add: PublishStatus_def)
  from status_published [OF assms(1) this] assms(2) False show ?thesis
    by (auto simp: gate_true_def shown_value_def split: if_splits)
qed

text \<open>A sequence of publishes, each logged and forgotten when it fails; the flag says whether all succeeded.\<close>

fun publish_items :: "('w, 'e) status_ops \<Rightarrow> (string \<times> any) list \<Rightarrow> 'w \<Rightarrow> bool \<times> 'w" where
  "publish_items P [] w = (True, w)"
| "publish_items P ((t, v) # ms) w =
     (case PublishStatus P t v w of (e, w1) \<Rightarrow> (case publish_items P ms w1 of (ok, w2) \<Rightarrow> (e = None \<and> ok, w2)))"

lemma publish_items_other:
  assumes "status_laws P" and "publish_items P ms w = (ok, w')" and "t \<notin> fst ` set ms"
  shows "soShown P w' t = soShown P w t"
  using assms(2,3)
proof (induction ms arbitrary: w ok w')
  case Nil
  then show ?case by simp
next
  case (Cons m ms)
  obtain t1 v1 where m: "m = (t1, v1)" by fastforce
  obtain e w1 where p: "PublishStatus P t1 v1 w = (e, w1)" by fastforce
  obtain ok1 w2 where r: "publish_items P ms w1 = (ok1, w2)" by fastforce
  have "soShown P w2 t = soShown P w1 t" using Cons.IH [OF r] Cons.prems(2) by simp
  moreover have "soShown P w1 t = soShown P w t"
    using PublishStatus_other [OF assms(1) p] Cons.prems(2) m by simp
  ultimately show ?case using Cons.prems(1) m p r by simp
qed

lemma publish_items_gate:
  "status_laws P \<Longrightarrow> gate_true P w \<Longrightarrow> publish_items P ms w = (True, w') \<Longrightarrow> gate_true P w'"
proof (induction ms arbitrary: w)
  case (Cons m ms)
  then show ?case using PublishStatus_ok [OF Cons.prems(1,2)] by (cases m) (auto split: prod.splits)
qed simp

text \<open>When all succeed, a topic shows the last value sent to it.\<close>

lemma publish_items_last:
  assumes "status_laws P" and "gate_true P w" and "publish_items P ms w = (True, w')" and "map_of (rev ms) t = Some v"
  shows "soShown P w' t = shown_value v"
  using assms(2-4)
proof (induction ms arbitrary: w w')
  case Nil
  then show ?case by simp
next
  case (Cons m ms)
  obtain t1 v1 where m: "m = (t1, v1)" by fastforce
  obtain e w1 where p: "PublishStatus P t1 v1 w = (e, w1)" by fastforce
  obtain ok1 w2 where r: "publish_items P ms w1 = (ok1, w2)" by fastforce
  have e: "e = None" "ok1 = True" "w' = w2" using Cons.prems(2) m p r by auto
  note ok = PublishStatus_ok [OF assms(1) Cons.prems(1) p [unfolded e(1)]]
  show ?case
  proof (cases "map_of (rev ms) t")
    case None
    then have "t \<notin> fst ` set ms" by (auto simp: map_of_eq_None_iff)
    then have "soShown P w2 t = soShown P w1 t" using publish_items_other [OF assms(1) r] by simp
    moreover have "t1 = t \<and> v1 = v" using Cons.prems(3) m None by (auto simp: map_add_def split: if_splits)
    ultimately show ?thesis using ok e(3) by simp
  next
    case (Some v')
    then have "v' = v" using Cons.prems(3) m by (simp add: map_add_def)
    with Cons.IH [of w1] ok Some r e show ?thesis by simp
  qed
qed

section \<open>The replay lock\<close>

text \<open>
  The callers of the state publisher: publishing and evicting hold the lock for reading, replaying for writing.
\<close>

datatype status_call = NotCalling | Inside_read | Inside_write

record status_sys =
  stCallers :: "nat \<Rightarrow> status_call"
  stReaders :: "nat set"
  stWriter :: "nat option"

definition status_start :: "status_sys \<Rightarrow> bool" where
  "status_start s \<longleftrightarrow> s = \<lparr>stCallers = (\<lambda>_. NotCalling), stReaders = {}, stWriter = None\<rparr>"

inductive status_step :: "status_sys \<Rightarrow> status_sys \<Rightarrow> bool" where
  enter_status: "stCallers s i = NotCalling \<Longrightarrow> stWriter s = None \<Longrightarrow>
    status_step s (s\<lparr>stCallers := (stCallers s)(i := Inside_read), stReaders := insert i (stReaders s)\<rparr>)"
| leave_status: "stCallers s i = Inside_read \<Longrightarrow>
    status_step s (s\<lparr>stCallers := (stCallers s)(i := NotCalling), stReaders := stReaders s - {i}\<rparr>)"
| enter_replay: "stCallers s i = NotCalling \<Longrightarrow> stWriter s = None \<Longrightarrow> stReaders s = {} \<Longrightarrow>
    status_step s (s\<lparr>stCallers := (stCallers s)(i := Inside_write), stWriter := Some i\<rparr>)"
| leave_replay: "stCallers s i = Inside_write \<Longrightarrow>
    status_step s (s\<lparr>stCallers := (stCallers s)(i := NotCalling), stWriter := None\<rparr>)"

definition status_inv :: "status_sys \<Rightarrow> bool" where
  "status_inv s \<longleftrightarrow> (\<forall>i. (stCallers s i = Inside_read) = (i \<in> stReaders s) \<and> (stCallers s i = Inside_write) = (stWriter s = Some i))
     \<and> (stWriter s = None \<or> stReaders s = {})"

lemma status_inv_step: "status_step s t \<Longrightarrow> status_inv s \<Longrightarrow> status_inv t"
  by (induction rule: status_step.induct) (auto simp: status_inv_def)

interpretation status_steps: step_invariant status_start status_step status_inv
  by unfold_locales (simp add: status_start_def status_inv_def, rule status_inv_step)

text \<open>While a replay runs in the library, no other status call does, and no second replay.\<close>

theorem replay_alone:
  assumes "status_step\<^sup>*\<^sup>* s0 s" and "status_start s0" and "stCallers s i = Inside_write" and "i \<noteq> j"
  shows "stCallers s j = NotCalling"
proof -
  have "status_inv s" by (rule status_steps.reachable_inv [OF assms(1,2)])
  with assms(3,4) have "stCallers s j \<noteq> Inside_read" "stCallers s j \<noteq> Inside_write"
    by (auto simp: status_inv_def)
  then show ?thesis by (cases "stCallers s j") simp_all
qed

section \<open>What the plane hands on\<close>

text \<open>
  The remaining operations of the plane are the current runtime's; \<open>handed_ops\<close> are the library's functions. A
  snapshot is a window over one filter that takes every message, or over several that takes only retained ones.
\<close>

record ('r, 'w, 'e) handed_ops =
  hoPublish :: "string \<Rightarrow> string \<Rightarrow> 'r \<Rightarrow> 'w \<Rightarrow> (bool \<times> 'e option) \<times> 'r \<times> 'w"
  hoRetract :: "string list \<Rightarrow> 'r \<Rightarrow> 'w \<Rightarrow> 'e option \<times> 'r \<times> 'w"
  hoDeclared :: "'r \<Rightarrow> string list"
  hoLegacyForms :: "'r \<Rightarrow> string list"
  hoAnnounceOffline :: "'r \<Rightarrow> 'w \<Rightarrow> 'e option \<times> 'r \<times> 'w"

definition on_runtime :: "('r \<Rightarrow> 'w \<Rightarrow> 'x \<times> 'r \<times> 'w) \<Rightarrow> 'r plane \<Rightarrow> 'w \<Rightarrow> 'x \<times> 'r plane \<times> 'w" where
  "on_runtime f p w = (case f (plRuntime p) w of (x, r, w') \<Rightarrow> (x, p\<lparr>plRuntime := r\<rparr>, w'))"

definition Publish_plane ::
  "('r, 'w, 'e) handed_ops \<Rightarrow> string \<Rightarrow> string \<Rightarrow> 'r plane \<Rightarrow> 'w \<Rightarrow> (bool \<times> 'e option) \<times> 'r plane \<times> 'w" where
  "Publish_plane H topic payload = on_runtime (hoPublish H topic payload)"

definition Retract_plane :: "('r, 'w, 'e) handed_ops \<Rightarrow> string list \<Rightarrow> 'r plane \<Rightarrow> 'w \<Rightarrow> 'e option \<times> 'r plane \<times> 'w" where
  "Retract_plane H topics = on_runtime (hoRetract H topics)"

definition Declared :: "('r, 'w, 'e) handed_ops \<Rightarrow> 'r plane \<Rightarrow> string list" where
  "Declared H p = hoDeclared H (plRuntime p)"

definition LegacyForms :: "('r, 'w, 'e) handed_ops \<Rightarrow> 'r plane \<Rightarrow> string list" where
  "LegacyForms H p = hoLegacyForms H (plRuntime p)"

definition AnnounceOffline_plane :: "('r, 'w, 'e) handed_ops \<Rightarrow> 'r plane \<Rightarrow> 'w \<Rightarrow> 'e option \<times> 'r plane \<times> 'w" where
  "AnnounceOffline_plane H = on_runtime (hoAnnounceOffline H)"

definition Close_plane :: "('r, 'w, 'e) runtime_ops \<Rightarrow> 'r plane \<Rightarrow> 'w \<Rightarrow> 'w" where
  "Close_plane R p w = rtClose R (plRuntime p) w"

definition Snapshot_plane :: "string \<Rightarrow> bool \<times> window" where
  "Snapshot_plane flt = (False, window0 [flt])"

definition SnapshotRetained :: "string list \<Rightarrow> bool \<times> window" where
  "SnapshotRetained flts = (True, window0 flts)"

text \<open>What was declared before a reconnect is forgotten, and only the level asked for is kept.\<close>

lemma reconnect_forgets:
  assumes "Publish_plane H topic payload p w = (r, p', w')"
  shows "Declared H (fst (Reconnect_plane R P p' w'')) = hoDeclared H (rtNew R)
   \<and> plConnected (fst (Reconnect_plane R P p' w'')) = plConnected p"
  using assms by (auto simp: Declared_def Reconnect_plane_def Publish_plane_def on_runtime_def split: prod.splits)

end
