(* ===== verification/Store.thy ===== *)
theory Store
  imports Prelude Go_Values "HOL-Library.AList" "HOL-Library.Sublist" "HOL-Library.Multiset" "HOL-Library.List_Lexorder" "HOL-Library.Char_ord"
begin

text \<open>
  \<^verbatim>\<open>internal/state\<close>: the cache behind the web interface, a summary and the features of every device, and its
  event stream, where every subscriber has a channel of one element that keeps the latest event.

  A Go map is an association list in the order it is iterated over. Times are nanoseconds, \<open>None\<close> is the zero
  time, and \<open>rfc\<close> prints one. Each operation holds the store's lock, so the operations are atomic; the event
  stream is a step relation, for a subscriber takes from its channel whenever it likes.
\<close>

section \<open>The store\<close>

record feature =
  ftFeature :: string
  ftTopic :: string
  ftUID :: int
  ftValue :: any
  ftValueRaw :: any
  ftProtocolType :: string
  ftContentType :: string
  ftAccess :: string
  ftAvailable :: bool
  ftWritable :: bool
  ftPlatform :: string
  ftName :: string
  ftUnit :: "string option"
  ftDeviceClass :: "string option"
  ftOptions :: "string list"
  ftMin :: "f64 option"
  ftMax :: "f64 option"
  ftStep :: "f64 option"
  ftUpdatedAt :: string

record device_summary =
  dsName :: string
  dsHaID :: string
  dsBrand :: string
  dsType :: string
  dsVib :: string
  dsConnectionState :: string
  dsAvailable :: bool
  dsUpdatedAt :: string
  dsAgeSeconds :: int
  dsFeatureCount :: int

record device_state =
  dtSummary :: device_summary
  dtInfo :: obj
  dtFeatures :: "(string \<times> feature) list"
  dtUpdatedAt :: "int option"

type_synonym store = "(string \<times> device_state) list"

datatype event =
    ConnectionEvent string string bool string
  | ValueEvent string string any any string

definition DefaultStaleThreshold :: int where "DefaultStaleThreshold = 120 * 1000000000"

definition New_store :: store where "New_store = []"

definition fresh_device :: "string \<Rightarrow> device_state" where
  "fresh_device name =
     \<lparr>dtSummary = \<lparr>dsName = name, dsHaID = [], dsBrand = [], dsType = [], dsVib = [], dsConnectionState = ''closed'',
        dsAvailable = False, dsUpdatedAt = [], dsAgeSeconds = 0, dsFeatureCount = 0\<rparr>,
      dtInfo = [], dtFeatures = [], dtUpdatedAt = None\<rparr>"

definition device_of :: "store \<Rightarrow> string \<Rightarrow> device_state" where
  "device_of s name = (case map_of s name of Some d \<Rightarrow> d | None \<Rightarrow> fresh_device name)"

definition RegisterDevice :: "string \<Rightarrow> string \<Rightarrow> string \<Rightarrow> string \<Rightarrow> string \<Rightarrow> obj option \<Rightarrow> store \<Rightarrow> store" where
  "RegisterDevice name haID brand typ vib info s =
     (let d = device_of s name;
          d1 = d\<lparr>dtSummary := (dtSummary d)\<lparr>dsHaID := haID, dsBrand := brand, dsType := typ, dsVib := vib\<rparr>\<rparr>;
          d2 = (case info of None \<Rightarrow> d1 | Some m \<Rightarrow> d1\<lparr>dtInfo := m\<rparr>)
      in AList.update name d2 s)"

definition SetConnectionState :: "(int \<Rightarrow> string) \<Rightarrow> string \<Rightarrow> string \<Rightarrow> bool \<Rightarrow> int \<Rightarrow> store \<Rightarrow> event \<times> store" where
  "SetConnectionState rfc name connState available now s =
     (let d = device_of s name;
          d1 = d\<lparr>dtSummary := (dtSummary d)\<lparr>dsConnectionState := connState, dsAvailable := available\<rparr>\<rparr>
      in (ConnectionEvent name connState available (rfc now), AList.update name d1 s))"

definition UpdateFeature :: "(int \<Rightarrow> string) \<Rightarrow> string \<Rightarrow> feature \<Rightarrow> int \<Rightarrow> store \<Rightarrow> event \<times> store" where
  "UpdateFeature rfc device f0 now s =
     (let f = f0\<lparr>ftUpdatedAt := rfc now\<rparr>;
          d = device_of s device;
          fs = AList.update (ftFeature f) f (dtFeatures d);
          d1 = d\<lparr>dtFeatures := fs, dtUpdatedAt := Some now,
                 dtSummary := (dtSummary d)\<lparr>dsFeatureCount := int (length fs), dsUpdatedAt := rfc now\<rparr>\<rparr>
      in (ValueEvent device (ftFeature f) (ftValue f) (ftValueRaw f) (ftUpdatedAt f), AList.update device d1 s))"

section \<open>Reading\<close>

text \<open>\<^verbatim>\<open>Duration.Seconds\<close> adds the whole seconds and the rest as floats.\<close>

definition seconds_f64 :: "int \<Rightarrow> f64" where
  "seconds_f64 d =
     (case (int_to_f64 (trunc_rat (of_int d / 1000000000)),
            round_f64 (of_int (d - trunc_rat (of_int d / 1000000000) * 1000000000) / 1000000000)) of
        (Fin a, Some (Fin b)) \<Rightarrow> (case round_f64 (a + b) of Some v \<Rightarrow> v | None \<Rightarrow> NaN)
      | _ \<Rightarrow> NaN)"

definition summaryLocked :: "int \<Rightarrow> device_state \<Rightarrow> device_summary" where
  "summaryLocked now d = (case dtUpdatedAt d of
      None \<Rightarrow> dtSummary d
    | Some t \<Rightarrow> (dtSummary d)\<lparr>dsAgeSeconds := f64_to_int (seconds_f64 (now - t))\<rparr>)"

definition Snapshot :: "int \<Rightarrow> store \<Rightarrow> device_summary list" where
  "Snapshot now s = sort_key dsName (List.map (\<lambda>(_, d). summaryLocked now d) s)"

definition Device :: "int \<Rightarrow> store \<Rightarrow> string \<Rightarrow> (device_summary \<times> obj \<times> feature list) option" where
  "Device now s nameOrHaID =
     (case (case map_of s nameOrHaID of Some d \<Rightarrow> Some d
            | None \<Rightarrow> map_option snd (find (\<lambda>(_, d). dsHaID (dtSummary d) = nameOrHaID) s)) of
        None \<Rightarrow> None
      | Some d \<Rightarrow> Some (summaryLocked now d, dtInfo d, sort_key ftFeature (List.map snd (dtFeatures d))))"

definition isStale :: "int \<Rightarrow> device_state \<Rightarrow> device_summary \<Rightarrow> bool" where
  "isStale now d sm =
     (if dsConnectionState sm \<in> {''offline'', ''reconnecting'', ''connecting'', ''closed''} then True
      else case dtUpdatedAt d of None \<Rightarrow> True | Some t \<Rightarrow> DefaultStaleThreshold < now - t)"

definition health_device :: "int \<Rightarrow> device_state \<Rightarrow> string \<times> string \<times> int \<times> bool" where
  "health_device now d = (let sm = summaryLocked now d in
     (dsName sm, dsConnectionState sm, dsAgeSeconds sm, isStale now d sm))"

definition Health :: "int \<Rightarrow> store \<Rightarrow> string \<times> (string \<times> string \<times> int \<times> bool) list" where
  "Health now s =
     (let hs = List.map (\<lambda>(_, d). health_device now d) s
      in (if list_ex (\<lambda>(_, _, _, stale). stale) hs then ''degraded'' else ''ok'', sort_key fst hs))"

section \<open>The event stream\<close>

text \<open>
  A publish goes through the subscribers in the order the map yields; \<open>Full\<close> has found a full channel and
  \<open>Drained\<close> has taken from it. \<open>fnSent\<close> and \<open>fnGot\<close> record what was published while a subscriber was
  registered and what it received.
\<close>

datatype fan_phase = Quiet | Fanning event "nat list" | Full event nat "nat list" | Drained event nat "nat list"

record fan =
  fnChan :: "nat \<Rightarrow> event option"
  fnLive :: "nat list"
  fnNext :: nat
  fnPhase :: fan_phase
  fnSent :: "nat \<Rightarrow> event list"
  fnGot :: "nat \<Rightarrow> event list"

definition fan0 :: fan where
  "fan0 = \<lparr>fnChan = (\<lambda>_. None), fnLive = [], fnNext = 0, fnPhase = Quiet, fnSent = (\<lambda>_. []), fnGot = (\<lambda>_. [])\<rparr>"

inductive fan_step :: "fan \<Rightarrow> fan \<Rightarrow> bool" where
  subscribe: "fnPhase s = Quiet \<Longrightarrow> fan_step s (s\<lparr>fnLive := fnNext s # fnLive s, fnNext := Suc (fnNext s)\<rparr>)"
| cancel: "fnPhase s = Quiet \<Longrightarrow> fan_step s (s\<lparr>fnLive := filter (\<lambda>j. j \<noteq> i) (fnLive s)\<rparr>)"
| begin_publish: "fnPhase s = Quiet \<Longrightarrow> mset order = mset (fnLive s) \<Longrightarrow>
    fan_step s (s\<lparr>fnPhase := Fanning ev order,
                  fnSent := (\<lambda>i. if i \<in> set (fnLive s) then fnSent s i @ [ev] else fnSent s i)\<rparr>)"
| end_publish: "fnPhase s = Fanning ev [] \<Longrightarrow> fan_step s (s\<lparr>fnPhase := Quiet\<rparr>)"
| send: "fnPhase s = Fanning ev (i # rest) \<Longrightarrow> fnChan s i = None \<Longrightarrow>
    fan_step s (s\<lparr>fnChan := (fnChan s)(i := Some ev), fnPhase := Fanning ev rest\<rparr>)"
| full: "fnPhase s = Fanning ev (i # rest) \<Longrightarrow> fnChan s i \<noteq> None \<Longrightarrow> fan_step s (s\<lparr>fnPhase := Full ev i rest\<rparr>)"
| drop_oldest: "fnPhase s = Full ev i rest \<Longrightarrow>
    fan_step s (s\<lparr>fnChan := (fnChan s)(i := None), fnPhase := Drained ev i rest\<rparr>)"
| resend: "fnPhase s = Drained ev i rest \<Longrightarrow> fnChan s i = None \<Longrightarrow>
    fan_step s (s\<lparr>fnChan := (fnChan s)(i := Some ev), fnPhase := Fanning ev rest\<rparr>)"
| resend_full: "fnPhase s = Drained ev i rest \<Longrightarrow> fnChan s i \<noteq> None \<Longrightarrow> fan_step s (s\<lparr>fnPhase := Fanning ev rest\<rparr>)"
| receive: "fnChan s i = Some ev \<Longrightarrow>
    fan_step s (s\<lparr>fnChan := (fnChan s)(i := None), fnGot := (fnGot s)(i := fnGot s i @ [ev])\<rparr>)"

definition fan_reachable :: "fan \<Rightarrow> bool" where
  "fan_reachable s \<longleftrightarrow> fan_step\<^sup>*\<^sup>* fan0 s"

section \<open>The latest event arrives\<close>

definition seen :: "fan \<Rightarrow> nat \<Rightarrow> event list" where
  "seen s i = fnGot s i @ (case fnChan s i of None \<Rightarrow> [] | Some e \<Rightarrow> [e])"

definition up_to_date :: "event list \<Rightarrow> event list \<Rightarrow> bool" where
  "up_to_date got base \<longleftrightarrow> subseq got base \<and> (base \<noteq> [] \<longrightarrow> got \<noteq> [] \<and> last got = last base)"

fun pending :: "fan_phase \<Rightarrow> nat \<Rightarrow> event option" where
  "pending Quiet i = None"
| "pending (Fanning ev rest) i = (if i \<in> set rest then Some ev else None)"
| "pending (Full ev j rest) i = (if i = j \<or> i \<in> set rest then Some ev else None)"
| "pending (Drained ev j rest) i = (if i = j \<or> i \<in> set rest then Some ev else None)"

fun drained :: "fan_phase \<Rightarrow> nat \<Rightarrow> bool" where
  "drained (Drained ev j rest) i = (i = j)"
| "drained _ i = False"

fun ahead :: "fan_phase \<Rightarrow> nat list" where
  "ahead Quiet = []"
| "ahead (Fanning ev rest) = rest"
| "ahead (Full ev j rest) = j # rest"
| "ahead (Drained ev j rest) = j # rest"

definition told :: "fan \<Rightarrow> nat \<Rightarrow> bool" where
  "told s i \<longleftrightarrow> (case pending (fnPhase s) i of
      None \<Rightarrow> up_to_date (seen s i) (fnSent s i)
    | Some ev \<Rightarrow> (\<exists>b. fnSent s i = b @ [ev]
        \<and> (if drained (fnPhase s) i then fnChan s i = None \<and> subseq (fnGot s i) b else up_to_date (seen s i) b)))"

definition fan_inv :: "fan \<Rightarrow> bool" where
  "fan_inv s \<longleftrightarrow> (\<forall>i\<in>set (fnLive s). told s i \<and> i < fnNext s) \<and> distinct (ahead (fnPhase s))
     \<and> set (ahead (fnPhase s)) \<subseteq> set (fnLive s) \<and> distinct (fnLive s)
     \<and> (\<forall>i\<ge>fnNext s. fnChan s i = None \<and> fnSent s i = [] \<and> fnGot s i = [])"

lemma subseq_snoc_same: "subseq xs ys \<Longrightarrow> subseq (xs @ [x]) (ys @ [x])"
  by (simp add: subseq_append_iff) blast

lemma subseq_snoc_drop: "subseq (xs @ [x]) ys \<Longrightarrow> subseq xs ys"
  by (meson subseq_order.order_trans subseq_rev_drop_many subseq_order.refl)

lemma fan_inv_step:
  assumes "fan_step s t" and "fan_inv s"
  shows "fan_inv t"
  using assms(1)
proof cases
  case subscribe
  with assms(2) show ?thesis by (auto simp: fan_inv_def told_def seen_def up_to_date_def)
next
  case (cancel i)
  with assms(2) show ?thesis by (auto simp: fan_inv_def told_def seen_def)
next
  case (begin_publish order ev)
  then have "set order = set (fnLive s)" "distinct order"
    using assms(2) by (auto simp: fan_inv_def dest: mset_eq_setD mset_eq_imp_distinct_iff)
  with begin_publish assms(2) show ?thesis by (auto simp: fan_inv_def told_def seen_def)
next
  case (end_publish ev)
  with assms(2) show ?thesis by (auto simp: fan_inv_def told_def seen_def)
next
  case (send ev i rest)
  have "told t j" if "j \<in> set (fnLive s)" for j
  proof (cases "j = i")
    case True
    with send assms(2) that have "told s i" "i \<notin> set rest" by (auto simp: fan_inv_def)
    with send True show ?thesis
      by (auto simp: told_def seen_def up_to_date_def intro: subseq_snoc_same)
  next
    case False
    with send assms(2) that show ?thesis by (auto simp: fan_inv_def told_def seen_def)
  qed
  with send assms(2) show ?thesis by (auto simp: fan_inv_def)
next
  case (full ev i rest)
  with assms(2) show ?thesis by (auto simp: fan_inv_def told_def seen_def)
next
  case (drop_oldest ev i rest)
  have "told t j" if "j \<in> set (fnLive s)" for j
  proof -
    from assms(2) that have "told s j" by (simp add: fan_inv_def)
    with drop_oldest show ?thesis
      by (cases "fnChan s j") (auto simp: told_def seen_def up_to_date_def dest: subseq_snoc_drop split: if_splits)
  qed
  with drop_oldest assms(2) show ?thesis by (auto simp: fan_inv_def)
next
  case (resend ev i rest)
  have "told t j" if "j \<in> set (fnLive s)" for j
  proof (cases "j = i")
    case True
    with resend assms(2) that have "told s i" "i \<notin> set rest" by (auto simp: fan_inv_def)
    with resend True show ?thesis
      by (auto simp: told_def seen_def up_to_date_def intro: subseq_snoc_same)
  next
    case False
    with resend assms(2) that show ?thesis by (auto simp: fan_inv_def told_def seen_def)
  qed
  with resend assms(2) show ?thesis by (auto simp: fan_inv_def)
next
  case (resend_full ev i rest)
  then have "told s i" using assms(2) by (auto simp: fan_inv_def)
  with resend_full show ?thesis by (auto simp: told_def)
next
  case (receive i ev)
  have "told t j" if "j \<in> set (fnLive s)" for j
  proof -
    from assms(2) that have "told s j" by (simp add: fan_inv_def)
    with receive show ?thesis by (cases "j = i") (auto simp: told_def seen_def split: option.splits)
  qed
  moreover have "fnNext s > i" using receive assms(2) by (fastforce simp: fan_inv_def not_less [symmetric])
  ultimately show ?thesis using receive assms(2) by (auto simp: fan_inv_def)
qed

lemma fan_inv_start: "fan_inv fan0"
  by (simp add: fan_inv_def fan0_def)

interpretation fan_steps: step_invariant "\<lambda>s. s = fan0" fan_step fan_inv
  by unfold_locales (auto intro: fan_inv_start fan_inv_step)

lemma fan_inv_reachable: "fan_reachable s \<Longrightarrow> fan_inv s"
  unfolding fan_reachable_def by (erule fan_steps.reachable_inv) (rule refl)

text \<open>
  However a subscriber takes from its channel and others come and go: between two publishes what a
  subscriber received, followed by what waits in its channel, is a part of what was published since it
  subscribed, in order, and ends with the latest event; no event it misses is newer than one it has.
\<close>

theorem latest_event_arrives:
  assumes "fan_reachable s" "fnPhase s = Quiet" "i \<in> set (fnLive s)" "fnSent s i \<noteq> []"
  shows "subseq (seen s i) (fnSent s i) \<and> seen s i \<noteq> [] \<and> last (seen s i) = last (fnSent s i)"
  using fan_inv_reachable [OF assms(1)] assms(2-4) by (auto simp: fan_inv_def told_def up_to_date_def)

definition fan_busy :: fan where
  "fan_busy = fan0\<lparr>fnLive := [0], fnNext := 1, fnChan := (\<lambda>_. None)(0 := Some (ConnectionEvent ''a'' ''closed'' False [])),
     fnSent := (\<lambda>_. [])(0 := [ConnectionEvent ''a'' ''closed'' False []])\<rparr>"

lemma fan_busy_reachable: "fan_reachable fan_busy"
proof -
  let ?e = "ConnectionEvent ''a'' ''closed'' False []"
  let ?s1 = "fan0\<lparr>fnLive := [0], fnNext := 1\<rparr>"
  let ?s2 = "?s1\<lparr>fnPhase := Fanning ?e [0], fnSent := (\<lambda>_. [])(0 := [?e])\<rparr>"
  let ?s3 = "?s2\<lparr>fnChan := (\<lambda>_. None)(0 := Some ?e), fnPhase := Fanning ?e []\<rparr>"
  have "fan_step fan0 ?s1" using fan_step.subscribe [of fan0] by (simp add: fan0_def)
  moreover have "fan_step ?s1 ?s2"
    using fan_step.begin_publish [of ?s1 "[0]" ?e] by (simp add: fan0_def fun_upd_def cong: if_cong)
  moreover have "fan_step ?s2 ?s3" using fan_step.send [of ?s2 ?e 0 "[]"] by (simp add: fan0_def)
  moreover have "fan_step ?s3 fan_busy" using fan_step.end_publish [of ?s3 ?e] by (simp add: fan0_def fan_busy_def)
  ultimately show ?thesis unfolding fan_reachable_def by (meson converse_rtranclp_into_rtranclp rtranclp.rtrancl_refl)
qed

lemma latest_event_arrives_witness:
  "subseq (seen fan_busy 0) (fnSent fan_busy 0) \<and> seen fan_busy 0 \<noteq> [] \<and> last (seen fan_busy 0) = last (fnSent fan_busy 0)"
  by (rule latest_event_arrives [OF fan_busy_reachable]) (simp_all add: fan_busy_def fan0_def)

text \<open>A publish ends by itself, whatever the subscribers do or leave undone.\<close>

lemma fanning_ends: "fnPhase s = Fanning ev rest \<Longrightarrow> \<exists>t. fan_step\<^sup>*\<^sup>* s t \<and> fnPhase t = Quiet \<and> fnGot t = fnGot s"
proof (induction rest arbitrary: s)
  case Nil
  from fan_step.end_publish [OF Nil] show ?case by (intro exI [of _ "s\<lparr>fnPhase := Quiet\<rparr>"]) auto
next
  case (Cons i rest)
  show ?case
  proof (cases "fnChan s i")
    case None
    let ?t = "s\<lparr>fnChan := (fnChan s)(i := Some ev), fnPhase := Fanning ev rest\<rparr>"
    have "fan_step s ?t" using fan_step.send [OF Cons.prems None] .
    moreover obtain t where "fan_step\<^sup>*\<^sup>* ?t t" "fnPhase t = Quiet" "fnGot t = fnGot ?t" using Cons.IH [of ?t] by auto
    ultimately show ?thesis by (intro exI [of _ t]) (auto intro: converse_rtranclp_into_rtranclp)
  next
    case (Some x)
    let ?s1 = "s\<lparr>fnPhase := Full ev i rest\<rparr>"
    let ?s2 = "?s1\<lparr>fnChan := (fnChan s)(i := None), fnPhase := Drained ev i rest\<rparr>"
    let ?s3 = "?s2\<lparr>fnChan := (fnChan s)(i := Some ev), fnPhase := Fanning ev rest\<rparr>"
    have "fan_step s ?s1" using fan_step.full [OF Cons.prems] Some by simp
    moreover have "fan_step ?s1 ?s2" using fan_step.drop_oldest [of ?s1 ev i rest] by simp
    moreover have "fan_step ?s2 ?s3" using fan_step.resend [of ?s2 ev i rest] by simp
    moreover obtain t where "fan_step\<^sup>*\<^sup>* ?s3 t" "fnPhase t = Quiet" "fnGot t = fnGot ?s3" using Cons.IH [of ?s3] by auto
    ultimately show ?thesis by (intro exI [of _ t]) (auto intro!: converse_rtranclp_into_rtranclp)
  qed
qed

section \<open>The store shows the latest updates\<close>

datatype store_op =
    Registered string string string string string "obj option"
  | StateSet string string bool int
  | Updated string feature int

fun op_device :: "store_op \<Rightarrow> string" where
  "op_device (Registered n h b t v i) = n"
| "op_device (StateSet n c a t) = n"
| "op_device (Updated n f t) = n"

fun apply_store :: "(int \<Rightarrow> string) \<Rightarrow> store_op \<Rightarrow> store \<Rightarrow> store" where
  "apply_store rfc (Registered n h b t v i) s = RegisterDevice n h b t v i s"
| "apply_store rfc (StateSet n c a t) s = snd (SetConnectionState rfc n c a t s)"
| "apply_store rfc (Updated n f t) s = snd (UpdateFeature rfc n f t s)"

text \<open>The specification: the last update of a feature of a device, given the operations newest first.\<close>

fun last_update :: "(int \<Rightarrow> string) \<Rightarrow> store_op list \<Rightarrow> string \<Rightarrow> string \<Rightarrow> feature option" where
  "last_update rfc [] n k = None"
| "last_update rfc (Updated d f t # ops) n k =
     (if d = n \<and> ftFeature f = k then Some (f\<lparr>ftUpdatedAt := rfc t\<rparr>) else last_update rfc ops n k)"
| "last_update rfc (_ # ops) n k = last_update rfc ops n k"

definition shows_latest :: "(int \<Rightarrow> string) \<Rightarrow> store_op list \<Rightarrow> string \<Rightarrow> device_state \<Rightarrow> bool" where
  "shows_latest rfc ops n d \<longleftrightarrow> distinct (List.map fst (dtFeatures d)) \<and> (\<forall>(k, f)\<in>set (dtFeatures d). ftFeature f = k)
     \<and> map_of (dtFeatures d) = last_update rfc ops n \<and> dsFeatureCount (dtSummary d) = int (length (dtFeatures d))"

lemma device_of_update: "device_of (AList.update m d s) n = (if n = m then d else device_of s n)"
  by (auto simp: device_of_def update_conv')

lemma set_update_subset: "set (AList.update k v xs) \<subseteq> insert (k, v) (set xs)"
  by (induction xs) auto

lemma store_step_latest:
  assumes "\<forall>n. shows_latest rfc ops n (device_of s n)"
  shows "shows_latest rfc (op # ops) n (device_of (apply_store rfc op s) n)"
proof (cases op)
  case (Updated d f t)
  let ?f = "f\<lparr>ftUpdatedAt := rfc t\<rparr>"
  have "\<forall>(k, f)\<in>set (AList.update (ftFeature f) ?f (dtFeatures (device_of s d))). ftFeature f = k"
    using assms set_update_subset [of "ftFeature f" ?f "dtFeatures (device_of s d)"]
    by (fastforce simp: shows_latest_def)
  with assms Updated show ?thesis
    by (auto simp: UpdateFeature_def device_of_update Let_def shows_latest_def distinct_update update_conv' fun_eq_iff)
qed (use assms in \<open>auto simp: RegisterDevice_def SetConnectionState_def device_of_update Let_def shows_latest_def
        fun_eq_iff split: option.split\<close>)

lemma store_latest:
  "shows_latest rfc (rev ops) n (device_of (fold (apply_store rfc) ops New_store) n)"
proof (induction ops arbitrary: n rule: rev_induct)
  case Nil
  then show ?case by (simp add: shows_latest_def device_of_def New_store_def fresh_device_def fun_eq_iff)
next
  case (snoc op ops)
  then show ?case using store_step_latest by simp
qed

lemma apply_store_known: "map_of (apply_store rfc op s) n \<noteq> None \<longleftrightarrow> n = op_device op \<or> map_of s n \<noteq> None"
  by (cases op) (auto simp: update_conv' RegisterDevice_def SetConnectionState_def UpdateFeature_def Let_def)

lemma known_device: "map_of (fold (apply_store rfc) ops s) n \<noteq> None \<longleftrightarrow> n \<in> op_device ` set ops \<or> map_of s n \<noteq> None"
  by (induction ops arbitrary: s) (auto simp: apply_store_known simp del: not_None_eq)

lemma keys_of_sorted:
  assumes "distinct (List.map fst fs)" "\<forall>(k, f)\<in>set fs. ftFeature f = k"
  shows "List.map ftFeature (sort_key ftFeature (List.map snd fs)) = sorted_list_of_set (fst ` set fs)"
proof -
  have m: "List.map ftFeature (List.map snd fs) = List.map fst fs" using assms(2) by (induction fs) auto
  let ?ks = "List.map ftFeature (sort_key ftFeature (List.map snd fs))"
  have "sorted ?ks" by simp
  moreover have "mset ?ks = mset (List.map fst fs)" using m by (metis mset_map mset_sort)
  then have "distinct ?ks" "set ?ks = fst ` set fs"
    using assms(1) by (metis mset_eq_imp_distinct_iff, metis list.set_map mset_eq_setD)
  ultimately show ?thesis by (metis List.finite_set sorted_list_of_set.idem_if_sorted_distinct)
qed

lemma updated_key: "last_update rfc ops n k \<noteq> None \<Longrightarrow> k \<in> (\<lambda>op. case op of Updated d f t \<Rightarrow> ftFeature f | _ \<Rightarrow> []) ` set ops"
proof (induction ops)
  case (Cons op ops)
  then show ?case by (cases op) (auto split: if_splits)
qed simp

lemma finite_updated: "finite {k. last_update rfc ops n k \<noteq> None}"
  by (rule finite_subset [OF subsetI [OF updated_key]]) auto

lemma shown_latest:
  assumes "n \<in> op_device ` set ops" "Device now (fold (apply_store rfc) ops New_store) n = Some (sm, info, fs)"
  shows "List.map ftFeature fs = sorted_list_of_set {k. last_update rfc (rev ops) n k \<noteq> None}
    \<and> (\<forall>f\<in>set fs. last_update rfc (rev ops) n (ftFeature f) = Some f) \<and> dsFeatureCount sm = int (length fs)"
proof -
  let ?s = "fold (apply_store rfc) ops New_store"
  obtain d where d: "map_of ?s n = Some d" using assms(1) known_device [of rfc ops New_store n] by auto
  then have "device_of ?s n = d" by (simp add: device_of_def)
  then have l: "shows_latest rfc (rev ops) n d" using store_latest [of rfc ops n] by simp
  have fs: "fs = sort_key ftFeature (List.map snd (dtFeatures d))" "sm = summaryLocked now d"
    using assms(2) d by (auto simp: Device_def)
  have "fst ` set (dtFeatures d) = {k. last_update rfc (rev ops) n k \<noteq> None}"
    using l by (auto simp: shows_latest_def dom_def dom_map_of_conv_image_fst [symmetric])
  moreover have "\<forall>f\<in>set fs. last_update rfc (rev ops) n (ftFeature f) = Some f"
    using l unfolding fs shows_latest_def by (fastforce dest: map_of_is_SomeI)
  ultimately show ?thesis
    using l keys_of_sorted [of "dtFeatures d"] unfolding fs
    by (auto simp: shows_latest_def summaryLocked_def split: option.split)
qed

text \<open>
  C35. The detail of a device the store knows shows, sorted and each once, exactly the features updated so
  far, every one with the value of its last update, whatever the order of updates, registrations and state
  changes of this and other devices; and the summary counts them.
\<close>

theorem store_shows_latest:
  assumes "n \<in> op_device ` set ops" "Device now (fold (apply_store rfc) ops New_store) n = Some (sm, info, fs)"
  shows "List.map ftFeature fs = sorted_list_of_set {k. last_update rfc (rev ops) n k \<noteq> None}
    \<and> (\<forall>f\<in>set fs. last_update rfc (rev ops) n (ftFeature f) = Some f) \<and> dsFeatureCount sm = int (length fs)"
  using shown_latest [OF assms] .

definition blank_feature :: feature where
  "blank_feature = \<lparr>ftFeature = [], ftTopic = [], ftUID = 0, ftValue = VNil, ftValueRaw = VNil, ftProtocolType = [],
     ftContentType = [], ftAccess = [], ftAvailable = True, ftWritable = False, ftPlatform = [], ftName = [],
     ftUnit = None, ftDeviceClass = None, ftOptions = [], ftMin = None, ftMax = None, ftStep = None, ftUpdatedAt = []\<rparr>"

definition door :: "any \<Rightarrow> feature" where
  "door v = blank_feature\<lparr>ftFeature := ''Door'', ftValue := v\<rparr>"

definition door_ops :: "store_op list" where
  "door_ops = [Registered ''Oven'' ''1'' [] [] [] None, Updated ''Oven'' (door (VInt 0)) 1, StateSet ''Hob'' ''offline'' False 2,
     Updated ''Oven'' (door (VInt 1)) 3, Updated ''Oven'' (blank_feature\<lparr>ftFeature := ''Alarm''\<rparr>) 4]"

lemma store_shows_latest_witness:
  "\<exists>sm info fs. Device 9 (fold (apply_store (\<lambda>t. [])) door_ops New_store) ''Oven'' = Some (sm, info, fs)
     \<and> dsFeatureCount sm = int (length fs) \<and> List.map ftFeature fs = [''Alarm'', ''Door'']"
proof -
  have "Device 9 (fold (apply_store (\<lambda>t. [])) door_ops New_store) ''Oven'' \<noteq> None"
    using known_device [of "\<lambda>t. []" door_ops New_store "''Oven''"]
    by (auto simp: Device_def door_ops_def simp del: fold_simps)
  then obtain sm info fs where d: "Device 9 (fold (apply_store (\<lambda>t. [])) door_ops New_store) ''Oven'' = Some (sm, info, fs)"
    by auto
  have "''Oven'' \<in> op_device ` set door_ops" by (simp add: door_ops_def)
  from store_shows_latest [OF this d]
  have "List.map ftFeature fs = sorted_list_of_set {k. last_update (\<lambda>t. []) (rev door_ops) ''Oven'' k \<noteq> None}"
    "dsFeatureCount sm = int (length fs)" by blast+
  moreover have "{k. last_update (\<lambda>t. []) (rev door_ops) ''Oven'' k \<noteq> None} = set [''Door'', ''Alarm'']"
    by (auto simp: door_ops_def door_def blank_feature_def split: if_splits)
  moreover have "sorted_list_of_set (set [''Door'', ''Alarm'']) = [''Alarm'', ''Door'']" by code_simp
  ultimately show ?thesis using d by simp
qed

end
