(* ===== verification/Feature_Catalog.thy ===== *)
theory Feature_Catalog
  imports Prelude
begin

text \<open>
  \<^verbatim>\<open>internal/mapping/catalog.go\<close>: the operator's per-feature enrichment. The YAML decoder is a parameter:
  \<open>cfFeatures\<close> is \<open>None\<close> where it leaves the map nil.
\<close>

record feature_enrichment =
  mpName :: string
  mpNameDE :: string
  mpDeviceClass :: string
  mpUnit :: string
  mpStateClass :: string
  mpEntityCategory :: string
  mpEnabledByDefault :: "bool option"
  mpExclude :: bool

type_synonym feature_catalog = "string \<rightharpoonup> feature_enrichment"

definition Empty_catalog :: feature_catalog where
  "Empty_catalog = Map.empty"

text \<open>What reading the file gave, and the outcome of decoding its bytes.\<close>

datatype catalog_error = ReadFailed | ParseFailed
datatype file_read = NotExist | Unreadable | Bytes string

definition Load_catalog :: "(string \<Rightarrow> feature_catalog option option) \<Rightarrow> file_read \<Rightarrow> catalog_error + feature_catalog" where
  "Load_catalog decode file =
     (case file of
        NotExist \<Rightarrow> Inr Empty_catalog
      | Unreadable \<Rightarrow> Inl ReadFailed
      | Bytes data \<Rightarrow> (case decode data of
            None \<Rightarrow> Inl ParseFailed
          | Some None \<Rightarrow> Inr Empty_catalog
          | Some (Some m) \<Rightarrow> Inr m))"

definition catalog_field :: "(feature_enrichment \<Rightarrow> string) \<Rightarrow> feature_catalog \<Rightarrow> string \<Rightarrow> string option" where
  "catalog_field pick c feature = (case c feature of
      None \<Rightarrow> None | Some m \<Rightarrow> if pick m = [] then None else Some (pick m))"

definition DeviceClass :: "feature_catalog \<Rightarrow> string \<Rightarrow> string option" where
  "DeviceClass = catalog_field mpDeviceClass"

definition Unit :: "feature_catalog \<Rightarrow> string \<Rightarrow> string option" where
  "Unit = catalog_field mpUnit"

definition StateClass :: "feature_catalog \<Rightarrow> string \<Rightarrow> string option" where
  "StateClass = catalog_field mpStateClass"

definition EntityCategory :: "feature_catalog \<Rightarrow> string \<Rightarrow> string option" where
  "EntityCategory = catalog_field mpEntityCategory"

definition LocalizedName :: "feature_catalog \<Rightarrow> string \<Rightarrow> string \<Rightarrow> string option" where
  "LocalizedName c feature lang = (case c feature of
      None \<Rightarrow> None
    | Some m \<Rightarrow> if lang = ''de'' \<and> mpNameDE m \<noteq> [] then Some (mpNameDE m)
        else if mpName m \<noteq> [] then Some (mpName m) else None)"

definition EnabledByDefault :: "feature_catalog \<Rightarrow> string \<Rightarrow> bool option" where
  "EnabledByDefault c feature = (case c feature of None \<Rightarrow> None | Some m \<Rightarrow> mpEnabledByDefault m)"

definition Excluded :: "feature_catalog \<Rightarrow> string \<Rightarrow> bool" where
  "Excluded c feature = (case c feature of None \<Rightarrow> False | Some m \<Rightarrow> mpExclude m)"

lemma catalog_field_ne: "catalog_field pick c f = Some s \<Longrightarrow> s \<noteq> []"
  by (auto simp: catalog_field_def split: option.splits if_splits)

lemma enrichment_ne:
  "DeviceClass c f = Some s \<Longrightarrow> s \<noteq> []" "Unit c f = Some s \<Longrightarrow> s \<noteq> []"
  "StateClass c f = Some s \<Longrightarrow> s \<noteq> []" "EntityCategory c f = Some s \<Longrightarrow> s \<noteq> []"
  by (auto simp: DeviceClass_def Unit_def StateClass_def EntityCategory_def dest: catalog_field_ne)

end
