(* ===== verification/Hass_Payload.thy ===== *)
theory Hass_Payload
  imports Appliance Layout Enum_Labels Feature_Catalog "HOL-Library.Multiset"
begin

text \<open>
  \<^verbatim>\<open>internal/hass/payload.go\<close>: which Home Assistant platform a feature becomes, and the classes, units,
  categories, bounds, options and names it is announced with.

  The tables of \<^verbatim>\<open>go-ha-catalog\<close> (the device classes of every platform, and which classes, units and
  state classes a sensor may combine) are the parameter \<open>ha_catalog\<close>; \<open>None\<close> is a table that failed to
  load. A pointer that may be nil is an option.
\<close>

record sensor_relations =
  srStateClasses :: "string \<rightharpoonup> string list"
  srUnits :: "string \<rightharpoonup> string list"
  srNumeric :: "string \<Rightarrow> bool"

record ha_catalog =
  hcClasses :: "(string \<Rightarrow> string \<Rightarrow> bool) option"
  hcRelations :: "sensor_relations option"

section \<open>Names\<close>

definition platformSwitch :: string where "platformSwitch = ''switch''"
definition platformSelect :: string where "platformSelect = ''select''"
definition platformSensor :: string where "platformSensor = ''sensor''"
definition platformBinarySensor :: string where "platformBinarySensor = ''binary_sensor''"
definition platformNumber :: string where "platformNumber = ''number''"
definition platformButton :: string where "platformButton = ''button''"

lemmas platform_defs = platformSwitch_def platformSelect_def platformSensor_def
  platformBinarySensor_def platformNumber_def platformButton_def

definition categoryDiagnostic :: string where "categoryDiagnostic = ''diagnostic''"
definition categoryConfig :: string where "categoryConfig = ''config''"
definition deviceClassEnum :: string where "deviceClassEnum = ''enum''"

section \<open>Classification\<close>

definition classify :: "entity \<Rightarrow> string option" where
  "classify e =
     (let d = enDesc e; writable = entryWritable d in
      case eKind d of
        KindCommand \<Rightarrow> Some platformButton
      | KindEvent \<Rightarrow> Some platformBinarySensor
      | KindActiveProgram \<Rightarrow> Some platformSensor
      | KindSelectedProgram \<Rightarrow> Some (if writable \<and> IsEnum d then platformSelect else platformSensor)
      | KindProgram \<Rightarrow> None
      | KindProtectionPort \<Rightarrow> None
      | _ \<Rightarrow>
         Some (if IsEnum d then (if writable then platformSelect else platformSensor)
           else (case eProtocolType d of
               ProtocolBoolean \<Rightarrow> if writable then platformSwitch else platformBinarySensor
             | ProtocolInteger \<Rightarrow> if writable then platformNumber else platformSensor
             | ProtocolFloat \<Rightarrow> if writable then platformNumber else platformSensor
             | _ \<Rightarrow> platformSensor)))"

definition primarySuffixes :: "string list" where
  "primarySuffixes =
     [''PowerState'', ''OperationState'', ''DoorState'',
      ''RemainingProgramTime'', ''ProgramProgress'', ''StartInRelative'',
      ''ActiveProgram'', ''SelectedProgram'',
      ''RemoteControlActive'', ''RemoteControlStartAllowed'',
      ''BackendConnected'', ''ProgramFinished'', ''ProgramAborted'',
      ''BatteryLevel'', ''ChargingState'']"

definition leafName :: "entity \<Rightarrow> string" where
  "leafName e = (case cut_last (CHR ''.'') (enName e) of Some (_, after) \<Rightarrow> after | None \<Rightarrow> enName e)"

definition isPrimary :: "entity \<Rightarrow> bool" where
  "isPrimary e \<longleftrightarrow> eKind (enDesc e) = KindActiveProgram \<or> eKind (enDesc e) = KindSelectedProgram
     \<or> leafName e \<in> set primarySuffixes"

definition enabledByDefault :: "entity \<Rightarrow> bool" where "enabledByDefault e = isPrimary e"

definition entityCategoryFor :: "entity \<Rightarrow> string" where
  "entityCategoryFor e =
     (if isPrimary e then []
      else case eKind (enDesc e) of
        KindSetting \<Rightarrow> if entryWritable (enDesc e) then categoryConfig else categoryDiagnostic
      | KindOption \<Rightarrow> if entryWritable (enDesc e) then categoryConfig else categoryDiagnostic
      | KindCommand \<Rightarrow> categoryConfig
      | KindStatus \<Rightarrow> categoryDiagnostic
      | KindEvent \<Rightarrow> categoryDiagnostic
      | _ \<Rightarrow> [])"

definition entityCategoryAllowed :: "string \<Rightarrow> string \<Rightarrow> bool" where
  "entityCategoryAllowed platform cat =
     (if cat = [] then True
      else if cat = categoryDiagnostic then True
      else if cat = categoryConfig then platform \<noteq> platformSensor \<and> platform \<noteq> platformBinarySensor
      else False)"

definition renderableCategory :: "string \<Rightarrow> string \<Rightarrow> string" where
  "renderableCategory platform cat =
     (if entityCategoryAllowed platform cat then cat
      else if cat = categoryConfig then categoryDiagnostic else [])"

section \<open>Numbers, classes and units\<close>

fun finite_f64 :: "f64 \<Rightarrow> bool" where
  "finite_f64 (Fin q) = True"
| "finite_f64 _ = False"

text \<open>Comparing finite floats; the code compares only those.\<close>

fun f64_less :: "f64 \<Rightarrow> f64 \<Rightarrow> bool" where
  "f64_less (Fin a) (Fin b) = (a < b)"
| "f64_less NegInf (Fin b) = True"
| "f64_less NegInf PosInf = True"
| "f64_less (Fin a) PosInf = True"
| "f64_less _ _ = False"

text \<open>The double nearest to one thousandth.\<close>

definition numberMinStep :: f64 where
  "numberMinStep = Fin (1152921504606847 / 1152921504606846976)"

definition numberDefaultMin :: f64 where "numberDefaultMin = Fin 0"
definition numberDefaultMax :: f64 where "numberDefaultMax = Fin 100"

definition numberBounds :: "bounds \<Rightarrow> f64 option \<times> f64 option \<times> f64 option" where
  "numberBounds b =
     (let minV = (if bdHasMin b \<and> finite_f64 (bdMin b) then Some (bdMin b) else None);
          maxV = (if bdHasMax b \<and> finite_f64 (bdMax b) then Some (bdMax b) else None);
          effMin = (case minV of Some m \<Rightarrow> m | None \<Rightarrow> numberDefaultMin);
          effMax = (case maxV of Some m \<Rightarrow> m | None \<Rightarrow> numberDefaultMax);
          (minV', maxV') = (if f64_less effMax effMin then (None, None) else (minV, maxV));
          step = (if bdHasStep b \<and> finite_f64 (bdStep b) \<and> \<not> f64_less (bdStep b) numberMinStep
                  then Some (bdStep b) else None)
      in (minV', maxV', step))"

definition stateClassFor :: "entity \<Rightarrow> string \<Rightarrow> string" where
  "stateClassFor e platform =
     (if platform \<noteq> platformSensor \<or> IsEnum (enDesc e) then []
      else if eProtocolType (enDesc e) = ProtocolInteger \<or> eProtocolType (enDesc e) = ProtocolFloat
      then (if contains ''Count'' (enName e) then ''total_increasing'' else ''measurement'')
      else [])"

definition contentTable :: "(string \<times> string \<times> string) list" where
  "contentTable =
     [(''temperatureCelsius'', ''temperature'', [CHR 0xC2, CHR 0xB0, CHR ''C'']),
      (''temperatureFahrenheit'', ''temperature'', [CHR 0xC2, CHR 0xB0, CHR ''F'']),
      (''percent'', [], ''%''),
      (''timeSpan'', ''duration'', ''s''),
      (''dbm'', ''signal_strength'', ''dBm''),
      (''rpm'', [], ''rpm''),
      (''power'', ''power'', ''W''),
      (''energy'', ''energy'', ''Wh''),
      (''weight'', ''weight'', ''g'')]"

definition deviceClassAndUnit :: "entity \<Rightarrow> string \<times> string" where
  "deviceClassAndUnit e =
     (if IsEnum (enDesc e) then (deviceClassEnum, [])
      else case map_of contentTable (eContentType (enDesc e)) of Some cu \<Rightarrow> cu | None \<Rightarrow> ([], []))"

definition numericValue :: "entity \<Rightarrow> bool" where
  "numericValue e \<longleftrightarrow> \<not> IsEnum (enDesc e)
     \<and> (eProtocolType (enDesc e) = ProtocolInteger \<or> eProtocolType (enDesc e) = ProtocolFloat)"

definition deviceClassAllowed :: "ha_catalog \<Rightarrow> string \<Rightarrow> string \<Rightarrow> bool" where
  "deviceClassAllowed H platform dc = (case hcClasses H of None \<Rightarrow> False | Some t \<Rightarrow> t platform dc)"

definition textSensorClass :: "ha_catalog \<Rightarrow> string \<Rightarrow> bool \<Rightarrow> string" where
  "textSensorClass H dc enum =
     (if enum then deviceClassEnum
      else if dc = [] \<or> dc = deviceClassEnum then dc
      else (case hcRelations H of None \<Rightarrow> [] | Some t \<Rightarrow> if srNumeric t dc then [] else dc))"

definition reconcileSensorClassesIn ::
  "sensor_relations option \<Rightarrow> string \<Rightarrow> string \<Rightarrow> string \<Rightarrow> string \<times> string \<times> string" where
  "reconcileSensorClassesIn rel dc unit sc =
     (if dc = [] then (dc, unit, sc)
      else case rel of
        None \<Rightarrow> ([], unit, sc)
      | Some t \<Rightarrow>
          if \<not> srNumeric t dc then (dc, [], [])
          else if (case srUnits t dc of Some us \<Rightarrow> unit \<noteq> [] \<and> unit \<notin> set us | None \<Rightarrow> False) then ([], unit, sc)
          else (dc, unit, if (case srStateClasses t dc of Some al \<Rightarrow> sc \<noteq> [] \<and> sc \<notin> set al | None \<Rightarrow> False)
                          then [] else sc))"

section \<open>Options and identities\<close>

text \<open>The insertion sort of \<open>sortStrings\<close>: the inner loop walks down from the index \<open>j\<close>.\<close>

fun sift_down :: "nat \<Rightarrow> string list \<Rightarrow> string list" where
  "sift_down 0 s = s"
| "sift_down (Suc j) s =
     (if s ! j > s ! Suc j then sift_down j (s[j := s ! Suc j, Suc j := s ! j]) else s)"

definition sortStrings :: "string list \<Rightarrow> string list" where
  "sortStrings s = fold sift_down [1..<length s] s"

definition enumOptions :: "entity \<Rightarrow> string list" where
  "enumOptions e = sortStrings (List.map snd (eEnumeration (enDesc e)))"

definition featureKey :: "(string \<Rightarrow> string) \<Rightarrow> entity \<Rightarrow> string" where
  "featureKey u e = (if enName e = [] then ''uid_'' @ itoa (enUID e) else Slug u (enName e))"

definition isUpper :: "nat option \<Rightarrow> bool" where
  "isUpper r \<longleftrightarrow> (case r of Some n \<Rightarrow> 65 \<le> n \<and> n \<le> 90 | None \<Rightarrow> False)"

definition isDigit :: "nat option \<Rightarrow> bool" where
  "isDigit r \<longleftrightarrow> (case r of Some n \<Rightarrow> 48 \<le> n \<and> n \<le> 57 | None \<Rightarrow> False)"

fun spaced :: "nat option list \<Rightarrow> string" where
  "spaced (prev # r # rs) =
     encode_rune prev @ (if isUpper r \<and> \<not> isUpper prev \<or> isDigit r \<and> \<not> isDigit prev then '' '' else [])
     @ spaced (r # rs)"
| "spaced [r] = encode_rune r"
| "spaced [] = []"

definition humanize :: "entity \<Rightarrow> string" where
  "humanize e = (if enName e = [] then ''UID '' @ itoa (enUID e) else spaced (runes (leafName e)))"

definition collateKey :: "(string \<Rightarrow> string) \<Rightarrow> string \<Rightarrow> string" where
  "collateKey u s = Fold u s"

definition sortLocalized :: "(string \<Rightarrow> string) \<Rightarrow> string list \<Rightarrow> string list" where
  "sortLocalized u = sort_key (\<lambda>s. (collateKey u s, s))"

definition Describe :: "entity \<Rightarrow> (string \<times> string \<times> string) option" where
  "Describe e = (case classify e of
      None \<Rightarrow> None | Some platform \<Rightarrow> Some (platform, humanize e, snd (deviceClassAndUnit e)))"

section \<open>Facts\<close>

text \<open>Half a unit in the last place at one thousandth is \<open>1 / 2 ^ 63\<close>.\<close>

lemma numberMinStep_nearest:
  "numberMinStep = Fin (4611686018427388 / 2 ^ 62)" "\<bar>(4611686018427388 / 2 ^ 62 :: rat) - 1 / 1000\<bar> < 1 / 2 ^ 63"
  by (simp_all add: numberMinStep_def)

text \<open>The insertion sort sorts.\<close>

lemma insort_less_last: "x < y \<Longrightarrow> insort x (xs @ [y]) = insort x xs @ [y]"
  by (induction xs) auto

lemma insort_greatest: "sorted xs \<Longrightarrow> \<forall>y\<in>set xs. y \<le> x \<Longrightarrow> insort x xs = xs @ [x]"
proof (induction xs)
  case (Cons y ys)
  then have ih: "insort x ys = ys @ [x]" by simp
  show ?case
  proof (cases "x \<le> y")
    case True
    with Cons.prems have "x = y" "\<forall>z\<in>set ys. x \<le> z" by auto
    then show ?thesis using ih by (simp add: insort_is_Cons)
  next
    case False
    with ih show ?thesis by simp
  qed
qed simp

lemma sift_down_length [simp]: "length (sift_down j s) = length s"
  by (induction j s rule: sift_down.induct) auto

lemma sift_down_insort:
  assumes "j < length s" and "sorted (take j s)"
  shows "sift_down j s = insort (s ! j) (take j s) @ drop (Suc j) s"
  using assms
proof (induction j s rule: sift_down.induct)
  case (1 s)
  then show ?case by (cases s) auto
next
  case (2 j s)
  have t: "take (Suc j) s = take j s @ [s ! j]" using 2 by (simp add: take_Suc_conv_app_nth)
  have ge: "\<forall>x\<in>set (take j s). x \<le> s ! j" using 2(3) unfolding t by (simp add: sorted_append)
  show ?case
  proof (cases "s ! j > s ! Suc j")
    case True
    let ?s = "s[j := s ! Suc j, Suc j := s ! j]"
    have tk: "take j ?s = take j s" by simp
    have "sift_down j ?s = insort (?s ! j) (take j ?s) @ drop (Suc j) ?s"
      using 2 True by (intro 2(1)) (simp_all add: t sorted_append)
    also have "?s ! j = s ! Suc j" using 2(2) by simp
    also have "drop (Suc j) ?s = s ! j # drop (Suc (Suc j)) s"
      using 2(2) by (simp add: Cons_nth_drop_Suc [symmetric] drop_update_swap)
    finally have "sift_down (Suc j) s = insort (s ! Suc j) (take j s) @ s ! j # drop (Suc (Suc j)) s"
      using True by (simp add: tk)
    moreover have "insort (s ! Suc j) (take j s @ [s ! j]) = insort (s ! Suc j) (take j s) @ [s ! j]"
      using True by (rule insort_less_last)
    ultimately show ?thesis by (simp add: t)
  next
    case False
    then have "\<forall>x\<in>set (take (Suc j) s). x \<le> s ! Suc j" using ge unfolding t by auto
    from insort_greatest [OF 2(3) this]
    have "insort (s ! Suc j) (take (Suc j) s) = take (Suc j) s @ [s ! Suc j]" .
    with False 2(2) show ?thesis by (simp add: Cons_nth_drop_Suc id_take_nth_drop [symmetric])
  qed
qed

lemma sift_down_sorts:
  assumes "j < length s" and "sorted (take j s)"
  shows "sorted (take (Suc j) (sift_down j s)) \<and> mset (sift_down j s) = mset s"
proof -
  have m: "mset (insort (s ! j) (take j s) @ drop (Suc j) s) = mset s"
    using assms(1) by (metis id_take_nth_drop mset.simps(2) mset_append mset_insort union_mset_add_mset_left union_mset_add_mset_right)
  have "take (Suc j) (sift_down j s) = insort (s ! j) (take j s)"
    using assms by (simp add: sift_down_insort)
  then show ?thesis using assms m by (simp add: sift_down_insort sorted_insort)
qed

lemma sortStrings_sort: "sortStrings s = sort s"
proof -
  have "n \<le> length s \<Longrightarrow> s \<noteq> [] \<Longrightarrow> 1 \<le> n \<Longrightarrow>
     sorted (take n (fold sift_down [1..<n] s)) \<and> mset (fold sift_down [1..<n] s) = mset s
     \<and> length (fold sift_down [1..<n] s) = length s" for n
  proof (induction n)
    case (Suc n)
    show ?case
    proof (cases "n = 0")
      case True
      then show ?thesis by (cases s) auto
    next
      case False
      then have "sorted (take n (fold sift_down [1..<n] s))" "mset (fold sift_down [1..<n] s) = mset s"
        "length (fold sift_down [1..<n] s) = length s" using Suc by auto
      moreover from this have "sorted (take (Suc n) (sift_down n (fold sift_down [1..<n] s))) \<and>
          mset (sift_down n (fold sift_down [1..<n] s)) = mset (fold sift_down [1..<n] s)"
        using Suc.prems by (intro sift_down_sorts) simp_all
      ultimately show ?thesis using False by simp
    qed
  qed simp
  from this [of "length s"] show ?thesis
    by (cases "s = []") (auto simp: sortStrings_def Suc_le_eq intro!: properties_for_sort [symmetric])
qed

end
