(* ===== verification/Worker.thy ===== *)
theory Worker
  imports Config Store Hass_Payload Devices Crypto Reconnect Publisher "HOL-Library.AList"
begin

text \<open>
  The device workers of \<^verbatim>\<open>internal/bridge/device.go\<close> and the construction of the bridge in \<^verbatim>\<open>bridge.go\<close>: how a
  device is built, what is published for a link state, how a worker is restarted after a panic, and how a
  status value is chosen (\<^verbatim>\<open>publish.go\<close>).

  A publish either goes out, fails (which is only logged) or panics inside the MQTT client; the outcomes are
  a script. The mutex of a device is a flag: a worker that locks it while it is set waits for ever unless
  somebody releases it.
\<close>

section \<open>Status values\<close>

definition payloadNone :: string where "payloadNone = ''None''"

definition statusValue :: "(string \<Rightarrow> string) \<Rightarrow> entity \<Rightarrow> any" where
  "statusValue u e =
     (let v = Value e in
      if v = VNil then VNil
      else if eKind (enDesc e) = KindActiveProgram \<or> eKind (enDesc e) = KindSelectedProgram then
        (case v of
           VStr s \<Rightarrow> if IsEnum (enDesc e) \<and> \<not> HasEnumName u e s then VStr payloadNone else v
         | _ \<Rightarrow> VStr payloadNone)
      else v)"

definition onUpdate_topic :: "topic_lib \<Rightarrow> device_layout \<Rightarrow> entity \<Rightarrow> string" where
  "onUpdate_topic T dl e = State T dl (enName e) (enUID e)"

fun protocol_name :: "protocol_type \<Rightarrow> string" where
  "protocol_name ProtocolBoolean = ''Boolean''"
| "protocol_name ProtocolInteger = ''Integer''"
| "protocol_name ProtocolFloat = ''Float''"
| "protocol_name ProtocolString = ''String''"
| "protocol_name ProtocolObject = ''Object''"
| "protocol_name (ProtocolOther s) = s"

text \<open>What the web interface shows of an entity; the options come in the order the enumeration is iterated over.\<close>

definition featureView :: "topic_lib \<Rightarrow> device_layout \<Rightarrow> entity \<Rightarrow> feature" where
  "featureView T dl e =
     (let d = enDesc e; bd = Bounds e;
          f = \<lparr>ftFeature = enName e, ftTopic = onUpdate_topic T dl e, ftUID = enUID e, ftValue = Value e,
               ftValueRaw = enValueRaw e, ftProtocolType = protocol_name (eProtocolType d), ftContentType = eContentType d,
               ftAccess = enAccess e, ftAvailable = enAvailable e, ftWritable = Writable e,
               ftPlatform = [], ftName = [], ftUnit = None, ftDeviceClass = None,
               ftOptions = (if IsEnum d then List.map snd (eEnumeration d) else []),
               ftMin = (if bdHasMin bd then Some (bdMin bd) else None), ftMax = (if bdHasMax bd then Some (bdMax bd) else None),
               ftStep = (if bdHasStep bd then Some (bdStep bd) else None), ftUpdatedAt = []\<rparr>
      in (case Describe e of
            None \<Rightarrow> f
          | Some (platform, name, unit) \<Rightarrow>
              f\<lparr>ftPlatform := platform, ftName := name, ftUnit := if unit \<noteq> [] then Some unit else None\<rparr>))"

text \<open>The store is absent when the web interface is off.\<close>

definition onUpdate ::
  "topic_lib \<Rightarrow> (string \<Rightarrow> string) \<Rightarrow> (int \<Rightarrow> string) \<Rightarrow> string \<Rightarrow> device_layout \<Rightarrow> int \<Rightarrow> entity \<Rightarrow> publisher \<times> store option
   \<Rightarrow> publisher \<times> store option" where
  "onUpdate T u rfc name dl now e ps =
     (if \<not> enHasValue e then ps
      else (enqueue (onUpdate_topic T dl e) (statusValue u e) (fst ps),
            map_option (\<lambda>s. snd (UpdateFeature rfc name (featureView T dl e) now s)) (snd ps)))"

definition requeueValues :: "topic_lib \<Rightarrow> (string \<Rightarrow> string) \<Rightarrow> device_layout \<Rightarrow> appliance \<Rightarrow> publisher \<Rightarrow> publisher" where
  "requeueValues T u dl a p =
     fold (\<lambda>e p. if enHasValue e then enqueue (onUpdate_topic T dl e) (statusValue u e) p else p) (sorted_entities a) p"

section \<open>Building devices\<close>

text \<open>The URL of an appliance: brackets of an IPv6 literal are replaced, its zone is escaped.\<close>

definition wsPath :: string where "wsPath = ''/homeconnect''"

definition strip_brackets :: "string \<Rightarrow> string" where
  "strip_brackets h = (if prefix ''['' h \<and> suffix '']'' h then take (length h - 2) (drop 1 h) else h)"

definition escape_zone :: "string \<Rightarrow> string" where
  "escape_zone h = (case cut_first (CHR ''%'') h of Some (a, b) \<Rightarrow> a @ ''%25'' @ b | None \<Rightarrow> h)"

definition applianceURL :: "string \<Rightarrow> bool \<Rightarrow> string option" where
  "applianceURL host0 secure =
     (let host = trim_space host0 in
      if host = [] then None
      else
        (let (scheme, port) = (if secure then (''wss'', ''443'') else (''ws'', ''80''));
             h = strip_brackets host;
             h' = (if CHR '':'' \<in> set h then ''['' @ escape_zone h @ '']'' else h)
         in Some (scheme @ ''://'' @ h' @ '':'' @ port @ wsPath)))"

datatype socket = AESSocket string aes_crypto | TLSSocket string "byte list"

datatype device_error =
    NoHost string
  | BadHaID haid_error
  | BadPSK string
  | BadIV string
  | BadSocket string
  | DuplicateHaID string string string
  | NoDevices
  | BadInstance

definition NewAESSocket :: "string \<Rightarrow> byte list \<Rightarrow> byte list \<Rightarrow> socket option" where
  "NewAESSocket host psk i =
     (case applianceURL host False of
        None \<Rightarrow> None
      | Some url \<Rightarrow> (case NewAESCrypto psk i of Inl e \<Rightarrow> None | Inr c \<Rightarrow> Some (AESSocket url c)))"

definition NewTLSSocket :: "string \<Rightarrow> byte list \<Rightarrow> socket option" where
  "NewTLSSocket host psk = (if host = [] then None else Some (TLSSocket host psk))"

definition NewSocket :: "string \<Rightarrow> string \<Rightarrow> byte list \<Rightarrow> byte list \<Rightarrow> socket option" where
  "NewSocket connType host psk i =
     (if connType = ConnectionAES then NewAESSocket host psk i
      else if connType = ConnectionTLS then NewTLSSocket host psk
      else None)"

record built_device =
  btName :: string
  btHaID :: string
  btSocket :: socket
  btApp :: appliance
  btSession :: session_config
  btReconnect :: reconnect_config

definition buildDevice :: "(string \<Rightarrow> string) \<Rightarrow> config \<Rightarrow> device_config \<times> description \<Rightarrow> device_error + built_device" where
  "buildDevice u c spec =
     (let (dc, desc) = spec in
      if dcHost dc = [] then Inl (NoHost (dcName dc))
      else case ResolveHaID dc (Some desc) of
        Inl e \<Rightarrow> Inl (BadHaID e)
      | Inr (haID, source) \<Rightarrow>
          (case DecodeKey (dcPSK64 dc) of
             None \<Rightarrow> Inl (BadPSK (dcName dc))
           | Some psk \<Rightarrow>
               (case (if dcIV64 dc \<noteq> [] then DecodeKey (dcIV64 dc) else Some []) of
                  None \<Rightarrow> Inl (BadIV (dcName dc))
                | Some i \<Rightarrow>
                    (case NewSocket (dcConnectionType dc) (dcHost dc) psk i of
                       None \<Rightarrow> Inl (BadSocket (dcName dc))
                     | Some s \<Rightarrow> Inr \<lparr>btName = dcName dc, btHaID = haID, btSocket = s, btApp = NewAppliance u desc,
                         btSession = device_session c, btReconnect = device_reconnect c\<rparr>))))"

fun build_all ::
  "(string \<Rightarrow> string) \<Rightarrow> config \<Rightarrow> (device_config \<times> description) list \<Rightarrow> (string \<times> string) list \<Rightarrow> built_device list
   \<Rightarrow> device_error + built_device list" where
  "build_all u c [] byHaID devs = Inr devs"
| "build_all u c (spec # specs) byHaID devs =
     (case buildDevice u c spec of
        Inl e \<Rightarrow> Inl e
      | Inr dev \<Rightarrow>
          (case map_of byHaID (btHaID dev) of
             Some first \<Rightarrow> Inl (DuplicateHaID first (btName dev) (btHaID dev))
           | None \<Rightarrow> build_all u c specs ((btHaID dev, btName dev) # byHaID) (devs @ [dev])))"

definition New_bridge ::
  "topic_lib \<Rightarrow> (string \<Rightarrow> string) \<Rightarrow> config \<Rightarrow> (device_config \<times> description) list \<Rightarrow> device_error + string \<times> built_device list" where
  "New_bridge T u c specs =
     (case layout_New T (cfMQTTTopic c) of
        None \<Rightarrow> Inl BadInstance
      | Some inst \<Rightarrow>
          (case build_all u c specs [] [] of
             Inl e \<Rightarrow> Inl e
           | Inr devs \<Rightarrow> if devs = [] then Inl NoDevices else Inr (inst, devs)))"

section \<open>The link of a device\<close>

datatype pub_outcome = PubOk | PubFailed | PubPanic

datatype worker_event =
    PubState conn_state pub_outcome
  | PubOnline bool pub_outcome
  | DiscoveryPass pub_outcome
  | SetLevel nat pub_outcome
  | ShowState conn_state bool
  | Restarting int

text \<open>\<open>wkLinked\<close> is the bridge's map of linked appliances; the device is the one with \<open>wkHaID\<close>.\<close>

record worker =
  wkHaID :: string
  wkState :: "conn_state option"
  wkOnline :: "bool option"
  wkLocked :: bool
  wkLinked :: "(string \<times> bool) list"
  wkLevel :: nat
  wkWeb :: bool
  wkScript :: "pub_outcome list"
  wkTrace :: "worker_event list"

datatype flow = Continue | Panicking | Stuck

definition connectedBroker :: nat where "connectedBroker = 1"
definition connectedOperational :: nat where "connectedOperational = 2"

definition log_event :: "worker_event \<Rightarrow> worker \<Rightarrow> worker" where
  "log_event e w = w\<lparr>wkTrace := wkTrace w @ [e]\<rparr>"

text \<open>\<open>publish\<close>: a failure is logged, a panic of the client is not caught here.\<close>

definition publish :: "(pub_outcome \<Rightarrow> worker_event) \<Rightarrow> worker \<Rightarrow> flow \<times> worker" where
  "publish ev w =
     (let (o', rest) = (case wkScript w of [] \<Rightarrow> (PubOk, []) | x # xs \<Rightarrow> (x, xs))
      in (if o' = PubPanic then Panicking else Continue, log_event (ev o') (w\<lparr>wkScript := rest\<rparr>)))"

definition setDeviceConnected :: "bool \<Rightarrow> worker \<Rightarrow> flow \<times> worker" where
  "setDeviceConnected up w =
     (let linked = AList.update (wkHaID w) up (wkLinked w);
          level = (if list_ex snd linked then connectedOperational else connectedBroker)
      in publish (SetLevel level) (w\<lparr>wkLinked := linked, wkLevel := level\<rparr>))"

text \<open>
  The two locked sections of \<open>onState\<close>: the unlock follows the publish and is not deferred, so a panic of
  the publish leaves the mutex locked.
\<close>

definition locked_publish :: "(worker \<Rightarrow> worker) \<Rightarrow> (pub_outcome \<Rightarrow> worker_event) \<Rightarrow> worker \<Rightarrow> flow \<times> worker" where
  "locked_publish set_link ev w =
     (if wkLocked w then (Stuck, w)
      else (case publish ev (set_link (w\<lparr>wkLocked := True\<rparr>)) of
          (Continue, w') \<Rightarrow> (Continue, w'\<lparr>wkLocked := False\<rparr>)
        | (f, w') \<Rightarrow> (f, w')))"

definition onState :: "conn_state \<Rightarrow> worker \<Rightarrow> flow \<times> worker" where
  "onState s w =
     (let up = (s = StateConnected) in
      case locked_publish (\<lambda>w. w\<lparr>wkState := Some s\<rparr>) (PubState s) w of
        (Continue, w1) \<Rightarrow>
          (case (if up then publish DiscoveryPass w1 else (Continue, w1)) of
             (Continue, w2) \<Rightarrow>
               (case locked_publish (\<lambda>w. w\<lparr>wkOnline := Some up\<rparr>) (PubOnline up) w2 of
                  (Continue, w3) \<Rightarrow>
                    (case setDeviceConnected up w3 of
                       (Continue, w4) \<Rightarrow> (Continue, if wkWeb w4 then log_event (ShowState s up) w4 else w4)
                     | r \<Rightarrow> r)
                | r \<Rightarrow> r)
           | r \<Rightarrow> r)
      | r \<Rightarrow> r)"

text \<open>\<open>reassertLink\<close> defers its unlock.\<close>

definition reassertLink :: "worker \<Rightarrow> flow \<times> worker" where
  "reassertLink w =
     (if wkLocked w then (Stuck, w)
      else case (case wkState w of None \<Rightarrow> (Continue, w) | Some s \<Rightarrow> publish (PubState s) w) of
        (Continue, w1) \<Rightarrow> (case wkOnline w of None \<Rightarrow> (Continue, w1) | Some b \<Rightarrow> publish (PubOnline b) w1)
      | r \<Rightarrow> r)"

section \<open>The worker\<close>

definition restartInitialBackoff :: int where "restartInitialBackoff = second_ns"
definition restartMaxBackoff :: int where "restartMaxBackoff = 30 * second_ns"
definition restartStableRun :: int where "restartStableRun = 60 * second_ns"

text \<open>
  One run of the manager: the states it reports through \<open>onState\<close>, how it ends, how long it lasted, and
  whether the context is cancelled while the worker waits to restart it.
\<close>

datatype run_end = Returned "string option" | Panics

record worker_round =
  wrStates :: "conn_state list"
  wrEnd :: run_end
  wrLasted :: int
  wrCancelled :: bool

fun report_states :: "conn_state list \<Rightarrow> worker \<Rightarrow> flow \<times> worker" where
  "report_states [] w = (Continue, w)"
| "report_states (s # ss) w = (case onState s w of (Continue, w') \<Rightarrow> report_states ss w' | r \<Rightarrow> r)"

text \<open>\<open>runOnce\<close> turns a panic into a flag; \<open>None\<close> is a run that hangs on the mutex.\<close>

definition runOnce :: "worker_round \<Rightarrow> worker \<Rightarrow> (bool \<times> string option) option \<times> worker" where
  "runOnce r w = (case report_states (wrStates r) w of
      (Continue, w') \<Rightarrow> (case wrEnd r of Returned err \<Rightarrow> (Some (False, err), w') | Panics \<Rightarrow> (Some (True, None), w'))
    | (Panicking, w') \<Rightarrow> (Some (True, None), w')
    | (Stuck, w') \<Rightarrow> (None, w'))"

datatype worker_end = Ended "string option" | Cancelled | Hangs | Crashed | StillRunning

fun run_worker :: "int \<Rightarrow> worker_round list \<Rightarrow> worker \<Rightarrow> worker_end \<times> worker" where
  "run_worker backoff [] w = (StillRunning, w)"
| "run_worker backoff (r # rs) w =
     (case runOnce r w of
        (None, w1) \<Rightarrow> (Hangs, w1)
      | (Some (panicked, err), w1) \<Rightarrow>
          if \<not> panicked then (Ended err, w1)
          else (case onState StateOffline w1 of
              (Panicking, w2) \<Rightarrow> (Crashed, w2)
            | (Stuck, w2) \<Rightarrow> (Hangs, w2)
            | (Continue, w2) \<Rightarrow>
                (let b = (if restartStableRun \<le> wrLasted r then restartInitialBackoff else backoff) in
                 if wrCancelled r then (Cancelled, log_event (Restarting b) w2)
                 else (let b2 = wrap64 (b * 2)
                       in run_worker (if restartMaxBackoff < b2 then restartMaxBackoff else b2) rs
                            (log_event (Restarting b) w2)))))"

definition run_device :: "worker_round list \<Rightarrow> worker \<Rightarrow> worker_end \<times> worker" where
  "run_device = run_worker restartInitialBackoff"

section \<open>Facts on building the bridge\<close>

lemma build_all_ok:
  "build_all u c specs ids devs = Inr out \<longleftrightarrow>
     (\<exists>new. out = devs @ new \<and> List.map (buildDevice u c) specs = List.map Inr new
        \<and> distinct (List.map btHaID new) \<and> set (List.map btHaID new) \<inter> fst ` set ids = {})"
proof (induction specs arbitrary: ids devs)
  case Nil
  then show ?case by auto
next
  case (Cons spec specs)
  show ?case
  proof (cases "buildDevice u c spec")
    case (Inl e)
    then show ?thesis by (auto simp: Cons_eq_map_conv)
  next
    case (Inr dev)
    show ?thesis
    proof (cases "map_of ids (btHaID dev)")
      case None
      then have "btHaID dev \<notin> fst ` set ids" by (simp add: map_of_eq_None_iff)
      with None Inr show ?thesis
        by (auto simp: Cons.IH Cons_eq_map_conv)
    next
      case (Some first)
      then have "btHaID dev \<in> fst ` set ids" by (metis map_of_eq_None_iff option.distinct(1))
      with Some Inr show ?thesis by (auto simp: Cons_eq_map_conv)
    qed
  qed
qed

lemma build_all_starts:
  "build_all u c specs [] [] = Inr devs \<longleftrightarrow>
     List.map (buildDevice u c) specs = List.map Inr devs \<and> distinct (List.map btHaID devs)"
  by (auto simp: build_all_ok)

text \<open>
  With a configuration that loaded, the bridge starts exactly when there is a device, every device can be
  built and no two of them resolve to the same haId; its workers are then the devices in configured order,
  each with the timeouts and backoff of the configuration.
\<close>

theorem loaded_bridge_starts:
  assumes "Load_config Y T u bytes env = Inr c"
  shows "New_bridge T u c specs = Inr (inst, devs) \<longleftrightarrow>
     inst = cfMQTTTopic c \<and> devs \<noteq> [] \<and> List.map (buildDevice u c) specs = List.map Inr devs
     \<and> distinct (List.map btHaID devs)"
proof -
  obtain c0 where "Validate T c = []" using assms by (rule Load_config_Inr)
  then have "layout_New T (cfMQTTTopic c) = Some (cfMQTTTopic c)" by (simp add: Validate_Nil)
  then have "New_bridge T u c specs = Inr (inst, devs) \<longleftrightarrow>
      inst = cfMQTTTopic c \<and> devs \<noteq> [] \<and> build_all u c specs [] [] = Inr devs"
    by (auto simp: New_bridge_def split: sum.split if_splits)
  then show ?thesis by (simp add: build_all_starts)
qed

definition one_hob :: "(device_config \<times> description) list" where
  "one_hob = [((kitchen ! 1)\<lparr>dcPSK64 := ''c2VjcmV0LWtleS1vZi10aGUtaG9iLWFwcGxpYW5jZSE''\<rparr>, newDescription)]"

lemma one_hob_builds: "\<not> isl (buildDevice (List.map lower_char) (applyDefaults small_config) (one_hob ! 0))"
  by code_simp

lemma loaded_bridge_starts_witness:
  "\<exists>dev. New_bridge plain_topics (List.map lower_char) (applyDefaults small_config) one_hob = Inr (''homeconnect'', [dev])"
proof -
  obtain dev where "buildDevice (List.map lower_char) (applyDefaults small_config) (one_hob ! 0) = Inr dev"
    using one_hob_builds by (metis sum.collapse(2))
  then have "List.map (buildDevice (List.map lower_char) (applyDefaults small_config)) one_hob = List.map Inr [dev]"
    by (simp add: one_hob_def)
  then have "New_bridge plain_topics (List.map lower_char) (applyDefaults small_config) one_hob =
      Inr (cfMQTTTopic (applyDefaults small_config), [dev])"
    using loaded_bridge_starts [OF small_loads] by auto
  then show ?thesis by (simp add: applyDefaults_def small_config_def or_default_def DefaultMQTTTopic_def)
qed

section \<open>Facts on the link\<close>

definition outcome_of :: "pub_outcome list \<Rightarrow> pub_outcome" where
  "outcome_of os = (case os of [] \<Rightarrow> PubOk | x # xs \<Rightarrow> x)"

lemma publish_eq:
  "publish ev w =
     (if outcome_of (wkScript w) = PubPanic then Panicking else Continue,
      w\<lparr>wkScript := tl (wkScript w), wkTrace := wkTrace w @ [ev (outcome_of (wkScript w))]\<rparr>)"
  by (cases "wkScript w") (auto simp: publish_def outcome_of_def log_event_def)

text \<open>
  What a trace may announce, from the states it reports alone: \<open>track\<close> remembers the last state reported, whether
  discovery ran since, and the level asked for since; \<open>oth\<close> says that another appliance of the fleet is linked.
  \<open>None\<close> is a trace that said something else: online or a level that the last state does not warrant.
\<close>

type_synonym announced = "conn_state option \<times> bool \<times> nat option"

fun track :: "bool \<Rightarrow> announced option \<Rightarrow> worker_event \<Rightarrow> announced option" where
  "track oth None e = None"
| "track oth (Some (s, d, l)) (PubState s' o') = Some (Some s', False, None)"
| "track oth (Some (s, d, l)) (DiscoveryPass o') = (if s = Some StateConnected then Some (s, True, l) else None)"
| "track oth (Some (s, d, l)) (PubOnline b o') =
     (if s \<noteq> None \<and> b = (s = Some StateConnected) \<and> (b \<longrightarrow> d) then Some (s, d, l) else None)"
| "track oth (Some (s, d, l)) (SetLevel n o') =
     (if s \<noteq> None \<and> n = (if s = Some StateConnected \<or> oth then 2 else 1) then Some (s, d, Some n) else None)"
| "track oth (Some (s, d, l)) (ShowState s' b) =
     (if s = Some s' \<and> b = (s' = StateConnected) then Some (s, d, l) else None)"
| "track oth (Some (s, d, l)) (Restarting b) = Some (s, d, l)"

definition tracked :: "bool \<Rightarrow> worker_event list \<Rightarrow> announced option" where
  "tracked oth tr = fold (\<lambda>e a. track oth a e) tr (Some (None, False, None))"

lemma tracked_append [simp]: "tracked oth (tr @ es) = fold (\<lambda>e a. track oth a e) es (tracked oth tr)"
  by (simp add: tracked_def)

definition other_linked :: "worker \<Rightarrow> bool" where
  "other_linked w \<longleftrightarrow> (\<exists>h. h \<noteq> wkHaID w \<and> map_of (wkLinked w) h = Some True)"

lemma other_linked_cong:
  "wkHaID w = wkHaID v \<Longrightarrow> wkLinked w = wkLinked v \<Longrightarrow> other_linked w = other_linked v"
  by (simp only: other_linked_def)

definition fleet_level :: "(string \<times> bool) list \<Rightarrow> nat" where
  "fleet_level linked = (if list_ex snd linked then connectedOperational else connectedBroker)"

lemma fleet_level_map:
  assumes "distinct (List.map fst linked)"
  shows "fleet_level linked = (if \<exists>h. map_of linked h = Some True then 2 else 1)"
  using assms
  by (auto simp: fleet_level_def connectedOperational_def connectedBroker_def list_ex_iff map_of_eq_Some_iff)

text \<open>The level a trace asked for is one it may ask for.\<close>

lemma tracked_level:
  "tracked oth tr = Some (s, d, Some n) \<Longrightarrow> n = (if s = Some StateConnected \<or> oth then 2 else 1)"
proof (induction tr arbitrary: s d n rule: rev_induct)
  case (snoc e tr)
  then show ?case
    by (cases "tracked oth tr") (cases e; auto split: if_splits)+
qed (simp add: tracked_def)

text \<open>The invariant of a worker, and a worker whose level was asked for after the last state it reported.\<close>

definition worker_ok :: "bool \<Rightarrow> worker \<Rightarrow> bool" where
  "worker_ok oth w \<longleftrightarrow> (\<exists>s d l. tracked oth (wkTrace w) = Some (s, d, l)
       \<and> (\<forall>n. l = Some n \<longrightarrow> wkLevel w = n \<and> map_of (wkLinked w) (wkHaID w) = Some (s = Some StateConnected)))
   \<and> distinct (List.map fst (wkLinked w)) \<and> other_linked w = oth"

definition settled :: "bool \<Rightarrow> worker \<Rightarrow> bool" where
  "settled oth w \<longleftrightarrow> (\<forall>s d l. tracked oth (wkTrace w) = Some (s, d, l) \<longrightarrow> s = None \<or> l \<noteq> None)"

lemma update_level:
  assumes "distinct (List.map fst (wkLinked w))" and "other_linked w = oth"
  shows "fleet_level (AList.update (wkHaID w) up (wkLinked w)) = (if up \<or> oth then 2 else 1)"
proof -
  have "distinct (List.map fst (AList.update (wkHaID w) up (wkLinked w)))" using assms(1) by (rule distinct_update)
  then show ?thesis using assms(2) by (auto simp: fleet_level_map update_conv' other_linked_def)
qed

text \<open>The sections of \<open>onState\<close>, one after the other.\<close>

definition stands :: "bool \<Rightarrow> conn_state option \<Rightarrow> bool \<Rightarrow> nat option \<Rightarrow> worker \<Rightarrow> bool" where
  "stands oth s d l w \<longleftrightarrow> tracked oth (wkTrace w) = Some (s, d, l)
     \<and> distinct (List.map fst (wkLinked w)) \<and> other_linked w = oth"

lemma stands_ok: "stands oth s d None w \<Longrightarrow> worker_ok oth w"
  unfolding stands_def worker_ok_def by blast

lemma stands_publish:
  assumes "stands oth s d l w" and "publish ev w = (f, w1)"
    and "\<And>o'. track oth (Some (s, d, l)) (ev o') = Some (s', d', l')"
  shows "stands oth s' d' l' w1 \<and> wkLevel w1 = wkLevel w \<and> wkLinked w1 = wkLinked w \<and> wkHaID w1 = wkHaID w"
proof -
  have w: "wkTrace w1 = wkTrace w @ [ev (outcome_of (wkScript w))]" "wkLevel w1 = wkLevel w" "wkLinked w1 = wkLinked w"
      "wkHaID w1 = wkHaID w"
    using assms(2) by (auto simp: publish_eq)
  then show ?thesis using assms(1,3) other_linked_cong [OF w(4,3)] by (simp add: stands_def)
qed

lemma stands_locked:
  assumes "stands oth s d l w" and "locked_publish (\<lambda>w. g w) ev w = (f, w1)"
    and "\<And>o'. track oth (Some (s, d, l)) (ev o') = Some (s', d', l')"
    and "\<And>w. wkTrace (g w) = wkTrace w \<and> wkLinked (g w) = wkLinked w \<and> wkHaID (g w) = wkHaID w"
  shows "f = Stuck \<and> w1 = w \<or> stands oth s' d' l' w1"
proof (cases "wkLocked w")
  case True
  with assms(2) show ?thesis by (simp add: locked_publish_def)
next
  case False
  obtain f2 w2 where p: "publish ev (g (w\<lparr>wkLocked := True\<rparr>)) = (f2, w2)" by fastforce
  have "other_linked (g (w\<lparr>wkLocked := True\<rparr>)) = other_linked w" by (rule other_linked_cong) (simp_all add: assms(4))
  then have "stands oth s d l (g (w\<lparr>wkLocked := True\<rparr>))" using assms(1,4) by (simp add: stands_def)
  from stands_publish [OF this p assms(3)] have "stands oth s' d' l' w2" by blast
  moreover have "other_linked (w2\<lparr>wkLocked := False\<rparr>) = other_linked w2" by (rule other_linked_cong) simp_all
  ultimately show ?thesis using False p assms(2)
    by (cases f2) (auto simp: locked_publish_def stands_def)
qed

lemma stands_level:
  assumes "stands oth (Some s) d l w" and "up = (s = StateConnected)" and "setDeviceConnected up w = (f, w1)"
  shows "stands oth (Some s) d (Some (wkLevel w1)) w1 \<and> map_of (wkLinked w1) (wkHaID w1) = Some (s = StateConnected)"
proof -
  let ?l = "AList.update (wkHaID w) up (wkLinked w)"
  have ds: "distinct (List.map fst (wkLinked w))" and o: "other_linked w = oth" using assms(1) by (simp_all add: stands_def)
  let ?v = "w\<lparr>wkLinked := ?l, wkLevel := fleet_level ?l\<rparr>"
  have p: "publish (SetLevel (fleet_level ?l)) ?v = (f, w1)"
    using assms(3) by (simp add: setDeviceConnected_def Let_def fleet_level_def)
  have "stands oth (Some s) d l ?v"
    using assms(1) distinct_update [OF ds] by (auto simp: stands_def other_linked_def update_conv' simp del: map_of_eq_Some_iff)
  from stands_publish [OF this p] update_level [OF ds o, of up] assms(2)
  have "stands oth (Some s) d (Some (fleet_level ?l)) w1 \<and> wkLevel w1 = fleet_level ?l \<and> wkLinked w1 = ?l \<and> wkHaID w1 = wkHaID w"
    by simp
  with assms(2) show ?thesis by (simp add: update_conv')
qed

lemma stands_settled:
  assumes "stands oth (Some s) d (Some (wkLevel w)) w" and "map_of (wkLinked w) (wkHaID w) = Some (s = StateConnected)"
  shows "worker_ok oth w \<and> settled oth w"
  using assms unfolding stands_def worker_ok_def settled_def by auto

lemma onState_ok:
  assumes "worker_ok oth w"
  shows "worker_ok oth (snd (onState s w)) \<and> (fst (onState s w) = Continue \<longrightarrow> settled oth (snd (onState s w)))"
proof -
  let ?up = "s = StateConnected"
  from assms obtain s0 d l where t: "stands oth s0 d l w" unfolding worker_ok_def stands_def by blast
  obtain f1 w1 where 1: "locked_publish (\<lambda>w. w\<lparr>wkState := Some s\<rparr>) (PubState s) w = (f1, w1)" by fastforce
  have a1: "f1 = Stuck \<and> w1 = w \<or> stands oth (Some s) False None w1"
    by (rule stands_locked [OF t 1]) simp_all
  show ?thesis
  proof (cases "f1 = Continue")
    case False
    with 1 have "onState s w = (f1, w1)" by (cases f1) (simp_all add: onState_def)
    with a1 False assms stands_ok show ?thesis by auto
  next
    case True
    with a1 have s1: "stands oth (Some s) False None w1" by simp
    obtain f2 w2 where 2: "(if ?up then publish DiscoveryPass w1 else (Continue, w1)) = (f2, w2)" by fastforce
    have s2: "stands oth (Some s) ?up None w2"
    proof (cases ?up)
      case True
      with stands_publish [OF s1, of DiscoveryPass f2 w2 "Some s" True None] 2 show ?thesis by simp
    next
      case False
      with 2 s1 show ?thesis by simp
    qed
    show ?thesis
    proof (cases "f2 = Continue")
      case False
      with 1 2 True have "onState s w = (f2, w2)" by (cases f2) (simp_all add: onState_def)
      with s2 False stands_ok show ?thesis by simp
    next
      case c2: True
      obtain f3 w3 where 3: "locked_publish (\<lambda>w. w\<lparr>wkOnline := Some ?up\<rparr>) (PubOnline ?up) w2 = (f3, w3)" by fastforce
      have "f3 = Stuck \<and> w3 = w2 \<or> stands oth (Some s) ?up None w3"
        by (rule stands_locked [OF s2 3]) simp_all
      with s2 have s3: "stands oth (Some s) ?up None w3" by auto
      show ?thesis
      proof (cases "f3 = Continue")
        case False
        with 1 2 3 True c2 have "onState s w = (f3, w3)" by (cases f3) (simp_all add: onState_def)
        with s3 False stands_ok show ?thesis by simp
      next
        case c3: True
        obtain f4 w4 where 4: "setDeviceConnected ?up w3 = (f4, w4)" by fastforce
        note s4 = stands_level [OF s3 refl 4]
        let ?w5 = "if wkWeb w4 then log_event (ShowState s ?up) w4 else w4"
        have "onState s w = (f4, if f4 = Continue then ?w5 else w4)"
          using 1 2 3 4 True c2 c3 by (cases f4) (simp_all add: onState_def)
        moreover have "other_linked ?w5 = other_linked w4" by (rule other_linked_cong) (simp_all add: log_event_def)
        then have "stands oth (Some s) ?up (Some (wkLevel ?w5)) ?w5" "map_of (wkLinked ?w5) (wkHaID ?w5) = Some ?up"
          using s4 by (simp_all add: stands_def log_event_def del: map_of_eq_Some_iff)
        note stands_settled [OF this] stands_settled [OF s4 [THEN conjunct1] s4 [THEN conjunct2]]
        ultimately show ?thesis by simp
      qed
    qed
  qed
qed

lemma report_states_ok:
  "worker_ok oth w \<Longrightarrow> settled oth w \<Longrightarrow>
     worker_ok oth (snd (report_states ss w)) \<and> (fst (report_states ss w) = Continue \<longrightarrow> settled oth (snd (report_states ss w)))"
proof (induction ss arbitrary: w)
  case (Cons s ss)
  then show ?case
    using onState_ok [OF Cons.prems(1), of s]
    by (auto split: prod.split flow.split)
qed simp

lemma runOnce_ok:
  assumes "worker_ok oth w" and "settled oth w"
  shows "worker_ok oth (snd (runOnce r w)) \<and> (\<forall>err. fst (runOnce r w) = Some (False, err) \<longrightarrow> settled oth (snd (runOnce r w)))"
  using report_states_ok [OF assms, of "wrStates r"]
  by (auto simp: runOnce_def split: prod.splits flow.splits run_end.splits)

lemma log_restarting_ok [simp]:
  "worker_ok oth (log_event (Restarting b) w) = worker_ok oth w" "settled oth (log_event (Restarting b) w) = settled oth w"
  by (cases "tracked oth (wkTrace w)"; force simp: worker_ok_def settled_def log_event_def other_linked_def)+

lemma run_worker_ok:
  "worker_ok oth w \<Longrightarrow> settled oth w \<Longrightarrow> run_worker b rs w = (res, w') \<Longrightarrow>
     worker_ok oth w' \<and> (res \<notin> {Hangs, Crashed} \<longrightarrow> settled oth w')"
proof (induction rs arbitrary: b w)
  case (Cons r rs)
  obtain q w1 where r: "runOnce r w = (q, w1)" by fastforce
  have ok1: "worker_ok oth w1" "\<And>err. q = Some (False, err) \<Longrightarrow> settled oth w1"
    using runOnce_ok [OF Cons.prems(1,2), of r] r by auto
  obtain f w2 where o: "onState StateOffline w1 = (f, w2)" by fastforce
  have ok2: "worker_ok oth w2" "f = Continue \<Longrightarrow> settled oth w2" using onState_ok [OF ok1(1), of StateOffline] o by auto
  show ?case
  proof (cases q)
    case None
    with Cons.prems(3) r ok1(1) show ?thesis by auto
  next
    case (Some qe)
    then obtain pn err where q: "q = Some (pn, err)" by (cases qe) auto
    let ?b = "if restartStableRun \<le> wrLasted r then restartInitialBackoff else b"
    let ?w3 = "log_event (Restarting ?b) w2"
    have w3: "worker_ok oth ?w3" "f = Continue \<Longrightarrow> settled oth ?w3" using ok2 by simp_all
    consider "\<not> pn" | "pn" "f \<noteq> Continue" | "pn" "f = Continue" "wrCancelled r" | "pn" "f = Continue" "\<not> wrCancelled r" by blast
    then show ?thesis
    proof cases
      case 1
      with Cons.prems(3) r q ok1 show ?thesis by auto
    next
      case 2
      with Cons.prems(3) r q o ok2(1) show ?thesis by (cases f) auto
    next
      case 3
      with Cons.prems(3) r q o w3 show ?thesis by (auto simp: Let_def)
    next
      case 4
      let ?b2 = "wrap64 (?b * 2)"
      have "run_worker (if restartMaxBackoff < ?b2 then restartMaxBackoff else ?b2) rs ?w3 = (res, w')"
        using Cons.prems(3) r q o 4 by (simp add: Let_def)
      from Cons.IH [OF w3(1) w3(2) [OF 4(2)] this] show ?thesis .
    qed
  qed
qed simp

text \<open>
  C32. Whatever panics or fails, from its start on a worker says that its appliance is online only right after
  reporting the state connected and running a discovery pass, and offline only after reporting another state; and
  every fleet level it asks for is the one the reported states warrant: operational when the state it reported
  last is connected or another appliance is linked, and the broker's otherwise. Unless the worker hangs or
  takes the process down, the level asked for last is the one that belongs to the last state reported, and the
  appliance is recorded as linked exactly when that state is connected.
\<close>

theorem worker_announces:
  assumes "wkTrace w = []" "distinct (List.map fst (wkLinked w))" and "run_device rs w = (res, w')"
  shows "\<exists>s d l. tracked (other_linked w) (wkTrace w') = Some (s, d, l)
    \<and> (\<forall>n. l = Some n \<longrightarrow> wkLevel w' = n \<and> map_of (wkLinked w') (wkHaID w') = Some (s = Some StateConnected))
    \<and> (res \<notin> {Hangs, Crashed} \<and> s \<noteq> None \<longrightarrow>
         wkLevel w' = (if s = Some StateConnected \<or> other_linked w then 2 else 1) \<and> l = Some (wkLevel w'))"
proof -
  have "worker_ok (other_linked w) w" "settled (other_linked w) w"
    using assms(1,2) by (auto simp: worker_ok_def settled_def tracked_def)
  from run_worker_ok [OF this assms(3) [unfolded run_device_def]]
  have ok: "worker_ok (other_linked w) w'" "res \<notin> {Hangs, Crashed} \<Longrightarrow> settled (other_linked w) w'" by blast+
  from ok(1) obtain s d l where t: "tracked (other_linked w) (wkTrace w') = Some (s, d, l)"
      "\<forall>n. l = Some n \<longrightarrow> wkLevel w' = n \<and> map_of (wkLinked w') (wkHaID w') = Some (s = Some StateConnected)"
    unfolding worker_ok_def by blast
  have "n = (if s = Some StateConnected \<or> other_linked w then 2 else 1)" if "l = Some n" for n
    using tracked_level [OF t(1) [unfolded that]] .
  with t ok(2) show ?thesis by (auto simp: settled_def)
qed

definition idle_worker :: "pub_outcome list \<Rightarrow> worker" where
  "idle_worker os = \<lparr>wkHaID = ''4711'', wkState = None, wkOnline = None, wkLocked = False, wkLinked = [(''4712'', False)],
     wkLevel = connectedBroker, wkWeb = True, wkScript = os, wkTrace = []\<rparr>"

lemma worker_announces_witness:
  "\<exists>s d l. tracked False (wkTrace (snd (run_device
       [\<lparr>wrStates = [StateConnecting, StateConnected], wrEnd = Returned None, wrLasted = 5, wrCancelled = False\<rparr>]
       (idle_worker [PubOk, PubFailed])))) = Some (s, d, l) \<and> s = Some StateConnected \<and> l = Some 2"
proof -
  let ?r = "run_device [\<lparr>wrStates = [StateConnecting, StateConnected], wrEnd = Returned None, wrLasted = 5, wrCancelled = False\<rparr>]
       (idle_worker [PubOk, PubFailed])"
  have w: "wkTrace (idle_worker [PubOk, PubFailed]) = []" "distinct (List.map fst (wkLinked (idle_worker [PubOk, PubFailed])))"
    by (simp_all add: idle_worker_def)
  have o: "other_linked (idle_worker [PubOk, PubFailed]) = False" by (auto simp: other_linked_def idle_worker_def)
  have e: "fst ?r = Ended None" by code_simp
  have "map_option fst (tracked False (wkTrace (snd ?r))) = Some (Some StateConnected)" by code_simp
  with worker_announces [OF w surjective_pairing [of ?r]] e show ?thesis unfolding o by auto
qed

section \<open>Restarts\<close>

definition delays :: "worker_event list \<Rightarrow> int list" where
  "delays tr = List.map_filter (\<lambda>e. case e of Restarting b \<Rightarrow> Some b | _ \<Rightarrow> None) tr"

lemma delays_simps [simp]:
  "delays [] = []" "delays (xs @ ys) = delays xs @ delays ys"
  "delays (PubState s o' # es) = delays es" "delays (PubOnline b o' # es) = delays es"
  "delays (ShowState s b # es) = delays es" "delays (DiscoveryPass o' # es) = delays es" "delays (SetLevel n o' # es) = delays es"
  "delays (Restarting d # es) = d # delays es"
  by (simp_all add: delays_def map_filter_def)

lemma onState_delays [simp]: "delays (wkTrace (snd (onState s w))) = delays (wkTrace w)"
  unfolding onState_def locked_publish_def setDeviceConnected_def Let_def publish_eq log_event_def
  by (cases "s = StateConnected") auto

definition calm :: "worker \<Rightarrow> bool" where
  "calm w \<longleftrightarrow> PubPanic \<notin> set (wkScript w) \<and> \<not> wkLocked w"

lemma outcome_calm: "PubPanic \<notin> set os \<Longrightarrow> outcome_of os \<noteq> PubPanic \<and> PubPanic \<notin> set (tl os)"
  by (cases os) (auto simp: outcome_of_def)

lemma onState_calm:
  assumes "calm w" shows "fst (onState s w) = Continue \<and> calm (snd (onState s w))"
proof -
  from assms have "PubPanic \<notin> set (wkScript w)" "\<not> wkLocked w" by (auto simp: calm_def)
  note 1 = outcome_calm [OF this(1)] this(2)
  note 2 = outcome_calm [OF conjunct2 [OF 1(1)]]
  note 3 = outcome_calm [OF conjunct2 [OF 2]]
  note 4 = outcome_calm [OF conjunct2 [OF 3]]
  from 1 2 3 4 show ?thesis
    unfolding onState_def locked_publish_def setDeviceConnected_def Let_def publish_eq log_event_def
    by (cases "s = StateConnected") (auto simp: calm_def)
qed

lemma report_states_calm:
  "calm w \<Longrightarrow> \<exists>w'. report_states ss w = (Continue, w') \<and> calm w' \<and> delays (wkTrace w') = delays (wkTrace w)"
proof (induction ss arbitrary: w)
  case (Cons s ss)
  obtain w1 where w1: "onState s w = (Continue, w1)" "calm w1"
    using onState_calm [OF Cons.prems, of s] by (cases "onState s w") auto
  have "delays (wkTrace w1) = delays (wkTrace w)" using onState_delays [of s w] w1 by simp
  with Cons.IH [OF w1(2)] w1 show ?case by auto
qed simp

lemma runOnce_calm:
  assumes "calm w"
  obtains w' where "runOnce r w = (Some (case wrEnd r of Returned err \<Rightarrow> (False, err) | Panics \<Rightarrow> (True, None)), w')"
    "calm w'" "delays (wkTrace w') = delays (wkTrace w)"
proof -
  obtain w' where "report_states (wrStates r) w = (Continue, w')" "calm w'" "delays (wkTrace w') = delays (wkTrace w)"
    using report_states_calm [OF assms] by blast
  with that show ?thesis by (cases "wrEnd r") (auto simp: runOnce_def)
qed

definition restart_delay :: "nat \<Rightarrow> int" where
  "restart_delay k = min restartMaxBackoff (restartInitialBackoff * 2 ^ k)"

lemma restart_delay_range: "restartInitialBackoff \<le> restart_delay k \<and> restart_delay k \<le> restartMaxBackoff"
  by (simp add: restart_delay_def restartInitialBackoff_def restartMaxBackoff_def second_ns_def min_def)

lemma restart_delay_next:
  "(let b2 = wrap64 (restart_delay k * 2) in if restartMaxBackoff < b2 then restartMaxBackoff else b2) = restart_delay (Suc k)"
proof -
  have "in_int64 (restart_delay k * 2)"
    using restart_delay_range [of k]
    by (simp add: in_int64_def int64_min_def int64_max_def restartInitialBackoff_def restartMaxBackoff_def second_ns_def)
  moreover have "0 < restartInitialBackoff * 2 ^ k" "0 < restartMaxBackoff"
    by (simp_all add: restartInitialBackoff_def restartMaxBackoff_def second_ns_def)
  moreover define m where "m = restartInitialBackoff * 2 ^ k"
  moreover have "restartInitialBackoff * 2 ^ Suc k = m * 2" by (simp add: m_def)
  ultimately show ?thesis by (simp add: Let_def wrap64_id restart_delay_def min_def split: if_splits)
qed

definition panicking_round :: "worker_round \<Rightarrow> bool" where
  "panicking_round r \<longleftrightarrow> wrEnd r = Panics \<and> wrLasted r < restartStableRun \<and> \<not> wrCancelled r"

lemma run_worker_schedule:
  "calm w \<Longrightarrow> \<forall>r\<in>set rs. panicking_round r \<Longrightarrow>
     \<exists>w'. run_worker (restart_delay k) rs w = (StillRunning, w') \<and> calm w'
       \<and> delays (wkTrace w') = delays (wkTrace w) @ List.map restart_delay [k..<k + length rs]"
proof (induction rs arbitrary: k w)
  case (Cons r rs)
  from Cons.prems(2) have r: "wrEnd r = Panics" "wrLasted r < restartStableRun" "\<not> wrCancelled r"
    by (auto simp: panicking_round_def)
  obtain w1 where w1: "runOnce r w = (Some (True, None), w1)" "calm w1" "delays (wkTrace w1) = delays (wkTrace w)"
    using runOnce_calm [OF Cons.prems(1), of r] r by auto
  obtain w2 where w2: "onState StateOffline w1 = (Continue, w2)" "calm w2" "delays (wkTrace w2) = delays (wkTrace w1)"
    using onState_calm [OF w1(2), of StateOffline] onState_delays [of StateOffline w1]
    by (cases "onState StateOffline w1") auto
  let ?w3 = "log_event (Restarting (restart_delay k)) w2"
  have "calm ?w3" using w2 by (simp add: calm_def log_event_def)
  then obtain w' where "run_worker (restart_delay (Suc k)) rs ?w3 = (StillRunning, w')" "calm w'"
      "delays (wkTrace w') = delays (wkTrace ?w3) @ List.map restart_delay [Suc k..<Suc k + length rs]"
    using Cons.IH Cons.prems(2) by (metis list.set_intros(2))
  then show ?case
    using w1 w2 r restart_delay_next [of k]
    by (simp add: Let_def log_event_def upt_conv_Cons del: upt_Suc)
qed simp

text \<open>
  C33. While the MQTT client does not panic, a worker whose runs keep panicking before they are stable is
  restarted for ever: it never hangs and never ends, and before restart \<open>k\<close> it waits the doubled first
  delay, capped at thirty seconds.
\<close>

theorem worker_restarts:
  assumes "PubPanic \<notin> set (wkScript w)" "\<not> wkLocked w" "\<forall>r\<in>set rs. panicking_round r"
  shows "fst (run_device rs w) = StillRunning
    \<and> delays (wkTrace (snd (run_device rs w))) = delays (wkTrace w) @ List.map restart_delay [0..<length rs]"
proof -
  have "restartInitialBackoff = restart_delay 0"
    by (simp add: restart_delay_def restartInitialBackoff_def restartMaxBackoff_def second_ns_def)
  with run_worker_schedule [of w rs 0] assms show ?thesis
    by (auto simp: run_device_def calm_def)
qed

lemma worker_restarts_witness:
  "fst (run_device (replicate 7 \<lparr>wrStates = [StateConnected], wrEnd = Panics, wrLasted = 5, wrCancelled = False\<rparr>)
       (idle_worker [PubFailed])) = StillRunning
   \<and> delays (wkTrace (snd (run_device (replicate 7 \<lparr>wrStates = [StateConnected], wrEnd = Panics, wrLasted = 5, wrCancelled = False\<rparr>)
       (idle_worker [PubFailed])))) =
     [second_ns, 2 * second_ns, 4 * second_ns, 8 * second_ns, 16 * second_ns, 30 * second_ns, 30 * second_ns]"
  using worker_restarts [of "idle_worker [PubFailed]" "replicate 7 \<lparr>wrStates = [StateConnected], wrEnd = Panics, wrLasted = 5, wrCancelled = False\<rparr>"]
  by (simp add: idle_worker_def panicking_round_def restartStableRun_def second_ns_def delays_def map_filter_def
      restart_delay_def restartMaxBackoff_def restartInitialBackoff_def upt_conv_Cons)

text \<open>
  A panic of the MQTT client inside a worker is not isolated: raised while a state is being reported it
  leaves the mutex of the device locked, so the recovery waits for it for ever, and so does every later
  \<^verbatim>\<open>reassertLink\<close>; raised while the recovery itself reports the device offline it takes the process down.
\<close>

theorem mqtt_panic_not_isolated:
  assumes "\<not> wkLocked w" "wkScript w = PubPanic # os"
  shows "(case wrStates r of
            s # ss \<Rightarrow> fst (run_device (r # rs) w) = Hangs \<and> fst (reassertLink (snd (run_device (r # rs) w))) = Stuck
          | [] \<Rightarrow> fst (run_device (r # rs) w) = (case wrEnd r of Returned err \<Rightarrow> Ended err | Panics \<Rightarrow> Crashed))"
proof (cases "wrStates r")
  case Nil
  with assms show ?thesis
    by (auto simp: run_device_def runOnce_def onState_def locked_publish_def publish_eq outcome_of_def split: run_end.split)
next
  case (Cons s ss)
  with assms have "runOnce r w = (Some (True, None), w\<lparr>wkLocked := True, wkState := Some s, wkScript := os,
      wkTrace := wkTrace w @ [PubState s PubPanic]\<rparr>)"
    by (simp add: runOnce_def onState_def locked_publish_def publish_eq outcome_of_def)
  with Cons show ?thesis
    by (simp add: run_device_def onState_def locked_publish_def reassertLink_def)
qed

lemma mqtt_panic_not_isolated_witness:
  "fst (run_device [\<lparr>wrStates = [StateConnecting], wrEnd = Returned None, wrLasted = 5, wrCancelled = False\<rparr>]
     (idle_worker [PubPanic])) = Hangs"
  using mqtt_panic_not_isolated [of "idle_worker [PubPanic]" "[]"
      "\<lparr>wrStates = [StateConnecting], wrEnd = Returned None, wrLasted = 5, wrCancelled = False\<rparr>" "[]"]
  by (simp add: idle_worker_def)

section \<open>Features without a name\<close>

lemma featureView_simps [simp]: "ftFeature (featureView T dl e) = enName e" "ftUID (featureView T dl e) = enUID e"
  by (simp_all add: featureView_def Let_def split: option.split)

lemma filter_unique_key:
  "distinct (List.map g xs) \<Longrightarrow> x \<in> set xs \<Longrightarrow> g x = a \<Longrightarrow> filter (\<lambda>y. g y = a) xs = [x]"
  by (induction xs) (auto simp: filter_empty_conv image_iff)

definition web_update ::
  "topic_lib \<Rightarrow> (string \<Rightarrow> string) \<Rightarrow> (int \<Rightarrow> string) \<Rightarrow> string \<Rightarrow> device_layout \<Rightarrow> int \<Rightarrow> store \<Rightarrow> entity \<Rightarrow> store" where
  "web_update T u rfc n dl now s e = the (snd (onUpdate T u rfc n dl now e (newDevicePublisher, Some s)))"

text \<open>
  The web interface keeps one feature without a name per device: after two of them reported, whatever the
  store held before, only the one that reported last is shown, although each has a topic of its own.
\<close>

theorem unnamed_features_collide:
  assumes "enName e1 = []" "enName e2 = []" "enHasValue e1" "enHasValue e2"
    and "Device now (web_update T u rfc n dl t2 (web_update T u rfc n dl t1 (fold (apply_store rfc) ops New_store) e1) e2) n
         = Some (sm, info, fs)"
  shows "filter (\<lambda>f. ftFeature f = []) fs = [featureView T dl e2\<lparr>ftUpdatedAt := rfc t2\<rparr>]"
proof -
  let ?f = "featureView T dl e2\<lparr>ftUpdatedAt := rfc t2\<rparr>"
  let ?ops = "ops @ [Updated n (featureView T dl e1) t1, Updated n (featureView T dl e2) t2]"
  have "web_update T u rfc n dl t2 (web_update T u rfc n dl t1 (fold (apply_store rfc) ops New_store) e1) e2 =
      fold (apply_store rfc) ?ops New_store"
    using assms(3,4) by (simp add: web_update_def onUpdate_def)
  with assms(5) have d: "Device now (fold (apply_store rfc) ?ops New_store) n = Some (sm, info, fs)" by metis
  have ks: "List.map ftFeature fs = sorted_list_of_set {k. last_update rfc (rev ?ops) n k \<noteq> None}"
    and up: "\<forall>f\<in>set fs. last_update rfc (rev ?ops) n (ftFeature f) = Some f"
    using shown_latest [OF _ d] by auto
  have l: "last_update rfc (rev ?ops) n [] = Some ?f" using assms(2) by simp
  have "finite {k. last_update rfc (rev ?ops) n k \<noteq> None}" by (rule finite_updated)
  with ks l have "distinct (List.map ftFeature fs)" "[] \<in> set (List.map ftFeature fs)" by auto
  moreover from this(2) obtain f where "f \<in> set fs" "ftFeature f = []" by auto
  moreover have "f = ?f" if "f \<in> set fs" "ftFeature f = []" for f
    using bspec [OF up that(1)] unfolding that(2) l by simp
  ultimately show ?thesis using filter_unique_key by metis
qed

definition unnamed_reading :: "int \<Rightarrow> int \<Rightarrow> entity" where
  "unnamed_reading i v = update (\<lambda>v. []) (\<lambda>s. s) (newEntity (\<lambda>s. s)
     (entry0\<lparr>eUID := i, eKind := KindStatus, eProtocolType := ProtocolInteger, eAvailable := True\<rparr>)) [(''value'', VInt v)]"

lemma unnamed_features_collide_witness:
  "\<exists>sm info fs. Device 9 (web_update plain_topics id (\<lambda>t. []) ''Oven'' oven_layout 2 (web_update plain_topics id (\<lambda>t. []) ''Oven''
       oven_layout 1 (fold (apply_store (\<lambda>t. [])) [] New_store) (unnamed_reading 17 1)) (unnamed_reading 18 2)) ''Oven'' = Some (sm, info, fs)
     \<and> List.map ftUID (filter (\<lambda>f. ftFeature f = []) fs) = [18]"
proof -
  let ?s = "web_update plain_topics id (\<lambda>t. []) ''Oven'' oven_layout 2 (web_update plain_topics id (\<lambda>t. []) ''Oven''
       oven_layout 1 (fold (apply_store (\<lambda>t. [])) [] New_store) (unnamed_reading 17 1)) (unnamed_reading 18 2)"
  have e: "enName (unnamed_reading 17 1) = []" "enName (unnamed_reading 18 2) = []" "enHasValue (unnamed_reading 17 1)"
    "enHasValue (unnamed_reading 18 2)" "enUID (unnamed_reading 18 2) = 18" by code_simp+
  have "map_of ?s ''Oven'' \<noteq> None"
    using e(3,4) by (simp add: web_update_def onUpdate_def UpdateFeature_def Let_def update_conv')
  then obtain sm info fs where d: "Device 9 ?s ''Oven'' = Some (sm, info, fs)" by (auto simp: Device_def)
  from unnamed_features_collide [OF e(1-4) d] d e(5) show ?thesis by auto
qed

end
