(* ===== verification/Bridge_Run.thy ===== *)
theory Bridge_Run
  imports Plane_Status Worker
begin

text \<open>
  The wiring of \<^verbatim>\<open>internal/bridge/bridge.go\<close> and the subscriptions of \<^verbatim>\<open>command.go\<close>: what \<open>Run\<close> registers,
  in which order it opens the start gate and starts the goroutines, the hook \<open>PublishOnline\<close> that runs on every
  connection of the broker, and the end of discovery at shutdown.

  The command router of \<^verbatim>\<open>go-hamqtt\<close> is the record \<open>router_lib\<close>: which filters it accepts beside those it has.
  The hook works on the plane and the status items of theories \<open>Plane\<close> and \<open>Plane_Status\<close>, over one world, and on
  the devices' links and queues of theories \<open>Worker\<close> and \<open>Publisher\<close>. A panic inside the MQTT client is not
  part of the hook here.
\<close>

section \<open>Subscribing\<close>

record router_lib =
  roAccepts :: "string list \<Rightarrow> string \<Rightarrow> bool"
  roMaintenance :: "string list \<Rightarrow> bool"
  roStarts :: "string list \<Rightarrow> bool"
  roBirth :: "string \<Rightarrow> bool"

record command_config =
  cmQoS :: nat
  cmDeliverRetained :: bool

definition commandConfig :: command_config where
  "commandConfig = \<lparr>cmQoS = 1, cmDeliverRetained = False\<rparr>"

datatype run_error = RouteRefused string | MaintenanceRefused | RouterNotStarted | BirthNotSubscribed

fun route_devices :: "router_lib \<Rightarrow> string list \<Rightarrow> string list \<Rightarrow> run_error + string list" where
  "route_devices R routes [] = Inr routes"
| "route_devices R routes (f # fs) =
     (if roAccepts R routes f then route_devices R (routes @ [f]) fs else Inl (RouteRefused f))"

text \<open>
  The routes of the devices, the maintenance route when there is an instance, the start, and the birth topic
  when Home Assistant is configured. The Boolean says that the bridge has a started router to stop.
\<close>

definition subscribeCommands ::
  "router_lib \<Rightarrow> bool \<Rightarrow> string option \<Rightarrow> string list \<Rightarrow> run_error option \<times> bool" where
  "subscribeCommands R has_instance birth filters =
     (case route_devices R [] filters of
        Inl err \<Rightarrow> (Some err, False)
      | Inr routes \<Rightarrow>
          if has_instance \<and> \<not> roMaintenance R routes then (Some MaintenanceRefused, False)
          else if \<not> roStarts R routes then (Some RouterNotStarted, False)
          else (case birth of
              None \<Rightarrow> (None, True)
            | Some topic \<Rightarrow> (if roBirth R topic then None else Some BirthNotSubscribed, True)))"

text \<open>The birth handler; \<^verbatim>\<open>EqualFold\<close> with an ASCII word is a comparison of the lowered bytes.\<close>

definition birth_message :: "string \<Rightarrow> bool" where
  "birth_message payload \<longleftrightarrow> List.map lower_char (trim_space payload) = ''online''"

section \<open>Running\<close>

datatype run_event =
    RefreshOnce
  | OpenGate
  | SpawnSweep
  | SpawnStats
  | SpawnDrain nat
  | SpawnWorker nat
  | Wait
  | StopRouter

definition stopCommands :: "bool \<Rightarrow> run_event list" where
  "stopCommands has_router = (if has_router then [StopRouter] else [])"

definition Run_bridge ::
  "router_lib \<Rightarrow> bool \<Rightarrow> string option \<Rightarrow> string list \<Rightarrow> run_error option \<times> run_event list" where
  "Run_bridge R has_instance birth filters =
     (case subscribeCommands R has_instance birth filters of
        (Some err, _) \<Rightarrow> (Some err, [])
      | (None, has_router) \<Rightarrow>
          (None, [RefreshOnce, OpenGate, SpawnSweep] @ (if has_instance then [SpawnStats] else [])
             @ concat (List.map (\<lambda>i. [SpawnDrain i, SpawnWorker i]) [0..<length filters])
             @ [Wait] @ stopCommands has_router))"

section \<open>The hook of a connection\<close>

fun conn_text :: "conn_state \<Rightarrow> string" where
  "conn_text StateConnecting = ''connecting''"
| "conn_text StateConnected = ''connected''"
| "conn_text StateReconnecting = ''reconnecting''"
| "conn_text StateClosing = ''closing''"
| "conn_text StateClosed = ''closed''"
| "conn_text StateOffline = ''offline''"

record device_run =
  drWorker :: worker
  drLayout :: device_layout
  drApp :: appliance
  drQueue :: publisher

definition event_item :: "topic_lib \<Rightarrow> device_layout \<Rightarrow> worker_event \<Rightarrow> (string \<times> any) option" where
  "event_item T dl ev = (case ev of
      PubState s _ \<Rightarrow> Some (ConnectionState T dl, VStr (conn_text s))
    | PubOnline b _ \<Rightarrow> Some (Online T dl, VBool b)
    | _ \<Rightarrow> None)"

definition link_items :: "topic_lib \<Rightarrow> device_layout \<Rightarrow> worker \<Rightarrow> (string \<times> any) list" where
  "link_items T dl w =
     (case wkState w of None \<Rightarrow> [] | Some s \<Rightarrow> [(ConnectionState T dl, VStr (conn_text s))])
   @ (case wkOnline w of None \<Rightarrow> [] | Some b \<Rightarrow> [(Online T dl, VBool b)])"

text \<open>What \<open>reassertLink\<close> of theory \<open>Worker\<close> publishes is \<open>link_items\<close>.\<close>

lemma reassert_items:
  assumes "\<not> wkLocked w" and "wkScript w = []"
  shows "\<exists>w'. reassertLink w = (Continue, w')
     \<and> List.map_filter (event_item T dl) (drop (length (wkTrace w)) (wkTrace w')) = link_items T dl w"
  using assms
  by (auto simp: reassertLink_def publish_eq outcome_of_def link_items_def event_item_def List.map_filter_simps
      split: option.split)

text \<open>The loop over the devices: link items at once, values through the queue.\<close>

fun reassert_devices ::
  "('w, 'e) status_ops \<Rightarrow> topic_lib \<Rightarrow> (string \<Rightarrow> string) \<Rightarrow> device_run list \<Rightarrow> 'w \<Rightarrow> bool \<times> device_run list \<times> 'w" where
  "reassert_devices P T u [] w = (True, [], w)"
| "reassert_devices P T u (d # ds) w =
     (case publish_items P (link_items T (drLayout d) (drWorker d)) w of
        (ok, w1) \<Rightarrow>
          (case reassert_devices P T u ds w1 of
             (ok', ds', w2) \<Rightarrow>
               (ok \<and> ok', d\<lparr>drQueue := requeueValues T u (drLayout d) (drApp d) (drQueue d)\<rparr> # ds', w2)))"

text \<open>
  \<open>PublishOnline\<close>, with what it starts on a goroutine up to the discovery pass (theory \<open>Republish\<close>). Errors are
  only logged; \<open>info\<close> publishes \<^verbatim>\<open><name>/info\<close>, when there is an instance. The Boolean is whether the link items went out.
\<close>

definition PublishOnline ::
  "('r, 'w, 'e) runtime_ops \<Rightarrow> ('w, 'e) status_ops \<Rightarrow> topic_lib \<Rightarrow> (string \<Rightarrow> string) \<Rightarrow> ('w \<Rightarrow> 'e option \<times> 'w) option
   \<Rightarrow> 'r plane \<Rightarrow> device_run list \<Rightarrow> 'w \<Rightarrow> bool \<times> 'r plane \<times> device_run list \<times> 'w" where
  "PublishOnline R P T u info p ds w =
     (case Reconnect_plane R P p w of
        (p0, w0) \<Rightarrow>
          (case AnnounceOnline R p0 w0 of
             (_, p1, w1) \<Rightarrow>
               (let w2 = (case info of None \<Rightarrow> w1 | Some pub_info \<Rightarrow> snd (pub_info w1));
                    w3 = snd (RepublishStatus P w2)
                in case reassert_devices P T u ds w3 of (ok, ds', w4) \<Rightarrow> (ok, p1, ds', w4))))"

section \<open>Routes\<close>

text \<open>Two filters that end in \<^verbatim>\<open>/#\<close> overlap when one tree lies in the other.\<close>

definition filters_overlap :: "string \<Rightarrow> string \<Rightarrow> bool" where
  "filters_overlap f g \<longleftrightarrow> prefix (butlast f) (butlast g) \<or> prefix (butlast g) (butlast f)"

definition router_law :: "router_lib \<Rightarrow> bool" where
  "router_law R \<longleftrightarrow> (\<forall>routes f. (\<forall>r\<in>set routes. \<not> filters_overlap r f) \<longrightarrow> roAccepts R routes f)"

lemma route_devices_ok:
  assumes "router_law R" and "\<forall>f\<in>set fs. \<forall>r\<in>set routes. \<not> filters_overlap r f"
    and "sorted_wrt (\<lambda>f g. \<not> filters_overlap f g) fs"
  shows "route_devices R routes fs = Inr (routes @ fs)"
  using assms(2,3)
proof (induction fs arbitrary: routes)
  case Nil
  then show ?case by simp
next
  case (Cons f fs)
  have "roAccepts R routes f" using assms(1) Cons.prems(1) unfolding router_law_def by simp
  moreover have "route_devices R (routes @ [f]) fs = Inr ((routes @ [f]) @ fs)"
    using Cons.prems by (intro Cons.IH) auto
  ultimately show ?case by simp
qed

lemma slash_tree:
  assumes "CHR ''/'' \<notin> set a" and "CHR ''/'' \<notin> set b" and "prefix (p @ a @ ''/'') (p @ b @ ''/'')"
  shows "a = b"
proof -
  obtain r where "b @ CHR ''/'' # [] = a @ CHR ''/'' # r" using assms(3) by (auto simp: prefix_def)
  from prefix_slash_eq [OF assms(2,1) this] show ?thesis by simp
qed

lemma command_filters_apart:
  assumes "topic_ok T" and "filters_overlap (CommandFilter T (Device_layout inst h)) (CommandFilter T (Device_layout inst k))"
  shows "Safe T h = Safe T k"
proof -
  have n: "CHR ''/'' \<notin> set (Safe T x)" for x using assms(1) by (auto simp: topic_ok_def)
  let ?p = "inst @ ''/'' @ functionSet @ ''/''"
  have "butlast (CommandFilter T (Device_layout inst x)) = ?p @ Safe T x @ ''/''" for x
    by (simp add: CommandFilter_def setBase_def Device_layout_def butlast_append)
  with assms(2) have "prefix (?p @ Safe T h @ ''/'') (?p @ Safe T k @ ''/'') \<or> prefix (?p @ Safe T k @ ''/'') (?p @ Safe T h @ ''/'')"
    by (simp only: filters_overlap_def)
  then show ?thesis using slash_tree [OF n n, of ?p h k] slash_tree [OF n n, of ?p k h] by metis
qed

lemma built_haid:
  assumes "buildDevice u c spec = Inr d"
  shows "ValidHaID (btHaID d)"
proof -
  obtain i src where "ResolveHaID (fst spec) (Some (snd spec)) = Inr (i, src)" "btHaID d = i"
    using assms by (auto simp: buildDevice_def Let_def split: prod.splits if_splits sum.splits option.splits)
  then show ?thesis using ResolveHaID_valid by blast
qed

lemma New_bridge_devices:
  assumes "New_bridge T u c specs = Inr (inst, devs)"
  shows "distinct (List.map btHaID devs) \<and> (\<forall>d\<in>set devs. ValidHaID (btHaID d))"
proof -
  have b: "build_all u c specs [] [] = Inr devs" using assms by (auto simp: New_bridge_def split: option.splits sum.splits if_splits)
  then have m: "List.map (buildDevice u c) specs = List.map Inr devs" "distinct (List.map btHaID devs)"
    by (simp_all add: build_all_starts)
  have "ValidHaID (btHaID d)" if "d \<in> set devs" for d
  proof -
    have "Inr d \<in> set (List.map (buildDevice u c) specs)" using that m(1) by simp
    then show ?thesis using built_haid by fastforce
  qed
  with m(2) show ?thesis by blast
qed

text \<open>
  A bridge that was built can route its commands: the filters of its devices never overlap, so a router that
  refuses only overlapping filters takes them all, and \<open>Run\<close> does not fail on a device's route.
\<close>

theorem routes_accepted:
  assumes "topic_ok T" and "\<forall>h. ValidHaID h \<longrightarrow> Safe T h = h" and "router_law R"
    and "New_bridge T u c specs = Inr (inst, devs)"
    and "filters = List.map (\<lambda>d. CommandFilter T (Device_layout inst (btHaID d))) devs"
  shows "route_devices R [] filters = Inr filters \<and> fst (Run_bridge R has_instance birth filters) \<noteq> Some (RouteRefused f)"
proof -
  have d: "distinct (List.map btHaID devs)" "\<forall>d\<in>set devs. ValidHaID (btHaID d)"
    using New_bridge_devices [OF assms(4)] by blast+
  have "sorted_wrt (\<lambda>a b. \<not> filters_overlap (CommandFilter T (Device_layout inst (btHaID a)))
      (CommandFilter T (Device_layout inst (btHaID b)))) devs"
    using d
  proof (induction devs)
    case Nil
    then show ?case by simp
  next
    case (Cons x xs)
    have "\<not> filters_overlap (CommandFilter T (Device_layout inst (btHaID x))) (CommandFilter T (Device_layout inst (btHaID y)))"
      if "y \<in> set xs" for y
    proof
      assume "filters_overlap (CommandFilter T (Device_layout inst (btHaID x))) (CommandFilter T (Device_layout inst (btHaID y)))"
      then have "btHaID x = btHaID y"
        using command_filters_apart [OF assms(1)] assms(2) Cons.prems(2) that by (metis list.set_intros(1) list.set_intros(2))
      then show False using Cons.prems(1) that by auto
    qed
    with Cons show ?case by auto
  qed
  then have "route_devices R [] filters = Inr filters"
    using route_devices_ok [OF assms(3), of filters "[]"] by (simp add: assms(5) sorted_wrt_map)
  then show ?thesis
    by (auto simp: Run_bridge_def subscribeCommands_def split: option.splits if_splits)
qed

section \<open>Current values after a reconnect\<close>

definition valued_items :: "topic_lib \<Rightarrow> (string \<Rightarrow> string) \<Rightarrow> device_layout \<Rightarrow> appliance \<Rightarrow> (string \<times> any) list" where
  "valued_items T u dl a = List.map (\<lambda>e. (onUpdate_topic T dl e, statusValue u e)) (filter enHasValue (sorted_entities a))"

lemma requeue_fold:
  assumes "length (pbQueue p) + length (filter enHasValue es) \<le> maxQueuedPublishes"
  shows "pbQueue (fold (\<lambda>e p. if enHasValue e then enqueue (f e) (g e) p else p) es p)
    = pbQueue p @ List.map (\<lambda>e. (f e, g e)) (filter enHasValue es)"
  using assms
proof (induction es arbitrary: p)
  case Nil
  then show ?case by simp
next
  case (Cons e es)
  show ?case
  proof (cases "enHasValue e")
    case True
    then have "pbQueue (enqueue (f e) (g e) p) = pbQueue p @ [(f e, g e)]"
      using Cons.prems by (simp add: enqueue_def pbQueue_push)
    with True Cons show ?thesis by simp
  next
    case False
    with Cons show ?thesis by simp
  qed
qed

lemma requeueValues_queue:
  assumes "length (pbQueue p) + length (valued_items T u dl a) \<le> maxQueuedPublishes"
  shows "pbQueue (requeueValues T u dl a p) = pbQueue p @ valued_items T u dl a"
  using requeue_fold [of p "sorted_entities a"] assms by (simp add: requeueValues_def valued_items_def)

definition link_topics :: "topic_lib \<Rightarrow> device_run \<Rightarrow> string set" where
  "link_topics T d = {ConnectionState T (drLayout d), Online T (drLayout d)}"

lemma link_items_topics: "fst ` set (link_items T (drLayout d) (drWorker d)) \<subseteq> link_topics T d"
  by (auto simp: link_items_def link_topics_def split: option.splits)

lemma reassert_devices_queue:
  "reassert_devices P T u ds w = (ok, ds', w') \<Longrightarrow>
     ds' = List.map (\<lambda>d. d\<lparr>drQueue := requeueValues T u (drLayout d) (drApp d) (drQueue d)\<rparr>) ds"
  by (induction ds arbitrary: w ok ds' w') (auto split: prod.splits)

lemma reassert_devices_other:
  assumes "status_laws P" and "reassert_devices P T u ds w = (ok, ds', w')" and "\<forall>k\<in>set ds. t \<notin> link_topics T k"
  shows "soShown P w' t = soShown P w t"
  using assms(2,3)
proof (induction ds arbitrary: w ok ds')
  case Nil
  then show ?case by simp
next
  case (Cons k ks)
  obtain a w1 where p: "publish_items P (link_items T (drLayout k) (drWorker k)) w = (a, w1)" by fastforce
  obtain b ds1 w2 where r: "reassert_devices P T u ks w1 = (b, ds1, w2)" by (cases "reassert_devices P T u ks w1") auto
  have w: "w' = w2" using Cons.prems(1) p r by simp
  have "t \<notin> fst ` set (link_items T (drLayout k) (drWorker k))"
    using Cons.prems(2) link_items_topics [of T k] by auto
  then have "soShown P w1 t = soShown P w t" by (rule publish_items_other [OF assms(1) p])
  moreover have "soShown P w' t = soShown P w1 t" using Cons.IH r w Cons.prems(2) by simp
  ultimately show ?case by simp
qed

lemma reassert_devices_gate:
  assumes "status_laws P" and "gate_true P w" and "reassert_devices P T u ds w = (True, ds', w')"
  shows "gate_true P w'"
  using assms(2,3)
proof (induction ds arbitrary: w ds')
  case (Cons k ks)
  obtain w1 where p: "publish_items P (link_items T (drLayout k) (drWorker k)) w = (True, w1)"
    and r: "\<exists>ds1. reassert_devices P T u ks w1 = (True, ds1, w')"
    using Cons.prems(2) by (auto split: prod.splits)
  from Cons.IH [OF publish_items_gate [OF assms(1) Cons.prems(1) p]] r show ?case by blast
qed simp

lemma reassert_devices_link:
  assumes "status_laws P" and "gate_true P w" and "reassert_devices P T u ds w = (True, ds', w')" and "d \<in> set ds"
    and "\<forall>k\<in>set ds. k = d \<or> link_topics T k \<inter> link_topics T d = {}"
    and "distinct ds" and "map_of (rev (link_items T (drLayout d) (drWorker d))) t = Some v"
  shows "soShown P w' t = shown_value v"
  using assms(2-6)
proof (induction ds arbitrary: w ds')
  case Nil
  then show ?case by simp
next
  case (Cons k ks)
  obtain ok w1 where p: "publish_items P (link_items T (drLayout k) (drWorker k)) w = (ok, w1)" by fastforce
  obtain ok' ds1 w2 where r: "reassert_devices P T u ks w1 = (ok', ds1, w2)" by (cases "reassert_devices P T u ks w1") auto
  have ok: "ok" "ok'" "w' = w2" using Cons.prems(2) p r by auto
  have t: "t \<in> link_topics T d"
    using map_of_SomeD [OF assms(7)] link_items_topics [of T d] by force
  show ?case
  proof (cases "k = d")
    case True
    have "soShown P w1 t = shown_value v"
      using publish_items_last [OF assms(1) Cons.prems(1) _ assms(7)] p ok(1) True by simp
    moreover have "t \<notin> link_topics T j" if "j \<in> set ks" for j
      using Cons.prems(4,5) that True t by auto
    then have "soShown P w2 t = soShown P w1 t" using reassert_devices_other [OF assms(1) r] by blast
    ultimately show ?thesis using ok(3) by simp
  next
    case False
    have "gate_true P w1" using publish_items_gate [OF assms(1) Cons.prems(1)] p ok(1) by simp
    with False Cons.prems Cons.IH [of w1 ds1] r ok show ?thesis by simp
  qed
qed

lemma map_of_rev_filter: "P t \<Longrightarrow> map_of (rev (filter (\<lambda>m. P (fst m)) ms)) t = map_of (rev ms) t"
  by (induction ms) (auto simp: map_add_def split: option.split)

lemma map_of_rev_last:
  assumes "distinct (List.map fst xs)" and "(t, v) \<in> set xs"
  shows "map_of (rev (ys @ xs)) t = Some v"
proof -
  have "map_of (rev xs) t = Some v" using assms by (intro map_of_is_SomeI) (simp_all add: rev_map [symmetric])
  then show ?thesis by (simp add: map_add_def)
qed

definition feature_topics :: "topic_lib \<Rightarrow> device_run \<Rightarrow> string list" where
  "feature_topics T d = List.map (onUpdate_topic T (drLayout d)) (sorted_entities (drApp d))"

text \<open>The topics of a device are its own, distinct, and its queue is about its features.\<close>

definition apart_topics :: "topic_lib \<Rightarrow> device_run list \<Rightarrow> device_run \<Rightarrow> bool" where
  "apart_topics T ds d \<longleftrightarrow>
     distinct ds \<and> (\<forall>k\<in>set ds. k = d \<or> link_topics T k \<inter> link_topics T d = {})
   \<and> distinct (feature_topics T d) \<and> ConnectionState T (drLayout d) \<noteq> Online T (drLayout d)
   \<and> link_topics T d \<inter> set (feature_topics T d) = {} \<and> fst ` set (pbQueue (drQueue d)) \<subseteq> set (feature_topics T d)"

text \<open>
  Announcing a level and \<^verbatim>\<open><name>/info\<close> go past the state publisher: they write other topics, so what its gate
  remembers stays what the broker has.
\<close>

definition announcements_apart ::
  "('r, 'w, 'e) runtime_ops \<Rightarrow> ('w, 'e) status_ops \<Rightarrow> ('w \<Rightarrow> 'e option \<times> 'w) option \<Rightarrow> bool" where
  "announcements_apart R P info \<longleftrightarrow>
     (\<forall>l r w. gate_true P w \<longrightarrow> gate_true P (snd (snd (rtSetConnected R l r w))))
   \<and> (\<forall>r w. gate_true P w \<longrightarrow> gate_true P (snd (snd (rtAnnounceOnline R r w))))
   \<and> (case info of None \<Rightarrow> True | Some pub_info \<Rightarrow> (\<forall>w. gate_true P w \<longrightarrow> gate_true P (snd (pub_info w))))"

lemma AnnounceOnline_gate:
  assumes "announcements_apart R P info" and "gate_true P w" and "AnnounceOnline R p w = (e, p', w')"
  shows "gate_true P w'"
proof -
  have a: "gate_true P v'" if "rtSetConnected R l r v = (x, r', v')" "gate_true P v" for l r v x r' v'
    using assms(1) that unfolding announcements_apart_def by (metis snd_conv)
  have b: "gate_true P v'" if "rtAnnounceOnline R r v = (x, r', v')" "gate_true P v" for r v x r' v'
    using assms(1) that unfolding announcements_apart_def by (metis snd_conv)
  show ?thesis using assms(2,3) a b by (auto simp: AnnounceOnline_def Let_def split: prod.splits if_splits)
qed

text \<open>Whatever the gate remembered before the connection, after the hook it remembers what the broker has.\<close>

lemma PublishOnline_gate:
  assumes "status_laws P" and "announcements_apart R P info"
    and "PublishOnline R P T u info p ds w = (True, p', ds', w1)"
  shows "\<exists>w3. gate_true P w3 \<and> reassert_devices P T u ds w3 = (True, ds', w1)"
proof -
  let ?w0 = "soReset P (rtClose R (plRuntime p) w)"
  obtain e p1 v1 where a: "AnnounceOnline R (p\<lparr>plRuntime := rtNew R\<rparr>) ?w0 = (e, p1, v1)" by (metis surj_pair)
  have g1: "gate_true P v1" by (rule AnnounceOnline_gate [OF assms(2) reset_gate [OF assms(1)] a])
  define v2 where "v2 = (case info of None \<Rightarrow> v1 | Some pub_info \<Rightarrow> snd (pub_info v1))"
  have g2: "gate_true P v2"
    using assms(2) g1 by (simp add: v2_def announcements_apart_def split: option.splits)
  obtain r v3 where s: "soRepublish P v2 = (r, v3)" by fastforce
  have "reassert_devices P T u ds v3 = (True, ds', w1)"
    using assms(3) a s by (auto simp: PublishOnline_def Reconnect_plane_def v2_def RepublishStatus_def split: prod.splits)
  with replay_gate [OF assms(1) g2 s] show ?thesis by blast
qed

text \<open>
  C9. A broker connection restores what is current. Let the hook run on any devices and any world, so whatever the
  connection lost, whatever the gate of the state publisher remembers of it and whatever the replay sent again;
  let the link items it publishes go out, and let then the
  queue of a device be published in order and successfully, in between publishes for other devices. When the
  topics of the device are its own and the queue had room, every feature that has a value is retained with the
  value the appliance reports now, and its link items with the state it is in now.
\<close>

theorem reconnect_restores:
  assumes "status_laws P" and "announcements_apart R P info"
    and "PublishOnline R P T u info p ds w = (True, p', ds', w1)"
    and "i < length ds" and "d = ds ! i" and "apart_topics T ds d"
    and "length (pbQueue (drQueue d)) + length (valued_items T u (drLayout d) (drApp d)) \<le> maxQueuedPublishes"
    and "filter (\<lambda>m. fst m \<in> link_topics T d \<union> set (feature_topics T d)) ms = pbQueue (drQueue (ds' ! i))"
    and "publish_items P ms w1 = (True, w2)"
  shows "(\<forall>e\<in>set (apEntities (drApp d)). enHasValue e \<longrightarrow>
            soShown P w2 (onUpdate_topic T (drLayout d) e) = shown_value (statusValue u e))
    \<and> (\<forall>s. wkState (drWorker d) = Some s \<longrightarrow>
            soShown P w2 (ConnectionState T (drLayout d)) = Some (VStr (conn_text s)))
    \<and> (\<forall>b. wkOnline (drWorker d) = Some b \<longrightarrow> soShown P w2 (Online T (drLayout d)) = Some (VBool b))"
proof -
  let ?own = "link_topics T d \<union> set (feature_topics T d)"
  have own: "distinct ds" "\<forall>k\<in>set ds. k = d \<or> link_topics T k \<inter> link_topics T d = {}" "distinct (feature_topics T d)"
      "ConnectionState T (drLayout d) \<noteq> Online T (drLayout d)" "link_topics T d \<inter> set (feature_topics T d) = {}"
      "fst ` set (pbQueue (drQueue d)) \<subseteq> set (feature_topics T d)"
    using assms(6) by (simp_all add: apart_topics_def)
  obtain w3 where g: "gate_true P w3" and r: "reassert_devices P T u ds w3 = (True, ds', w1)"
    using PublishOnline_gate [OF assms(1-3)] by blast
  have g1: "gate_true P w1" by (rule reassert_devices_gate [OF assms(1) g r])
  have "drQueue (ds' ! i) = requeueValues T u (drLayout d) (drApp d) (drQueue d)"
    using reassert_devices_queue [OF r] assms(4,5) by simp
  then have q: "filter (\<lambda>m. fst m \<in> ?own) ms = pbQueue (drQueue d) @ valued_items T u (drLayout d) (drApp d)"
    using assms(8) requeueValues_queue [OF assms(7)] by simp
  have vals: "fst ` set (valued_items T u (drLayout d) (drApp d)) \<subseteq> set (feature_topics T d)"
    by (auto simp: valued_items_def feature_topics_def)
  have dist: "distinct (List.map fst (valued_items T u (drLayout d) (drApp d)))"
    using own(3) by (simp add: valued_items_def feature_topics_def comp_def distinct_map inj_on_def)
  have "soShown P w2 (onUpdate_topic T (drLayout d) e) = shown_value (statusValue u e)"
    if e: "e \<in> set (apEntities (drApp d))" "enHasValue e" for e
  proof (rule publish_items_last [OF assms(1) g1 assms(9)])
    have "(onUpdate_topic T (drLayout d) e, statusValue u e) \<in> set (valued_items T u (drLayout d) (drApp d))"
      using e by (auto simp: valued_items_def sorted_entities_def)
    from map_of_rev_last [OF dist this, of "pbQueue (drQueue d)"]
    have "map_of (rev (filter (\<lambda>m. fst m \<in> ?own) ms)) (onUpdate_topic T (drLayout d) e) = Some (statusValue u e)"
      by (simp only: q)
    moreover have "onUpdate_topic T (drLayout d) e \<in> ?own"
      using e by (simp add: feature_topics_def sorted_entities_def)
    ultimately show "map_of (rev ms) (onUpdate_topic T (drLayout d) e) = Some (statusValue u e)"
      using map_of_rev_filter [of "\<lambda>t. t \<in> ?own" "onUpdate_topic T (drLayout d) e" ms] by simp
  qed
  moreover have "soShown P w2 t = shown_value v"
    if t: "t \<in> link_topics T d" "map_of (rev (link_items T (drLayout d) (drWorker d))) t = Some v" for t v
  proof -
    have "t \<notin> fst ` set ms"
    proof
      assume "t \<in> fst ` set ms"
      then have "t \<in> fst ` set (filter (\<lambda>m. fst m \<in> ?own) ms)" using t(1) by force
      then have "t \<in> fst ` set (pbQueue (drQueue d) @ valued_items T u (drLayout d) (drApp d))" by (simp only: q)
      with vals own have "t \<in> set (feature_topics T d)" by auto
      with t(1) own show False by auto
    qed
    then have "soShown P w2 t = soShown P w1 t" by (rule publish_items_other [OF assms(1,9)])
    moreover have "d \<in> set ds" using assms(4,5) by simp
    ultimately show ?thesis using reassert_devices_link [OF assms(1) g r _ own(2,1) t(2)] by simp
  qed
  note link = this
  have "soShown P w2 (ConnectionState T (drLayout d)) = Some (VStr (conn_text s))"
    if "wkState (drWorker d) = Some s" for s
    using link [of "ConnectionState T (drLayout d)" "VStr (conn_text s)"] that own(4)
    by (auto simp: link_topics_def link_items_def shown_value_def split: option.split)
  moreover have "soShown P w2 (Online T (drLayout d)) = Some (VBool b)" if "wkOnline (drWorker d) = Some b" for b
    using link [of "Online T (drLayout d)" "VBool b"] that
    by (auto simp: link_topics_def link_items_def shown_value_def split: option.split)
  ultimately show ?thesis by blast
qed

section \<open>Discovery at shutdown\<close>

text \<open>
  The passes of one appliance against the shutdown of theory \<open>Startup\<close>: a pass reads the flag first and writes
  its document later; the shutdown sets the flag, then announces that the daemon is offline. The log is what the
  broker receives.
\<close>

datatype stop_phase = Unread | Passed_check | Written | Turned_away

datatype stop_event = Document nat | Offline_marker

record stop_sys =
  spPhase :: "nat \<Rightarrow> stop_phase"
  spStopped :: bool
  spLog :: "stop_event list"

definition stop_start :: stop_sys where
  "stop_start = \<lparr>spPhase = (\<lambda>_. Unread), spStopped = False, spLog = []\<rparr>"

inductive stop_step :: "stop_sys \<Rightarrow> stop_sys \<Rightarrow> bool" where
  pass_check: "spPhase s i = Unread \<Longrightarrow>
    stop_step s (s\<lparr>spPhase := (spPhase s)(i := if spStopped s then Turned_away else Passed_check)\<rparr>)"
| pass_write: "spPhase s i = Passed_check \<Longrightarrow>
    stop_step s (s\<lparr>spPhase := (spPhase s)(i := Written), spLog := spLog s @ [Document i]\<rparr>)"
| stop_discovery: "stop_step s (s\<lparr>spStopped := True\<rparr>)"
| announce: "spStopped s \<Longrightarrow> stop_step s (s\<lparr>spLog := spLog s @ [Offline_marker]\<rparr>)"

text \<open>A pass that begins after the flag was set writes nothing, however the steps interleave.\<close>

lemma stopped_pass_silent:
  assumes "stop_step\<^sup>*\<^sup>* s t" and "spStopped s" and "spPhase s i = Unread \<or> spPhase s i = Turned_away"
  shows "count_list (spLog t) (Document i) = count_list (spLog s) (Document i)"
proof -
  have "spStopped t \<and> (spPhase t i = Unread \<or> spPhase t i = Turned_away)
      \<and> count_list (spLog t) (Document i) = count_list (spLog s) (Document i)"
    using assms(1)
  proof (induction rule: rtranclp_induct)
    case base
    with assms show ?case by simp
  next
    case (step t t')
    from step.hyps(2) step.IH show ?case by cases (auto split: if_splits)
  qed
  then show ?thesis by blast
qed

text \<open>But one that had read the flag before is not waited for: its document can follow the offline marker.\<close>

lemma document_after_offline:
  "\<exists>s. stop_step\<^sup>*\<^sup>* stop_start s \<and> spStopped s \<and> spLog s = [Offline_marker, Document 0]"
proof -
  define s1 where "s1 = stop_start\<lparr>spPhase := (spPhase stop_start)(0 := Passed_check)\<rparr>"
  define s2 where "s2 = s1\<lparr>spStopped := True\<rparr>"
  define s3 where "s3 = s2\<lparr>spLog := spLog s2 @ [Offline_marker]\<rparr>"
  define s4 where "s4 = s3\<lparr>spPhase := (spPhase s3)(0 := Written), spLog := spLog s3 @ [Document 0]\<rparr>"
  note d = s1_def s2_def s3_def s4_def stop_start_def
  have a1: "stop_step stop_start s1" using pass_check [of stop_start 0] by (simp add: d)
  have a2: "stop_step s1 s2" unfolding s2_def by (rule stop_discovery)
  have a3: "stop_step s2 s3" unfolding s3_def by (rule announce) (simp add: d)
  have a4: "stop_step s3 s4" unfolding s4_def by (rule pass_write) (simp add: d)
  have "stop_step\<^sup>*\<^sup>* stop_start s4"
    by (rule converse_rtranclp_into_rtranclp [OF a1 converse_rtranclp_into_rtranclp [OF a2
          converse_rtranclp_into_rtranclp [OF a3 r_into_rtranclp [of stop_step, OF a4]]]])
  moreover have "spStopped s4 \<and> spLog s4 = [Offline_marker, Document 0]" by (simp add: d)
  ultimately show ?thesis by blast
qed

section \<open>Examples\<close>

definition wary_router :: router_lib where
  "wary_router = \<lparr>roAccepts = (\<lambda>routes f. list_all (\<lambda>r. \<not> filters_overlap r f) routes), roMaintenance = (\<lambda>_. True),
     roStarts = (\<lambda>_. True), roBirth = (\<lambda>_. True)\<rparr>"

lemma plain_topics_haid: "ValidHaID h \<Longrightarrow> Safe plain_topics h = h"
  using ValidHaID_chars [of h] haid_char_safe by (auto simp: plain_topics_def Let_def intro!: map_idI)

lemma routes_accepted_witness:
  "\<exists>dev. New_bridge plain_topics (List.map lower_char) (applyDefaults small_config) one_hob = Inr (''homeconnect'', [dev])
     \<and> route_devices wary_router [] [CommandFilter plain_topics (Device_layout ''homeconnect'' (btHaID dev))]
         = Inr [CommandFilter plain_topics (Device_layout ''homeconnect'' (btHaID dev))]"
proof -
  obtain dev where b: "New_bridge plain_topics (List.map lower_char) (applyDefaults small_config) one_hob = Inr (''homeconnect'', [dev])"
    using loaded_bridge_starts_witness by blast
  have l: "router_law wary_router" by (simp add: router_law_def wary_router_def list_all_iff)
  from routes_accepted [OF plain_topics_ok _ l b refl] plain_topics_haid b show ?thesis by auto
qed

text \<open>A state publisher with the gate, over the retained values and what the gate remembers; its replay sends one old value.\<close>

type_synonym gated = "(string \<rightharpoonup> any) \<times> (string \<rightharpoonup> any)"

definition map_status :: "(gated, nat) status_ops" where
  "map_status = \<lparr>soShown = fst, soSent = snd,
     soPublish = (\<lambda>t v w. (None, if snd w t = Some v then w else ((fst w)(t \<mapsto> v), (snd w)(t \<mapsto> v)))),
     soEvict = (\<lambda>ts w. (None, (\<lambda>t. if t \<in> set ts then None else fst w t), (\<lambda>t. if t \<in> set ts then None else snd w t))),
     soRepublish = (\<lambda>w. ((1, None), (fst w)(''homeconnect/status/010203/BSH/Common/Setting/PowerState'' \<mapsto> VStr ''stale''),
        (snd w)(''homeconnect/status/010203/BSH/Common/Setting/PowerState'' \<mapsto> VStr ''stale''))),
     soReset = (\<lambda>w. (fst w, Map.empty))\<rparr>"

definition quiet_runtime :: "(int, gated, nat) runtime_ops" where
  "quiet_runtime = \<lparr>rtNew = 1, rtLevel = id, rtMarker = (\<lambda>_. 1), rtSetConnected = (\<lambda>l r w. ((True, None), l, w)),
     rtAnnounceOnline = (\<lambda>r w. (None, r, w)), rtClose = (\<lambda>r w. w)\<rparr>"

text \<open>The broker came back empty, and the gate still answers that the appliance was said to be online.\<close>

definition lost_world :: gated where
  "lost_world = (Map.empty, [''homeconnect/status/010203/online'' \<mapsto> VBool True])"

definition power_on :: entity where
  "power_on = power_state\<lparr>enHasValue := True, enValueRaw := VInt 2, enValueShadow := VStr ''On''\<rparr>"

definition on_device :: device_run where
  "on_device = \<lparr>drWorker = (idle_worker [])\<lparr>wkState := Some StateConnected, wkOnline := Some True\<rparr>, drLayout = oven_layout,
     drApp = add_entity power_on appliance0, drQueue = newDevicePublisher\<rparr>"

lemma map_status_ok: "status_laws map_status"
proof -
  have "publish_law map_status" "evict_law map_status" "failure_law map_status" "reset_law map_status"
    by (auto simp: publish_law_def evict_law_def failure_law_def reset_law_def map_status_def)
  moreover have "replay_law map_status" by (auto simp: replay_law_def map_status_def split: if_splits)
  ultimately show ?thesis by (simp add: status_laws_def)
qed

lemma quiet_runtime_apart: "announcements_apart quiet_runtime map_status None"
  by (simp add: announcements_apart_def quiet_runtime_def)

lemma map_status_succeeds: "\<exists>w'. publish_items map_status ms w = (True, w')"
  by (induction ms arbitrary: w) (auto simp: map_status_def PublishStatus_def split: prod.split)

lemma on_device_topic_names:
  "feature_topics plain_topics on_device = [''homeconnect/status/010203/BSH/Common/Setting/PowerState'']"
  "ConnectionState plain_topics (drLayout on_device) = ''homeconnect/status/010203/connection_state''"
  "Online plain_topics (drLayout on_device) = ''homeconnect/status/010203/online''"
  "pbQueue (drQueue on_device) = []"
  by code_simp+

lemma on_device_topics: "apart_topics plain_topics [on_device] on_device"
  by (simp add: apart_topics_def link_topics_def on_device_topic_names)

lemma on_device_requeued:
  "pbQueue (requeueValues plain_topics id (drLayout on_device) (drApp on_device) (drQueue on_device))
     = [(''homeconnect/status/010203/BSH/Common/Setting/PowerState'', VStr ''On'')]"
  "length (pbQueue (drQueue on_device)) + length (valued_items plain_topics id (drLayout on_device) (drApp on_device))
     \<le> maxQueuedPublishes"
  by code_simp+

lemma reassert_one_ok: "\<exists>ds' w'. reassert_devices map_status T u [d] w = (True, ds', w')"
  using map_status_succeeds [of "link_items T (drLayout d) (drWorker d)" w] by (auto split: prod.split)

lemma reconnect_restores_witness:
  "\<exists>w2. soShown map_status w2 ''homeconnect/status/010203/BSH/Common/Setting/PowerState'' = Some (VStr ''On'')
     \<and> soShown map_status w2 ''homeconnect/status/010203/online'' = Some (VBool True)"
proof -
  obtain ds' w1 where r: "reassert_devices map_status plain_topics id [on_device]
      (snd (soRepublish map_status (soReset map_status lost_world))) = (True, ds', w1)"
    using reassert_one_ok by blast
  have h: "PublishOnline quiet_runtime map_status plain_topics id None (New_plane quiet_runtime) [on_device] lost_world
      = (True, New_plane quiet_runtime, ds', w1)"
    using r by (simp add: PublishOnline_def AnnounceOnline_def Reconnect_plane_def New_plane_def quiet_runtime_def
        RepublishStatus_def ConnectedBroker_def)
  let ?ms = "[(''homeconnect/status/010203/BSH/Common/Setting/PowerState'', VStr ''On'')]"
  have q: "filter (\<lambda>m. fst m \<in> link_topics plain_topics on_device \<union> set (feature_topics plain_topics on_device)) ?ms
      = pbQueue (drQueue (ds' ! 0))"
    using reassert_devices_queue [OF r] on_device_requeued(1) by (simp add: on_device_topic_names)
  obtain w2 where m: "publish_items map_status ?ms w1 = (True, w2)" using map_status_succeeds by blast
  have i: "0 < length [on_device]" "on_device = [on_device] ! 0" by simp_all
  have e: "power_on \<in> set (apEntities (drApp on_device))" "enHasValue power_on"
      "onUpdate_topic plain_topics (drLayout on_device) power_on = ''homeconnect/status/010203/BSH/Common/Setting/PowerState''"
      "shown_value (statusValue id power_on) = Some (VStr ''On'')" "wkOnline (drWorker on_device) = Some True"
    by (simp add: on_device_def, code_simp+)
  note c = reconnect_restores [OF map_status_ok quiet_runtime_apart h i on_device_topics on_device_requeued(2) q m]
  have "soShown map_status w2 (onUpdate_topic plain_topics (drLayout on_device) power_on) = shown_value (statusValue id power_on)"
    using c e(1,2) by blast
  moreover have "soShown map_status w2 (Online plain_topics (drLayout on_device)) = Some (VBool True)"
    using c e(5) by blast
  ultimately show ?thesis unfolding e(3,4) on_device_topic_names by blast
qed

end
