(* ===== verification/Migrate.thy ===== *)
theory Migrate
  imports Bridge_Run
begin

text \<open>
  The migration sweep of \<^verbatim>\<open>internal/bridge/migrate.go\<close>: which retained topics a start clears after the
  topic layout changed in 0.15.0.

  A device is its configured name, its haId and its appliance. \<open>isFunction\<close> is \<^verbatim>\<open>topic.IsFunction\<close> of
  go-hamqtt, the test for a function name of the topic grammar. The Go maps of the plan are lists here;
  their order is the order in which the runtime visits them.
\<close>

record bridge_device =
  bdName :: string
  bdHaID :: string
  bdApp :: appliance

definition device_topics :: "string \<Rightarrow> bridge_device \<Rightarrow> device_layout" where
  "device_topics inst d = \<lparr>dlName = inst, dlHaID = bdHaID d\<rparr>"

definition state_topic :: "topic_lib \<Rightarrow> string \<Rightarrow> bridge_device \<Rightarrow> entity \<Rightarrow> string" where
  "state_topic T inst d e = State T (device_topics inst d) (enName e) (enUID e)"

section \<open>The plan\<close>

record sweep_plan =
  spFilters :: "string list"
  spLegacy :: "string list"
  spCurrent :: "(string \<times> string list) list"

definition clears :: "sweep_plan \<Rightarrow> string \<Rightarrow> bool" where
  "clears p topic \<longleftrightarrow>
     topic \<in> set (spLegacy p)
   \<or> (case find (\<lambda>(pre, items). prefix pre topic) (spCurrent p) of
        Some (pre, items) \<Rightarrow> topic \<notin> set items | None \<Rightarrow> False)"

text \<open>The first level of a device name, which stood second in the old topics.\<close>

definition second_level :: "string \<Rightarrow> string" where
  "second_level name = (case cut_first (CHR ''/'') name of Some (s, _) \<Rightarrow> s | None \<Rightarrow> name)"

definition legacy_items :: "string \<Rightarrow> bridge_device \<Rightarrow> string list" where
  "legacy_items base_topic d =
     (let old = NewLegacyDevice base_topic (bdName d) in
      LegacyAvailability old # LegacyConnectionState old
      # List.map (\<lambda>e. LegacyState old (enName e) (enUID e)) (sorted_entities (bdApp d)))"

definition current_items :: "topic_lib \<Rightarrow> string \<Rightarrow> bridge_device \<Rightarrow> string list" where
  "current_items T inst d =
     Online T (device_topics inst d) # ConnectionState T (device_topics inst d)
     # List.map (state_topic T inst d) (sorted_entities (bdApp d))"

definition plan_device ::
  "topic_lib \<Rightarrow> (string \<Rightarrow> bool) \<Rightarrow> string \<Rightarrow> bridge_device \<Rightarrow> sweep_plan \<Rightarrow> sweep_plan" where
  "plan_device T isFunction inst d p =
     (let p1 = (if isFunction (second_level (bdName d)) then p
          else p\<lparr>spFilters := spFilters p @ [NewLegacyDevice inst (bdName d) @ ''/#''],
                 spLegacy := spLegacy p @ legacy_items inst d\<rparr>);
          pre = StatusPrefix T (device_topics inst d)
      in p1\<lparr>spFilters := spFilters p1 @ [pre @ ''#''],
            spCurrent := filter (\<lambda>q. fst q \<noteq> pre) (spCurrent p1) @ [(pre, current_items T inst d)]\<rparr>)"

definition legacySweepPlan ::
  "topic_lib \<Rightarrow> (string \<Rightarrow> bool) \<Rightarrow> string \<Rightarrow> bridge_device list \<Rightarrow> sweep_plan" where
  "legacySweepPlan T isFunction inst ds =
     fold (plan_device T isFunction inst) ds
       \<lparr>spFilters = [LegacyBridge inst], spLegacy = [LegacyBridge inst], spCurrent = []\<rparr>"

text \<open>What the window saw decides what is evicted, each topic once and in order.\<close>

definition sweepLegacy ::
  "topic_lib \<Rightarrow> (string \<Rightarrow> bool) \<Rightarrow> string \<Rightarrow> bridge_device list \<Rightarrow> string list \<Rightarrow> string list" where
  "sweepLegacy T isFunction inst ds retained =
     sort (remdups (filter (clears (legacySweepPlan T isFunction inst ds)) retained))"

section \<open>The plan in one piece\<close>

lemma spLegacy_plan_device:
  "spLegacy (plan_device T f inst d p) = spLegacy p @ (if f (second_level (bdName d)) then [] else legacy_items inst d)"
  by (simp add: plan_device_def Let_def)

lemma spLegacy_fold:
  "spLegacy (fold (plan_device T f inst) ds p) =
     spLegacy p @ concat (List.map (legacy_items inst) (filter (\<lambda>d. \<not> f (second_level (bdName d))) ds))"
  by (induction ds arbitrary: p) (simp_all add: spLegacy_plan_device)

lemma spLegacy_plan:
  "spLegacy (legacySweepPlan T f inst ds) =
     LegacyBridge inst # concat (List.map (legacy_items inst) (filter (\<lambda>d. \<not> f (second_level (bdName d))) ds))"
  by (simp add: legacySweepPlan_def spLegacy_fold)

definition prefix_of :: "topic_lib \<Rightarrow> string \<Rightarrow> bridge_device \<Rightarrow> string" where
  "prefix_of T inst d = StatusPrefix T (device_topics inst d)"

lemma spCurrent_plan_device:
  "prefix_of T inst d \<notin> fst ` set (spCurrent p) \<Longrightarrow>
   spCurrent (plan_device T f inst d p) = spCurrent p @ [(prefix_of T inst d, current_items T inst d)]"
proof -
  assume "prefix_of T inst d \<notin> fst ` set (spCurrent p)"
  then have "filter (\<lambda>q. fst q \<noteq> prefix_of T inst d) (spCurrent p) = spCurrent p"
    by (intro filter_True) force
  then show ?thesis by (simp add: plan_device_def Let_def flip: prefix_of_def)
qed

lemma spCurrent_fold:
  assumes "distinct (List.map (prefix_of T inst) ds)"
    and "\<forall>d\<in>set ds. prefix_of T inst d \<notin> fst ` set (spCurrent p)"
  shows "spCurrent (fold (plan_device T f inst) ds p) =
     spCurrent p @ List.map (\<lambda>d. (prefix_of T inst d, current_items T inst d)) ds"
  using assms
proof (induction ds arbitrary: p)
  case Nil
  then show ?case by simp
next
  case (Cons d ds)
  have c: "spCurrent (plan_device T f inst d p) = spCurrent p @ [(prefix_of T inst d, current_items T inst d)]"
    using Cons.prems(2) by (intro spCurrent_plan_device) simp
  have "\<forall>d'\<in>set ds. prefix_of T inst d' \<notin> fst ` set (spCurrent (plan_device T f inst d p))"
  proof
    fix d' assume d': "d' \<in> set ds"
    with Cons.prems(1) have "prefix_of T inst d' \<noteq> prefix_of T inst d" by (metis distinct.simps(2) image_eqI list.set_map list.simps(9))
    with d' Cons.prems(2) show "prefix_of T inst d' \<notin> fst ` set (spCurrent (plan_device T f inst d p))"
      by (auto simp: c)
  qed
  with Cons.IH Cons.prems(1) show ?case by (simp add: c)
qed

lemma spCurrent_plan:
  assumes "distinct (List.map (prefix_of T inst) ds)"
  shows "spCurrent (legacySweepPlan T f inst ds) = List.map (\<lambda>d. (prefix_of T inst d, current_items T inst d)) ds"
  using spCurrent_fold [OF assms, of "\<lparr>spFilters = [LegacyBridge inst], spLegacy = [LegacyBridge inst], spCurrent = []\<rparr>" f]
  by (simp add: legacySweepPlan_def)

section \<open>Old and new topics\<close>

lemma second_level_first: "second_level name = takeWhile (\<lambda>c. c \<noteq> CHR ''/'') (name @ CHR ''/'' # rest)"
proof (cases "cut_first (CHR ''/'') name")
  case None
  then have "CHR ''/'' \<notin> set name" by (simp add: cut_first_None)
  then have "takeWhile (\<lambda>c. c \<noteq> CHR ''/'') (name @ CHR ''/'' # rest) = name" by (induction name) auto
  with None show ?thesis by (simp add: second_level_def)
next
  case (Some p)
  obtain a b where p: "p = (a, b)" by (cases p)
  from cut_first_Some [OF Some [unfolded p]] have n: "name = a @ CHR ''/'' # b" "CHR ''/'' \<notin> set a" by simp_all
  then have "takeWhile (\<lambda>c. c \<noteq> CHR ''/'') (name @ CHR ''/'' # rest) = a" by (induction a arbitrary: name) auto
  with Some p show ?thesis by (simp add: second_level_def)
qed

lemma trimRoot_level: "CHR ''/'' \<notin> set inst \<Longrightarrow> trimRoot inst = inst"
  unfolding trimRoot_def by (rule trim_right_char_id) (metis last_in_set)

lemma legacy_item_shape:
  assumes "CHR ''/'' \<notin> set inst" and "t \<in> set (legacy_items inst d)"
  shows "\<exists>rest. t = inst @ CHR ''/'' # bdName d @ CHR ''/'' # rest"
  using assms
  by (auto simp: legacy_items_def Let_def LegacyAvailability_def LegacyConnectionState_def LegacyState_def
      NewLegacyDevice_def trimRoot_level)

text \<open>A topic below a function of the grammar is no old topic.\<close>

lemma function_not_legacy:
  assumes "CHR ''/'' \<notin> set inst" and "CHR ''/'' \<notin> set fn" and "f fn"
    and "t = inst @ CHR ''/'' # fn @ CHR ''/'' # x"
  shows "t \<notin> set (spLegacy (legacySweepPlan T f inst ds))"
proof
  assume "t \<in> set (spLegacy (legacySweepPlan T f inst ds))"
  then consider "t = LegacyBridge inst"
    | d where "\<not> f (second_level (bdName d))" "t \<in> set (legacy_items inst d)"
    by (auto simp: spLegacy_plan)
  then show False
  proof cases
    case 1
    then have e: "fn @ CHR ''/'' # x = ''status''" using assms(1,4) by (simp add: LegacyBridge_def trimRoot_level)
    have "CHR ''/'' \<in> set (fn @ CHR ''/'' # x)" by simp
    then show False unfolding e by simp
  next
    case 2
    obtain rest where "t = inst @ CHR ''/'' # bdName d @ CHR ''/'' # rest"
      using legacy_item_shape [OF assms(1) 2(2)] by blast
    with assms(4) have e: "fn @ CHR ''/'' # x = bdName d @ CHR ''/'' # rest" by simp
    have "takeWhile (\<lambda>c. c \<noteq> CHR ''/'') (fn @ CHR ''/'' # x) = fn" using assms(2) by (induction fn) auto
    then have "second_level (bdName d) = fn" unfolding e second_level_first [of "bdName d" rest] .
    with 2(1) assms(3) show False by simp
  qed
qed

section \<open>Live topics\<close>

text \<open>
  What an instance publishes for an appliance now, by the code that publishes, and what it listens to: the topic of
  every value, as \<open>onUpdate\<close> of theory \<open>Worker\<close> enqueues it; the topic of every link item the worker sends
  (\<open>event_item\<close> of theory \<open>Bridge_Run\<close>); every topic the route of the appliance takes; and the status topic of
  the daemon itself.
\<close>

inductive live_topic :: "topic_lib \<Rightarrow> string \<Rightarrow> bridge_device \<Rightarrow> string \<Rightarrow> bool" for T inst d where
  live_value: "e \<in> set (apEntities (bdApp d)) \<Longrightarrow> live_topic T inst d (onUpdate_topic T (device_topics inst d) e)"
| live_link: "event_item T (device_topics inst d) ev = Some (t, v) \<Longrightarrow> live_topic T inst d t"
| live_command: "Relative T (device_topics inst d) t = Some rel \<Longrightarrow> live_topic T inst d t"
| live_daemon: "live_topic T inst d (Connected T inst)"

lemma status_item_shape:
  assumes "topic_ok T" and "item \<noteq> []"
  shows "\<exists>x. Status T (device_topics inst d) item = inst @ CHR ''/'' # functionStatus @ CHR ''/'' # Safe T (bdHaID d) @ CHR ''/'' # x"
  using Status_shape [OF assms, of "device_topics inst d"]
  by (simp add: StatusPrefix_def device_topics_def)

lemma current_item_shape:
  assumes "topic_ok T" and "t \<in> set (current_items T inst d)"
  shows "\<exists>x. t = inst @ CHR ''/'' # functionStatus @ CHR ''/'' # Safe T (bdHaID d) @ CHR ''/'' # x"
  using assms(2)
  by (auto simp: current_items_def Online_def ConnectionState_def state_topic_def State_def
      intro!: status_item_shape [OF assms(1)] FeatureItem_ne)

text \<open>What is published for an appliance is in the plan, unless it is a topic to listen to or the daemon's own.\<close>

lemma published_in_plan:
  "e \<in> set (apEntities (bdApp d)) \<Longrightarrow> onUpdate_topic T (device_topics inst d) e \<in> set (current_items T inst d)"
  "event_item T (device_topics inst d) ev = Some (t, v) \<Longrightarrow> t \<in> set (current_items T inst d)"
  by (simp_all add: current_items_def state_topic_def onUpdate_topic_def sorted_entities_def event_item_def
      split: worker_event.splits)

lemma connected_not_legacy:
  assumes "topic_ok T" and "CHR ''/'' \<notin> set inst"
  shows "Connected T inst \<notin> set (spLegacy (legacySweepPlan T f inst ds))"
proof
  have c: "Connected T inst = inst @ CHR ''/'' # ''connected''" using assms(1) by (simp add: topic_ok_def Connected_def)
  assume "Connected T inst \<in> set (spLegacy (legacySweepPlan T f inst ds))"
  then consider "Connected T inst = LegacyBridge inst" | d where "Connected T inst \<in> set (legacy_items inst d)"
    by (auto simp: spLegacy_plan)
  then show False
  proof cases
    case 1
    then show False using assms(2) by (simp add: c LegacyBridge_def trimRoot_level)
  next
    case 2
    then obtain x where e: "''connected'' = bdName d @ CHR ''/'' # x" using legacy_item_shape [OF assms(2) 2] by (auto simp: c)
    have "CHR ''/'' \<in> set (bdName d @ CHR ''/'' # x)" by simp
    then show False unfolding e [symmetric] by simp
  qed
qed

lemma prefix_of_shape:
  "prefix_of T inst d = inst @ CHR ''/'' # functionStatus @ CHR ''/'' # Safe T (bdHaID d) @ ''/''"
  by (simp add: prefix_of_def StatusPrefix_def device_topics_def)

lemma prefix_same_device:
  assumes "topic_ok T" and "prefix (prefix_of T inst d') (inst @ CHR ''/'' # functionStatus @ CHR ''/'' # Safe T (bdHaID d) @ CHR ''/'' # x)"
  shows "Safe T (bdHaID d') = Safe T (bdHaID d)"
proof -
  from assms(2) obtain r where
    "Safe T (bdHaID d) @ CHR ''/'' # x = Safe T (bdHaID d') @ CHR ''/'' # r"
    by (auto simp: prefix_of_shape prefix_def)
  moreover have "CHR ''/'' \<notin> set (Safe T (bdHaID d))" "CHR ''/'' \<notin> set (Safe T (bdHaID d'))"
    using assms(1) by (simp_all add: topic_ok_def)
  ultimately show ?thesis using prefix_slash_eq by metis
qed

lemma find_device:
  assumes "topic_ok T" and "distinct (List.map (\<lambda>d. Safe T (bdHaID d)) ds)" and "d \<in> set ds"
    and "t = inst @ CHR ''/'' # functionStatus @ CHR ''/'' # Safe T (bdHaID d) @ CHR ''/'' # x"
  shows "find (\<lambda>(pre, items). prefix pre t) (List.map (\<lambda>d. (prefix_of T inst d, current_items T inst d)) ds) =
     Some (prefix_of T inst d, current_items T inst d)"
  using assms(2,3)
proof (induction ds)
  case Nil
  then show ?case by simp
next
  case (Cons d' ds)
  show ?case
  proof (cases "d' = d")
    case True
    have "prefix (prefix_of T inst d) t" by (simp add: assms(4) prefix_of_shape)
    with True show ?thesis by simp
  next
    case False
    with Cons.prems have "d \<in> set ds" by simp
    with Cons.prems(1) have "Safe T (bdHaID d') \<noteq> Safe T (bdHaID d)" by auto
    then have "\<not> prefix (prefix_of T inst d') t" using prefix_same_device [OF assms(1)] assms(4) by blast
    with Cons \<open>d \<in> set ds\<close> show ?thesis by simp
  qed
qed

lemma distinct_prefixes:
  assumes "distinct (List.map (\<lambda>d. Safe T (bdHaID d)) ds)"
  shows "distinct (List.map (prefix_of T inst) ds)"
  using assms by (induction ds) (auto simp: prefix_of_shape)

section \<open>Properties\<close>

text \<open>
  C23. The sweep spares what is live: no topic on which a value or a link item of a configured appliance is
  published, no topic it takes commands on, and not the daemon's own status topic, is ever cleared,
  whatever the devices are called.
\<close>

theorem sweep_spares_live:
  assumes "topic_ok T" and "isFunction functionStatus" and "isFunction functionSet" and "CHR ''/'' \<notin> set inst"
    and "distinct (List.map (\<lambda>d. Safe T (bdHaID d)) ds)" and "d \<in> set ds" and "live_topic T inst d t"
  shows "t \<notin> set (sweepLegacy T isFunction inst ds retained)"
proof -
  have cur: "spCurrent (legacySweepPlan T isFunction inst ds) = List.map (\<lambda>d. (prefix_of T inst d, current_items T inst d)) ds"
    by (rule spCurrent_plan [OF distinct_prefixes [OF assms(5)]])
  have spared: "\<not> clears (legacySweepPlan T isFunction inst ds) t"
    if "t \<notin> set (spLegacy (legacySweepPlan T isFunction inst ds))" "\<And>d'. \<not> prefix (prefix_of T inst d') t"
    using that by (auto simp: clears_def cur find_None_iff split: option.splits dest!: find_in)
  from assms(7) consider "t \<in> set (current_items T inst d)"
    | rel where "Relative T (device_topics inst d) t = Some rel" | "t = Connected T inst"
    by cases (use published_in_plan in blast)+
  then have "\<not> clears (legacySweepPlan T isFunction inst ds) t"
  proof cases
    case 1
    obtain x where t: "t = inst @ CHR ''/'' # functionStatus @ CHR ''/'' # Safe T (bdHaID d) @ CHR ''/'' # x"
      using current_item_shape [OF assms(1) 1] by blast
    have "t \<notin> set (spLegacy (legacySweepPlan T isFunction inst ds))"
      using assms(2,4) t by (intro function_not_legacy [where fn = functionStatus]) (simp_all add: functionStatus_def)
    with find_device [OF assms(1,5,6) t] 1 show ?thesis by (simp add: clears_def cur)
  next
    case 2
    then obtain x where t: "t = inst @ CHR ''/'' # functionSet @ CHR ''/'' # x"
      by (auto simp: Relative_def cut_prefix_Some setBase_def device_topics_def split: option.splits)
    have "t \<notin> set (spLegacy (legacySweepPlan T isFunction inst ds))"
      using assms(3,4) t by (intro function_not_legacy [where fn = functionSet]) (simp_all add: functionSet_def)
    moreover have "\<not> prefix (prefix_of T inst d') t" for d'
      by (simp add: t prefix_of_shape functionSet_def functionStatus_def)
    ultimately show ?thesis by (rule spared)
  next
    case 3
    have "Connected T inst = inst @ CHR ''/'' # ''connected''" using assms(1) by (simp add: topic_ok_def Connected_def)
    then have "\<not> prefix (prefix_of T inst d') t" for d' by (simp add: 3 prefix_of_shape functionStatus_def)
    with connected_not_legacy [OF assms(1,4)] 3 show ?thesis by (intro spared) auto
  qed
  then show ?thesis by (simp add: sweepLegacy_def)
qed

text \<open>
  The sweep finds what is stale: a retained topic of the old layout of a configured appliance (unless
  its name is a function name), the old status topic, and a status item of an appliance that has no such
  feature any more are cleared.
\<close>

theorem sweep_clears_stale:
  assumes "topic_ok T" and "isFunction functionStatus" and "CHR ''/'' \<notin> set inst"
    and "distinct (List.map (\<lambda>d. Safe T (bdHaID d)) ds)" and "d \<in> set ds" and "t \<in> set retained"
    and "t = LegacyBridge inst
       \<or> \<not> isFunction (second_level (bdName d)) \<and> t \<in> set (legacy_items inst d)
       \<or> prefix (StatusPrefix T (device_topics inst d)) t \<and> t \<notin> set (current_items T inst d)"
  shows "t \<in> set (sweepLegacy T isFunction inst ds retained)"
proof -
  have cur: "spCurrent (legacySweepPlan T isFunction inst ds) = List.map (\<lambda>d. (prefix_of T inst d, current_items T inst d)) ds"
    by (rule spCurrent_plan [OF distinct_prefixes [OF assms(4)]])
  from assms(7) consider "t \<in> set (spLegacy (legacySweepPlan T isFunction inst ds))"
    | "prefix (prefix_of T inst d) t" "t \<notin> set (current_items T inst d)"
    using assms(5) by (auto simp: spLegacy_plan prefix_of_def)
  then have "clears (legacySweepPlan T isFunction inst ds) t"
  proof cases
    case 1
    then show ?thesis by (simp add: clears_def)
  next
    case 2
    then obtain x where t: "t = inst @ CHR ''/'' # functionStatus @ CHR ''/'' # Safe T (bdHaID d) @ CHR ''/'' # x"
      by (auto simp: prefix_of_shape prefix_def)
    from find_device [OF assms(1,4,5) t] 2(2) show ?thesis by (simp add: clears_def cur)
  qed
  with assms(6) show ?thesis by (simp add: sweepLegacy_def)
qed

section \<open>An instance with two appliances\<close>

definition two_devices :: "bridge_device list" where
  "two_devices =
     [\<lparr>bdName = ''Oven'', bdHaID = ''010203'', bdApp = dishwasher\<rparr>,
      \<lparr>bdName = ''status'', bdHaID = ''040506'', bdApp = appliance0\<rparr>]"

definition is_fn :: "string \<Rightarrow> bool" where
  "is_fn s \<longleftrightarrow> s \<in> {''status'', ''set'', ''info'', ''meta'', ''connected'', ''maintenance''}"

lemma two_devices_setup:
  "is_fn functionStatus" "is_fn functionSet" "CHR ''/'' \<notin> set ''homeconnect''"
  "distinct (List.map (\<lambda>d. Safe plain_topics (bdHaID d)) two_devices)"
  "two_devices ! 0 \<in> set two_devices" "two_devices ! 1 \<in> set two_devices"
  by (simp_all add: is_fn_def functionStatus_def functionSet_def two_devices_def plain_topics_def Let_def)

lemma sweep_spares_live_witness:
  "''homeconnect/status/040506/connection_state'' \<notin> set (sweepLegacy plain_topics is_fn ''homeconnect'' two_devices
     [''homeconnect/status/040506/connection_state'', ''homeconnect/Oven/availability''])"
proof (rule sweep_spares_live [where d = "two_devices ! 1", OF plain_topics_ok two_devices_setup(1-4,6)])
  have "ConnectionState plain_topics (device_topics ''homeconnect'' (two_devices ! 1)) = ''homeconnect/status/040506/connection_state''"
    by code_simp
  then show "live_topic plain_topics ''homeconnect'' (two_devices ! 1) ''homeconnect/status/040506/connection_state''"
    using live_link [where ev = "PubState StateConnected PubOk" and T = plain_topics and inst = "''homeconnect''"
        and d = "two_devices ! 1"]
    by (simp add: event_item_def)
qed

lemma sweep_clears_stale_witness:
  "''homeconnect/Oven/availability'' \<in> set (sweepLegacy plain_topics is_fn ''homeconnect'' two_devices [''homeconnect/Oven/availability''])"
proof (rule sweep_clears_stale [where T = plain_topics and isFunction = is_fn and inst = "''homeconnect''"
      and ds = two_devices and d = "two_devices ! 0"])
  have "LegacyAvailability (NewLegacyDevice ''homeconnect'' (bdName (two_devices ! 0))) = ''homeconnect/Oven/availability''"
    and "\<not> is_fn (second_level (bdName (two_devices ! 0)))" by code_simp+
  then show "''homeconnect/Oven/availability'' = LegacyBridge ''homeconnect''
       \<or> \<not> is_fn (second_level (bdName (two_devices ! 0)))
          \<and> ''homeconnect/Oven/availability'' \<in> set (legacy_items ''homeconnect'' (two_devices ! 0))
       \<or> prefix (StatusPrefix plain_topics (device_topics ''homeconnect'' (two_devices ! 0))) ''homeconnect/Oven/availability''
          \<and> ''homeconnect/Oven/availability'' \<notin> set (current_items plain_topics ''homeconnect'' (two_devices ! 0))"
    by (simp add: legacy_items_def Let_def)
qed (use plain_topics_ok two_devices_setup in simp_all)

end
