(* ===== verification/Hass_Model.thy ===== *)
theory Hass_Model
  imports Hass_Payload
begin

text \<open>
  The two renderings of an appliance for Home Assistant: the payload maps of
  \<^verbatim>\<open>internal/hass/discovery.go\<close> and \<^verbatim>\<open>payload.go\<close> (one configuration per entity, what the fleet was on), and
  the model of \<^verbatim>\<open>internal/hass/hamqtt.go\<close> that \<^verbatim>\<open>go-hamqtt\<close> renders into the device document.

  \<open>hass_lib\<close> gathers what is not code of the repository: the case table of \<^verbatim>\<open>strings.ToLower\<close>, the tables
  of \<^verbatim>\<open>go-ha-catalog\<close> and the generated label catalogue. A payload is a map to \<open>any\<close>. What the encoder gets
  is finite and made of strings, booleans and lists, so \<^verbatim>\<open>json.Marshal\<close> does not fail on it.
\<close>

record hass_lib =
  hlLower :: "string \<Rightarrow> string"
  hlHA :: ha_catalog
  hlLabels :: catalogue

record hass_discovery =
  dvBaseTopic :: string
  dvRootTopic :: string
  dvInst :: string
  dvLang :: string
  dvCurated :: bool
  dvEnrich :: "feature_catalog option"

section \<open>Descriptions\<close>

text \<open>
  The fields of \<^verbatim>\<open>model.Description\<close> the code sets. \<open>hdRawVal\<close>: the value template is the one that reads
  \<^verbatim>\<open>val\<close> as it is. Options are the codes and the labels of those that have one.
\<close>

record ha_description =
  hdName :: string
  hdDeviceClass :: string
  hdUnit :: string
  hdStateClass :: string
  hdCategory :: string
  hdExtra :: "(string \<times> string) list"
  hdRawVal :: bool
  hdOptions :: "(string list \<times> (string \<times> string) list) option"
  hdMin :: "f64 option"
  hdMax :: "f64 option"
  hdStep :: "f64 option"
  hdEnabled :: "bool option"

definition commandPressPayload :: string where "commandPressPayload = ''true''"
definition controlPressPayload :: string where "controlPressPayload = ''PRESS''"

definition describe :: "entity \<Rightarrow> string \<Rightarrow> ha_description" where
  "describe e platform =
     (let (deviceClass, unit) = deviceClassAndUnit e;
          desc = \<lparr>hdName = humanize e, hdDeviceClass = deviceClass, hdUnit = unit,
                  hdStateClass = stateClassFor e platform, hdCategory = entityCategoryFor e,
                  hdExtra = [], hdRawVal = False, hdOptions = None, hdMin = None, hdMax = None, hdStep = None,
                  hdEnabled = None\<rparr>;
          desc1 =
            (if platform = platformSwitch
             then desc\<lparr>hdExtra := [(''payload_on'', ''true''), (''payload_off'', ''false'')]\<rparr>
             else if platform = platformBinarySensor
             then (if eKind (enDesc e) = KindEvent
                   then desc\<lparr>hdExtra := [(''payload_on'', ''Present''), (''payload_off'', ''Off'')], hdRawVal := True\<rparr>
                   else desc\<lparr>hdExtra := [(''payload_on'', ''true''), (''payload_off'', ''false'')]\<rparr>)
             else if platform = platformButton then desc\<lparr>hdExtra := [(''payload_press'', commandPressPayload)]\<rparr>
             else if platform = platformSelect then desc\<lparr>hdOptions := Some (enumOptions e, [])\<rparr>
             else if platform = platformSensor
             then (if IsEnum (enDesc e) then desc\<lparr>hdOptions := Some (enumOptions e, [])\<rparr> else desc)
             else if platform = platformNumber
             then (let (lo, hi, st) = numberBounds (Bounds e) in desc\<lparr>hdMin := lo, hdMax := hi, hdStep := st\<rparr>)
             else desc)
      in if \<not> enabledByDefault e then desc1\<lparr>hdEnabled := Some False\<rparr> else desc1)"

definition enrichDescription ::
  "hass_lib \<Rightarrow> hass_discovery \<Rightarrow> entity \<Rightarrow> string \<Rightarrow> ha_description \<Rightarrow> ha_description" where
  "enrichDescription L d e platform desc =
     (case dvEnrich d of
        None \<Rightarrow> desc
      | Some c \<Rightarrow>
          if enName e = [] then desc
          else
            (let f = enName e;
                 d1 = (case LocalizedName c f (dvLang d) of Some n \<Rightarrow> desc\<lparr>hdName := n\<rparr> | None \<Rightarrow> desc);
                 d2 = (case DeviceClass c f of
                         Some dc \<Rightarrow> if deviceClassAllowed (hlHA L) platform dc then d1\<lparr>hdDeviceClass := dc\<rparr> else d1
                       | None \<Rightarrow> d1);
                 d3 = (case Unit c f of Some un \<Rightarrow> d2\<lparr>hdUnit := un\<rparr> | None \<Rightarrow> d2);
                 d4 = (case StateClass c f of Some sc \<Rightarrow> d3\<lparr>hdStateClass := sc\<rparr> | None \<Rightarrow> d3);
                 d5 = (case EntityCategory c f of
                         Some ec \<Rightarrow> if entityCategoryAllowed platform ec then d4\<lparr>hdCategory := ec\<rparr> else d4
                       | None \<Rightarrow> d4)
             in (case EnabledByDefault c f of
                   Some val \<Rightarrow> if val then d5\<lparr>hdEnabled := None\<rparr> else d5\<lparr>hdEnabled := Some False\<rparr>
                 | None \<Rightarrow> d5)))"

definition label_of :: "hass_lib \<Rightarrow> hass_discovery \<Rightarrow> string \<Rightarrow> string" where
  "label_of L d c = EnumLabel (hlLower L) (hlLabels L) c (dvLang d)"

definition localizeDescriptionOptions :: "hass_lib \<Rightarrow> hass_discovery \<Rightarrow> ha_description \<Rightarrow> ha_description" where
  "localizeDescriptionOptions L d desc =
     (case hdOptions desc of
        None \<Rightarrow> desc
      | Some (cs, _) \<Rightarrow>
          (let codes = sort_key (\<lambda>c. (collateKey (hlLower L) (label_of L d c), label_of L d c)) cs
           in desc\<lparr>hdOptions := Some (codes, List.map (\<lambda>c. (c, label_of L d c)) (filter (\<lambda>c. label_of L d c \<noteq> c) codes))\<rparr>))"

definition sanitizeDescriptionForPlatform :: "hass_lib \<Rightarrow> string \<Rightarrow> ha_description \<Rightarrow> ha_description" where
  "sanitizeDescriptionForPlatform L platform desc =
     (let d1 = (if hdDeviceClass desc \<noteq> [] \<and> \<not> deviceClassAllowed (hlHA L) platform (hdDeviceClass desc)
                then desc\<lparr>hdDeviceClass := []\<rparr> else desc);
          d2 = d1\<lparr>hdCategory := renderableCategory platform (hdCategory d1)\<rparr>;
          d3 = (if platform \<noteq> platformSensor \<and> platform \<noteq> platformNumber then d2\<lparr>hdUnit := []\<rparr> else d2)
      in if platform \<noteq> platformSensor then d3\<lparr>hdStateClass := []\<rparr>
         else if hdDeviceClass d3 = deviceClassEnum then
           (if hdOptions d3 = None then d3\<lparr>hdDeviceClass := []\<rparr>
            else d3\<lparr>hdUnit := [], hdStateClass := []\<rparr>)
         else
           (let (dc, unit, sc) = reconcileSensorClassesIn (hcRelations (hlHA L)) (hdDeviceClass d3) (hdUnit d3) (hdStateClass d3)
            in d3\<lparr>hdOptions := None, hdDeviceClass := dc, hdUnit := unit, hdStateClass := sc\<rparr>))"

text \<open>The passes the loop of \<open>hamqttModel\<close> makes over one description, in order.\<close>

definition text_description :: "hass_lib \<Rightarrow> entity \<Rightarrow> string \<Rightarrow> ha_description \<Rightarrow> ha_description" where
  "text_description L e platform desc =
     (if platform = platformSensor \<and> \<not> numericValue e
      then desc\<lparr>hdDeviceClass := textSensorClass (hlHA L) (hdDeviceClass desc) (IsEnum (enDesc e)),
                hdUnit := [], hdStateClass := []\<rparr>
      else desc)"

definition description_for :: "hass_lib \<Rightarrow> hass_discovery \<Rightarrow> entity \<Rightarrow> string \<Rightarrow> ha_description" where
  "description_for L d e platform =
     sanitizeDescriptionForPlatform L platform (text_description L e platform
       (localizeDescriptionOptions L d (enrichDescription L d e platform (describe e platform))))"

section \<open>The model of an appliance\<close>

record ha_device =
  hvID :: string
  hvName :: string
  hvManufacturer :: string
  hvModel :: string

definition hamqttDevice :: "hass_lib \<Rightarrow> string \<Rightarrow> device_info \<Rightarrow> ha_device" where
  "hamqttDevice L device info =
     \<lparr>hvID = ''homeconnect_'' @ Slug (hlLower L) device, hvName = device, hvManufacturer = diBrand info,
      hvModel = (if diModel info = [] then diType info else diModel info)\<rparr>"

record slot =
  slScope :: "string list"
  slAddress :: string
  slPath :: "string list"

definition hamqttSlot :: "ha_device \<Rightarrow> string \<Rightarrow> string list \<Rightarrow> slot" where
  "hamqttSlot dev haID path = \<lparr>slScope = [haID], slAddress = hvID dev, slPath = path\<rparr>"

datatype binding = StateRead slot | CommandWrite slot

record ha_entity =
  heKey :: string
  hePlatform :: string
  heDescription :: ha_description
  heBinds :: "binding list"

definition hamqttBindings :: "entity \<Rightarrow> string \<Rightarrow> slot \<Rightarrow> binding list" where
  "hamqttBindings e platform s =
     (if platform = platformButton then [CommandWrite s]
      else StateRead s #
        (if entryWritable (enDesc e)
            \<and> (platform = platformSwitch \<or> platform = platformSelect \<or> platform = platformNumber)
         then [CommandWrite s] else []))"

definition has_program :: "entity list \<Rightarrow> bool" where
  "has_program es \<longleftrightarrow>
     list_ex (\<lambda>e. eKind (enDesc e) = KindActiveProgram \<or> eKind (enDesc e) = KindSelectedProgram) es"

definition program_controls :: "(string \<times> string \<times> string) list" where
  "program_controls =
     [(ControlStartProgram, ''Start program'', ''Programm starten''),
      (ControlStopProgram, ''Stop program'', ''Programm stoppen'')]"

definition control_name :: "hass_discovery \<Rightarrow> string \<times> string \<Rightarrow> string" where
  "control_name d names = (if dvLang d = ''de'' then snd names else fst names)"

definition control_description :: "string \<Rightarrow> ha_description" where
  "control_description name =
     \<lparr>hdName = name, hdDeviceClass = [], hdUnit = [], hdStateClass = [], hdCategory = [],
      hdExtra = [(''payload_press'', controlPressPayload)], hdRawVal = False, hdOptions = None,
      hdMin = None, hdMax = None, hdStep = None, hdEnabled = None\<rparr>"

definition hamqttProgramControls ::
  "hass_lib \<Rightarrow> hass_discovery \<Rightarrow> string \<Rightarrow> ha_device \<Rightarrow> entity list \<Rightarrow> ha_entity list" where
  "hamqttProgramControls L d haID dev es =
     (if \<not> has_program es then []
      else List.map (\<lambda>(key, names).
         \<lparr>heKey = key, hePlatform = platformButton,
          heDescription = sanitizeDescriptionForPlatform L platformButton (control_description (control_name d names)),
          heBinds = [CommandWrite (hamqttSlot dev haID (split_on (CHR ''/'') (ControlPath key)))]\<rparr>) program_controls)"

text \<open>One turn of the loop: \<open>None\<close> is a feature left out, \<open>Inl\<close> one the curated filter dropped.\<close>

definition excluded :: "hass_discovery \<Rightarrow> entity \<Rightarrow> bool" where
  "excluded d e \<longleftrightarrow> (case dvEnrich d of Some c \<Rightarrow> enName e \<noteq> [] \<and> Excluded c (enName e) | None \<Rightarrow> False)"

definition model_entity ::
  "hass_lib \<Rightarrow> hass_discovery \<Rightarrow> string \<Rightarrow> ha_device \<Rightarrow> entity \<Rightarrow> (unit + ha_entity) option" where
  "model_entity L d haID dev e =
     (if excluded d e then None
      else case classify e of
        None \<Rightarrow> None
      | Some platform \<Rightarrow>
          (let desc = description_for L d e platform in
           if dvCurated d \<and> hdEnabled desc = Some False then Some (Inl ())
           else Some (Inr \<lparr>heKey = featureKey (hlLower L) e, hePlatform = platform, heDescription = desc,
               heBinds = hamqttBindings e platform (hamqttSlot dev haID (FeatureItem (enName e) (enUID e)))\<rparr>)))"

definition hamqttModel ::
  "hass_lib \<Rightarrow> hass_discovery \<Rightarrow> string \<Rightarrow> string \<Rightarrow> device_info \<Rightarrow> entity list \<Rightarrow> ha_device \<times> ha_entity list \<times> nat" where
  "hamqttModel L d device haID info es =
     (let dev = hamqttDevice L device info;
          rs = List.map_filter (model_entity L d haID dev) es
      in (dev, List.map_filter (\<lambda>r. case r of Inr x \<Rightarrow> Some x | Inl _ \<Rightarrow> None) rs @ hamqttProgramControls L d haID dev es,
          length (filter isl rs)))"

end
