(* ===== verification/Hass_Agree.thy ===== *)
theory Hass_Agree
  imports Hass_Configs
begin

text \<open>
  The two renderings agree: the description the model of an appliance holds for a feature says what the
  payload map of that feature says, and both paths take the same features under the same keys.
\<close>

section \<open>What a description says as a payload\<close>

definition str_entry :: "string \<Rightarrow> any option" where
  "str_entry s = (if s = [] then None else Some (VStr s))"

definition option_label :: "(string \<times> string) list \<Rightarrow> string \<Rightarrow> string" where
  "option_label ls c = (case map_of ls c of Some l \<Rightarrow> l | None \<Rightarrow> c)"

definition options_entry :: "(string list \<times> (string \<times> string) list) option \<Rightarrow> any option" where
  "options_entry o' = map_option (\<lambda>(cs, ls). VList (List.map VStr (List.map (option_label ls) cs))) o'"

definition core_keys :: "string list" where
  "core_keys = [''name'', ''device_class'', ''unit_of_measurement'', ''state_class'', ''entity_category'',
     ''enabled_by_default'', ''options'', ''min'', ''max'', ''step'', ''payload_on'', ''payload_off'', ''payload_press'']"

definition core_payload :: "ha_description \<Rightarrow> payload" where
  "core_payload x k =
     (if k = ''name'' then Some (VStr (hdName x))
      else if k = ''device_class'' then str_entry (hdDeviceClass x)
      else if k = ''unit_of_measurement'' then str_entry (hdUnit x)
      else if k = ''state_class'' then str_entry (hdStateClass x)
      else if k = ''entity_category'' then str_entry (hdCategory x)
      else if k = ''enabled_by_default'' then map_option VBool (hdEnabled x)
      else if k = ''options'' then options_entry (hdOptions x)
      else if k = ''min'' then map_option VFloat (hdMin x)
      else if k = ''max'' then map_option VFloat (hdMax x)
      else if k = ''step'' then map_option VFloat (hdStep x)
      else if k \<in> set core_keys then map_option VStr (map_of (hdExtra x) k)
      else None)"

text \<open>Outside these keys the payload is what it was built on, \<open>B\<close>.\<close>

definition same_rest :: "payload \<Rightarrow> payload \<Rightarrow> bool" where
  "same_rest B p \<longleftrightarrow> (\<forall>k. k \<notin> set core_keys \<longrightarrow> p k = B k)"

definition agrees :: "payload \<Rightarrow> payload \<Rightarrow> ha_description \<Rightarrow> bool" where
  "agrees B p x \<longleftrightarrow> (\<forall>k\<in>set core_keys. p k = core_payload x k) \<and> same_rest B p"

lemma same_rest_upd [simp]: "k \<in> set core_keys \<Longrightarrow> same_rest B (p(k := v)) = same_rest B p"
  by (auto simp: same_rest_def)

lemma core_key [simp]:
  "''name'' \<in> set core_keys" "''device_class'' \<in> set core_keys" "''unit_of_measurement'' \<in> set core_keys"
  "''state_class'' \<in> set core_keys" "''entity_category'' \<in> set core_keys" "''enabled_by_default'' \<in> set core_keys"
  "''options'' \<in> set core_keys" "''min'' \<in> set core_keys" "''max'' \<in> set core_keys" "''step'' \<in> set core_keys"
  "''payload_on'' \<in> set core_keys" "''payload_off'' \<in> set core_keys" "''payload_press'' \<in> set core_keys"
  by (simp_all add: core_keys_def)

lemma agrees_iff:
  "agrees B p x \<longleftrightarrow>
     p ''name'' = Some (VStr (hdName x)) \<and> p ''device_class'' = str_entry (hdDeviceClass x)
   \<and> p ''unit_of_measurement'' = str_entry (hdUnit x) \<and> p ''state_class'' = str_entry (hdStateClass x)
   \<and> p ''entity_category'' = str_entry (hdCategory x) \<and> p ''enabled_by_default'' = map_option VBool (hdEnabled x)
   \<and> p ''options'' = options_entry (hdOptions x) \<and> p ''min'' = map_option VFloat (hdMin x)
   \<and> p ''max'' = map_option VFloat (hdMax x) \<and> p ''step'' = map_option VFloat (hdStep x)
   \<and> p ''payload_on'' = map_option VStr (map_of (hdExtra x) ''payload_on'')
   \<and> p ''payload_off'' = map_option VStr (map_of (hdExtra x) ''payload_off'')
   \<and> p ''payload_press'' = map_option VStr (map_of (hdExtra x) ''payload_press'') \<and> same_rest B p"
  by (simp add: agrees_def core_payload_def core_keys_def del: core_key)

lemma str_entry_simps [simp]:
  "str_entry [] = None" "s \<noteq> [] \<Longrightarrow> str_entry s = Some (VStr s)" "str_entry s = None \<longleftrightarrow> s = []"
  "str_entry s = Some (VStr t) \<longleftrightarrow> s = t \<and> t \<noteq> []"
  by (auto simp: str_entry_def)

section \<open>One key at a time\<close>

lemma agrees_put:
  assumes "agrees B p x"
  shows "agrees B (p(''name'' \<mapsto> VStr n)) (x\<lparr>hdName := n\<rparr>)"
    and "agrees B (p(''device_class'' := str_entry s)) (x\<lparr>hdDeviceClass := s\<rparr>)"
    and "agrees B (p(''unit_of_measurement'' := str_entry s)) (x\<lparr>hdUnit := s\<rparr>)"
    and "agrees B (p(''state_class'' := str_entry s)) (x\<lparr>hdStateClass := s\<rparr>)"
    and "agrees B (p(''entity_category'' := str_entry s)) (x\<lparr>hdCategory := s\<rparr>)"
    and "agrees B (p(''enabled_by_default'' := map_option VBool b)) (x\<lparr>hdEnabled := b\<rparr>)"
    and "agrees B (p(''options'' := options_entry o')) (x\<lparr>hdOptions := o'\<rparr>)"
  using assms by (simp_all add: agrees_iff)

lemma agrees_get:
  assumes "agrees B p x"
  shows "p ''device_class'' = str_entry (hdDeviceClass x)" "p ''entity_category'' = str_entry (hdCategory x)"
    "p ''options'' = options_entry (hdOptions x)" "p ''enabled_by_default'' = map_option VBool (hdEnabled x)"
    "get_str ''device_class'' p = hdDeviceClass x" "get_str ''unit_of_measurement'' p = hdUnit x"
    "get_str ''state_class'' p = hdStateClass x"
  using assms by (auto simp: agrees_iff get_str_def str_entry_def any_str_def)

lemmas agrees_put' =
  agrees_put(1)
  agrees_put(2) [where s = "[]", simplified] agrees_put(3) [where s = "[]", simplified]
  agrees_put(4) [where s = "[]", simplified] agrees_put(5) [where s = "[]", simplified]
  agrees_put(6) [where b = None, simplified] agrees_put(6) [where b = "Some v" for v, simplified]
  agrees_put(7) [where o' = None, simplified options_entry_def option.map]

lemma agrees_put_ne:
  assumes "agrees B p x" and "s \<noteq> []"
  shows "agrees B (p(''device_class'' \<mapsto> VStr s)) (x\<lparr>hdDeviceClass := s\<rparr>)"
    and "agrees B (p(''unit_of_measurement'' \<mapsto> VStr s)) (x\<lparr>hdUnit := s\<rparr>)"
    and "agrees B (p(''state_class'' \<mapsto> VStr s)) (x\<lparr>hdStateClass := s\<rparr>)"
    and "agrees B (p(''entity_category'' \<mapsto> VStr s)) (x\<lparr>hdCategory := s\<rparr>)"
  using agrees_put(2-5) [OF assms(1), of s] assms(2) by simp_all

section \<open>The passes\<close>

lemma agrees_Let:
  "agrees B p x \<Longrightarrow> (\<And>q y. agrees B q y \<Longrightarrow> agrees B (g q) (h y)) \<Longrightarrow> agrees B (let q = p in g q) (let y = x in h y)"
  by (simp add: Let_def)

lemma agrees_option:
  assumes "agrees B p x" and "\<And>v. a = Some v \<Longrightarrow> agrees B (g v) (h v)"
  shows "agrees B (case a of Some v \<Rightarrow> g v | None \<Rightarrow> p) (case a of Some v \<Rightarrow> h v | None \<Rightarrow> x)"
  using assms by (cases a) simp_all

lemma agrees_if:
  assumes "b \<Longrightarrow> agrees B p x" and "\<not> b \<Longrightarrow> agrees B q y"
  shows "agrees B (if b then p else q) (if b then x else y)"
  using assms by simp

lemma agrees_other: "agrees p p x \<Longrightarrow> k \<notin> set core_keys \<Longrightarrow> agrees (p(k := v)) (p(k := v)) x"
  by (auto simp: agrees_def same_rest_def)

lemma agrees_put_str:
  assumes "agrees B p x"
  shows "hdDeviceClass x = [] \<Longrightarrow> agrees B (put_str ''device_class'' s p) (x\<lparr>hdDeviceClass := s\<rparr>)"
    and "hdUnit x = [] \<Longrightarrow> agrees B (put_str ''unit_of_measurement'' s p) (x\<lparr>hdUnit := s\<rparr>)"
    and "hdStateClass x = [] \<Longrightarrow> agrees B (put_str ''state_class'' s p) (x\<lparr>hdStateClass := s\<rparr>)"
    and "hdCategory x = [] \<Longrightarrow> agrees B (put_str ''entity_category'' s p) (x\<lparr>hdCategory := s\<rparr>)"
  using assms by (simp_all add: agrees_iff put_str_def)

lemma agrees_bounds:
  assumes "agrees B p x" and "hdMin x = None" and "hdMax x = None" and "hdStep x = None"
  shows "agrees B (put_opt ''step'' st (put_opt ''max'' hi (put_opt ''min'' lo p)))
    (x\<lparr>hdMin := lo, hdMax := hi, hdStep := st\<rparr>)"
  using assms by (simp add: agrees_iff put_opt_def split: option.split)

definition blank_description :: "string \<Rightarrow> ha_description" where
  "blank_description name =
     \<lparr>hdName = name, hdDeviceClass = [], hdUnit = [], hdStateClass = [], hdCategory = [],
      hdExtra = [], hdRawVal = False, hdOptions = None, hdMin = None, hdMax = None, hdStep = None, hdEnabled = None\<rparr>"

lemma agrees_base:
  "agrees (basePayload L platform device key name t dev) (basePayload L platform device key name t dev)
     (blank_description name)"
  by (simp add: agrees_iff basePayload_def applyAvailability_def blank_description_def options_entry_def same_rest_def)


lemma agrees_extra:
  assumes "agrees B p x" and "hdExtra x = []"
  shows "agrees B (p(''payload_on'' \<mapsto> VStr a, ''payload_off'' \<mapsto> VStr b)) (x\<lparr>hdExtra := [(''payload_on'', a), (''payload_off'', b)], hdRawVal := r\<rparr>)"
    and "agrees B (p(''payload_press'' \<mapsto> VStr a)) (x\<lparr>hdExtra := [(''payload_press'', a)]\<rparr>)"
    and "agrees B (p(''options'' \<mapsto> VList (List.map VStr cs))) (x\<lparr>hdOptions := Some (cs, [])\<rparr>)"
  using assms by (simp_all add: agrees_iff options_entry_def option_label_def)

lemma describe_blank:
  assumes "deviceClassAndUnit e = (dc, un)" and "numberBounds (Bounds e) = (lo, hi, st)"
  obtains y where
    "describe e platform =
       (let z = y\<lparr>hdDeviceClass := dc, hdUnit := un, hdStateClass := stateClassFor e platform,
                  hdCategory := entityCategoryFor e\<rparr>
        in if \<not> enabledByDefault e then z\<lparr>hdEnabled := Some False\<rparr> else z)"
    "y = (let x = blank_description (humanize e) in
       if platform = platformSwitch
       then x\<lparr>hdExtra := [(''payload_on'', ''true''), (''payload_off'', ''false'')], hdRawVal := False\<rparr>
       else if platform = platformBinarySensor
       then (if eKind (enDesc e) = KindEvent
             then x\<lparr>hdExtra := [(''payload_on'', ''Present''), (''payload_off'', ''Off'')], hdRawVal := True\<rparr>
             else x\<lparr>hdExtra := [(''payload_on'', ''true''), (''payload_off'', ''false'')], hdRawVal := False\<rparr>)
       else if platform = platformButton then x\<lparr>hdExtra := [(''payload_press'', commandPressPayload)]\<rparr>
       else if platform = platformSelect then x\<lparr>hdOptions := Some (enumOptions e, [])\<rparr>
       else if platform = platformSensor
       then (if IsEnum (enDesc e) then x\<lparr>hdOptions := Some (enumOptions e, [])\<rparr> else x)
       else if platform = platformNumber then x\<lparr>hdMin := lo, hdMax := hi, hdStep := st\<rparr>
       else x)"
proof -
  show thesis
    by (rule that [OF _ refl]) (simp add: describe_def assms Let_def blank_description_def)
qed

text \<open>The identity, the availability and the topics an entity's payload is built on.\<close>

definition topic_payload :: "hass_lib \<Rightarrow> entity \<Rightarrow> string \<Rightarrow> string \<Rightarrow> entity_topics \<Rightarrow> device_block \<Rightarrow> payload" where
  "topic_payload L e platform device t dev =
     (let p0 = basePayload L platform device (featureKey (hlLower L) e) (humanize e) t dev;
          p1 = (if platform = platformButton
                then p0(''command_topic'' \<mapsto> VStr (etCommand t)) else p0(''state_topic'' \<mapsto> VStr (etState t)))
    in if entryWritable (enDesc e) \<and> (platform = platformSwitch \<or> platform = platformSelect \<or> platform = platformNumber)
       then p1(''command_topic'' \<mapsto> VStr (etCommand t)) else p1)"

lemma agrees_payloadFor:
  "agrees (topic_payload L e platform device t dev) (payloadFor L e platform device t dev) (describe e platform)"
proof -
  obtain dc un where cu: "deviceClassAndUnit e = (dc, un)" by fastforce
  obtain lo hi st where nb: "numberBounds (Bounds e) = (lo, hi, st)" by (metis prod_cases3)
  obtain y where d: "describe e platform =
       (let z = y\<lparr>hdDeviceClass := dc, hdUnit := un, hdStateClass := stateClassFor e platform,
                  hdCategory := entityCategoryFor e\<rparr>
        in if \<not> enabledByDefault e then z\<lparr>hdEnabled := Some False\<rparr> else z)"
    and y: "y = (let x = blank_description (humanize e) in
       if platform = platformSwitch
       then x\<lparr>hdExtra := [(''payload_on'', ''true''), (''payload_off'', ''false'')], hdRawVal := False\<rparr>
       else if platform = platformBinarySensor
       then (if eKind (enDesc e) = KindEvent
             then x\<lparr>hdExtra := [(''payload_on'', ''Present''), (''payload_off'', ''Off'')], hdRawVal := True\<rparr>
             else x\<lparr>hdExtra := [(''payload_on'', ''true''), (''payload_off'', ''false'')], hdRawVal := False\<rparr>)
       else if platform = platformButton then x\<lparr>hdExtra := [(''payload_press'', commandPressPayload)]\<rparr>
       else if platform = platformSelect then x\<lparr>hdOptions := Some (enumOptions e, [])\<rparr>
       else if platform = platformSensor
       then (if IsEnum (enDesc e) then x\<lparr>hdOptions := Some (enumOptions e, [])\<rparr> else x)
       else if platform = platformNumber then x\<lparr>hdMin := lo, hdMax := hi, hdStep := st\<rparr>
       else x)"
    by (rule describe_blank [OF cu nb])
  define p2 where "p2 = topic_payload L e platform device t dev"
  have k: "''command_topic'' \<notin> set core_keys" "''state_topic'' \<notin> set core_keys" by (simp_all add: core_keys_def)
  have a2: "agrees p2 p2 (blank_description (humanize e))"
    by (simp add: p2_def topic_payload_def Let_def agrees_base agrees_other k)
  define p3 where "p3 = (if platform = platformSwitch
                then p2(''payload_on'' \<mapsto> VStr ''true'', ''payload_off'' \<mapsto> VStr ''false'')
                else if platform = platformBinarySensor
                then (if eKind (enDesc e) = KindEvent
                      then p2(''payload_on'' \<mapsto> VStr ''Present'', ''payload_off'' \<mapsto> VStr ''Off'')
                      else p2(''payload_on'' \<mapsto> VStr ''true'', ''payload_off'' \<mapsto> VStr ''false''))
                else if platform = platformButton then p2(''payload_press'' \<mapsto> VStr commandPressPayload)
                else if platform = platformSelect
                then p2(''options'' \<mapsto> VList (List.map VStr (enumOptions e)))
                else if platform = platformSensor
                then (if IsEnum (enDesc e) then p2(''options'' \<mapsto> VList (List.map VStr (enumOptions e))) else p2)
                else if platform = platformNumber
                then put_opt ''step'' st (put_opt ''max'' hi (put_opt ''min'' lo p2))
                else p2)"
  have a3: "agrees p2 p3 y"
    unfolding p3_def y Let_def
    by (intro agrees_if agrees_extra agrees_bounds a2) (simp_all add: blank_description_def)
  have y0: "hdDeviceClass y = []" "hdUnit y = []" "hdStateClass y = []" "hdCategory y = []"
    by (simp_all add: y Let_def blank_description_def)
  have pf: "payloadFor L e platform device t dev =
     (let p7 = put_str ''entity_category'' (entityCategoryFor e) (put_str ''state_class'' (stateClassFor e platform)
         (put_str ''unit_of_measurement'' un (put_str ''device_class'' dc p3)))
      in if \<not> enabledByDefault e then p7(''enabled_by_default'' \<mapsto> VBool False) else p7)"
    by (simp add: payloadFor_def cu nb Let_def p3_def p2_def topic_payload_def platform_defs)
  show ?thesis
    unfolding d pf p2_def [symmetric]
    by (intro agrees_Let agrees_if agrees_put_str agrees_put'(7) a3) (simp_all add: y0)
qed

lemma agrees_enrich:
  assumes "agrees B p x"
  shows "agrees B (applyEnrichment L d e platform p) (enrichDescription L d e platform x)"
proof (cases "dvEnrich d")
  case None
  with assms show ?thesis by (simp add: applyEnrichment_def enrichDescription_def)
next
  case (Some c)
  show ?thesis
    unfolding applyEnrichment_def enrichDescription_def Some option.case Let_def [of "enName e"]
    by (intro agrees_Let agrees_option agrees_if agrees_put_ne agrees_put'(1,6,7) assms)
      (auto dest: enrichment_ne)
qed

text \<open>The labels: sorting the codes by their labels is sorting the labels.\<close>

lemma map_insort_key: "List.map f (insort_key (\<lambda>a. k (f a)) x xs) = insort_key k (f x) (List.map f xs)"
  by (induction xs) auto

lemma map_sort_key: "List.map f (sort_key (\<lambda>a. k (f a)) xs) = sort_key k (List.map f xs)"
  by (induction xs) (simp_all add: map_insort_key)

lemma option_label_map: "c \<in> set cs \<Longrightarrow> option_label (List.map (\<lambda>c. (c, l c)) (filter (\<lambda>c. l c \<noteq> c) cs)) c = l c"
proof -
  assume c: "c \<in> set cs"
  have m: "map_of (List.map (\<lambda>c. (c, l c)) xs) c = (if c \<in> set xs then Some (l c) else None)" for xs
    by (induction xs) auto
  show ?thesis using c by (auto simp: option_label_def m)
qed

definition unlabelled :: "ha_description \<Rightarrow> bool" where
  "unlabelled x \<longleftrightarrow> (case hdOptions x of Some (cs, ls) \<Rightarrow> ls = [] | None \<Rightarrow> True)"

lemma any_str_VStr [simp]: "any_str (VStr s) = s" "any_str \<circ> VStr = id"
  by (auto simp: any_str_def)

lemma agrees_localize:
  assumes "agrees B p x" and "unlabelled x"
  shows "agrees B (localizeOptions L d p) (localizeDescriptionOptions L d x)"
proof (cases "hdOptions x")
  case None
  with assms(1) show ?thesis by (simp add: localizeOptions_def localizeDescriptionOptions_def agrees_get options_entry_def)
next
  case (Some o')
  with assms(2) obtain cs where x: "hdOptions x = Some (cs, [])" by (cases o') (auto simp: unlabelled_def)
  define codes where "codes = sort_key (\<lambda>c. (collateKey (hlLower L) (label_of L d c), label_of L d c)) cs"
  have o1: "p ''options'' = Some (VList (List.map VStr cs))"
    using assms(1) x by (simp add: agrees_get options_entry_def option_label_def)
  have "sortLocalized (hlLower L) (List.map (label_of L d) cs) = List.map (label_of L d) codes"
    using map_sort_key [of "label_of L d" "\<lambda>s. (collateKey (hlLower L) s, s)" cs]
    by (simp add: sortLocalized_def codes_def comp_def)
  moreover have "List.map (option_label (List.map (\<lambda>c. (c, label_of L d c)) (filter (\<lambda>c. label_of L d c \<noteq> c) codes))) codes
      = List.map (label_of L d) codes"
    by (simp add: option_label_map)
  ultimately have "options_entry (Some (codes, List.map (\<lambda>c. (c, label_of L d c)) (filter (\<lambda>c. label_of L d c \<noteq> c) codes)))
      = Some (VList (List.map VStr (sortLocalized (hlLower L) (List.map (label_of L d) cs))))"
    by (simp add: options_entry_def)
  then have "localizeOptions L d p = p(''options'' := options_entry (hdOptions (localizeDescriptionOptions L d x)))"
    by (simp add: localizeOptions_def o1 localizeDescriptionOptions_def x Let_def codes_def)
  moreover have "localizeDescriptionOptions L d x = x\<lparr>hdOptions := hdOptions (localizeDescriptionOptions L d x)\<rparr>"
    by (simp add: localizeDescriptionOptions_def x Let_def)
  ultimately show ?thesis using agrees_put(7) [OF assms(1)] by metis
qed

lemma agrees_text:
  assumes "agrees B p x"
  shows "agrees B (text_payload L e platform p) (text_description L e platform x)"
proof (cases "platform = platformSensor \<and> \<not> numericValue e")
  case True
  define dc where "dc = textSensorClass (hlHA L) (hdDeviceClass x) (IsEnum (enDesc e))"
  have "text_payload L e platform p = p(''unit_of_measurement'' := None, ''state_class'' := None, ''device_class'' := str_entry dc)"
    using True assms by (simp add: text_payload_def agrees_get Let_def dc_def)
  moreover have "text_description L e platform x = x\<lparr>hdUnit := [], hdStateClass := [], hdDeviceClass := dc\<rparr>"
    using True by (simp add: text_description_def dc_def)
  moreover have "agrees B (p(''unit_of_measurement'' := None, ''state_class'' := None, ''device_class'' := str_entry dc))
      (x\<lparr>hdUnit := [], hdStateClass := [], hdDeviceClass := dc\<rparr>)"
    by (intro agrees_put(2) agrees_put'(3,4) assms)
  ultimately show ?thesis by simp
next
  case False
  then have "text_payload L e platform p = p" "text_description L e platform x = x"
    by (simp_all only: text_payload_def text_description_def if_False)
  with assms show ?thesis by simp
qed

lemma reconcile_keeps_or_drops:
  assumes "reconcileSensorClassesIn rel dc un sc = (dc', un', sc')"
  shows "dc' = dc \<or> dc' = []" "un' = un \<or> un' = []" "sc' = sc \<or> sc' = []"
  using assms by (auto simp: reconcileSensorClassesIn_def split: if_splits option.splits)

lemma drop_empty_entry:
  assumes "p k = str_entry old" and "new = old \<or> new = []"
  shows "drop_empty k new p = p(k := str_entry new)"
  using assms by (auto simp: drop_empty_def fun_eq_iff)

lemma agrees_sanitize:
  assumes "agrees B p x"
  shows "agrees B (sanitizeForPlatform L platform p) (sanitizeDescriptionForPlatform L platform x)"
proof -
  define x1 where "x1 = (if hdDeviceClass x \<noteq> [] \<and> \<not> deviceClassAllowed (hlHA L) platform (hdDeviceClass x)
    then x\<lparr>hdDeviceClass := []\<rparr> else x)"
  define p1 where "p1 = (case p ''device_class'' of
    Some (VStr dc) \<Rightarrow> if \<not> deviceClassAllowed (hlHA L) platform dc then p(''device_class'' := None) else p | _ \<Rightarrow> p)"
  define x2 where "x2 = x1\<lparr>hdCategory := renderableCategory platform (hdCategory x1)\<rparr>"
  define p2 where "p2 = (case p1 ''entity_category'' of
    Some (VStr cat) \<Rightarrow> (let c = renderableCategory platform cat in
       if c = [] then p1(''entity_category'' := None) else p1(''entity_category'' \<mapsto> VStr c)) | _ \<Rightarrow> p1)"
  define x3 where "x3 = (if platform \<noteq> platformSensor \<and> platform \<noteq> platformNumber then x2\<lparr>hdUnit := []\<rparr> else x2)"
  define p3 where "p3 = (if platform \<noteq> platformSensor \<and> platform \<noteq> platformNumber
    then p2(''unit_of_measurement'' := None) else p2)"
  have a1: "agrees B p1 x1"
    using assms by (cases "hdDeviceClass x = []") (auto simp: p1_def x1_def agrees_get intro: agrees_put'(2))
  have a2: "agrees B p2 x2"
  proof (cases "hdCategory x1 = []")
    case True
    then have "p2 = p1" "x2 = x1"
      using a1 by (simp_all add: p2_def x2_def agrees_get renderableCategory_def entityCategoryAllowed_def)
    with a1 show ?thesis by simp
  next
    case False
    then have "p2 = p1(''entity_category'' := str_entry (renderableCategory platform (hdCategory x1)))"
      using a1 by (simp add: p2_def agrees_get Let_def)
    with agrees_put(5) [OF a1] show ?thesis by (simp add: x2_def)
  qed
  have a3: "agrees B p3 x3" using a2 by (auto simp: p3_def x3_def intro: agrees_put'(3))
  have sp: "sanitizeForPlatform L platform p =
     (if platform \<noteq> platformSensor then p3(''state_class'' := None)
      else if p3 ''device_class'' = Some (VStr deviceClassEnum) then
        (if p3 ''options'' = None then p3(''device_class'' := None)
         else p3(''unit_of_measurement'' := None, ''state_class'' := None))
      else (let p4 = p3(''options'' := None);
                (dc, unit, sc) = reconcileSensorClassesIn (hcRelations (hlHA L)) (get_str ''device_class'' p4)
                  (get_str ''unit_of_measurement'' p4) (get_str ''state_class'' p4)
            in drop_empty ''state_class'' sc (drop_empty ''unit_of_measurement'' unit (drop_empty ''device_class'' dc p4))))"
    unfolding sanitizeForPlatform_def p3_def p2_def p1_def Let_def by (rule refl)
  have sx: "sanitizeDescriptionForPlatform L platform x =
     (if platform \<noteq> platformSensor then x3\<lparr>hdStateClass := []\<rparr>
      else if hdDeviceClass x3 = deviceClassEnum then
        (if hdOptions x3 = None then x3\<lparr>hdDeviceClass := []\<rparr> else x3\<lparr>hdUnit := [], hdStateClass := []\<rparr>)
      else (let (dc, unit, sc) = reconcileSensorClassesIn (hcRelations (hlHA L)) (hdDeviceClass x3) (hdUnit x3) (hdStateClass x3)
            in x3\<lparr>hdOptions := None, hdDeviceClass := dc, hdUnit := unit, hdStateClass := sc\<rparr>))"
    unfolding sanitizeDescriptionForPlatform_def x3_def x2_def x1_def Let_def by (rule refl)
  have ne: "deviceClassEnum \<noteq> []" by (simp add: deviceClassEnum_def)
  consider "platform \<noteq> platformSensor"
    | "platform = platformSensor" "hdDeviceClass x3 = deviceClassEnum" "hdOptions x3 = None"
    | "platform = platformSensor" "hdDeviceClass x3 = deviceClassEnum" "hdOptions x3 \<noteq> None"
    | "platform = platformSensor" "hdDeviceClass x3 \<noteq> deviceClassEnum" by blast
  then show ?thesis
  proof cases
    case 1
    then show ?thesis using agrees_put'(4) [OF a3] by (simp add: sp sx)
  next
    case 2
    then have "sanitizeForPlatform L platform p = p3(''device_class'' := None)"
      unfolding sp using a3 ne by (simp add: agrees_get options_entry_def)
    moreover have "sanitizeDescriptionForPlatform L platform x = x3\<lparr>hdDeviceClass := []\<rparr>"
      unfolding sx using 2 by simp
    ultimately show ?thesis using agrees_put'(2) [OF a3] by simp
  next
    case 3
    then have "sanitizeForPlatform L platform p = p3(''unit_of_measurement'' := None, ''state_class'' := None)"
      unfolding sp using a3 ne by (auto simp: agrees_get options_entry_def)
    moreover have "agrees B (p3(''unit_of_measurement'' := None, ''state_class'' := None)) (x3\<lparr>hdUnit := [], hdStateClass := []\<rparr>)"
      by (intro agrees_put'(3,4) a3)
    moreover have "sanitizeDescriptionForPlatform L platform x = x3\<lparr>hdUnit := [], hdStateClass := []\<rparr>"
      unfolding sx using 3 by auto
    ultimately show ?thesis by simp
  next
    case 4
    define p4 where "p4 = p3(''options'' := None)"
    have a4: "agrees B p4 (x3\<lparr>hdOptions := None\<rparr>)" unfolding p4_def by (rule agrees_put'(8) [OF a3])
    obtain dc un sc where r: "reconcileSensorClassesIn (hcRelations (hlHA L)) (hdDeviceClass x3) (hdUnit x3) (hdStateClass x3)
        = (dc, un, sc)" by (metis prod_cases3)
    note kd = reconcile_keeps_or_drops [OF r]
    have "drop_empty ''state_class'' sc (drop_empty ''unit_of_measurement'' un (drop_empty ''device_class'' dc p4))
        = p4(''device_class'' := str_entry dc, ''unit_of_measurement'' := str_entry un, ''state_class'' := str_entry sc)"
    proof -
      have "drop_empty ''device_class'' dc p4 = p4(''device_class'' := str_entry dc)"
        by (rule drop_empty_entry [OF _ kd(1)]) (use a4 in \<open>simp add: agrees_iff\<close>)
      moreover have "drop_empty ''unit_of_measurement'' un (p4(''device_class'' := str_entry dc))
          = p4(''device_class'' := str_entry dc, ''unit_of_measurement'' := str_entry un)"
        by (rule drop_empty_entry [OF _ kd(2)]) (use a4 in \<open>simp add: agrees_iff\<close>)
      moreover have "drop_empty ''state_class'' sc (p4(''device_class'' := str_entry dc, ''unit_of_measurement'' := str_entry un))
          = p4(''device_class'' := str_entry dc, ''unit_of_measurement'' := str_entry un, ''state_class'' := str_entry sc)"
        by (rule drop_empty_entry [OF _ kd(3)]) (use a4 in \<open>simp add: agrees_iff\<close>)
      ultimately show ?thesis by simp
    qed
    then have "sanitizeForPlatform L platform p =
        p4(''device_class'' := str_entry dc, ''unit_of_measurement'' := str_entry un, ''state_class'' := str_entry sc)"
      unfolding sp using 4 a3 a4 r by (simp add: agrees_get Let_def flip: p4_def)
    moreover have "agrees B (p4(''device_class'' := str_entry dc, ''unit_of_measurement'' := str_entry un, ''state_class'' := str_entry sc))
        (x3\<lparr>hdOptions := None, hdDeviceClass := dc, hdUnit := un, hdStateClass := sc\<rparr>)"
      by (intro agrees_put a4)
    moreover have "sanitizeDescriptionForPlatform L platform x =
        x3\<lparr>hdOptions := None, hdDeviceClass := dc, hdUnit := un, hdStateClass := sc\<rparr>"
      unfolding sx using 4 r by simp
    ultimately show ?thesis by simp
  qed
qed

section \<open>The renderings\<close>

lemma unlabelled_describe: "unlabelled (describe e platform)"
proof -
  obtain dc un where "deviceClassAndUnit e = (dc, un)" by fastforce
  moreover obtain lo hi st where "numberBounds (Bounds e) = (lo, hi, st)" by (metis prod_cases3)
  ultimately show ?thesis by (simp add: unlabelled_def describe_def Let_def)
qed

lemma enrich_options: "hdOptions (enrichDescription L d e platform x) = hdOptions x"
  by (simp add: enrichDescription_def Let_def option.case_distrib [of hdOptions] if_distrib [of hdOptions]
      option.case_eq_if)

lemma unlabelled_enrich: "unlabelled x \<Longrightarrow> unlabelled (enrichDescription L d e platform x)"
  by (simp add: unlabelled_def enrich_options)

lemma agrees_description:
  "agrees (topic_payload L e platform device (topicsFor d device e) dev) (payload_of L d device dev e platform) (description_for L d e platform)"
  unfolding payload_of_def description_for_def
  by (intro agrees_sanitize agrees_text agrees_localize agrees_enrich agrees_payloadFor unlabelled_enrich unlabelled_describe)

lemma disabledByDefault_agrees: "agrees B p x \<Longrightarrow> disabledByDefault p \<longleftrightarrow> hdEnabled x = Some False"
  by (cases "hdEnabled x") (auto simp: disabledByDefault_def agrees_get)

text \<open>What a configuration and an entity of the model have to say to each other.\<close>

definition same_config :: "hass_lib \<Rightarrow> hass_discovery \<Rightarrow> string \<Rightarrow> ha_device \<Rightarrow> string \<times> payload \<Rightarrow> ha_entity \<Rightarrow> bool" where
  "same_config L d device dev = (\<lambda>(topic, p) x.
     topic = dvBaseTopic d @ ''/'' @ hePlatform x @ ''/'' @ Slug (hlLower L) device @ ''/'' @ heKey x @ ''/config''
   \<and> p ''unique_id'' = Some (VStr (hvID dev @ ''_'' @ heKey x))
   \<and> (\<forall>k\<in>set core_keys. p k = core_payload (heDescription x) k))"

lemma unique_id_not_core: "''unique_id'' \<notin> set core_keys"
  by (simp add: core_keys_def)

lemma base_unique_id:
  "basePayload L platform device key name t dev ''unique_id'' = Some (VStr (dkPrefix dev @ ''_'' @ key))"
  by (simp add: basePayload_def applyAvailability_def)

lemma topic_unique_id:
  "topic_payload L e platform device t dev ''unique_id'' = Some (VStr (dkPrefix dev @ ''_'' @ featureKey (hlLower L) e))"
  by (simp add: topic_payload_def Let_def base_unique_id)

lemma same_entity_config:
  "same_config L d device (hamqttDevice L device info) (configTopic L d platform device e, payload_of L d device (deviceBlockFor L device info) e platform)
     \<lparr>heKey = featureKey (hlLower L) e, hePlatform = platform, heDescription = description_for L d e platform, heBinds = bs\<rparr>"
proof -
  have "agrees (topic_payload L e platform device (topicsFor d device e) (deviceBlockFor L device info))
    (payload_of L d device (deviceBlockFor L device info) e platform) (description_for L d e platform)"
    by (rule agrees_description)
  moreover from this have "payload_of L d device (deviceBlockFor L device info) e platform ''unique_id''
      = Some (VStr (dkPrefix (deviceBlockFor L device info) @ ''_'' @ featureKey (hlLower L) e))"
    using unique_id_not_core by (simp add: agrees_def same_rest_def topic_unique_id)
  ultimately show ?thesis
    by (simp add: same_config_def configTopic_def agrees_def deviceBlockFor_def hamqttDevice_def Let_def)
qed

lemma same_entity_kept:
  "list_all2 (same_config L d device (hamqttDevice L device info))
     (List.map_filter (publish_entity L d device (deviceBlockFor L device info)) es)
     (List.map_filter (\<lambda>r. case r of Inr x \<Rightarrow> Some x | Inl _ \<Rightarrow> None)
        (List.map_filter (model_entity L d haID (hamqttDevice L device info)) es))"
proof (induction es)
  case Nil
  then show ?case by (simp add: List.map_filter_simps)
next
  case (Cons e es)
  show ?case
  proof (cases "excluded d e \<or> classify e = None")
    case True
    then have "publish_entity L d device (deviceBlockFor L device info) e = None"
      "model_entity L d haID (hamqttDevice L device info) e = None"
      by (auto simp: publish_entity_def model_entity_def)
    with Cons show ?thesis by (simp add: List.map_filter_simps)
  next
    case False
    then obtain platform where c: "\<not> excluded d e" "classify e = Some platform" by blast
    have "disabledByDefault (payload_of L d device (deviceBlockFor L device info) e platform)
        \<longleftrightarrow> hdEnabled (description_for L d e platform) = Some False"
      using disabledByDefault_agrees [OF agrees_description] .
    with c Cons same_entity_config show ?thesis
      by (simp add: List.map_filter_simps publish_entity_def model_entity_def Let_def)
  qed
qed

lemma same_control_config:
  "list_all2 (same_config L d device (hamqttDevice L device info))
     (publishProgramControls L d device es (deviceBlockFor L device info))
     (hamqttProgramControls L d haID (hamqttDevice L device info) es)"
proof -
  have "same_config L d device (hamqttDevice L device info)
     (dvBaseTopic d @ ''/button/'' @ Slug (hlLower L) device @ ''/'' @ key @ ''/config'',
      sanitizeForPlatform L platformButton
        ((basePayload L platformButton device key name t (deviceBlockFor L device info))
          (''command_topic'' \<mapsto> c, ''payload_press'' \<mapsto> VStr controlPressPayload)))
     \<lparr>heKey = key, hePlatform = platformButton,
      heDescription = sanitizeDescriptionForPlatform L platformButton (control_description name), heBinds = bs\<rparr>"
    for key name t c bs
  proof -
    let ?b = "basePayload L platformButton device key name t (deviceBlockFor L device info)"
    have "''command_topic'' \<notin> set core_keys" by (simp add: core_keys_def)
    then have "agrees (?b(''command_topic'' \<mapsto> c)) (?b(''command_topic'' \<mapsto> c)) (blank_description name)"
      by (intro agrees_other agrees_base)
    then have "agrees (?b(''command_topic'' \<mapsto> c)) (?b(''command_topic'' \<mapsto> c, ''payload_press'' \<mapsto> VStr controlPressPayload))
        (control_description name)"
      using agrees_extra(2) [of _ _ "blank_description name" controlPressPayload]
      by (simp add: blank_description_def control_description_def)
    then have a: "agrees (?b(''command_topic'' \<mapsto> c))
        (sanitizeForPlatform L platformButton (?b(''command_topic'' \<mapsto> c, ''payload_press'' \<mapsto> VStr controlPressPayload)))
        (sanitizeDescriptionForPlatform L platformButton (control_description name))"
      by (rule agrees_sanitize)
    moreover from this have "sanitizeForPlatform L platformButton (?b(''command_topic'' \<mapsto> c, ''payload_press'' \<mapsto> VStr controlPressPayload)) ''unique_id''
        = Some (VStr (dkPrefix (deviceBlockFor L device info) @ ''_'' @ key))"
      using unique_id_not_core by (simp add: agrees_def same_rest_def base_unique_id)
    ultimately show ?thesis
      by (simp add: same_config_def agrees_def platformButton_def deviceBlockFor_def hamqttDevice_def Let_def)
  qed
  then show ?thesis
    by (auto simp: publishProgramControls_def hamqttProgramControls_def Let_def list_all2_map1 list_all2_map2
        intro!: list_all2_refl)
qed

text \<open>
  C26. The two renderings agree: for every appliance the configurations \<open>PublishDevice\<close> hands out and the
  entities of the model that becomes the device document correspond one to one and in order, with the
  same topic, the same unique id, and the same value (or absence) of every key a description decides.
\<close>

theorem renderings_agree:
  "list_all2 (same_config L d device (fst (hamqttModel L d device haID info es)))
     (PublishDevice L d device info es) (fst (snd (hamqttModel L d device haID info es)))"
  using same_entity_kept [of L d device info es haID] same_control_config [of L d device info es haID]
  by (simp add: PublishDevice_def hamqttModel_def Let_def list_all2_appendI)

end
