(* ===== verification/Hass_Valid.thy ===== *)
theory Hass_Valid
  imports Hass_Model
begin

text \<open>
  What Home Assistant requires of an entity, and the proof that every entity of an appliance's model
  meets it, whatever the appliance describes and the operator's catalogue says.

  The requirements are Home Assistant's, stated here with its literals and not with the guards of the code: the
  names of platforms, categories and the enumeration class, the smallest step, the default range of a number.
  Its tables are the record \<open>ha_rules\<close>: which classes a platform declares, and which units and state classes go
  with a class of a sensor. The daemon's copy of a table may have failed to load; one that was loaded is
  the table (\<open>copied_from\<close>).
\<close>

section \<open>What Home Assistant accepts\<close>

record ha_rules =
  haDeclares :: "string \<Rightarrow> string \<Rightarrow> bool"
  haSensor :: sensor_relations

definition copied_from :: "ha_rules \<Rightarrow> ha_catalog \<Rightarrow> bool" where
  "copied_from R H \<longleftrightarrow>
     (case hcClasses H of Some t \<Rightarrow> t = haDeclares R | None \<Rightarrow> True)
   \<and> (case hcRelations H of Some t \<Rightarrow> t = haSensor R | None \<Rightarrow> True)"

text \<open>The bounds: finite, in order after Home Assistant's defaults, and a step of at least a thousandth.\<close>

definition range_end :: "rat \<Rightarrow> f64 option \<Rightarrow> rat option" where
  "range_end dflt v = (case v of None \<Rightarrow> Some dflt | Some (Fin q) \<Rightarrow> Some q | Some _ \<Rightarrow> None)"

definition bounds_valid :: "ha_description \<Rightarrow> bool" where
  "bounds_valid x \<longleftrightarrow>
     (case (range_end 0 (hdMin x), range_end 100 (hdMax x)) of (Some lo, Some hi) \<Rightarrow> lo \<le> hi | _ \<Rightarrow> False)
   \<and> (case hdStep x of None \<Rightarrow> True | Some (Fin q) \<Rightarrow> 1 / 1000 \<le> q | Some _ \<Rightarrow> False)"

definition category_valid :: "string \<Rightarrow> string \<Rightarrow> bool" where
  "category_valid platform cat \<longleftrightarrow> cat = [] \<or> cat = ''diagnostic''
     \<or> cat = ''config'' \<and> platform \<notin> {''sensor'', ''binary_sensor''}"

text \<open>A device class of a sensor with its unit and state class, as the tables combine them.\<close>

definition combination_valid :: "sensor_relations \<Rightarrow> string \<Rightarrow> string \<Rightarrow> string \<Rightarrow> bool" where
  "combination_valid t dc unit sc \<longleftrightarrow>
     (if srNumeric t dc
      then (case srUnits t dc of Some us \<Rightarrow> unit = [] \<or> unit \<in> set us | None \<Rightarrow> True)
         \<and> (case srStateClasses t dc of Some al \<Rightarrow> sc = [] \<or> sc \<in> set al | None \<Rightarrow> True)
      else unit = [] \<and> sc = [])"

definition sensor_valid :: "ha_rules \<Rightarrow> ha_description \<Rightarrow> bool" where
  "sensor_valid R x \<longleftrightarrow>
     (if hdDeviceClass x = ''enum'' then hdOptions x \<noteq> None \<and> hdUnit x = [] \<and> hdStateClass x = []
      else hdOptions x = None \<and> (hdDeviceClass x = []
        \<or> combination_valid (haSensor R) (hdDeviceClass x) (hdUnit x) (hdStateClass x)))"

definition classes_valid :: "ha_rules \<Rightarrow> string \<Rightarrow> ha_description \<Rightarrow> bool" where
  "classes_valid R platform x \<longleftrightarrow>
     (hdDeviceClass x = [] \<or> haDeclares R platform (hdDeviceClass x))
   \<and> category_valid platform (hdCategory x)
   \<and> (hdUnit x = [] \<or> platform = ''sensor'' \<or> platform = ''number'')
   \<and> (hdStateClass x = [] \<or> platform = ''sensor'')
   \<and> (if platform = ''sensor'' then sensor_valid R x else True)"

definition choices_valid :: "string \<Rightarrow> ha_description \<Rightarrow> bool" where
  "choices_valid platform x \<longleftrightarrow> platform \<noteq> ''select''
     \<or> (case hdOptions x of Some (cs, ls) \<Rightarrow> cs \<noteq> [] | None \<Rightarrow> False)"

definition ha_valid :: "ha_rules \<Rightarrow> string \<Rightarrow> ha_description \<Rightarrow> bool" where
  "ha_valid R platform x \<longleftrightarrow> classes_valid R platform x \<and> choices_valid platform x \<and> bounds_valid x"

section \<open>The passes\<close>

lemma renderable_valid: "category_valid platform (renderableCategory platform cat)"
  by (simp add: renderableCategory_def entityCategoryAllowed_def category_valid_def categoryConfig_def
      categoryDiagnostic_def platform_defs)

lemma declared_class:
  "copied_from R H \<Longrightarrow> deviceClassAllowed H platform dc \<Longrightarrow> haDeclares R platform dc"
  by (simp add: copied_from_def deviceClassAllowed_def split: option.splits)

lemma reconcile_valid:
  assumes "copied_from R H" and "reconcileSensorClassesIn (hcRelations H) dc unit sc = (dc', unit', sc')" and "dc' \<noteq> []"
  shows "dc' = dc \<and> combination_valid (haSensor R) dc' unit' sc'"
  using assms
  by (auto simp: reconcileSensorClassesIn_def combination_valid_def copied_from_def split: if_splits option.splits)

lemma sanitize_fields:
  "hdMin (sanitizeDescriptionForPlatform L platform x) = hdMin x"
  "hdMax (sanitizeDescriptionForPlatform L platform x) = hdMax x"
  "hdStep (sanitizeDescriptionForPlatform L platform x) = hdStep x"
  "platform \<noteq> platformSensor \<Longrightarrow> hdOptions (sanitizeDescriptionForPlatform L platform x) = hdOptions x"
  by (auto simp: sanitizeDescriptionForPlatform_def Let_def split: prod.split)

lemma sanitize_classes:
  assumes "copied_from R (hlHA L)"
  shows "classes_valid R platform (sanitizeDescriptionForPlatform L platform x)"
proof -
  let ?H = "hlHA L"
  define d1 where "d1 = (if hdDeviceClass x \<noteq> [] \<and> \<not> deviceClassAllowed ?H platform (hdDeviceClass x)
                then x\<lparr>hdDeviceClass := []\<rparr> else x)"
  define d2 where "d2 = d1\<lparr>hdCategory := renderableCategory platform (hdCategory d1)\<rparr>"
  define d3 where "d3 = (if platform \<noteq> platformSensor \<and> platform \<noteq> platformNumber then d2\<lparr>hdUnit := []\<rparr> else d2)"
  have dc: "hdDeviceClass d3 = [] \<or> haDeclares R platform (hdDeviceClass d3)"
    using declared_class [OF assms] by (auto simp: d3_def d2_def d1_def)
  have cat: "category_valid platform (hdCategory d3)"
    by (simp add: d3_def d2_def renderable_valid)
  have un: "hdUnit d3 = [] \<or> platform = ''sensor'' \<or> platform = ''number''" by (simp add: d3_def platform_defs)
  obtain dc' un' sc' where r: "reconcileSensorClassesIn (hcRelations ?H) (hdDeviceClass d3) (hdUnit d3) (hdStateClass d3)
      = (dc', un', sc')" by (metis prod_cases3)
  have s: "sanitizeDescriptionForPlatform L platform x =
     (if platform \<noteq> platformSensor then d3\<lparr>hdStateClass := []\<rparr>
      else if hdDeviceClass d3 = deviceClassEnum then
        (if hdOptions d3 = None then d3\<lparr>hdDeviceClass := []\<rparr> else d3\<lparr>hdUnit := [], hdStateClass := []\<rparr>)
      else d3\<lparr>hdOptions := None, hdDeviceClass := dc', hdUnit := un', hdStateClass := sc'\<rparr>)"
    unfolding sanitizeDescriptionForPlatform_def d3_def [symmetric] d2_def [symmetric] d1_def [symmetric] Let_def
    using r by simp
  consider "platform \<noteq> ''sensor''" | "platform = ''sensor''" "hdDeviceClass d3 = ''enum''"
    | "platform = ''sensor''" "hdDeviceClass d3 \<noteq> ''enum''" by blast
  then show ?thesis
  proof cases
    case 1
    with dc cat un show ?thesis unfolding s by (simp add: classes_valid_def platform_defs)
  next
    case 2
    with dc cat show ?thesis unfolding s
      by (auto simp: classes_valid_def sensor_valid_def platform_defs deviceClassEnum_def)
  next
    case 3
    have "dc' = [] \<or> dc' = hdDeviceClass d3 \<and> combination_valid (haSensor R) dc' un' sc'"
      using reconcile_valid [OF assms r] by blast
    with 3 dc cat show ?thesis unfolding s
      by (auto simp: classes_valid_def sensor_valid_def platform_defs deviceClassEnum_def)
  qed
qed

lemma numberBounds_valid:
  assumes "numberBounds b = (lo, hi, st)" and "hdMin x = lo" and "hdMax x = hi" and "hdStep x = st"
  shows "bounds_valid x"
proof -
  have fin: "\<exists>q. f = Fin q" if "finite_f64 f" for f using that by (cases f) simp_all
  have least: "(1 :: rat) / 1000 \<le> 1152921504606847 / 1152921504606846976" by simp
  have step: "1 / 1000 \<le> q" if "\<not> f64_less (Fin q) numberMinStep" for q
  proof -
    have "1152921504606847 / 1152921504606846976 \<le> q" using that by (simp only: numberMinStep_def f64_less.simps not_less)
    with least show ?thesis by (rule order_trans)
  qed
  let ?lo = "if bdHasMin b \<and> finite_f64 (bdMin b) then Some (bdMin b) else None"
  let ?hi = "if bdHasMax b \<and> finite_f64 (bdMax b) then Some (bdMax b) else None"
  have "\<exists>q. range_end dflt (if c \<and> finite_f64 f then Some f else None) = Some q
      \<and> (case if c \<and> finite_f64 f then Some f else None of Some m \<Rightarrow> m | None \<Rightarrow> Fin dflt) = Fin q" for dflt c f
    by (cases f) (auto simp: range_end_def)
  then obtain l h where lh: "range_end 0 ?lo = Some l" "range_end 100 ?hi = Some h"
    "(case ?lo of Some m \<Rightarrow> m | None \<Rightarrow> numberDefaultMin) = Fin l" "(case ?hi of Some m \<Rightarrow> m | None \<Rightarrow> numberDefaultMax) = Fin h"
    unfolding numberDefaultMin_def numberDefaultMax_def by metis
  have nb: "(if h < l then (None, None) else (?lo, ?hi)) = (lo, hi)"
    "st = (if bdHasStep b \<and> finite_f64 (bdStep b) \<and> \<not> f64_less (bdStep b) numberMinStep then Some (bdStep b) else None)"
    using assms(1) lh(3,4) by (auto simp: numberBounds_def Let_def split: if_splits)
  have "case (range_end 0 lo, range_end 100 hi) of (Some l, Some h) \<Rightarrow> l \<le> h | _ \<Rightarrow> False"
  proof (cases "h < l")
    case True
    with nb(1) show ?thesis by (auto simp: range_end_def)
  next
    case False
    with nb(1) lh(1,2) show ?thesis by auto
  qed
  moreover have "case st of None \<Rightarrow> True | Some (Fin q) \<Rightarrow> 1 / 1000 \<le> q | Some _ \<Rightarrow> False"
  proof (cases "bdHasStep b \<and> finite_f64 (bdStep b) \<and> \<not> f64_less (bdStep b) numberMinStep")
    case True
    then obtain q where "bdStep b = Fin q" using fin by blast
    with True nb(2) step show ?thesis by simp
  next
    case False
    with nb(2) show ?thesis by simp
  qed
  ultimately show ?thesis using assms(2-4) by (simp add: bounds_valid_def)
qed

lemma blank_bounds_valid: "hdMin x = None \<Longrightarrow> hdMax x = None \<Longrightarrow> hdStep x = None \<Longrightarrow> bounds_valid x"
  by (simp add: bounds_valid_def range_end_def)

lemma describe_bounds: "bounds_valid (describe e platform)"
proof -
  obtain dc un where cu: "deviceClassAndUnit e = (dc, un)" by fastforce
  obtain lo hi st where nb: "numberBounds (Bounds e) = (lo, hi, st)" by (metis prod_cases3)
  show ?thesis
  proof (cases "platform = platformNumber")
    case True
    then show ?thesis
      by (intro numberBounds_valid [OF nb]) (simp_all add: describe_def cu nb Let_def platform_defs)
  next
    case False
    then show ?thesis
      by (intro blank_bounds_valid) (simp_all add: describe_def cu Let_def)
  qed
qed

text \<open>The passes between the description and the last check leave the bounds and the choices.\<close>

lemma enrich_fields:
  "hdMin (enrichDescription L d e platform x) = hdMin x"
  "hdMax (enrichDescription L d e platform x) = hdMax x"
  "hdStep (enrichDescription L d e platform x) = hdStep x"
  "hdOptions (enrichDescription L d e platform x) = hdOptions x"
  by (simp_all add: enrichDescription_def Let_def
      option.case_distrib [of hdMin] option.case_distrib [of hdMax] option.case_distrib [of hdStep]
      option.case_distrib [of hdOptions] if_distrib [of hdMin] if_distrib [of hdMax] if_distrib [of hdStep]
      if_distrib [of hdOptions] option.case_eq_if)

lemma localize_fields:
  "hdMin (localizeDescriptionOptions L d x) = hdMin x"
  "hdMax (localizeDescriptionOptions L d x) = hdMax x"
  "hdStep (localizeDescriptionOptions L d x) = hdStep x"
  by (simp_all add: localizeDescriptionOptions_def Let_def split: option.split)

lemma sort_key_Nil_iff: "sort_key f xs = [] \<longleftrightarrow> xs = []"
  by (metis length_0_conv length_sort)

lemma localize_choices: "choices_valid platform x \<Longrightarrow> choices_valid platform (localizeDescriptionOptions L d x)"
  by (cases "hdOptions x")
    (auto simp: localizeDescriptionOptions_def choices_valid_def Let_def sort_key_Nil_iff)

lemma text_fields:
  "hdMin (text_description L e platform x) = hdMin x"
  "hdMax (text_description L e platform x) = hdMax x"
  "hdStep (text_description L e platform x) = hdStep x"
  "hdOptions (text_description L e platform x) = hdOptions x"
  by (simp_all add: text_description_def)

lemma classify_select: "classify e = Some platformSelect \<Longrightarrow> IsEnum (enDesc e)"
  by (cases "eKind (enDesc e)"; cases "IsEnum (enDesc e)"; cases "eProtocolType (enDesc e)")
    (simp_all add: classify_def Let_def platform_defs split: if_split_asm)

lemma enumOptions_ne: "IsEnum (enDesc e) \<Longrightarrow> enumOptions e \<noteq> []"
  by (simp add: enumOptions_def sortStrings_sort IsEnum_def sort_key_Nil_iff)

lemma describe_choices:
  assumes "classify e = Some platform"
  shows "choices_valid platform (describe e platform)"
proof (cases "platform = platformSelect")
  case True
  obtain dc un where cu: "deviceClassAndUnit e = (dc, un)" by fastforce
  have "enumOptions e \<noteq> []" using classify_select assms True enumOptions_ne by blast
  with True show ?thesis by (simp add: choices_valid_def describe_def cu Let_def platform_defs)
next
  case False
  then show ?thesis by (simp add: choices_valid_def platform_defs)
qed

lemma choices_options: "hdOptions x = hdOptions y \<Longrightarrow> choices_valid platform x \<longleftrightarrow> choices_valid platform y"
  by (simp add: choices_valid_def)

lemma bounds_fields:
  "hdMin x = hdMin y \<Longrightarrow> hdMax x = hdMax y \<Longrightarrow> hdStep x = hdStep y \<Longrightarrow> bounds_valid x \<longleftrightarrow> bounds_valid y"
  by (simp add: bounds_valid_def)

lemma description_valid:
  assumes "copied_from R (hlHA L)" and "classify e = Some platform"
  shows "ha_valid R platform (description_for L d e platform)"
proof -
  let ?x1 = "enrichDescription L d e platform (describe e platform)"
  let ?x3 = "text_description L e platform (localizeDescriptionOptions L d ?x1)"
  have "choices_valid platform ?x1"
    using describe_choices [OF assms(2)] choices_options enrich_fields(4) by metis
  then have c3: "choices_valid platform ?x3"
    using localize_choices choices_options text_fields(4) by metis
  have "choices_valid platform (sanitizeDescriptionForPlatform L platform ?x3)"
  proof (cases "platform = platformSensor")
    case True
    then show ?thesis by (simp add: choices_valid_def platform_defs)
  next
    case False
    then show ?thesis using c3 choices_options sanitize_fields(4) by metis
  qed
  moreover have "bounds_valid (sanitizeDescriptionForPlatform L platform ?x3)"
    using describe_bounds [of e platform]
    by (simp add: bounds_valid_def sanitize_fields text_fields localize_fields enrich_fields)
  ultimately show ?thesis
    using sanitize_classes [OF assms(1)] by (simp add: ha_valid_def description_for_def)
qed

section \<open>The model\<close>

lemma control_valid:
  "copied_from R (hlHA L) \<Longrightarrow> ha_valid R platformButton (sanitizeDescriptionForPlatform L platformButton (control_description name))"
proof -
  have "choices_valid platformButton y" for y by (simp add: choices_valid_def platform_defs)
  moreover have "bounds_valid (sanitizeDescriptionForPlatform L platformButton (control_description name))"
    by (rule blank_bounds_valid) (simp_all add: sanitize_fields control_description_def)
  moreover assume "copied_from R (hlHA L)"
  ultimately show ?thesis using sanitize_classes by (simp add: ha_valid_def)
qed

lemma list_all_map_filter: "(\<And>x y. f x = Some y \<Longrightarrow> P y) \<Longrightarrow> list_all P (List.map_filter f xs)"
  by (induction xs) (auto simp: List.map_filter_simps split: option.split)

text \<open>
  C27. Every entity of an appliance's model is one Home Assistant accepts: its device class is one its platform
  declares in Home Assistant's table, its category is none, diagnostic, or, on a platform that is not read-only,
  config; a sensor's class, unit and state class go together, a select has choices, and the bounds of a number
  are finite, in order after the defaults 0 and 100, with a step of at least a thousandth. This holds for
  whatever the appliance described, whatever the operator's catalogue overrides, and also when the daemon's copy
  of a table failed to load: then no class is claimed that the missing table would have to allow.
\<close>

theorem model_accepted:
  assumes "copied_from R (hlHA L)"
  shows "list_all (\<lambda>x. ha_valid R (hePlatform x) (heDescription x)) (fst (snd (hamqttModel L d device haID info es)))"
proof -
  have "ha_valid R (hePlatform x) (heDescription x)"
    if "model_entity L d haID dev e = Some (Inr x)" for dev e x
    using that description_valid [OF assms]
    by (auto simp: model_entity_def Let_def split: if_splits option.splits)
  then have "list_all (\<lambda>x. ha_valid R (hePlatform x) (heDescription x))
     (List.map_filter (\<lambda>r. case r of Inr x \<Rightarrow> Some x | Inl _ \<Rightarrow> None) (List.map_filter (model_entity L d haID dev) es))" for dev
    by (induction es) (auto simp: List.map_filter_simps split: option.split sum.split)
  moreover have "list_all (\<lambda>x. ha_valid R (hePlatform x) (heDescription x)) (hamqttProgramControls L d haID dev es)" for dev
    by (auto simp: hamqttProgramControls_def program_controls_def control_valid [OF assms])
  ultimately show ?thesis by (simp add: hamqttModel_def Let_def)
qed

text \<open>Home Assistant's tables in part, and a daemon whose copy of the relations failed to load.\<close>

definition few_rules :: ha_rules where
  "few_rules = \<lparr>haDeclares = (\<lambda>p dc. (p, dc) \<in> {(''sensor'', ''temperature''), (''sensor'', ''enum'')}),
     haSensor = \<lparr>srStateClasses = (\<lambda>_. None), srUnits = (\<lambda>_. None), srNumeric = (\<lambda>dc. dc = ''temperature'')\<rparr>\<rparr>"

definition half_lib :: hass_lib where
  "half_lib = \<lparr>hlLower = (\<lambda>s. s), hlHA = \<lparr>hcClasses = Some (haDeclares few_rules), hcRelations = None\<rparr>, hlLabels = []\<rparr>"

definition half_disc :: hass_discovery where
  "half_disc = \<lparr>dvBaseTopic = ''homeassistant'', dvRootTopic = ''homeconnect'', dvInst = ''homeconnect'', dvLang = ''en'',
     dvCurated = False, dvEnrich = None\<rparr>"

lemma model_accepted_witness:
  "list_all (\<lambda>x. ha_valid few_rules (hePlatform x) (heDescription x))
     (fst (snd (hamqttModel half_lib half_disc ''oven'' ''010203'' info0 [power_state])))
   \<and> fst (snd (hamqttModel half_lib half_disc ''oven'' ''010203'' info0 [power_state])) \<noteq> []"
proof
  have "copied_from few_rules (hlHA half_lib)" by (simp add: copied_from_def half_lib_def)
  then show "list_all (\<lambda>x. ha_valid few_rules (hePlatform x) (heDescription x))
      (fst (snd (hamqttModel half_lib half_disc ''oven'' ''010203'' info0 [power_state])))"
    by (rule model_accepted)
  show "fst (snd (hamqttModel half_lib half_disc ''oven'' ''010203'' info0 [power_state])) \<noteq> []" by code_simp
qed

end
