(* ===== verification/Hass_Bundle.thy ===== *)
theory Hass_Bundle
  imports Hass_Model "HOL-Library.AList"
begin

text \<open>
  The device documents of \<^verbatim>\<open>internal/hass/discovery.go\<close> and \<^verbatim>\<open>internal/hass/tombstone.go\<close>: how a document is
  rendered, completed with removals, checked and published, and which retained configurations are this
  instance's own.

  Rendering, the schema check, the removal of components and the form of the configuration topics are
  \<^verbatim>\<open>go-hamqtt\<close>'s; they are the record \<open>discovery_lib\<close>. A map of components is an association list, and a nil
  map and an empty one are not told apart by any reader. Decoding JSON is a parameter where it occurs.
\<close>

section \<open>The discovery publisher\<close>

definition New_discovery :: "topic_lib \<Rightarrow> string \<Rightarrow> string \<Rightarrow> string \<Rightarrow> bool \<Rightarrow> hass_discovery" where
  "New_discovery T baseTopic rootTopic lang curated =
     \<lparr>dvBaseTopic = trim_right_char (CHR ''/'') baseTopic, dvRootTopic = trim_right_char (CHR ''/'') rootTopic,
      dvInst = (case layout_New T rootTopic of Some inst \<Rightarrow> inst | None \<Rightarrow> []),
      dvLang = lang, dvCurated = curated, dvEnrich = None\<rparr>"

definition SetEnricher :: "feature_catalog \<Rightarrow> hass_discovery \<Rightarrow> hass_discovery" where
  "SetEnricher e d = d\<lparr>dvEnrich := Some e\<rparr>"

section \<open>Documents\<close>

record component =
  cpPlatform :: string
  cpUniqueID :: string
  cpBody :: string

type_synonym components = "(string \<times> component) list"

record ha_bundle =
  buNodeID :: string
  buComponents :: components

record config_topic =
  ctBundle :: bool
  ctPlatform :: string
  ctNodeID :: string
  ctObjectID :: string

text \<open>The outcome of the schema check: its findings may be blocking or advisory, or it fails otherwise.\<close>

datatype validation = Clean | Findings bool "string list" | Refused

record discovery_lib =
  dbRender :: "hass_discovery \<Rightarrow> ha_device \<Rightarrow> ha_entity list \<Rightarrow> ha_bundle option"
  dbValidate :: "ha_bundle \<Rightarrow> validation"
  dbRemove :: "components \<Rightarrow> string list \<Rightarrow> ha_bundle \<Rightarrow> ha_bundle"
  dbBundleTopic :: "string \<Rightarrow> string \<Rightarrow> string"
  dbEntityTopic :: "string \<Rightarrow> string \<Rightarrow> string \<Rightarrow> string \<Rightarrow> string"
  dbParseTopic :: "string \<Rightarrow> string \<Rightarrow> config_topic option"

text \<open>What is documented of \<^verbatim>\<open>RemoveComponents\<close>: the given keys become entries with a platform and nothing else.\<close>

definition tombstone :: "component \<Rightarrow> component" where
  "tombstone c = \<lparr>cpPlatform = cpPlatform c, cpUniqueID = [], cpBody = []\<rparr>"

definition remove_ok :: "discovery_lib \<Rightarrow> bool" where
  "remove_ok B \<longleftrightarrow> (\<forall>prior keys b k.
     map_of (buComponents (dbRemove B prior keys b)) k =
       (if k \<in> set keys \<and> map_of prior k \<noteq> None then map_option tombstone (map_of prior k)
        else map_of (buComponents b) k)
   \<and> buNodeID (dbRemove B prior keys b) = buNodeID b)"

definition LiveComponents :: "ha_bundle \<Rightarrow> components" where
  "LiveComponents b = filter (\<lambda>(k, c). cpPlatform c \<noteq> [] \<and> cpUniqueID c \<noteq> []) (AList.clearjunk (buComponents b))"

definition ApplyTombstones :: "discovery_lib \<Rightarrow> components \<Rightarrow> ha_bundle \<Rightarrow> string list \<times> ha_bundle" where
  "ApplyTombstones B prior b =
     (let gone = sort (filter (\<lambda>k. map_of (buComponents b) k = None) (remdups (List.map fst prior))) in
      if gone = [] then ([], b) else (gone, dbRemove B prior gone b))"

section \<open>Findings\<close>

text \<open>\<^verbatim>\<open>strings.Cut(issue, ": ")\<close>.\<close>

fun cut_colon :: "string \<Rightarrow> (string \<times> string) option" where
  "cut_colon (a # b # s) =
     (if a = CHR '':'' \<and> b = CHR '' '' then Some ([], s)
      else (case cut_colon (b # s) of Some (x, y) \<Rightarrow> Some (a # x, y) | None \<Rightarrow> None))"
| "cut_colon s = None"

text \<open>The components the findings name, each with its findings; \<open>None\<close> when one names no component.\<close>

fun invalid_loop :: "ha_bundle \<Rightarrow> string list \<Rightarrow> (string \<times> string list) list \<Rightarrow> (string \<times> string list) list option" where
  "invalid_loop b [] out = Some out"
| "invalid_loop b (issue # issues) out =
     (case cut_colon issue of
        None \<Rightarrow> None
      | Some (key, _) \<Rightarrow>
          if map_of (buComponents b) key = None then None
          else invalid_loop b issues
            (AList.update key ((case map_of out key of Some is \<Rightarrow> is | None \<Rightarrow> []) @ [issue]) out))"

definition invalidComponents :: "ha_bundle \<Rightarrow> string list \<Rightarrow> (string \<times> string list) list option" where
  "invalidComponents b issues = (case invalid_loop b issues [] of
      Some [] \<Rightarrow> None | r \<Rightarrow> r)"

definition publishedPlatforms :: "string list" where
  "publishedPlatforms = [platformSensor, platformBinarySensor, platformSwitch, platformSelect, platformNumber, platformButton]"

definition withhold_one :: "discovery_lib \<Rightarrow> hass_discovery \<Rightarrow> string \<Rightarrow> string list \<times> ha_bundle \<Rightarrow> string list \<times> ha_bundle" where
  "withhold_one B d key = (\<lambda>(out, b).
     let comp = map_of (buComponents b) key;
         out' = (case comp of
             Some c \<Rightarrow> if cpUniqueID c \<noteq> [] \<and> cpPlatform c \<in> set publishedPlatforms
               then out @ [dbEntityTopic B (dvBaseTopic d) (cpPlatform c) (buNodeID b) key] else out
           | None \<Rightarrow> out)
     in (out', b\<lparr>buComponents := AList.delete key (buComponents b)\<rparr>))"

definition withholdComponents ::
  "discovery_lib \<Rightarrow> hass_discovery \<Rightarrow> (string \<times> string list) list \<Rightarrow> ha_bundle \<Rightarrow> string list \<times> ha_bundle" where
  "withholdComponents B d bad b = fold (withhold_one B d) (sort (List.map fst bad)) ([], b)"

datatype bundle_error = RenderFailed | EmptyDocument | InvalidDocument | AllRefused | NotSent

definition validateBundle ::
  "discovery_lib \<Rightarrow> hass_discovery \<Rightarrow> ha_bundle \<Rightarrow> (bundle_error + string list) \<times> ha_bundle" where
  "validateBundle B d b =
     (case dbValidate B b of
        Clean \<Rightarrow> (Inr [], b)
      | Refused \<Rightarrow> (Inl InvalidDocument, b)
      | Findings blocking issues \<Rightarrow>
          if \<not> blocking then (Inr [], b)
          else (case invalidComponents b issues of
              None \<Rightarrow> (Inl InvalidDocument, b)
            | Some bad \<Rightarrow>
                (let (withheld, b') = withholdComponents B d bad b in
                 case dbValidate B b' of
                   Refused \<Rightarrow> (Inl InvalidDocument, b')
                 | Clean \<Rightarrow> if LiveComponents b' = [] then (Inl AllRefused, b') else (Inr withheld, b')
                 | Findings blocking' _ \<Rightarrow>
                     if LiveComponents b' = [] then (Inl AllRefused, b')
                     else if blocking' then (Inl InvalidDocument, b')
                     else (Inr withheld, b'))))"

text \<open>
  \<open>deliver\<close> is the client's \<^verbatim>\<open>PublishBundle\<close>: whether the document went out. The outcome comes with what was
  handed to it.
\<close>

definition publishBundle ::
  "discovery_lib \<Rightarrow> hass_discovery \<Rightarrow> (ha_bundle \<Rightarrow> bool) \<Rightarrow> ha_bundle
   \<Rightarrow> (bundle_error + string list) \<times> ha_bundle \<times> ha_bundle option" where
  "publishBundle B d deliver b =
     (if LiveComponents b = [] then (Inl EmptyDocument, b, None)
      else case validateBundle B d b of
        (Inl e, b') \<Rightarrow> (Inl e, b', None)
      | (Inr withheld, b') \<Rightarrow>
          if deliver b' then (Inr withheld, b', Some b') else (Inl NotSent, b', Some b'))"

definition BundleNodeID :: "hass_lib \<Rightarrow> string \<Rightarrow> string" where
  "BundleNodeID L device = Slug (hlLower L) device"

definition BundleTopic :: "discovery_lib \<Rightarrow> hass_lib \<Rightarrow> hass_discovery \<Rightarrow> string \<Rightarrow> string" where
  "BundleTopic B L d device = dbBundleTopic B (dvBaseTopic d) (BundleNodeID L device)"

definition BundleFilter :: "hass_discovery \<Rightarrow> string" where
  "BundleFilter d = dvBaseTopic d @ ''/device/+/config''"

definition BundleNodeIDOf :: "discovery_lib \<Rightarrow> hass_discovery \<Rightarrow> string \<Rightarrow> string option" where
  "BundleNodeIDOf B d topic = (case dbParseTopic B (dvBaseTopic d) topic of
      None \<Rightarrow> None
    | Some t \<Rightarrow> if \<not> ctBundle t \<or> ctNodeID t = [] then None else Some (ctNodeID t))"

definition BundleFor ::
  "discovery_lib \<Rightarrow> hass_lib \<Rightarrow> hass_discovery \<Rightarrow> string \<Rightarrow> string \<Rightarrow> device_info \<Rightarrow> entity list \<Rightarrow> ha_bundle option" where
  "BundleFor B L d device haID info es =
     (let (dev, ents, omitted) = hamqttModel L d device haID info es in dbRender B d dev ents)"

definition PublishDeviceBundle ::
  "discovery_lib \<Rightarrow> hass_lib \<Rightarrow> hass_discovery \<Rightarrow> (ha_bundle \<Rightarrow> bool) \<Rightarrow> string \<Rightarrow> string \<Rightarrow> device_info \<Rightarrow> entity list
   \<Rightarrow> components \<Rightarrow> (bundle_error + string \<times> components \<times> string list) \<times> ha_bundle option" where
  "PublishDeviceBundle B L d deliver device haID info es prior =
     (case BundleFor B L d device haID info es of
        None \<Rightarrow> (Inl RenderFailed, None)
      | Some b \<Rightarrow>
          (let (gone, b1) = ApplyTombstones B prior b in
           case publishBundle B d deliver b1 of
             (Inl e, _, sent) \<Rightarrow> (Inl e, sent)
           | (Inr withheld, b2, sent) \<Rightarrow>
               (Inr (dbBundleTopic B (dvBaseTopic d) (buNodeID b1), LiveComponents b2, withheld), sent)))"

section \<open>Ownership\<close>

text \<open>The predicate over parsed topics the sweep is given: only configurations of these devices.\<close>

definition OwnsConfigTopic :: "hass_lib \<Rightarrow> string list \<Rightarrow> config_topic \<Rightarrow> bool" where
  "OwnsConfigTopic L devices t =
     (if ctBundle t \<or> ctPlatform t = [] \<or> ctNodeID t = [] \<or> ctObjectID t = [] then False
      else if ctPlatform t \<notin> set publishedPlatforms then False
      else ctNodeID t \<in> set (filter (\<lambda>n. n \<noteq> []) (List.map (Slug (hlLower L)) devices)))"

definition ConfigTopicFor :: "discovery_lib \<Rightarrow> hass_discovery \<Rightarrow> config_topic \<Rightarrow> string" where
  "ConfigTopicFor B d t = dbEntityTopic B (dvBaseTopic d) (ctPlatform t) (ctNodeID t) (ctObjectID t)"

record retained_config =
  rcUniqueID :: string
  rcStateTopic :: string
  rcCommandTopic :: string
  rcAvailabilityTopic :: string
  rcAvailability :: "string list"

definition config_topics :: "retained_config \<Rightarrow> string list" where
  "config_topics c = [rcStateTopic c, rcCommandTopic c, rcAvailabilityTopic c] @ rcAvailability c"

definition singleLevel :: "string \<Rightarrow> bool" where
  "singleLevel s \<longleftrightarrow> s \<noteq> [] \<and> CHR ''/'' \<notin> set s"

definition isIdentityAnchor :: "topic_lib \<Rightarrow> hass_discovery \<Rightarrow> string \<Rightarrow> bool" where
  "isIdentityAnchor T d topic =
     (if topic = LegacyBridge (dvRootTopic d) \<or> topic = Connected T (dvInst d) then True
      else case cut_prefix (dvRootTopic d @ ''/'') topic of
        None \<Rightarrow> False
      | Some rel \<Rightarrow>
          (case cut_prefix (functionStatus @ ''/'') rel of
             Some item \<Rightarrow> (case cut_suffix ''/online'' item of Some haID \<Rightarrow> singleLevel haID | None \<Rightarrow> False)
           | None \<Rightarrow> False)
        \<or> (case cut_suffix ''/availability'' rel of None \<Rightarrow> False | Some device \<Rightarrow> singleLevel device))"

fun own_topics :: "topic_lib \<Rightarrow> hass_discovery \<Rightarrow> bool \<Rightarrow> string list \<Rightarrow> bool" where
  "own_topics T d anchored [] = anchored"
| "own_topics T d anchored (topic # topics) =
     (if topic = [] then own_topics T d anchored topics
      else if \<not> prefix (dvRootTopic d @ ''/'') topic then False
      else own_topics T d (anchored \<or> isIdentityAnchor T d topic) topics)"

definition IsOwnConfig :: "topic_lib \<Rightarrow> hass_discovery \<Rightarrow> retained_config option \<Rightarrow> bool" where
  "IsOwnConfig T d cfg = (case cfg of
      None \<Rightarrow> False
    | Some c \<Rightarrow> if \<not> prefix ''homeconnect_'' (rcUniqueID c) then False
        else own_topics T d False (config_topics c))"

text \<open>
  Reading back a retained document: \<open>doc\<close> is the decoded \<^verbatim>\<open>components\<close> member, \<open>None\<close> when it does not parse; each
  component comes with what decoding it as a component and as a configuration gives.
\<close>

definition BundleComponents ::
  "topic_lib \<Rightarrow> hass_discovery \<Rightarrow> (string \<times> component option \<times> retained_config option) list option \<Rightarrow> components" where
  "BundleComponents T d doc = (case doc of
      None \<Rightarrow> []
    | Some comps \<Rightarrow> List.map_filter (\<lambda>(key, comp, raw). case comp of
          None \<Rightarrow> None
        | Some c \<Rightarrow> if cpPlatform c = [] then None
            else if \<not> IsOwnConfig T d raw then None else Some (key, c)) comps)"

section \<open>What a document holds\<close>

lemma map_of_clearjunk_filter:
  "map_of (filter (\<lambda>(k, c). P c) (AList.clearjunk xs)) k =
     (case map_of xs k of Some c \<Rightarrow> if P c then Some c else None | None \<Rightarrow> None)"
proof -
  have "distinct (List.map fst ys) \<Longrightarrow> map_of (filter (\<lambda>(k, c). P c) ys) k =
     (case map_of ys k of Some c \<Rightarrow> if P c then Some c else None | None \<Rightarrow> None)" for ys
    by (induction ys) (auto simp: map_of_eq_None_iff image_iff split: option.splits)
  from this [OF distinct_clearjunk] show ?thesis by (simp add: map_of_clearjunk)
qed

text \<open>The components alive in a document.\<close>

definition alive :: "component \<Rightarrow> bool" where
  "alive c \<longleftrightarrow> cpPlatform c \<noteq> [] \<and> cpUniqueID c \<noteq> []"

lemma map_of_LiveComponents:
  "map_of (LiveComponents b) k = (case map_of (buComponents b) k of Some c \<Rightarrow> if alive c then Some c else None | None \<Rightarrow> None)"
  unfolding LiveComponents_def alive_def by (rule map_of_clearjunk_filter)

lemma tombstone_not_alive [simp]: "\<not> alive (tombstone c)"
  by (simp add: alive_def tombstone_def)

lemma map_of_not_None_fst: "map_of xs k \<noteq> None \<longleftrightarrow> k \<in> fst ` set xs"
  by (simp add: map_of_eq_None_iff)

lemma ApplyTombstones_lookup:
  assumes "remove_ok B" and "ApplyTombstones B prior b = (gone, b')"
  shows "map_of (buComponents b') k =
      (case map_of (buComponents b) k of Some c \<Rightarrow> Some c | None \<Rightarrow> map_option tombstone (map_of prior k))"
    and "buNodeID b' = buNodeID b"
proof -
  let ?g = "sort (filter (\<lambda>k. map_of (buComponents b) k = None) (remdups (List.map fst prior)))"
  have g: "k \<in> set ?g \<longleftrightarrow> map_of (buComponents b) k = None \<and> map_of prior k \<noteq> None" for k
    by (auto simp: map_of_not_None_fst simp del: not_None_eq)
  have r: "map_of (buComponents (dbRemove B prior ?g b)) k =
      (if k \<in> set ?g \<and> map_of prior k \<noteq> None then map_option tombstone (map_of prior k) else map_of (buComponents b) k)"
    and n: "buNodeID (dbRemove B prior ?g b) = buNodeID b"
    using assms(1) unfolding remove_ok_def by blast+
  show "map_of (buComponents b') k =
      (case map_of (buComponents b) k of Some c \<Rightarrow> Some c | None \<Rightarrow> map_option tombstone (map_of prior k))"
  proof (cases "?g = []")
    case True
    then have "\<not> (map_of (buComponents b) k = None \<and> map_of prior k \<noteq> None)" using g by (metis empty_iff list.set(1))
    moreover have "b' = b" using True assms(2) by (simp add: ApplyTombstones_def Let_def)
    ultimately show ?thesis by (auto split: option.split)
  next
    case False
    then have "b' = dbRemove B prior ?g b" using assms(2) by (auto simp: ApplyTombstones_def Let_def)
    then show ?thesis using r g [of k] by (auto split: option.split)
  qed
  show "buNodeID b' = buNodeID b" using assms(2) n by (auto simp: ApplyTombstones_def Let_def split: if_splits)
qed

text \<open>The per-entity topics of the given components of a document, for those that can have one.\<close>

definition entity_topics_of :: "discovery_lib \<Rightarrow> hass_discovery \<Rightarrow> ha_bundle \<Rightarrow> string set \<Rightarrow> string set" where
  "entity_topics_of B d b ks = (\<Union>k\<in>ks. case map_of (buComponents b) k of
     Some c \<Rightarrow> if cpUniqueID c \<noteq> [] \<and> cpPlatform c \<in> set publishedPlatforms
       then {dbEntityTopic B (dvBaseTopic d) (cpPlatform c) (buNodeID b) k} else {}
   | None \<Rightarrow> {})"

text \<open>Withholding deletes exactly the named components.\<close>

lemma withhold_one_effect:
  assumes "withhold_one B d key (out, b) = (out', b')"
  shows "map_of (buComponents b') = (map_of (buComponents b))(key := None)" and "buNodeID b' = buNodeID b"
    and "set out' = set out \<union> entity_topics_of B d b {key}"
  using assms by (auto simp: withhold_one_def Let_def delete_conv' entity_topics_of_def split: option.splits if_splits)

lemma entity_topics_of_Cons:
  assumes "map_of (buComponents b') = (map_of (buComponents b))(key := None)" and "buNodeID b' = buNodeID b"
  shows "entity_topics_of B d b {key} \<union> entity_topics_of B d b' ks = entity_topics_of B d b (insert key ks)"
proof -
  have "entity_topics_of B d b' ks = entity_topics_of B d b (ks - {key})"
    unfolding entity_topics_of_def assms by (rule set_eqI) (auto split: if_splits)
  then show ?thesis by (auto simp: entity_topics_of_def)
qed

lemma withhold_fold:
  "fold (withhold_one B d) keys (out, b) = (out', b') \<Longrightarrow>
     map_of (buComponents b') = (\<lambda>k. if k \<in> set keys then None else map_of (buComponents b) k)
   \<and> buNodeID b' = buNodeID b \<and> set out' = set out \<union> entity_topics_of B d b (set keys)"
proof (induction keys arbitrary: out b)
  case Nil
  then show ?case by (simp add: entity_topics_of_def)
next
  case (Cons key keys)
  obtain out1 b1 where w: "withhold_one B d key (out, b) = (out1, b1)" by fastforce
  note e = withhold_one_effect [OF w]
  have "map_of (buComponents b') = (\<lambda>k. if k \<in> set keys then None else map_of (buComponents b1) k)
   \<and> buNodeID b' = buNodeID b1 \<and> set out' = set out1 \<union> entity_topics_of B d b1 (set keys)"
    using Cons.prems w by (intro Cons.IH) simp
  then show ?case using e entity_topics_of_Cons [OF e(1,2), of B d "set keys"]
    by (simp add: fun_eq_iff Un_assoc)
qed

text \<open>
  The components the schema check refuses: those named, before the first colon and blank, by one of its findings,
  when the findings are blocking.
\<close>

definition refused_components :: "discovery_lib \<Rightarrow> ha_bundle \<Rightarrow> string set" where
  "refused_components B b = (case dbValidate B b of
     Findings True issues \<Rightarrow> {k. \<exists>issue\<in>set issues. \<exists>text. cut_colon issue = Some (k, text)} | _ \<Rightarrow> {})"

lemma invalid_loop_keys:
  "invalid_loop b issues out = Some bad \<Longrightarrow>
     fst ` set bad = fst ` set out \<union> {k. \<exists>issue\<in>set issues. \<exists>text. cut_colon issue = Some (k, text)}"
proof (induction issues arbitrary: out)
  case (Cons issue issues)
  obtain key x where c: "cut_colon issue = Some (key, x)" using Cons.prems by (auto split: option.splits)
  let ?out = "AList.update key ((case map_of out key of Some is \<Rightarrow> is | None \<Rightarrow> []) @ [issue]) out"
  have "invalid_loop b issues ?out = Some bad" using Cons.prems c by (auto split: if_splits)
  from Cons.IH [OF this] have
    "fst ` set bad = fst ` set ?out \<union> {k. \<exists>issue\<in>set issues. \<exists>text. cut_colon issue = Some (k, text)}" .
  moreover have "fst ` set ?out = insert key (fst ` set out)" by (simp add: dom_update flip: dom_map_of_conv_image_fst)
      (auto simp: update_conv' dom_def)
  ultimately show ?case using c by auto
qed simp

text \<open>The keys taken out of a document on its way to the client are the refused ones.\<close>

lemma validateBundle_keeps:
  assumes "validateBundle B d b = (Inr withheld, b')"
  shows "map_of (buComponents b') = (\<lambda>k. if k \<in> refused_components B b then None else map_of (buComponents b) k)
    \<and> set withheld = entity_topics_of B d b (refused_components B b)"
proof (cases "\<exists>issues. dbValidate B b = Findings True issues")
  case False
  then have "refused_components B b = {}" by (auto simp: refused_components_def split: validation.split bool.split)
  moreover have "withheld = [] \<and> b' = b"
    using assms False by (auto simp: validateBundle_def Let_def split: validation.splits if_splits)
  ultimately show ?thesis by (simp add: entity_topics_of_def)
next
  case True
  then obtain issues where v: "dbValidate B b = Findings True issues" by blast
  obtain bad where i: "invalidComponents b issues = Some bad"
    using assms v by (auto simp: validateBundle_def split: option.splits)
  have w: "withholdComponents B d bad b = (withheld, b')"
    using assms v i by (auto simp: validateBundle_def Let_def split: validation.splits if_splits prod.splits)
  have "invalid_loop b issues [] = Some bad"
    using i by (auto simp: invalidComponents_def split: option.splits list.splits)
  from invalid_loop_keys [OF this] have "fst ` set bad = refused_components B b"
    by (simp add: refused_components_def v)
  with withhold_fold [OF w [unfolded withholdComponents_def]] show ?thesis by simp
qed

definition schema_accepts :: "discovery_lib \<Rightarrow> ha_bundle \<Rightarrow> bool" where
  "schema_accepts B b \<longleftrightarrow> (case dbValidate B b of Clean \<Rightarrow> True | Findings blocking issues \<Rightarrow> \<not> blocking | Refused \<Rightarrow> False)"

text \<open>The document for a rendering and a previous document, less the withheld keys.\<close>

definition document_of :: "ha_bundle \<Rightarrow> components \<Rightarrow> string set \<Rightarrow> string \<Rightarrow> component option" where
  "document_of b prior bad k =
     (if k \<in> bad then None
      else case map_of (buComponents b) k of Some c \<Rightarrow> Some c | None \<Rightarrow> map_option tombstone (map_of prior k))"

lemma validateBundle_accepts:
  assumes "validateBundle B d b = (Inr withheld, b')" and "LiveComponents b \<noteq> []"
  shows "schema_accepts B b' \<and> LiveComponents b' \<noteq> []"
  using assms
  by (auto simp: validateBundle_def schema_accepts_def Let_def split: validation.splits if_splits option.splits prod.splits)

lemma publishBundle_sent:
  assumes "publishBundle B d deliver b = (r, b', Some doc)"
  obtains withheld where "validateBundle B d b = (Inr withheld, doc)" "LiveComponents b \<noteq> []" "b' = doc"
    "r = (if deliver doc then Inr withheld else Inl NotSent)"
  using assms by (auto simp: publishBundle_def split: if_splits prod.splits sum.splits)

lemma entity_topics_tombstones:
  assumes "remove_ok B" and "ApplyTombstones B prior b = (gone, b1)"
  shows "entity_topics_of B d b1 bad = entity_topics_of B d b bad"
  unfolding entity_topics_of_def ApplyTombstones_lookup [OF assms]
  by (rule arg_cong [where f = Union], rule image_cong)
    (auto simp: tombstone_def split: option.splits)

text \<open>What is handed to the client.\<close>

lemma bundle_document:
  assumes "remove_ok B" and "BundleFor B L d device haID info es = Some b"
    and "PublishDeviceBundle B L d deliver device haID info es prior = (r, Some doc)"
    and "offered = snd (ApplyTombstones B prior b)" and "bad = refused_components B offered"
  shows "map_of (buComponents offered) = document_of b prior {}
     \<and> map_of (buComponents doc) = document_of b prior bad
     \<and> schema_accepts B doc \<and> LiveComponents doc \<noteq> []
     \<and> (\<exists>withheld. set withheld = entity_topics_of B d b bad
        \<and> r = (if deliver doc then Inr (dbBundleTopic B (dvBaseTopic d) (buNodeID b), LiveComponents doc, withheld)
               else Inl NotSent))"
proof -
  obtain gone where t: "ApplyTombstones B prior b = (gone, offered)" using assms(4) by (metis prod.collapse)
  obtain q b2 s where pb: "publishBundle B d deliver offered = (q, b2, s)" by (metis prod_cases3)
  have s: "s = Some doc" and r: "r = (case q of Inl e \<Rightarrow> Inl e
      | Inr w \<Rightarrow> Inr (dbBundleTopic B (dvBaseTopic d) (buNodeID offered), LiveComponents b2, w))"
    using assms(2,3) t pb by (auto simp: PublishDeviceBundle_def split: sum.splits)
  from publishBundle_sent [OF pb [unfolded s]] obtain w where
    v: "validateBundle B d offered = (Inr w, doc)" and ne: "LiveComponents offered \<noteq> []" and b2: "b2 = doc"
    and q: "q = (if deliver doc then Inr w else Inl NotSent)" .
  note k = validateBundle_keeps [OF v, folded assms(5)]
  have o: "map_of (buComponents offered) = document_of b prior {}"
    by (rule ext) (simp add: document_of_def ApplyTombstones_lookup(1) [OF assms(1) t])
  have "map_of (buComponents doc) = document_of b prior bad"
    using k o by (auto simp: document_of_def fun_eq_iff)
  moreover have "set w = entity_topics_of B d b bad"
    using k entity_topics_tombstones [OF assms(1) t] by simp
  moreover have "r = (if deliver doc then Inr (dbBundleTopic B (dvBaseTopic d) (buNodeID b), LiveComponents doc, w)
      else Inl NotSent)"
    using r q b2 ApplyTombstones_lookup(2) [OF assms(1) t] by simp
  ultimately show ?thesis using o validateBundle_accepts [OF v ne] by blast
qed

text \<open>
  C29. What is handed to the client is a document the schema check accepts and that has a living
  component. The document offered to the check holds every rendered component as rendered and a removal for every
  component of the previous document that is no longer rendered, and nothing else. What goes out is that
  document without exactly the components the check refused, which are left out and never removed: all of
  them and no other, so nothing is withheld when it refused none. Their topics are what is reported as
  withheld. What is remembered are the living components of the document.
\<close>

theorem document_sent:
  assumes "remove_ok B" and "BundleFor B L d device haID info es = Some b"
    and "PublishDeviceBundle B L d deliver device haID info es prior = (r, Some doc)"
    and "offered = snd (ApplyTombstones B prior b)" and "bad = refused_components B offered"
  shows "map_of (buComponents offered) = document_of b prior {}
     \<and> map_of (buComponents doc) = document_of b prior bad
     \<and> schema_accepts B doc \<and> LiveComponents doc \<noteq> []
     \<and> (\<exists>withheld. set withheld = entity_topics_of B d b bad
        \<and> r = (if deliver doc then Inr (dbBundleTopic B (dvBaseTopic d) (buNodeID b), LiveComponents doc, withheld)
               else Inl NotSent))"
  using assms by (rule bundle_document)

section \<open>Whose configuration it is\<close>

lemma own_topics_iff:
  "own_topics T d b ts \<longleftrightarrow>
     (\<forall>t\<in>set ts. t \<noteq> [] \<longrightarrow> prefix (dvRootTopic d @ ''/'') t)
   \<and> (b \<or> (\<exists>t\<in>set ts. t \<noteq> [] \<and> isIdentityAnchor T d t))"
  by (induction ts arbitrary: b) auto

text \<open>
  The configurations an instance with the root \<open>r\<close> has published, by the release that wrote them: those of the
  present layout, the ones with an availability list of the layout before it, and the ones of the releases
  before that, with a single availability topic. The device name of the old forms is the operator's, whatever
  it contains. A state or command topic may be missing.
\<close>

datatype config_form = PresentForm | ListForm string | FlatForm string

definition old_form_items :: "string \<Rightarrow> string \<Rightarrow> retained_config \<Rightarrow> bool" where
  "old_form_items r device c \<longleftrightarrow> trimRoot r = r
     \<and> (\<exists>name uid. rcStateTopic c \<in> {[], LegacyState (NewLegacyDevice r device) name uid}
         \<and> rcCommandTopic c \<in> {[], LegacyCommand (NewLegacyDevice r device) name uid})"

definition rendered_by :: "topic_lib \<Rightarrow> string \<Rightarrow> config_form \<Rightarrow> retained_config \<Rightarrow> bool" where
  "rendered_by T r form c \<longleftrightarrow> prefix ''homeconnect_'' (rcUniqueID c) \<and>
     (case form of
        PresentForm \<Rightarrow> (\<exists>haID item. shAccepts T r \<and> item \<noteq> []
         \<and> rcStateTopic c \<in> {[], Status T (Device_layout r haID) item}
         \<and> rcCommandTopic c \<in> {[], Set_topic T (Device_layout r haID) item}
         \<and> rcAvailabilityTopic c = [] \<and> rcAvailability c = [Connected T r, Online T (Device_layout r haID)])
      | ListForm device \<Rightarrow> old_form_items r device c
         \<and> rcAvailabilityTopic c = [] \<and> rcAvailability c = [LegacyBridge r, LegacyAvailability (NewLegacyDevice r device)]
      | FlatForm device \<Rightarrow> old_form_items r device c
         \<and> rcAvailability c = [] \<and> rcAvailabilityTopic c = LegacyAvailability (NewLegacyDevice r device))"

lemma butlast2: "xs @ [a, b] = ys @ [x, y] \<longleftrightarrow> xs = ys \<and> a = x \<and> b = y"
  by (metis append.assoc append_Cons append_Nil append_butlast_last_id butlast_append butlast_snoc last_snoc list.inject not_Cons_self2)

definition ends :: "string \<Rightarrow> char \<Rightarrow> char \<Rightarrow> bool" where
  "ends t a b \<longleftrightarrow> (\<exists>s. t = s @ [a, b])"

lemma ends_unique: "ends t a b \<Longrightarrow> ends t x y \<Longrightarrow> a = x \<and> b = y"
  unfolding ends_def by (metis butlast2)

lemma ends_append: "ends t a b \<Longrightarrow> ends (s @ t) a b"
  unfolding ends_def by (metis append.assoc)

lemma ends_Cons: "ends t a b \<Longrightarrow> ends (c # t) a b"
  unfolding ends_def by (metis append_Cons)

lemma ends_words:
  "ends ''/status'' (CHR ''u'') (CHR ''s'')" "ends ''/connected'' (CHR ''e'') (CHR ''d'')"
  "ends ''/online'' (CHR ''n'') (CHR ''e'')" "ends ''/availability'' (CHR ''t'') (CHR ''y'')"
  "ends ''/state'' (CHR ''t'') (CHR ''e'')" "ends ''/set'' (CHR ''e'') (CHR ''t'')"
  unfolding ends_def
  by (rule exI [of _ "''/stat''"], simp) (rule exI [of _ "''/connect''"], simp, rule exI [of _ "''/onli''"], simp,
    rule exI [of _ "''/availabili''"], simp, rule exI [of _ "''/sta''"], simp, rule exI [of _ "''/s''"], simp)

lemma cut_suffix_Some': "cut_suffix p s = Some r \<Longrightarrow> s = r @ p"
  by (auto simp: cut_suffix_def suffix_def split: if_splits)

lemma cut_suffix_append': "cut_suffix p (s @ p) = Some s"
  by (simp add: cut_suffix_def suffix_def)

text \<open>The discovery of an instance whose root is the name \<open>n\<close>.\<close>

definition rooted :: "topic_lib \<Rightarrow> hass_discovery \<Rightarrow> string \<Rightarrow> bool" where
  "rooted T d n \<longleftrightarrow> dvInst d = n \<and> dvRootTopic d = n \<and> shAccepts T n"

lemma rooted_facts:
  assumes "topic_ok T" and "rooted T d n"
  shows "CHR ''/'' \<notin> set n" "n \<noteq> []" "trimRoot n = n" "Connected T n = n @ ''/connected''"
    "LegacyBridge n = n @ ''/status''" "dvInst d = n" "dvRootTopic d = n"
proof -
  show n: "CHR ''/'' \<notin> set n" "n \<noteq> []" "dvInst d = n" "dvRootTopic d = n" "Connected T n = n @ ''/connected''"
    using assms unfolding topic_ok_def rooted_def Connected_def by blast+
  show t: "trimRoot n = n"
    unfolding trimRoot_def using n(1) by (intro trim_right_char_id) (metis last_in_set)
  show "LegacyBridge n = n @ ''/status''" by (simp add: LegacyBridge_def t)
qed

lemma New_rooted:
  assumes "topic_ok T" and "shAccepts T n"
  shows "rooted T (New_discovery T baseTopic n lang curated) n"
proof -
  have "CHR ''/'' \<notin> set n" using assms unfolding topic_ok_def by blast
  then have "trim_right_char (CHR ''/'') n = n" by (intro trim_right_char_id) (metis last_in_set)
  then show ?thesis using assms(2) by (simp add: rooted_def New_discovery_def layout_New_def)
qed

lemma anchor_cases:
  assumes "topic_ok T" and "rooted T d n" and "isIdentityAnchor T d t"
  shows "ends t (CHR ''u'') (CHR ''s'') \<and> t = n @ ''/status'' \<or> ends t (CHR ''e'') (CHR ''d'')
    \<or> ends t (CHR ''n'') (CHR ''e'') \<or> (\<exists>dev. singleLevel dev \<and> t = n @ ''/'' @ dev @ ''/availability'')"
proof -
  note r = rooted_facts [OF assms(1,2)]
  from assms(3) consider "t = n @ ''/status''" | "t = n @ ''/connected''"
    | rel item h where "t = n @ ''/'' @ rel" "rel = functionStatus @ ''/'' @ item" "item = h @ ''/online''"
    | rel dev where "t = n @ ''/'' @ rel" "rel = dev @ ''/availability''" "singleLevel dev"
    by (auto simp: isIdentityAnchor_def r cut_prefix_Some dest!: cut_suffix_Some' split: if_splits option.splits)
  then show ?thesis
  proof cases
    case 1
    then show ?thesis using ends_append [OF ends_words(1)] by simp
  next
    case 2
    then show ?thesis using ends_append [OF ends_words(2)] by simp
  next
    case 3
    then have "ends t (CHR ''n'') (CHR ''e'')"
      using ends_append [OF ends_words(3), of "n @ ''/'' @ functionStatus @ ''/'' @ h"] by simp
    then show ?thesis by simp
  next
    case 4
    then show ?thesis by auto
  qed
qed

lemma two_levels:
  assumes "r @ ''/'' @ device = n @ ''/'' @ dev" and "CHR ''/'' \<notin> set n" and "CHR ''/'' \<notin> set dev"
  shows "r = n"
proof (cases "CHR ''/'' \<in> set r")
  case False
  with assms show ?thesis using prefix_slash_eq [of r n device dev] by simp
next
  case True
  then obtain a b where r: "r = a @ CHR ''/'' # b" "CHR ''/'' \<notin> set a" by (metis split_list_first)
  with assms have "a @ CHR ''/'' # (b @ CHR ''/'' # device) = n @ CHR ''/'' # dev" by simp
  from prefix_slash_eq [OF r(2) assms(2) this] have "CHR ''/'' \<in> set dev" by auto
  with assms(3) show ?thesis by simp
qed

text \<open>Which topics of an old configuration, of whatever root, are anchors of this instance.\<close>

lemma legacy_ends:
  "ends (LegacyBridge r) (CHR ''u'') (CHR ''s'')" "ends (LegacyAvailability L) (CHR ''t'') (CHR ''y'')"
  "ends (LegacyState L name uid) (CHR ''t'') (CHR ''e'')" "ends (LegacyCommand L name uid) (CHR ''e'') (CHR ''t'')"
  unfolding LegacyBridge_def LegacyAvailability_def LegacyState_def LegacyCommand_def
  by (intro ends_append ends_Cons ends_words)+

lemma not_anchor:
  assumes "topic_ok T" and "rooted T d n" and "ends t a b" "(a, b) \<noteq> (CHR ''e'', CHR ''d'')" "(a, b) \<noteq> (CHR ''n'', CHR ''e'')"
    and "t \<noteq> n @ ''/status''" and "\<And>dev. singleLevel dev \<Longrightarrow> t \<noteq> n @ ''/'' @ dev @ ''/availability''"
  shows "\<not> isIdentityAnchor T d t"
  using anchor_cases [OF assms(1,2), of t] assms(3-) ends_unique by blast

lemma availability_ends: "ends (n @ ''/'' @ dev @ ''/availability'') (CHR ''t'') (CHR ''y'')"
  using ends_append [OF ends_words(4), of "n @ ''/'' @ dev"] by simp

lemma legacy_item_not_anchor:
  assumes "topic_ok T" and "rooted T d n"
  shows "\<not> isIdentityAnchor T d (LegacyState L name uid)" and "\<not> isIdentityAnchor T d (LegacyCommand L name uid)"
proof -
  have s: "ends (n @ ''/status'') (CHR ''u'') (CHR ''s'')" by (rule ends_append [OF ends_words(1)])
  show "\<not> isIdentityAnchor T d (LegacyState L name uid)"
    using legacy_ends(3) [of L name uid] ends_unique s availability_ends
    by (intro not_anchor [OF assms legacy_ends(3)]) fastforce+
  show "\<not> isIdentityAnchor T d (LegacyCommand L name uid)"
    using legacy_ends(4) [of L name uid] ends_unique s availability_ends
    by (intro not_anchor [OF assms legacy_ends(4)]) fastforce+
qed

lemma legacy_bridge_anchor:
  assumes "topic_ok T" and "rooted T d n" and "trimRoot r = r"
  shows "isIdentityAnchor T d (LegacyBridge r) \<longleftrightarrow> r = n"
proof (cases "r = n")
  case True
  then show ?thesis by (simp add: isIdentityAnchor_def rooted_facts [OF assms(1,2)])
next
  case False
  have "\<not> isIdentityAnchor T d (LegacyBridge r)"
  proof (rule not_anchor [OF assms(1,2) legacy_ends(1)])
    show "LegacyBridge r \<noteq> n @ ''/status''" using False by (simp add: LegacyBridge_def assms(3))
    show "LegacyBridge r \<noteq> n @ ''/'' @ dev @ ''/availability''" for dev
      using ends_unique [OF legacy_ends(1) [of r], of "CHR ''t''" "CHR ''y''"] availability_ends by auto
  qed simp_all
  with False show ?thesis by simp
qed

lemma legacy_availability_anchor:
  assumes "topic_ok T" and "rooted T d n" and "trimRoot r = r"
  shows "isIdentityAnchor T d (LegacyAvailability (NewLegacyDevice r device)) \<longleftrightarrow> r = n \<and> singleLevel device"
proof (cases "r = n \<and> singleLevel device")
  case True
  then show ?thesis using cut_suffix_append' [of "''/availability''" device] rooted_facts [OF assms(1,2)]
    by (simp add: isIdentityAnchor_def LegacyAvailability_def NewLegacyDevice_def cut_prefix_def)
next
  case False
  let ?a = "LegacyAvailability (NewLegacyDevice r device)"
  have a: "?a = (r @ ''/'' @ device) @ ''/availability''" by (simp add: LegacyAvailability_def NewLegacyDevice_def assms(3))
  have "\<not> isIdentityAnchor T d ?a"
  proof (rule not_anchor [OF assms(1,2) legacy_ends(2)])
    show "?a \<noteq> n @ ''/status''"
    proof
      assume "?a = n @ ''/status''"
      then have "ends ?a (CHR ''u'') (CHR ''s'')" using ends_append [OF ends_words(1), of n] by simp
      from ends_unique [OF legacy_ends(2) this] show False by simp
    qed
    show "?a \<noteq> n @ ''/'' @ dev @ ''/availability''" if dev: "singleLevel dev" for dev
    proof
      assume "?a = n @ ''/'' @ dev @ ''/availability''"
      then have e: "r @ ''/'' @ device = n @ ''/'' @ dev" by (simp add: a)
      have "r = n" using two_levels [OF e rooted_facts(1) [OF assms(1,2)]] dev by (simp add: singleLevel_def)
      with e dev False show False by simp
    qed
  qed simp_all
  with False show ?thesis by simp
qed

lemma legacy_topics_below:
  assumes "trimRoot r = r"
  shows "prefix (r @ ''/'') (LegacyBridge r)" "prefix (r @ ''/'') (LegacyAvailability (NewLegacyDevice r device))"
    "prefix (r @ ''/'') (LegacyState (NewLegacyDevice r device) name uid)"
    "prefix (r @ ''/'') (LegacyCommand (NewLegacyDevice r device) name uid)"
  by (simp_all add: LegacyBridge_def LegacyAvailability_def LegacyState_def LegacyCommand_def NewLegacyDevice_def assms)

lemma present_topics_below:
  assumes "topic_ok T" and "item \<noteq> []"
  shows "prefix (n @ ''/'') (Status T (Device_layout n haID) item)" "prefix (n @ ''/'') (Set_topic T (Device_layout n haID) item)"
    "prefix (n @ ''/'') (Online T (Device_layout n haID))"
  using assms by (simp_all add: Status_shape Set_topic_shape Online_def StatusPrefix_def setBase_def Device_layout_def)

text \<open>
  C14. A retained configuration of the daemon's, of any of the forms its releases wrote, is taken for one's own
  exactly when the instance that published it has this instance's root: no configuration of a sibling is
  claimed, not even of an old one rooted below this instance, and every configuration of this instance is, with
  one exception. A configuration of the oldest form, with the single availability topic, is recognised
  only when the device name is one topic level: an own configuration of a device whose name contained a slash
  is not claimed and stays behind.
\<close>

theorem config_attribution:
  assumes "topic_ok T" and "rooted T d n" and "rendered_by T r form c"
  shows "IsOwnConfig T d (Some c) \<longleftrightarrow>
    r = n \<and> (case form of FlatForm device \<Rightarrow> device \<noteq> [] \<and> CHR ''/'' \<notin> set device | _ \<Rightarrow> True)"
proof -
  note f = rooted_facts [OF assms(1,2)]
  have own: "IsOwnConfig T d (Some c) \<longleftrightarrow>
     (\<forall>t\<in>set (config_topics c). t \<noteq> [] \<longrightarrow> prefix (n @ ''/'') t) \<and> (\<exists>t\<in>set (config_topics c). t \<noteq> [] \<and> isIdentityAnchor T d t)"
    using assms(3) by (auto simp: IsOwnConfig_def own_topics_iff rendered_by_def f)
  show ?thesis
  proof (cases form)
    case PresentForm
    with assms(3) obtain haID item where present: "shAccepts T r" "item \<noteq> []"
        "rcStateTopic c \<in> {[], Status T (Device_layout r haID) item}"
        "rcCommandTopic c \<in> {[], Set_topic T (Device_layout r haID) item}"
        "rcAvailabilityTopic c = []" "rcAvailability c = [Connected T r, Online T (Device_layout r haID)]"
      by (auto simp: rendered_by_def)
    have cr: "Connected T r = r @ ''/connected''" "CHR ''/'' \<notin> set r"
      using assms(1) present(1) unfolding topic_ok_def Connected_def by blast+
    have "r = n" if o: "IsOwnConfig T d (Some c)"
    proof -
      have "prefix (n @ ''/'') (r @ ''/connected'')"
        using o unfolding own using present(6) cr(1) by (auto simp: config_topics_def)
      then obtain x where "r @ CHR ''/'' # ''connected'' = n @ CHR ''/'' # x" by (auto simp: prefix_def)
      then show "r = n" using prefix_slash_eq cr(2) f(1) by metis
    qed
    moreover have "IsOwnConfig T d (Some c)" if "r = n"
    proof -
      have "isIdentityAnchor T d (Connected T n)" by (simp add: isIdentityAnchor_def f)
      with that show ?thesis
        unfolding own using present present_topics_below [OF assms(1) present(2), of n haID] f(4)
        by (auto simp: config_topics_def)
    qed
    ultimately show ?thesis using PresentForm by auto
  next
    case (ListForm device)
    note old = assms(3) [unfolded rendered_by_def ListForm old_form_items_def, simplified]
    have r: "trimRoot r = r" using old by blast
    note an = legacy_bridge_anchor [OF assms(1,2) r] legacy_availability_anchor [OF assms(1,2) r] legacy_item_not_anchor [OF assms(1,2)]
    have "LegacyBridge n \<noteq> []" by (simp add: LegacyBridge_def)
    then have "IsOwnConfig T d (Some c) \<longleftrightarrow> r = n"
      unfolding own using old legacy_topics_below [OF r] an by (auto simp: config_topics_def)
    with ListForm show ?thesis by simp
  next
    case (FlatForm device)
    note old = assms(3) [unfolded rendered_by_def FlatForm old_form_items_def, simplified]
    have r: "trimRoot r = r" using old by blast
    note an = legacy_bridge_anchor [OF assms(1,2) r] legacy_availability_anchor [OF assms(1,2) r] legacy_item_not_anchor [OF assms(1,2)]
    have "LegacyAvailability (NewLegacyDevice n device) \<noteq> []" by (simp add: LegacyAvailability_def)
    then have "IsOwnConfig T d (Some c) \<longleftrightarrow> r = n \<and> singleLevel device"
      unfolding own using old legacy_topics_below [OF r] an by (auto simp: config_topics_def)
    with FlatForm show ?thesis by (simp add: singleLevel_def)
  qed
qed

section \<open>An instance\<close>

text \<open>A library that renders a component per entity, refuses those without a name and removes as documented.\<close>

definition remove_one :: "components \<Rightarrow> string \<Rightarrow> ha_bundle \<Rightarrow> ha_bundle" where
  "remove_one prior k b = (case map_of prior k of
      Some c \<Rightarrow> b\<lparr>buComponents := AList.update k (tombstone c) (buComponents b)\<rparr> | None \<Rightarrow> b)"

definition plain_discovery :: discovery_lib where
  "plain_discovery =
     \<lparr>dbRender = (\<lambda>d dev ents. Some \<lparr>buNodeID = hvName dev,
          buComponents = List.map (\<lambda>e. (heKey e, \<lparr>cpPlatform = hePlatform e, cpUniqueID = hvID dev @ ''_'' @ heKey e,
            cpBody = hdName (heDescription e)\<rparr>)) ents\<rparr>),
      dbValidate = (\<lambda>b. case filter (\<lambda>(k, c). prefix ''uid_'' k) (buComponents b) of
          [] \<Rightarrow> Clean | bad \<Rightarrow> Findings True (List.map (\<lambda>(k, c). k @ '': no name'') bad)),
      dbRemove = (\<lambda>prior keys b. fold (remove_one prior) keys b),
      dbBundleTopic = (\<lambda>p n. p @ ''/device/'' @ n @ ''/config''),
      dbEntityTopic = (\<lambda>p f n i. p @ ''/'' @ f @ ''/'' @ n @ ''/'' @ i @ ''/config''),
      dbParseTopic = (\<lambda>p t. None)\<rparr>"

lemma plain_remove_ok: "remove_ok plain_discovery"
proof -
  have "map_of (buComponents (fold (remove_one prior) keys b)) k =
       (if k \<in> set keys \<and> map_of prior k \<noteq> None then map_option tombstone (map_of prior k)
        else map_of (buComponents b) k)
     \<and> buNodeID (fold (remove_one prior) keys b) = buNodeID b" for prior keys b k
    by (induction keys arbitrary: b) (auto simp: remove_one_def update_conv' split: option.splits)
  then show ?thesis by (simp add: remove_ok_def plain_discovery_def)
qed

definition plain_lib :: hass_lib where
  "plain_lib = \<lparr>hlLower = (\<lambda>s. s), hlHA = \<lparr>hcClasses = Some (\<lambda>p dc. True), hcRelations = None\<rparr>, hlLabels = []\<rparr>"

definition plain_disc :: hass_discovery where
  "plain_disc = New_discovery plain_topics ''homeassistant/'' ''homeconnect'' ''en'' False"

definition unnamed_sensor :: entity where
  "unnamed_sensor = newEntity (\<lambda>s. s)
     (entry0\<lparr>eUID := 7, eKind := KindStatus, eProtocolType := ProtocolInteger, eAvailable := True\<rparr>)"

definition old_components :: components where
  "old_components = [(''lost'', \<lparr>cpPlatform = ''sensor'', cpUniqueID = ''homeconnect_oven_lost'', cpBody = ''Lost''\<rparr>)]"

lemma document_sent_witness:
  "\<exists>doc. snd (PublishDeviceBundle plain_discovery plain_lib plain_disc (\<lambda>_. True) ''oven'' ''010203'' info0
       [power_state, unnamed_sensor] old_components) = Some doc
     \<and> map_of (buComponents doc) ''lost'' = Some \<lparr>cpPlatform = ''sensor'', cpUniqueID = [], cpBody = []\<rparr>
     \<and> map_of (buComponents doc) ''uid_7'' = None"
proof -
  let ?P = "PublishDeviceBundle plain_discovery plain_lib plain_disc (\<lambda>_. True) ''oven'' ''010203'' info0
       [power_state, unnamed_sensor] old_components"
  let ?b = "the (BundleFor plain_discovery plain_lib plain_disc ''oven'' ''010203'' info0 [power_state, unnamed_sensor])"
  let ?o = "snd (ApplyTombstones plain_discovery old_components ?b)"
  have b: "BundleFor plain_discovery plain_lib plain_disc ''oven'' ''010203'' info0 [power_state, unnamed_sensor] = Some ?b"
    by code_simp
  have "snd ?P \<noteq> None" by code_simp
  then obtain r doc where P: "?P = (r, Some doc)" by (cases ?P) auto
  have "dbValidate plain_discovery ?o = Findings True [''uid_7: no name'']" by code_simp
  then have "refused_components plain_discovery ?o = {k. \<exists>text. cut_colon ''uid_7: no name'' = Some (k, text)}"
    by (simp add: refused_components_def)
  moreover have "cut_colon ''uid_7: no name'' = Some (''uid_7'', ''no name'')" by code_simp
  ultimately have o: "refused_components plain_discovery ?o = {''uid_7''}" by simp
  have "map_of (buComponents ?b) ''lost'' = None" "map_of old_components ''lost'' = Some (snd (hd old_components))"
      "tombstone (snd (hd old_components)) = \<lparr>cpPlatform = ''sensor'', cpUniqueID = [], cpBody = []\<rparr>"
    by code_simp+
  with document_sent [OF plain_remove_ok b P refl refl] P show ?thesis unfolding o by (auto simp: document_of_def)
qed

text \<open>A configuration of a sibling below this root, and an own one with a slash in the device name.\<close>

definition kitchen_config :: retained_config where
  "kitchen_config =
     \<lparr>rcUniqueID = ''homeconnect_oven_x'', rcStateTopic = LegacyState (NewLegacyDevice ''homeconnect/kitchen'' ''oven'') ''A.B'' 1,
      rcCommandTopic = [], rcAvailabilityTopic = [],
      rcAvailability = [LegacyBridge ''homeconnect/kitchen'', LegacyAvailability (NewLegacyDevice ''homeconnect/kitchen'' ''oven'')]\<rparr>"

definition flat_config :: "string \<Rightarrow> retained_config" where
  "flat_config device =
     \<lparr>rcUniqueID = ''homeconnect_oven_x'', rcStateTopic = LegacyState (NewLegacyDevice ''homeconnect'' device) ''A.B'' 1,
      rcCommandTopic = [], rcAvailabilityTopic = LegacyAvailability (NewLegacyDevice ''homeconnect'' device), rcAvailability = []\<rparr>"

lemma config_attribution_witness:
  "\<not> IsOwnConfig plain_topics plain_disc (Some kitchen_config)
   \<and> IsOwnConfig plain_topics plain_disc (Some (flat_config ''oven''))
   \<and> \<not> IsOwnConfig plain_topics plain_disc (Some (flat_config ''kitchen/oven''))"
proof -
  have r: "rooted plain_topics plain_disc ''homeconnect''"
    unfolding plain_disc_def by (intro New_rooted plain_topics_ok) code_simp
  have t: "trimRoot ''homeconnect/kitchen'' = ''homeconnect/kitchen''" "trimRoot ''homeconnect'' = ''homeconnect''"
    by code_simp+
  have "rendered_by plain_topics ''homeconnect/kitchen'' (ListForm ''oven'') kitchen_config"
    unfolding rendered_by_def old_form_items_def kitchen_config_def by (simp add: t) blast
  from config_attribution [OF plain_topics_ok r this] have "\<not> IsOwnConfig plain_topics plain_disc (Some kitchen_config)" by simp
  moreover have "rendered_by plain_topics ''homeconnect'' (FlatForm dev) (flat_config dev)" for dev
    unfolding rendered_by_def old_form_items_def flat_config_def by (simp add: t) blast
  from config_attribution [OF plain_topics_ok r this]
  have "IsOwnConfig plain_topics plain_disc (Some (flat_config dev)) \<longleftrightarrow> dev \<noteq> [] \<and> CHR ''/'' \<notin> set dev" for dev by simp
  ultimately show ?thesis by simp
qed

end
