(* ===== verification/Discovery_Flow.thy ===== *)
theory Discovery_Flow
  imports Hass_Bundle
begin

text \<open>
  One discovery pass of the bridge (\<^verbatim>\<open>publishDiscovery\<close> of \<^verbatim>\<open>internal/bridge/device.go\<close>), the memory of what
  the retained documents held before (\<^verbatim>\<open>tombstone.go\<close>) and the sweep of orphaned configurations
  (\<^verbatim>\<open>reconcile.go\<close>); and how the passes a reconnect asks for are coalesced (\<^verbatim>\<open>republishDiscovery\<close> of
  \<^verbatim>\<open>bridge.go\<close>).

  A broker connection is the number of its runtime. What a snapshot window sees is its input: the retained
  documents with their decoded components, the retained configurations with their parsed topics.
\<close>

section \<open>The memory of the retained documents\<close>

record prior_documents =
  pdRuntime :: "nat option"
  pdDocs :: "(string \<times> components) list"

definition doc_of :: "(string \<times> components) list \<Rightarrow> string \<Rightarrow> components" where
  "doc_of docs node = (case map_of docs node of Some c \<Rightarrow> c | None \<Rightarrow> [])"

definition forConnection ::
  "nat \<Rightarrow> string \<Rightarrow> (string \<times> components) list \<Rightarrow> prior_documents \<Rightarrow> components \<times> prior_documents" where
  "forConnection rt node seen p =
     (let p' = (if pdRuntime p \<noteq> Some rt then p\<lparr>pdDocs := seen, pdRuntime := Some rt\<rparr> else p)
      in (doc_of (pdDocs p') node, p'))"

definition record_live :: "nat \<Rightarrow> string \<Rightarrow> components \<Rightarrow> prior_documents \<Rightarrow> prior_documents" where
  "record_live rt node live p =
     (if pdRuntime p \<noteq> Some rt then p
      else if live = [] then p\<lparr>pdDocs := AList.delete node (pdDocs p)\<rparr>
      else p\<lparr>pdDocs := AList.update node live (pdDocs p)\<rparr>)"

text \<open>
  The window over the device documents: it ends early once every configured appliance's document is there.
\<close>

type_synonym seen_document = "string \<times> (string \<times> component option \<times> retained_config option) list option"

fun read_window ::
  "discovery_lib \<Rightarrow> topic_lib \<Rightarrow> hass_discovery \<Rightarrow> string list \<Rightarrow> (string \<times> components) list \<Rightarrow> seen_document list
   \<Rightarrow> (string \<times> components) list" where
  "read_window B T d want out [] = out"
| "read_window B T d want out ((topic, doc) # ms) =
     (case BundleNodeIDOf B d topic of
        None \<Rightarrow> read_window B T d want out ms
      | Some node \<Rightarrow>
          (let comps = BundleComponents T d doc in
           if comps = [] then read_window B T d want out ms
           else (let out' = AList.update node comps out in
                 if list_all (\<lambda>n. map_of out' n \<noteq> None) want then out' else read_window B T d want out' ms)))"

definition readPriorDocuments ::
  "discovery_lib \<Rightarrow> topic_lib \<Rightarrow> hass_lib \<Rightarrow> hass_discovery \<Rightarrow> string list \<Rightarrow> seen_document list \<Rightarrow> (string \<times> components) list" where
  "readPriorDocuments B T L d names ms = read_window B T d (List.map (BundleNodeID L) names) [] ms"

section \<open>The sweep\<close>

text \<open>What the sweep inspects: the retained configurations whose topics the predicate owns.\<close>

definition collectOwnConfigs ::
  "discovery_lib \<Rightarrow> topic_lib \<Rightarrow> hass_lib \<Rightarrow> hass_discovery \<Rightarrow> string list
   \<Rightarrow> (config_topic \<times> retained_config option) list \<Rightarrow> string list" where
  "collectOwnConfigs B T L d devices seen =
     List.map (\<lambda>(t, body). ConfigTopicFor B d t)
       (filter (\<lambda>(t, body). OwnsConfigTopic L devices t \<and> IsOwnConfig T d body) seen)"

definition orphanTopics :: "string list \<Rightarrow> string list \<Rightarrow> string list \<Rightarrow> string list" where
  "orphanTopics owned published claimed = filter (\<lambda>t. t \<notin> set published \<and> t \<notin> set claimed) owned"

text \<open>\<open>ok\<close> says whether clearing a topic went out; what did is counted, here listed.\<close>

definition retract :: "(string \<Rightarrow> bool) \<Rightarrow> string list \<Rightarrow> string list" where
  "retract ok topics = filter ok topics"

definition reconcileOrphansOnce ::
  "discovery_lib \<Rightarrow> topic_lib \<Rightarrow> hass_lib \<Rightarrow> hass_discovery \<Rightarrow> (string \<Rightarrow> bool) \<Rightarrow> string
   \<Rightarrow> (config_topic \<times> retained_config option) list \<Rightarrow> string list \<Rightarrow> string list \<Rightarrow> string list" where
  "reconcileOrphansOnce B T L d ok device seen published claimed =
     retract ok (orphanTopics (collectOwnConfigs B T L d [device] seen) published claimed)"

text \<open>The sweep runs in the background; while one of the appliance is still running, no other is started.\<close>

definition reconcileOrphans ::
  "discovery_lib \<Rightarrow> topic_lib \<Rightarrow> hass_lib \<Rightarrow> hass_discovery \<Rightarrow> bool \<Rightarrow> (string \<Rightarrow> bool) \<Rightarrow> string
   \<Rightarrow> (config_topic \<times> retained_config option) list \<Rightarrow> string list \<Rightarrow> string list \<Rightarrow> string list" where
  "reconcileOrphans B T L d reconciling ok device seen published claimed =
     (if reconciling then [] else reconcileOrphansOnce B T L d ok device seen published claimed)"

definition refreshDiscoveryOnce ::
  "discovery_lib \<Rightarrow> topic_lib \<Rightarrow> hass_lib \<Rightarrow> hass_discovery \<Rightarrow> bool \<Rightarrow> (string \<Rightarrow> bool) \<Rightarrow> string list
   \<Rightarrow> (config_topic \<times> retained_config option) list \<Rightarrow> string list" where
  "refreshDiscoveryOnce B T L d refresh ok names seen =
     (if \<not> refresh then []
      else retract ok (collectOwnConfigs B T L d names seen @ List.map (BundleTopic B L d) names))"

section \<open>A discovery pass\<close>

text \<open>
  What a pass meets: the runtime it runs on, whether discovery was stopped, whether a sweep of the appliance
  is still running, the documents a first read on this connection sees, whether the client took the document, the topics the plane claims afterwards, and
  what the sweep's window sees.
\<close>

record pass_world =
  pwRuntime :: nat
  pwStopped :: bool
  pwReconciling :: bool
  pwSeen :: "(string \<times> components) list"
  pwDeliver :: "ha_bundle \<Rightarrow> bool"
  pwDeclared :: "string list"
  pwRetained :: "(config_topic \<times> retained_config option) list"
  pwRetractOk :: "string \<Rightarrow> bool"

record pass_result =
  prPrior :: prior_documents
  prSent :: "ha_bundle option"
  prCleared :: "string list"

definition documentIsDeclared :: "pass_world \<Rightarrow> string \<Rightarrow> bool" where
  "documentIsDeclared w topic \<longleftrightarrow> topic \<in> set (pwDeclared w)"

definition publishDiscovery ::
  "discovery_lib \<Rightarrow> topic_lib \<Rightarrow> hass_lib \<Rightarrow> hass_discovery option \<Rightarrow> pass_world \<Rightarrow> string \<Rightarrow> string \<Rightarrow> device_info
   \<Rightarrow> entity list \<Rightarrow> prior_documents \<Rightarrow> pass_result" where
  "publishDiscovery B T L hass w device haID info es p =
     (case hass of
        None \<Rightarrow> \<lparr>prPrior = p, prSent = None, prCleared = []\<rparr>
      | Some d \<Rightarrow>
          if pwStopped w then \<lparr>prPrior = p, prSent = None, prCleared = []\<rparr>
          else
            (let node = BundleNodeID L device;
                 (prior, p1) = forConnection (pwRuntime w) node (pwSeen w) p
             in case PublishDeviceBundle B L d (pwDeliver w) device haID info es prior of
                  (Inl e, sent) \<Rightarrow> \<lparr>prPrior = p1, prSent = sent, prCleared = []\<rparr>
                | (Inr (topic, live, withheld), sent) \<Rightarrow>
                    if \<not> documentIsDeclared w topic then \<lparr>prPrior = p1, prSent = sent, prCleared = []\<rparr>
                    else \<lparr>prPrior = record_live (pwRuntime w) node live p1, prSent = sent,
                          prCleared = reconcileOrphans B T L d (pwReconciling w) (pwRetractOk w) device (pwRetained w)
                            (topic # withheld) (pwDeclared w)\<rparr>))"

section \<open>What a pass clears and remembers\<close>

text \<open>A configuration a pass may clear: one of this appliance, of this instance, that nothing claims.\<close>

definition orphan ::
  "discovery_lib \<Rightarrow> topic_lib \<Rightarrow> hass_lib \<Rightarrow> hass_discovery \<Rightarrow> pass_world \<Rightarrow> string \<Rightarrow> string list \<Rightarrow> string \<Rightarrow> bool" where
  "orphan B T L d w device keep t \<longleftrightarrow>
     t \<notin> set keep \<and> t \<notin> set (pwDeclared w) \<and> pwRetractOk w t
   \<and> list_ex (\<lambda>(ct, body). ConfigTopicFor B d ct = t \<and> ctNodeID ct = BundleNodeID L device
        \<and> \<not> ctBundle ct \<and> ctPlatform ct \<in> set publishedPlatforms \<and> ctObjectID ct \<noteq> [] \<and> ctNodeID ct \<noteq> []
        \<and> IsOwnConfig T d body) (pwRetained w)"

lemma OwnsConfigTopic_device:
  "OwnsConfigTopic L [device] t \<longleftrightarrow>
     \<not> ctBundle t \<and> ctPlatform t \<in> set publishedPlatforms \<and> ctObjectID t \<noteq> [] \<and> ctNodeID t \<noteq> []
     \<and> ctNodeID t = BundleNodeID L device"
  by (auto simp: OwnsConfigTopic_def BundleNodeID_def publishedPlatforms_def platform_defs)

lemma reconcile_clears:
  "t \<in> set (reconcileOrphansOnce B T L d (pwRetractOk w) device (pwRetained w) keep (pwDeclared w))
     \<longleftrightarrow> orphan B T L d w device keep t"
  by (auto simp: reconcileOrphansOnce_def retract_def orphanTopics_def collectOwnConfigs_def orphan_def
      OwnsConfigTopic_device list_ex_iff)

text \<open>
  C30. A discovery pass clears a retained configuration exactly when its document went out on this
  connection and is claimed by the runtime, and the configuration is a per-entity one of this appliance
  and provably of this instance, not withheld from the document and claimed by nothing. A pass whose
  document was refused, not sent or not claimed clears nothing, nor does one that meets an earlier sweep of
  the appliance still running.
\<close>

lemma sent_document:
  "PublishDeviceBundle B L d deliver device haID info es prior = (Inr (topic, live, withheld), sent) \<Longrightarrow>
     \<exists>doc. sent = Some doc \<and> deliver doc \<and> live = LiveComponents doc"
  by (auto simp: PublishDeviceBundle_def publishBundle_def Let_def split: option.splits prod.splits sum.splits if_splits)

theorem pass_clears:
  "t \<in> set (prCleared (publishDiscovery B T L hass w device haID info es p)) \<longleftrightarrow>
     (\<exists>d doc topic live withheld. hass = Some d \<and> \<not> pwStopped w \<and> \<not> pwReconciling w
        \<and> PublishDeviceBundle B L d (pwDeliver w) device haID info es
            (fst (forConnection (pwRuntime w) (BundleNodeID L device) (pwSeen w) p)) = (Inr (topic, live, withheld), Some doc)
        \<and> pwDeliver w doc \<and> topic \<in> set (pwDeclared w) \<and> orphan B T L d w device (topic # withheld) t)"
proof (cases "hass = None \<or> pwStopped w")
  case True
  then show ?thesis by (cases hass) (auto simp: publishDiscovery_def)
next
  case False
  then obtain d where d: "hass = Some d" and ns: "\<not> pwStopped w" by auto
  obtain prior p1 where f: "forConnection (pwRuntime w) (BundleNodeID L device) (pwSeen w) p = (prior, p1)" by fastforce
  obtain r sent where pb: "PublishDeviceBundle B L d (pwDeliver w) device haID info es prior = (r, sent)" by fastforce
  show ?thesis
  proof (cases r)
    case (Inl e)
    with d ns f pb show ?thesis by (simp add: publishDiscovery_def Let_def)
  next
    case (Inr x)
    then obtain topic live withheld where r: "r = Inr (topic, live, withheld)" by (cases x) auto
    obtain doc where "sent = Some doc" "pwDeliver w doc" using sent_document [OF pb [unfolded r]] by blast
    with d ns f pb r show ?thesis
      by (auto simp: publishDiscovery_def Let_def documentIsDeclared_def reconcileOrphans_def reconcile_clears)
  qed
qed

section \<open>The memory over the passes\<close>

text \<open>
  The steps that touch the memory, from any number of workers: a pass takes the memory of its runtime, and
  later records what it published; a reconnect changes nothing here, it only makes later passes run on a
  new runtime.
\<close>

datatype memory_op = Take nat string "(string \<times> components) list" | Recorded nat string components

fun apply_op :: "memory_op \<Rightarrow> prior_documents \<Rightarrow> prior_documents" where
  "apply_op (Take rt node seen) p = snd (forConnection rt node seen p)"
| "apply_op (Recorded rt node live) p = record_live rt node live p"

definition memory0 :: prior_documents where
  "memory0 = \<lparr>pdRuntime = None, pdDocs = []\<rparr>"

text \<open>What the memory of a runtime should be: the read that opened it and, since then, what was recorded on it.\<close>

fun since_read :: "nat \<Rightarrow> memory_op list \<Rightarrow> (string \<Rightarrow> components) \<Rightarrow> string \<Rightarrow> components" where
  "since_read rt [] docs = docs"
| "since_read rt (Take r n seen # ops) docs = since_read rt ops docs"
| "since_read rt (Recorded r n live # ops) docs = since_read rt ops (if r = rt then docs(n := live) else docs)"

lemma doc_of_record:
  "pdRuntime p = Some rt \<Longrightarrow> doc_of (pdDocs (record_live rt node live p)) = (doc_of (pdDocs p))(node := live)"
  by (auto simp: record_live_def doc_of_def delete_conv' update_conv' fun_eq_iff)

text \<open>
  The memory is a statement about one connection: whatever passes and records of however many
  connections interleave, as long as the operations that follow a read on a runtime take the memory of
  that runtime only, the memory holds for each appliance what was last recorded on that runtime, or what
  the read saw when nothing was. Records of passes that ran on another connection change nothing.
\<close>

theorem memory_of_connection:
  assumes "pdRuntime p \<noteq> Some rt" and "list_all (\<lambda>op. case op of Take r n s \<Rightarrow> r = rt | Recorded r n l \<Rightarrow> True) ops"
  shows "doc_of (pdDocs (fold apply_op (Take rt node seen # ops) p)) = since_read rt ops (doc_of seen)"
proof -
  have "pdRuntime q = Some rt \<Longrightarrow> doc_of (pdDocs (fold apply_op ops q)) = since_read rt ops (doc_of (pdDocs q))" for q
    using assms(2)
  proof (induction ops arbitrary: q)
    case Nil
    then show ?case by simp
  next
    case (Cons op ops)
    show ?case
    proof (cases op)
      case (Take r n s)
      with Cons show ?thesis by (simp add: forConnection_def)
    next
      case (Recorded r n l)
      have "pdRuntime (record_live r n l q) = Some rt" using Cons.prems(1) by (simp add: record_live_def)
      moreover have "doc_of (pdDocs (record_live r n l q)) = (if r = rt then (doc_of (pdDocs q))(n := l) else doc_of (pdDocs q))"
        using Cons.prems(1) doc_of_record [of q rt n l] by (auto simp: record_live_def)
      ultimately show ?thesis using Cons Recorded by simp
    qed
  qed
  from this [of "apply_op (Take rt node seen) p"] assms(1) show ?thesis by (simp add: forConnection_def)
qed

text \<open>A pass that was overtaken by a reconnect before it took the memory makes the next pass read again.\<close>

lemma stale_take_displaces:
  "pdRuntime (fold apply_op [Take 2 a s2, Take 1 b s1] memory0) = Some 1"
  by (simp add: memory0_def forConnection_def)

lemma publishDiscovery_sent:
  assumes "prSent (publishDiscovery B T L (Some d) w device haID info es p) = Some doc" and "\<not> pwStopped w"
  obtains r where "PublishDeviceBundle B L d (pwDeliver w) device haID info es
      (fst (forConnection (pwRuntime w) (BundleNodeID L device) (pwSeen w) p)) = (r, Some doc)"
    "\<And>topic live withheld. r = Inr (topic, live, withheld) \<Longrightarrow> topic \<in> set (pwDeclared w) \<Longrightarrow>
       prPrior (publishDiscovery B T L (Some d) w device haID info es p) =
         record_live (pwRuntime w) (BundleNodeID L device) live
           (snd (forConnection (pwRuntime w) (BundleNodeID L device) (pwSeen w) p))"
proof -
  obtain prior p1 where f: "forConnection (pwRuntime w) (BundleNodeID L device) (pwSeen w) p = (prior, p1)" by fastforce
  obtain r sent where pb: "PublishDeviceBundle B L d (pwDeliver w) device haID info es prior = (r, sent)" by fastforce
  show thesis
    by (rule that [of r])
      (use assms f pb in \<open>auto simp: publishDiscovery_def Let_def documentIsDeclared_def split: sum.splits if_splits\<close>)
qed

lemma publishDiscovery_bundle:
  assumes "prSent (publishDiscovery B T L (Some d) w device haID info es p) = Some doc" and "\<not> pwStopped w"
  shows "\<exists>r. PublishDeviceBundle B L d (pwDeliver w) device haID info es
      (fst (forConnection (pwRuntime w) (BundleNodeID L device) (pwSeen w) p)) = (r, Some doc)"
  by (rule publishDiscovery_sent [OF assms]) (rule exI)

lemma forConnection_runtime: "pdRuntime (snd (forConnection rt node seen p)) = Some rt"
  by (simp add: forConnection_def Let_def)

text \<open>
  A component is removed once: when a pass has published an appliance's document, the next one on the
  same connection carries a removal exactly for the components that were alive in that document and are
  no longer rendered, so nothing it removed already is marked again and nothing that lives is removed.
\<close>

theorem removed_once:
  assumes "remove_ok B" and "\<not> pwStopped w" and "\<not> pwStopped w'" and "pwRuntime w' = pwRuntime w"
    and "r1 = publishDiscovery B T L (Some d) w device haID info es1 p" and "prSent r1 = Some doc1"
    and "pwDeliver w doc1" and "\<forall>b. BundleFor B L d device haID info es1 = Some b \<longrightarrow>
      dbBundleTopic B (dvBaseTopic d) (buNodeID b) \<in> set (pwDeclared w)"
    and "prSent (publishDiscovery B T L (Some d) w' device haID info es2 (prPrior r1)) = Some doc2"
  shows "\<exists>b2 bad. BundleFor B L d device haID info es2 = Some b2
     \<and> map_of (buComponents doc2) = document_of b2 (LiveComponents doc1) bad"
proof -
  let ?node = "BundleNodeID L device"
  obtain q1 where q1: "PublishDeviceBundle B L d (pwDeliver w) device haID info es1
      (fst (forConnection (pwRuntime w) ?node (pwSeen w) p)) = (q1, Some doc1)"
    and m1: "\<And>topic live withheld. q1 = Inr (topic, live, withheld) \<Longrightarrow> topic \<in> set (pwDeclared w) \<Longrightarrow>
       prPrior r1 = record_live (pwRuntime w) ?node live (snd (forConnection (pwRuntime w) ?node (pwSeen w) p))"
    using publishDiscovery_sent [OF assms(6) [unfolded assms(5)] assms(2)] assms(5) by blast
  obtain b1 where b1: "BundleFor B L d device haID info es1 = Some b1"
    using q1 by (auto simp: PublishDeviceBundle_def split: option.splits)
  from bundle_document [OF assms(1) b1 q1 refl refl] assms(7) obtain withheld where
    "q1 = Inr (dbBundleTopic B (dvBaseTopic d) (buNodeID b1), LiveComponents doc1, withheld)" by auto
  from m1 [OF this] assms(8) b1 have "prPrior r1 = record_live (pwRuntime w) ?node (LiveComponents doc1)
      (snd (forConnection (pwRuntime w) ?node (pwSeen w) p))" by blast
  then have p1: "pdRuntime (prPrior r1) = Some (pwRuntime w)" "doc_of (pdDocs (prPrior r1)) ?node = LiveComponents doc1"
    using doc_of_record [OF forConnection_runtime [of "pwRuntime w" ?node "pwSeen w" p], of ?node "LiveComponents doc1"]
      forConnection_runtime [of "pwRuntime w" ?node "pwSeen w" p]
    by (simp_all add: record_live_def)
  obtain q2 where q2: "PublishDeviceBundle B L d (pwDeliver w') device haID info es2
      (fst (forConnection (pwRuntime w') ?node (pwSeen w') (prPrior r1))) = (q2, Some doc2)"
    using publishDiscovery_bundle [OF assms(9) assms(3)] ..
  have "fst (forConnection (pwRuntime w') ?node (pwSeen w') (prPrior r1)) = LiveComponents doc1"
    using p1 assms(4) by (simp add: forConnection_def)
  moreover obtain b2 where "BundleFor B L d device haID info es2 = Some b2"
    using q2 by (auto simp: PublishDeviceBundle_def split: option.splits)
  ultimately show ?thesis using bundle_document [OF assms(1) _ q2 refl refl] by fastforce
qed

definition calm :: pass_world where
  "calm = \<lparr>pwRuntime = 1, pwStopped = False, pwReconciling = False, pwSeen = [(''oven'', old_components)], pwDeliver = (\<lambda>_. True),
     pwDeclared = [''homeassistant/device/oven/config''], pwRetained = [], pwRetractOk = (\<lambda>_. True)\<rparr>"

definition named_sensor :: entity where
  "named_sensor = newEntity (\<lambda>s. s)
     (entry0\<lparr>eUID := 8, eName := ''BSH.Common.Status.Count'', eKind := KindStatus, eProtocolType := ProtocolInteger\<rparr>)"

definition calm_pass :: "entity list \<Rightarrow> prior_documents \<Rightarrow> pass_result" where
  "calm_pass es p = publishDiscovery plain_discovery plain_topics plain_lib (Some plain_disc) calm ''oven'' ''010203'' info0 es p"

lemma removed_once_witness:
  "\<exists>doc1 doc2 b2 bad. prSent (calm_pass [power_state, named_sensor] memory0) = Some doc1
     \<and> prSent (calm_pass [power_state] (prPrior (calm_pass [power_state, named_sensor] memory0))) = Some doc2
     \<and> map_of (buComponents doc2) = document_of b2 (LiveComponents doc1) bad"
proof -
  have "prSent (calm_pass [power_state, named_sensor] memory0) \<noteq> None" by code_simp
  then obtain doc1 where d1: "prSent (calm_pass [power_state, named_sensor] memory0) = Some doc1" by blast
  have "prSent (calm_pass [power_state] (prPrior (calm_pass [power_state, named_sensor] memory0))) \<noteq> None" by code_simp
  then obtain doc2 where d2: "prSent (calm_pass [power_state] (prPrior (calm_pass [power_state, named_sensor] memory0))) = Some doc2"
    by blast
  have "BundleFor plain_discovery plain_lib plain_disc ''oven'' ''010203'' info0 [power_state, named_sensor] = Some b \<Longrightarrow>
      dbBundleTopic plain_discovery (dvBaseTopic plain_disc) (buNodeID b) \<in> set (pwDeclared calm)" for b
  proof -
    have "map_option (\<lambda>b. dbBundleTopic plain_discovery (dvBaseTopic plain_disc) (buNodeID b) \<in> set (pwDeclared calm))
        (BundleFor plain_discovery plain_lib plain_disc ''oven'' ''010203'' info0 [power_state, named_sensor]) = Some True"
      by code_simp
    then show "BundleFor plain_discovery plain_lib plain_disc ''oven'' ''010203'' info0 [power_state, named_sensor] = Some b \<Longrightarrow>
      dbBundleTopic plain_discovery (dvBaseTopic plain_disc) (buNodeID b) \<in> set (pwDeclared calm)" by simp
  qed
  then have "\<exists>b2 bad. BundleFor plain_discovery plain_lib plain_disc ''oven'' ''010203'' info0 [power_state] = Some b2
     \<and> map_of (buComponents doc2) = document_of b2 (LiveComponents doc1) bad"
    using d1 d2 by (intro removed_once [OF plain_remove_ok, where w = calm and w' = calm])
      (auto simp: calm_pass_def calm_def)
  with d1 d2 show ?thesis by blast
qed

end
