(* ===== verification/Republish.thy ===== *)
theory Republish
  imports Prelude
begin

text \<open>
  The coalescing of the fleet-wide discovery passes: \<^verbatim>\<open>republishDiscovery\<close> and \<^verbatim>\<open>StopDiscovery\<close> of
  \<^verbatim>\<open>internal/bridge/bridge.go\<close>, called from the reconnect hook and from the birth handler on goroutines of
  their own. The atomic flag, the mutex and the start gate are the state; every interleaving of the callers'
  steps is a run. A pass itself is \<open>publishDiscovery\<close> of every appliance (theory \<open>Discovery_Flow\<close>).
\<close>

section \<open>The callers\<close>

text \<open>
  A caller is idle, waits for the start gate, has made its request, holds the lock, runs a pass, or is back.
  A request carries the number of passes that had started when it was made.
\<close>

datatype caller = Idle | AtGate | Asked nat | Holding nat | Running nat | Back nat | Dismissed

record rep_sys =
  rpCallers :: "nat \<Rightarrow> caller"
  rpPending :: bool
  rpLock :: "nat option"
  rpGate :: bool
  rpStopped :: bool
  rpDone :: bool
  rpStarted :: nat
  rpEnded :: nat

definition rep_start :: rep_sys where
  "rep_start = \<lparr>rpCallers = (\<lambda>_. Idle), rpPending = False, rpLock = None, rpGate = False, rpStopped = False,
     rpDone = False, rpStarted = 0, rpEnded = 0\<rparr>"

definition moved :: "nat \<Rightarrow> caller \<Rightarrow> rep_sys \<Rightarrow> rep_sys" where
  "moved i c s = s\<lparr>rpCallers := (rpCallers s)(i := c)\<rparr>"

lemma moved_simps [simp]:
  "rpCallers (moved i c s) = (rpCallers s)(i := c)" "rpPending (moved i c s) = rpPending s" "rpLock (moved i c s) = rpLock s"
  "rpGate (moved i c s) = rpGate s" "rpStopped (moved i c s) = rpStopped s" "rpDone (moved i c s) = rpDone s"
  "rpStarted (moved i c s) = rpStarted s" "rpEnded (moved i c s) = rpEnded s"
  by (simp_all add: moved_def)

text \<open>
  \<open>rpDone\<close> is the cancelled context: a caller at the gate gives up, and a pass may end before it has gone
  through every appliance.
\<close>

inductive rep_step :: "rep_sys \<Rightarrow> rep_sys \<Rightarrow> bool" where
  open_gate: "rep_step s (s\<lparr>rpGate := True\<rparr>)"
| stop: "rep_step s (s\<lparr>rpStopped := True\<rparr>)"
| cancel: "rep_step s (s\<lparr>rpDone := True\<rparr>)"
| call: "rpCallers s i = Idle \<Longrightarrow> \<not> rpStopped s \<Longrightarrow> rep_step s (moved i AtGate s)"
| call_stopped: "rpCallers s i = Idle \<Longrightarrow> rpStopped s \<Longrightarrow> rep_step s (moved i Dismissed s)"
| give_up: "rpCallers s i = AtGate \<Longrightarrow> rpDone s \<Longrightarrow> rep_step s (moved i Dismissed s)"
| request: "rpCallers s i = AtGate \<Longrightarrow> rpGate s \<Longrightarrow>
    rep_step s (moved i (Asked (rpStarted s)) s\<lparr>rpPending := True\<rparr>)"
| lock: "rpCallers s i = Asked r \<Longrightarrow> rpLock s = None \<Longrightarrow>
    rep_step s (moved i (Holding r) s\<lparr>rpLock := Some i\<rparr>)"
| nothing_to_do: "rpCallers s i = Holding r \<Longrightarrow> \<not> rpPending s \<Longrightarrow>
    rep_step s (moved i (Back r) s\<lparr>rpLock := None\<rparr>)"
| begin_pass: "rpCallers s i = Holding r \<Longrightarrow> rpPending s \<Longrightarrow>
    rep_step s (moved i (Running r) s\<lparr>rpPending := False, rpStarted := rpStarted s + 1\<rparr>)"
| end_pass: "rpCallers s i = Running r \<Longrightarrow>
    rep_step s (moved i (Back r) s\<lparr>rpLock := None, rpEnded := rpEnded s + 1\<rparr>)"

definition rep_reachable :: "rep_sys \<Rightarrow> bool" where
  "rep_reachable s \<longleftrightarrow> rep_step\<^sup>*\<^sup>* rep_start s"

section \<open>The invariant\<close>

definition served :: "rep_sys \<Rightarrow> nat \<Rightarrow> bool" where
  "served s r \<longleftrightarrow> rpPending s \<or> r < rpStarted s"

definition caller_ok :: "rep_sys \<Rightarrow> nat \<Rightarrow> bool" where
  "caller_ok s i \<longleftrightarrow> (case rpCallers s i of
      Asked r \<Rightarrow> served s r \<and> rpLock s \<noteq> Some i
    | Holding r \<Rightarrow> served s r \<and> rpLock s = Some i \<and> rpEnded s = rpStarted s
    | Running r \<Rightarrow> r < rpStarted s \<and> rpLock s = Some i \<and> rpEnded s + 1 = rpStarted s
    | Back r \<Rightarrow> r < rpEnded s \<and> rpLock s \<noteq> Some i
    | _ \<Rightarrow> rpLock s \<noteq> Some i)"

definition rep_inv :: "rep_sys \<Rightarrow> bool" where
  "rep_inv s \<longleftrightarrow> (\<forall>i. caller_ok s i) \<and> (rpLock s = None \<longrightarrow> rpEnded s = rpStarted s)
     \<and> rpEnded s \<le> rpStarted s \<and> (\<forall>i r. rpCallers s i = Asked r \<or> rpCallers s i = Holding r \<longrightarrow> r \<le> rpStarted s)
     \<and> (rpGate s \<or> rpStarted s = 0 \<and> \<not> rpPending s)"

lemma rep_inv_callers: "rep_inv s \<Longrightarrow> caller_ok s i"
  by (simp add: rep_inv_def)

lemma rep_inv_start: "rep_inv rep_start"
  by (simp add: rep_inv_def rep_start_def caller_ok_def)

lemma holder_unique: "rep_inv s \<Longrightarrow> rpLock s = Some i \<Longrightarrow> rpCallers s j = Holding r \<or> rpCallers s j = Running r \<Longrightarrow> i = j"
  using rep_inv_callers [of s j] by (auto simp: caller_ok_def)

lemma rep_inv_step:
  assumes "rep_step s t" and "rep_inv s"
  shows "rep_inv t"
  using assms(1)
proof cases
  case (request i)
  have "caller_ok t j" for j
    using rep_inv_callers [OF assms(2), of j] rep_inv_callers [OF assms(2), of i] request
    by (cases "j = i") (auto simp: caller_ok_def served_def split: caller.split)
  with assms(2) request show ?thesis by (auto simp: rep_inv_def)
next
  case (lock i r)
  have "caller_ok t j" for j
    using rep_inv_callers [OF assms(2), of j] rep_inv_callers [OF assms(2), of i] lock assms(2)
    by (cases "j = i") (auto simp: caller_ok_def served_def rep_inv_def split: caller.splits)
  with assms(2) lock show ?thesis by (auto simp: rep_inv_def)
next
  case (nothing_to_do i r)
  have "caller_ok t j" for j
    using rep_inv_callers [OF assms(2), of j] rep_inv_callers [OF assms(2), of i] nothing_to_do
    by (cases "j = i") (auto simp: caller_ok_def served_def split: caller.splits)
  moreover have "rpLock s = Some i" "rpEnded s = rpStarted s"
    using rep_inv_callers [OF assms(2), of i] nothing_to_do by (simp_all add: caller_ok_def)
  ultimately show ?thesis using assms(2) nothing_to_do by (auto simp: rep_inv_def)
next
  case (begin_pass i r)
  have "caller_ok t j" for j
    using rep_inv_callers [OF assms(2), of j] rep_inv_callers [OF assms(2), of i] begin_pass assms(2)
    by (cases "j = i") (auto simp: caller_ok_def served_def rep_inv_def less_Suc_eq_le split: caller.splits)
  moreover have "rpLock s = Some i" "rpEnded s = rpStarted s"
    using rep_inv_callers [OF assms(2), of i] begin_pass by (simp_all add: caller_ok_def)
  ultimately show ?thesis using assms(2) begin_pass by (auto simp: rep_inv_def intro: le_SucI)
next
  case (end_pass i r)
  have "caller_ok t j" for j
    using rep_inv_callers [OF assms(2), of j] rep_inv_callers [OF assms(2), of i] end_pass
    by (cases "j = i") (auto simp: caller_ok_def served_def split: caller.splits)
  moreover have "rpLock s = Some i" "rpEnded s + 1 = rpStarted s"
    using rep_inv_callers [OF assms(2), of i] end_pass by (simp_all add: caller_ok_def)
  ultimately show ?thesis using assms(2) end_pass by (auto simp: rep_inv_def)
qed (use assms(2) in \<open>auto simp: rep_inv_def caller_ok_def served_def split: caller.splits if_splits\<close>)

interpretation rep_steps: step_invariant "\<lambda>s. s = rep_start" rep_step rep_inv
  by unfold_locales (auto intro: rep_inv_start rep_inv_step)

lemma rep_reachable_inv: "rep_reachable s \<Longrightarrow> rep_inv s"
  unfolding rep_reachable_def by (erule rep_steps.reachable_inv) (rule refl)

section \<open>Nobody waits for ever\<close>

text \<open>
  A run of at most \<open>n\<close> steps in which only the callers in \<open>A\<close> move: no one else calls, the gate is not opened, and
  nothing is stopped or cancelled.
\<close>

definition run_of :: "nat set \<Rightarrow> nat \<Rightarrow> rep_sys \<Rightarrow> rep_sys \<Rightarrow> bool" where
  "run_of A n s t \<longleftrightarrow> (\<exists>m\<le>n. (rep_step ^^ m) s t) \<and> (\<forall>j. j \<notin> A \<longrightarrow> rpCallers t j = rpCallers s j)
     \<and> rpGate t = rpGate s \<and> rpStopped t = rpStopped s \<and> rpDone t = rpDone s"

lemma run_of_step:
  "rep_step s t \<Longrightarrow> (\<forall>j. j \<notin> A \<longrightarrow> rpCallers t j = rpCallers s j) \<Longrightarrow> rpGate t = rpGate s \<Longrightarrow>
     rpStopped t = rpStopped s \<Longrightarrow> rpDone t = rpDone s \<Longrightarrow> run_of A 1 s t"
  unfolding run_of_def by (metis le_refl relpowp_1)

lemma run_of_trans:
  assumes "run_of A m s t" and "run_of B n t v"
  shows "run_of (A \<union> B) (m + n) s v"
proof -
  obtain m' n' where "m' \<le> m" "(rep_step ^^ m') s t" "n' \<le> n" "(rep_step ^^ n') t v"
    using assms by (auto simp: run_of_def)
  then have "m' + n' \<le> m + n \<and> (rep_step ^^ (m' + n')) s v" by (auto simp: relpowp_add)
  then show ?thesis using assms unfolding run_of_def by (metis Un_iff)
qed

lemma run_of_weaken: "run_of A m s t \<Longrightarrow> m \<le> n \<Longrightarrow> run_of A n s t"
  unfolding run_of_def by (meson le_trans)

text \<open>Who holds the lock can finish and release it.\<close>

lemma holder_finishes:
  assumes "rpCallers s j = Holding r \<or> rpCallers s j = Running r"
  shows "\<exists>t. run_of {j} 2 s t \<and> rpCallers t j = Back r \<and> rpLock t = None"
proof -
  have fin: "\<exists>t. run_of {j} 1 v t \<and> rpCallers t j = Back r \<and> rpLock t = None" if "rpCallers v j = Running r" for v
    by (intro exI conjI, rule run_of_step, rule rep_step.end_pass [OF that]) simp_all
  consider "rpCallers s j = Running r" | "rpCallers s j = Holding r" "rpPending s" | "rpCallers s j = Holding r" "\<not> rpPending s"
    using assms by blast
  then show ?thesis
  proof cases
    case 1
    from fin [OF this] run_of_weaken show ?thesis by (meson one_le_numeral)
  next
    case 2
    let ?v = "moved j (Running r) s\<lparr>rpPending := False, rpStarted := rpStarted s + 1\<rparr>"
    have "run_of {j} 1 s ?v" by (rule run_of_step, rule rep_step.begin_pass [OF 2]) simp_all
    moreover obtain t where "run_of {j} 1 ?v t" "rpCallers t j = Back r" "rpLock t = None" using fin [of ?v] by auto
    ultimately show ?thesis using run_of_trans [of "{j}" 1 s ?v "{j}" 1 t] by (auto simp: numeral_2_eq_2)
  next
    case 3
    have "run_of {j} 1 s (moved j (Back r) s\<lparr>rpLock := None\<rparr>)" by (rule run_of_step, rule rep_step.nothing_to_do [OF 3]) simp_all
    from run_of_weaken [OF this, of 2] show ?thesis by (intro exI [of _ "moved j (Back r) s\<lparr>rpLock := None\<rparr>"]) simp
  qed
qed

lemma asker_returns:
  assumes "rpCallers s i = Asked r" and "rpLock s = None"
  shows "\<exists>t. run_of {i} 3 s t \<and> rpCallers t i = Back r"
proof -
  let ?v = "moved i (Holding r) s\<lparr>rpLock := Some i\<rparr>"
  have "run_of {i} 1 s ?v" by (rule run_of_step, rule rep_step.lock [OF assms]) simp_all
  moreover obtain t where "run_of {i} 2 ?v t" "rpCallers t i = Back r" using holder_finishes [of ?v i r] by auto
  ultimately show ?thesis using run_of_trans [of "{i}" 1 s ?v "{i}" 2 t] by (auto simp: numeral_3_eq_3)
qed

lemma lock_held:
  assumes "rep_inv s" and "rpLock s = Some j"
  shows "\<exists>r. rpCallers s j = Holding r \<or> rpCallers s j = Running r"
  using rep_inv_callers [OF assms(1), of j] assms(2) by (auto simp: caller_ok_def split: caller.splits)

section \<open>No request is lost\<close>

text \<open>
  C31. Coalescing loses no request: when a call that was not dismissed is back, a pass that started after
  its request was made has ended, whoever ran it. Passes never overlap, and none starts before the start
  gate is open. (Passes end in the order they start, so the pass numbered \<open>r\<close> from zero started after the
  request and has ended once \<open>r\<close> is below the number of passes that ended.) And nobody is stuck: in every reachable
  state a caller that has made its request can be back, its request honoured, after at most five steps that are its
  own or of the caller that holds the lock now, without anybody else calling and without any event from
  outside.
\<close>

theorem requests_honoured:
  assumes "rep_reachable s"
  shows "(rpCallers s i = Back r \<longrightarrow> r < rpEnded s \<and> rpEnded s \<le> rpStarted s \<and> rpStarted s \<le> rpEnded s + 1 \<and> rpGate s)
    \<and> (rpCallers s i = Asked r \<longrightarrow> (\<exists>t. run_of ({i} \<union> {j. rpLock s = Some j}) 5 s t
        \<and> rpCallers t i = Back r \<and> r < rpEnded t))"
proof (intro conjI impI)
  have inv: "rep_inv s" by (rule rep_reachable_inv [OF assms])
  {
    assume b: "rpCallers s i = Back r"
    have "r < rpEnded s" using rep_inv_callers [OF inv, of i] b by (simp add: caller_ok_def)
    moreover have "rpStarted s \<le> rpEnded s + 1"
    proof (rule ccontr)
      assume "\<not> ?thesis"
      then have "rpEnded s \<noteq> rpStarted s" by simp
      then obtain j where "rpLock s = Some j" using inv by (auto simp: rep_inv_def)
      with \<open>\<not> ?thesis\<close> rep_inv_callers [OF inv, of j] show False by (auto simp: caller_ok_def split: caller.splits)
    qed
    ultimately show "r < rpEnded s" "rpEnded s \<le> rpStarted s" "rpStarted s \<le> rpEnded s + 1" "rpGate s"
      using inv by (auto simp: rep_inv_def)
  }
  assume a: "rpCallers s i = Asked r"
  have "\<exists>t. run_of ({i} \<union> {j. rpLock s = Some j}) 5 s t \<and> rpCallers t i = Back r"
  proof (cases "rpLock s")
    case None
    from asker_returns [OF a None] run_of_weaken [of "{i}" 3 s _ 5] None show ?thesis by auto
  next
    case (Some j)
    obtain r' where "rpCallers s j = Holding r' \<or> rpCallers s j = Running r'" using lock_held [OF inv Some] by blast
    then obtain v where v: "run_of {j} 2 s v" "rpCallers v j = Back r'" "rpLock v = None" using holder_finishes by blast
    have "i \<noteq> j" using rep_inv_callers [OF inv, of i] a Some by (auto simp: caller_ok_def)
    then have "rpCallers v i = Asked r" using v(1) a by (auto simp: run_of_def)
    from asker_returns [OF this v(3)] obtain t where t: "run_of {i} 3 v t" "rpCallers t i = Back r" by blast
    have "{j} \<union> {i} = {i} \<union> {j. rpLock s = Some j}" using Some by auto
    with run_of_trans [OF v(1) t(1)] t(2) show ?thesis by auto
  qed
  then obtain t where t: "run_of ({i} \<union> {j. rpLock s = Some j}) 5 s t" "rpCallers t i = Back r" by blast
  then have "rep_reachable t" using assms unfolding rep_reachable_def run_of_def
    by (meson relpowp_imp_rtranclp rtranclp_trans)
  from rep_inv_callers [OF rep_reachable_inv [OF this], of i] t
  show "\<exists>t. run_of ({i} \<union> {j. rpLock s = Some j}) 5 s t \<and> rpCallers t i = Back r \<and> r < rpEnded t"
    by (auto simp: caller_ok_def)
qed

text \<open>Two callers ask; the first runs one pass, and the second finds its request served by it.\<close>

fun rep_run :: "nat \<Rightarrow> rep_sys" where
  "rep_run 0 = rep_start"
| "rep_run (Suc n) =
     (let s = rep_run n in
      [s\<lparr>rpGate := True\<rparr>, moved 0 AtGate s, moved 1 AtGate s,
       moved 0 (Asked 0) s\<lparr>rpPending := True\<rparr>, moved 1 (Asked 0) s\<lparr>rpPending := True\<rparr>,
       moved 0 (Holding 0) s\<lparr>rpLock := Some 0\<rparr>,
       moved 0 (Running 0) s\<lparr>rpPending := False, rpStarted := 1\<rparr>,
       moved 0 (Back 0) s\<lparr>rpLock := None, rpEnded := 1\<rparr>,
       moved 1 (Holding 0) s\<lparr>rpLock := Some 1\<rparr>,
       moved 1 (Back 0) s\<lparr>rpLock := None\<rparr>] ! n)"

lemma rep_run_reachable: "rep_reachable (rep_run 6)" "rep_reachable (rep_run 10)"
proof -
  have "rep_step (rep_run 0) (rep_run 1)" by (simp add: rep_step.open_gate)
  moreover have "rep_step (rep_run 1) (rep_run 2)" by (simp add: eval_nat_numeral rep_start_def rep_step.call)
  moreover have "rep_step (rep_run 2) (rep_run 3)" by (simp add: eval_nat_numeral rep_start_def rep_step.call)
  moreover have "rep_step (rep_run 3) (rep_run 4)"
    using rep_step.request [of "rep_run 3" 0] by (simp add: eval_nat_numeral rep_start_def)
  moreover have "rep_step (rep_run 4) (rep_run 5)"
    using rep_step.request [of "rep_run 4" 1] by (simp add: eval_nat_numeral rep_start_def)
  moreover have "rep_step (rep_run 5) (rep_run 6)"
    using rep_step.lock [of "rep_run 5" 0 0] by (simp add: eval_nat_numeral rep_start_def)
  ultimately show six: "rep_reachable (rep_run 6)"
    unfolding rep_reachable_def by (metis (no_types, lifting) rep_run.simps(1) rtranclp.simps)
  have "rep_step (rep_run 6) (rep_run 7)"
    using rep_step.begin_pass [of "rep_run 6" 0 0] by (simp add: eval_nat_numeral rep_start_def)
  moreover have "rep_step (rep_run 7) (rep_run 8)"
    using rep_step.end_pass [of "rep_run 7" 0 0] by (simp add: eval_nat_numeral rep_start_def)
  moreover have "rep_step (rep_run 8) (rep_run 9)"
    using rep_step.lock [of "rep_run 8" 1 0] by (simp add: eval_nat_numeral rep_start_def)
  moreover have "rep_step (rep_run 9) (rep_run 10)"
    using rep_step.nothing_to_do [of "rep_run 9" 1 0] by (simp add: eval_nat_numeral rep_start_def)
  ultimately show "rep_reachable (rep_run 10)"
    using six unfolding rep_reachable_def by (metis (no_types, lifting) rtranclp.simps)
qed

lemma requests_honoured_witness:
  "0 < rpEnded (rep_run 10) \<and> rpGate (rep_run 10)
   \<and> (\<exists>t. run_of {0, 1} 5 (rep_run 6) t \<and> rpCallers t 1 = Back 0 \<and> 0 < rpEnded t)"
proof -
  have b: "rpCallers (rep_run 10) 1 = Back 0" by (simp add: eval_nat_numeral rep_start_def)
  have a: "rpCallers (rep_run 6) 1 = Asked 0" "{1} \<union> {j. rpLock (rep_run 6) = Some j} = {0, 1}"
    by (auto simp add: eval_nat_numeral rep_start_def)
  show ?thesis
    using requests_honoured [OF rep_run_reachable(2), of 1 0] b requests_honoured [OF rep_run_reachable(1), of 1 0] a
    by simp
qed

end
