(* ===== verification/Sockets.thy ===== *)
theory Sockets
  imports Crypto
begin

text \<open>
  The AES socket of \<^verbatim>\<open>internal/homeconnect/socket.go\<close> under concurrency: any number of goroutines send, one
  reconnects, closes or receives, and their steps interleave in every way the locks allow.

  \<open>skPhase\<close> is what the holder of \<^verbatim>\<open>sendMu\<close> is doing; whoever takes the free lock can be any goroutine, so
  waiting ones need no state. A connection is the number of the \<open>Connect\<close> that put it in place. The library's
  write either puts the whole frame on the wire or fails, and a connection whose write failed takes no frame
  any more (\<^verbatim>\<open>coder/websocket\<close> closes it); \<open>skBroken\<close> holds those, and those closed by either end. \<open>skMsgs\<close> records
  what the frames of a wire carry.
\<close>

section \<open>The socket\<close>

datatype lock_phase =
    Unlocked
  | SendLocked "rand \<times> byte list"
  | SendOn nat "rand \<times> byte list"
  | SendReady nat "rand \<times> byte list" "byte list"
  | ConnLocked
  | ConnReset

record aes_socket =
  skCrypto :: aes_crypto
  skPhase :: lock_phase
  skConn :: "nat option"
  skNext :: nat
  skBroken :: "nat set"
  skWire :: "nat \<Rightarrow> byte list list"
  skMsgs :: "nat \<Rightarrow> (rand \<times> byte list) list"

definition new_socket :: "aes_crypto \<Rightarrow> aes_socket" where
  "new_socket k = \<lparr>skCrypto = k, skPhase = Unlocked, skConn = None, skNext = 0, skBroken = {},
     skWire = (\<lambda>_. []), skMsgs = (\<lambda>_. [])\<rparr>"

text \<open>\<open>Send\<close>: take the lock, capture the connection, encrypt, write, release the lock.\<close>

inductive send_step :: "aes_socket \<Rightarrow> aes_socket \<Rightarrow> bool" where
  send_lock: "skPhase s = Unlocked \<Longrightarrow> send_step s (s\<lparr>skPhase := SendLocked rm\<rparr>)"
| send_unconnected: "skPhase s = SendLocked rm \<Longrightarrow> skConn s = None \<Longrightarrow> send_step s (s\<lparr>skPhase := Unlocked\<rparr>)"
| send_capture: "skPhase s = SendLocked rm \<Longrightarrow> skConn s = Some c \<Longrightarrow> send_step s (s\<lparr>skPhase := SendOn c rm\<rparr>)"
| send_refused: "skPhase s = SendOn c rm \<Longrightarrow> Encrypt (fst rm) (skCrypto s) (snd rm) = Inl e \<Longrightarrow>
    send_step s (s\<lparr>skPhase := Unlocked\<rparr>)"
| send_encrypt: "skPhase s = SendOn c rm \<Longrightarrow> Encrypt (fst rm) (skCrypto s) (snd rm) = Inr (f, k) \<Longrightarrow>
    send_step s (s\<lparr>skCrypto := k, skPhase := SendReady c rm f\<rparr>)"
| send_written: "skPhase s = SendReady c rm f \<Longrightarrow> c \<notin> skBroken s \<Longrightarrow>
    send_step s (s\<lparr>skWire := (skWire s)(c := skWire s c @ [f]), skMsgs := (skMsgs s)(c := skMsgs s c @ [rm]),
                  skPhase := Unlocked\<rparr>)"
| send_failed: "skPhase s = SendReady c rm f \<Longrightarrow>
    send_step s (s\<lparr>skBroken := insert c (skBroken s), skPhase := Unlocked\<rparr>)"

text \<open>\<open>Connect\<close> after its dial succeeded: take the lock, reset the chains, put the connection in place.\<close>

inductive connect_step :: "aes_socket \<Rightarrow> aes_socket \<Rightarrow> bool" where
  conn_lock: "skPhase s = Unlocked \<Longrightarrow> connect_step s (s\<lparr>skPhase := ConnLocked\<rparr>)"
| conn_reset: "skPhase s = ConnLocked \<Longrightarrow> connect_step s (s\<lparr>skCrypto := Reset (skCrypto s), skPhase := ConnReset\<rparr>)"
| conn_swap: "skPhase s = ConnReset \<Longrightarrow>
    connect_step s (s\<lparr>skConn := Some (skNext s), skNext := Suc (skNext s), skPhase := Unlocked\<rparr>)"

text \<open>\<open>Close\<close> takes the connection away without \<^verbatim>\<open>sendMu\<close> and then closes it; either end can break one at any time.\<close>

inductive close_step :: "aes_socket \<Rightarrow> aes_socket \<Rightarrow> bool" where
  close_take: "close_step s (s\<lparr>skConn := None\<rparr>)"
| close_conn: "close_step s (s\<lparr>skBroken := insert c (skBroken s)\<rparr>)"

text \<open>\<open>Receive\<close> decrypts without \<^verbatim>\<open>sendMu\<close>.\<close>

inductive receive_step :: "aes_socket \<Rightarrow> aes_socket \<Rightarrow> bool" where
  receive_frame: "receive_step s (s\<lparr>skCrypto := snd (Decrypt (skCrypto s) buf)\<rparr>)"

definition sock_step :: "aes_socket \<Rightarrow> aes_socket \<Rightarrow> bool" where
  "sock_step s t \<longleftrightarrow> send_step s t \<or> connect_step s t \<or> close_step s t \<or> receive_step s t"

definition sock_reachable :: "aes_crypto \<Rightarrow> aes_socket \<Rightarrow> bool" where
  "sock_reachable k s \<longleftrightarrow> sock_step\<^sup>*\<^sup>* (new_socket k) s"

section \<open>The sending half of the chain\<close>

definition tx_eq :: "aes_crypto \<Rightarrow> aes_crypto \<Rightarrow> bool" where
  "tx_eq a b \<longleftrightarrow> encKey a = encKey b \<and> macKey a = macKey b \<and> iv a = iv b \<and> txCBC a = txCBC b \<and> lastTXHMAC a = lastTXHMAC b"

definition keys_eq :: "aes_crypto \<Rightarrow> aes_crypto \<Rightarrow> bool" where
  "keys_eq a b \<longleftrightarrow> encKey a = encKey b \<and> macKey a = macKey b \<and> iv a = iv b"

lemma tx_eq_refl [simp]: "tx_eq a a"
  by (simp add: tx_eq_def)

lemma tx_eq_Reset: "keys_eq a b \<Longrightarrow> tx_eq (Reset a) (Reset b)"
  by (simp add: tx_eq_def keys_eq_def Reset_def)

lemma keys_eq_Reset [simp]: "keys_eq a (Reset b) = keys_eq a b" "keys_eq (Reset a) b = keys_eq a b"
  by (simp_all add: keys_eq_def Reset_def)

lemma Decrypt_tx: "tx_eq (snd (Decrypt k buf)) k" "keys_eq (snd (Decrypt k buf)) k"
  by (simp_all add: Decrypt_def open_frame_def Let_def tx_eq_def keys_eq_def split: prod.split)

lemma Encrypt_keys: "Encrypt rnd k m = Inr (f, k') \<Longrightarrow> keys_eq k' k"
  by (auto simp: Encrypt_def seal_def Let_def keys_eq_def split: sum.splits prod.splits)

lemma Encrypt_tx:
  assumes "Encrypt rnd k m = Inr (f, k')" and "tx_eq k k1"
  shows "\<exists>k2. seal_step encryptDirection k1 (rnd, m) = Some (f, k2) \<and> tx_eq k' k2"
  using assms
  by (auto simp: Encrypt_def seal_step_def seal_def Let_def tx_eq_def chainHMAC_def split: sum.splits prod.splits)

lemma feed_snoc:
  "feed f s (xs @ [x]) = (case feed f s xs of None \<Rightarrow> None | Some (ys, s') \<Rightarrow>
     (case f s' x of None \<Rightarrow> None | Some (y, s'') \<Rightarrow> Some (ys @ [y], s'')))"
  by (induction xs arbitrary: s) (auto split: option.split)

section \<open>The wire follows the chain\<close>

text \<open>
  What went over a connection is what a freshly reset chain makes of the recorded messages; where the chain
  is now is its end, one frame ahead between encrypting and writing, for the connection it serves.
\<close>

definition sealed_to :: "aes_crypto \<Rightarrow> aes_socket \<Rightarrow> nat \<Rightarrow> aes_crypto \<Rightarrow> bool" where
  "sealed_to k s c e \<longleftrightarrow> feed (seal_step encryptDirection) (Reset k) (skMsgs s c) = Some (skWire s c, e)"

definition at_end :: "aes_crypto \<Rightarrow> aes_socket \<Rightarrow> nat \<Rightarrow> bool" where
  "at_end k s c \<longleftrightarrow> (\<exists>e. sealed_to k s c e \<and> tx_eq (skCrypto s) e)"

definition one_ahead :: "aes_crypto \<Rightarrow> aes_socket \<Rightarrow> nat \<Rightarrow> rand \<times> byte list \<Rightarrow> byte list \<Rightarrow> bool" where
  "one_ahead k s c rm f \<longleftrightarrow>
     (\<exists>e e'. sealed_to k s c e \<and> seal_step encryptDirection e rm = Some (f, e') \<and> tx_eq (skCrypto s) e')"

definition chain_ok :: "aes_crypto \<Rightarrow> aes_socket \<Rightarrow> bool" where
  "chain_ok k s \<longleftrightarrow> (case skPhase s of
      ConnReset \<Rightarrow> tx_eq (skCrypto s) (Reset k)
    | SendReady c rm f \<Rightarrow> Suc c = skNext s \<and> (c \<notin> skBroken s \<longrightarrow> one_ahead k s c rm f)
    | p \<Rightarrow> (\<forall>rm c. p = SendOn c rm \<longrightarrow> Suc c = skNext s)
        \<and> (\<forall>c. Suc c = skNext s \<longrightarrow> c \<notin> skBroken s \<longrightarrow> at_end k s c))"

definition sock_inv :: "aes_crypto \<Rightarrow> aes_socket \<Rightarrow> bool" where
  "sock_inv k s \<longleftrightarrow> (\<forall>c. \<exists>e. sealed_to k s c e) \<and> (\<forall>c\<ge>skNext s. skMsgs s c = [])
     \<and> (\<forall>c. skConn s = Some c \<longrightarrow> Suc c = skNext s) \<and> keys_eq (skCrypto s) k \<and> chain_ok k s"

lemma tx_eq_trans: "tx_eq a b \<Longrightarrow> tx_eq b c \<Longrightarrow> tx_eq a c"
  by (simp add: tx_eq_def)

lemma keys_eq_trans: "keys_eq a b \<Longrightarrow> keys_eq b c \<Longrightarrow> keys_eq a c"
  by (simp add: keys_eq_def)

lemma sealed_to_cong [simp]:
  "sealed_to k (s\<lparr>skPhase := p\<rparr>) = sealed_to k s" "sealed_to k (s\<lparr>skCrypto := x\<rparr>) = sealed_to k s"
  "sealed_to k (s\<lparr>skConn := y\<rparr>) = sealed_to k s" "sealed_to k (s\<lparr>skNext := n\<rparr>) = sealed_to k s"
  "sealed_to k (s\<lparr>skBroken := b\<rparr>) = sealed_to k s"
  by (auto simp: sealed_to_def fun_eq_iff)

lemma Decrypt_same [simp]:
  "tx_eq (snd (Decrypt a buf)) x = tx_eq a x" "keys_eq (snd (Decrypt a buf)) x = keys_eq a x"
  using Decrypt_tx [of a buf] by (auto simp: tx_eq_def keys_eq_def)

lemma at_end_cong [simp]:
  "at_end k (s\<lparr>skPhase := p\<rparr>) = at_end k s" "at_end k (s\<lparr>skConn := y\<rparr>) = at_end k s"
  "at_end k (s\<lparr>skBroken := b\<rparr>) = at_end k s" "at_end k (s\<lparr>skCrypto := snd (Decrypt (skCrypto s) buf)\<rparr>) = at_end k s"
  by (auto simp: at_end_def fun_eq_iff)

lemma one_ahead_cong [simp]:
  "one_ahead k (s\<lparr>skConn := y\<rparr>) = one_ahead k s" "one_ahead k (s\<lparr>skBroken := b\<rparr>) = one_ahead k s"
  "one_ahead k (s\<lparr>skCrypto := snd (Decrypt (skCrypto s) buf)\<rparr>) = one_ahead k s"
  by (auto simp: one_ahead_def fun_eq_iff)

lemma send_step_inv:
  assumes "send_step s t" "sock_inv k s" shows "sock_inv k t"
  using assms(1)
proof cases
  case (send_encrypt c rm f k')
  have "Suc c = skNext s" "c \<notin> skBroken s \<Longrightarrow> at_end k s c"
    using assms(2) send_encrypt by (auto simp: sock_inv_def chain_ok_def)
  moreover have "one_ahead k t c rm f" if "at_end k s c"
    using that Encrypt_tx [OF send_encrypt(3)] unfolding at_end_def one_ahead_def send_encrypt(1) by auto
  moreover have "keys_eq k' k"
    using assms(2) Encrypt_keys [OF send_encrypt(3)] keys_eq_trans by (auto simp: sock_inv_def)
  ultimately show ?thesis using assms(2) send_encrypt(1) by (auto simp: sock_inv_def chain_ok_def)
next
  case (send_written c rm f)
  then obtain e e' where c: "Suc c = skNext s" and e: "sealed_to k s c e" "seal_step encryptDirection e rm = Some (f, e')"
      "tx_eq (skCrypto s) e'"
    using assms(2) by (auto simp: sock_inv_def chain_ok_def one_ahead_def)
  have new: "sealed_to k t c e'" using e(1,2) send_written(1) by (simp add: sealed_to_def feed_snoc)
  have "sealed_to k t d x \<longleftrightarrow> sealed_to k s d x" if "d \<noteq> c" for d x
    using that send_written(1) by (simp add: sealed_to_def)
  then have "\<exists>x. sealed_to k t d x" for d
    using new assms(2) by (cases "d = c") (auto simp: sock_inv_def)
  moreover have "skMsgs t d = []" if "skNext t \<le> d" for d
    using that assms(2) c send_written(1) by (auto simp: sock_inv_def)
  moreover have "skPhase t = Unlocked" "skNext t = skNext s" "skConn t = skConn s" "skCrypto t = skCrypto s"
    using send_written(1) by simp_all
  moreover have "at_end k t c" using new e(3) send_written(1) by (auto simp: at_end_def)
  then have "chain_ok k t" using c \<open>skPhase t = Unlocked\<close> \<open>skNext t = skNext s\<close>
    unfolding chain_ok_def by simp (metis Suc_inject)
  ultimately show ?thesis using assms(2) by (simp add: sock_inv_def)
qed (use assms(2) in \<open>auto simp: sock_inv_def chain_ok_def\<close>)

lemma connect_step_inv:
  assumes "connect_step s t" "sock_inv k s" shows "sock_inv k t"
  using assms(1)
proof cases
  case conn_reset
  with assms(2) show ?thesis by (auto simp: sock_inv_def chain_ok_def intro: tx_eq_Reset)
next
  case conn_swap
  have "sealed_to k s (skNext s) (Reset k)"
    using assms(2) by (auto simp: sock_inv_def sealed_to_def) (metis feed.simps(1) option.inject order_refl prod.inject)
  with conn_swap assms(2) show ?thesis by (auto simp: sock_inv_def chain_ok_def at_end_def)
qed (use assms(2) in \<open>auto simp: sock_inv_def chain_ok_def\<close>)

lemma close_step_inv: "close_step s t \<Longrightarrow> sock_inv k s \<Longrightarrow> sock_inv k t"
  by (cases "skPhase s") (auto simp: sock_inv_def chain_ok_def elim!: close_step.cases)

lemma receive_step_inv: "receive_step s t \<Longrightarrow> sock_inv k s \<Longrightarrow> sock_inv k t"
  by (cases "skPhase s") (auto simp: sock_inv_def chain_ok_def elim!: receive_step.cases)

lemma sock_inv_start: "sock_inv k (new_socket k)"
proof -
  have "sealed_to k (new_socket k) c (Reset k)" for c by (simp add: sealed_to_def new_socket_def)
  then show ?thesis by (auto simp: sock_inv_def chain_ok_def new_socket_def keys_eq_def)
qed

interpretation sock_steps: step_invariant "\<lambda>s. s = new_socket k" sock_step "sock_inv k" for k
  by unfold_locales
    (use sock_inv_start send_step_inv connect_step_inv close_step_inv receive_step_inv in \<open>auto simp: sock_step_def\<close>)

lemma sock_reachable_inv: "sock_reachable k s \<Longrightarrow> sock_inv k s"
  unfolding sock_reachable_def by (erule sock_steps.reachable_inv) (rule refl)

text \<open>
  C34. However sends, reconnects, closes and receives of any number of goroutines interleave: the frames on
  the wire of a connection are opened by the appliance, from its own fresh chain, in order and unchanged,
  into the messages that were written there. No frame of another connection, no frame that was encrypted
  but not written, and no receive moves the chain between them.
\<close>

theorem wire_in_step:
  assumes "sock_reachable k s" "same_keys k r" "\<forall>rm\<in>set (skMsgs s c). sendable rm"
  shows "\<exists>r'. feed (open_step encryptDirection) (Reset r) (skWire s c) = Some (List.map snd (skMsgs s c), r')"
proof -
  obtain e where "sealed_to k s c e" using sock_reachable_inv [OF assms(1)] unfolding sock_inv_def by blast
  with frames.deliver_all [OF same_keys_Reset [OF assms(2)] assms(3), of encryptDirection] show ?thesis
    by (fastforce simp: sealed_to_def)
qed

lemma one_message_sent:
  assumes "same_keys k k" "good_rand rnd" "length m \<le> readLimit"
  shows "\<exists>s. sock_reachable k s \<and> skMsgs s 0 = [(rnd, m)]"
proof -
  obtain f k' where f: "Encrypt rnd (Reset k) m = Inr (f, k')"
    using seal_open_step [OF same_keys_Reset [OF assms(1)] assms(2,3)] unfolding Encrypt_def by blast
  let ?s1 = "(new_socket k)\<lparr>skPhase := ConnLocked\<rparr>"
  let ?s2 = "?s1\<lparr>skCrypto := Reset k, skPhase := ConnReset\<rparr>"
  let ?s3 = "?s2\<lparr>skConn := Some 0, skNext := 1, skPhase := Unlocked\<rparr>"
  let ?s4 = "?s3\<lparr>skPhase := SendLocked (rnd, m)\<rparr>"
  let ?s5 = "?s4\<lparr>skPhase := SendOn 0 (rnd, m)\<rparr>"
  let ?s6 = "?s5\<lparr>skCrypto := k', skPhase := SendReady 0 (rnd, m) f\<rparr>"
  let ?s7 = "?s6\<lparr>skWire := (\<lambda>_. [])(0 := [f]), skMsgs := (\<lambda>_. [])(0 := [(rnd, m)]), skPhase := Unlocked\<rparr>"
  have "sock_step (new_socket k) ?s1" "sock_step ?s1 ?s2" "sock_step ?s2 ?s3" "sock_step ?s3 ?s4" "sock_step ?s4 ?s5"
    "sock_step ?s5 ?s6" "sock_step ?s6 ?s7"
    using connect_step.conn_lock [of "new_socket k"] connect_step.conn_reset [of ?s1] connect_step.conn_swap [of ?s2]
      send_step.send_lock [of ?s3 "(rnd, m)"] send_step.send_capture [of ?s4 "(rnd, m)" 0]
      send_step.send_encrypt [of ?s5 0 "(rnd, m)" f k'] send_step.send_written [of ?s6 0 "(rnd, m)" f] f
    by (simp_all add: sock_step_def new_socket_def)
  then have "sock_reachable k ?s7" unfolding sock_reachable_def by (meson converse_rtranclp_into_rtranclp rtranclp.rtrancl_refl)
  then show ?thesis by (intro exI [of _ ?s7]) simp
qed

lemma wire_in_step_witness:
  "\<exists>k s r'. NewAESCrypto [1, 2, 3] (replicate 16 7) = Inr k \<and> sock_reachable k s
     \<and> feed (open_step encryptDirection) (Reset k) (skWire s 0) = Some ([[104, 105]], r')"
proof -
  obtain k where k: "NewAESCrypto [1, 2, 3] (replicate 16 7) = Inr k"
    using NewAESCrypto_ok [of "replicate 16 7"] by (auto simp: blockSize_def)
  then have keys: "same_keys k k" using NewAESCrypto_keys by blast
  have ok: "sendable (\<lambda>n. Some (replicate n 0), [104, 105])" by (simp add: sendable_def good_rand_def readLimit_def)
  then obtain s where s: "sock_reachable k s" "skMsgs s 0 = [(\<lambda>n. Some (replicate n 0), [104, 105])]"
    using one_message_sent [OF keys good_rand_zeros, of "[104, 105]"] by (auto simp: readLimit_def)
  from wire_in_step [OF s(1) keys, of 0] s ok k show ?thesis by auto
qed

end
