(* ===== verification/Web_Adapter.thy ===== *)
theory Web_Adapter
  imports Worker Command
begin

text \<open>
  \<^verbatim>\<open>internal/web/adapter.go\<close>: the state store and the dispatcher as what the web interface shows and writes:
  devices with their entries, the features that can be controlled with the values offered for them, the
  health and configuration tiles, and the classes a refused write is reported under.

  The types are those of \<^verbatim>\<open>go-bridgeui\<close> the adapter fills. \<open>pt\<close> parses an RFC 3339 time.
\<close>

section \<open>Helpers\<close>

definition deref :: "string option \<Rightarrow> string" where
  "deref s = (case s of None \<Rightarrow> [] | Some t \<Rightarrow> t)"

fun firstNonEmpty :: "string list \<Rightarrow> string" where
  "firstNonEmpty [] = []"
| "firstNonEmpty (v # vs) = (if v \<noteq> [] then v else firstNonEmpty vs)"

definition controls :: "string list" where "controls = [''button'', ''select'', ''switch'', ''number'']"
definition commandPress :: string where "commandPress = ''true''"

fun group_of_segments :: "string list \<Rightarrow> string" where
  "group_of_segments [] = ''other''"
| "group_of_segments (seg # segs) =
     (if seg \<in> {''Status'', ''Setting'', ''Option'', ''Event'', ''Command'', ''Program''} then List.map lower_char seg
      else if seg = ''Root'' then ''program'' else group_of_segments segs)"

definition featureGroup :: "string \<Rightarrow> string" where
  "featureGroup feature = group_of_segments (split_on (CHR ''.'') feature)"

definition subtitle :: "device_summary \<Rightarrow> string" where
  "subtitle sm = join [CHR '' '', CHR '' '', CHR 0xC2, CHR 0xB7, CHR '' '', CHR '' '']
     ((if dsVib sm \<noteq> [] then [dsVib sm] else [])
    @ (if dsHaID sm \<noteq> [] then [''haId '' @ dsHaID sm] else [])
    @ (if dsConnectionState sm \<noteq> [] then [dsConnectionState sm] else []))"

section \<open>What is shown\<close>

record ui_entry =
  uiGroup :: string
  uiKey :: string
  uiName :: string
  uiUnit :: string
  uiValue :: any

record ui_device =
  udID :: string
  udTitle :: string
  udSubtitle :: string
  udOnline :: bool
  udUpdatedAt :: "int option"
  udEntries :: "ui_entry list"

definition entry_of :: "feature \<Rightarrow> ui_entry" where
  "entry_of f = \<lparr>uiGroup = featureGroup (ftFeature f), uiKey = ftFeature f, uiName = firstNonEmpty [ftName f, ftFeature f],
     uiUnit = deref (ftUnit f), uiValue = ftValue f\<rparr>"

definition Snapshot_ui :: "(string \<Rightarrow> int option) \<Rightarrow> int \<Rightarrow> store \<Rightarrow> ui_device list" where
  "Snapshot_ui pt now s = List.map_filter (\<lambda>sm. case Device now s (dsName sm) of
      None \<Rightarrow> None
    | Some (_, _, fs) \<Rightarrow>
        (let title = trim_space (dsBrand sm @ '' '' @ dsType sm) in
         Some \<lparr>udID = dsName sm, udTitle = (if title = [] then dsName sm else title), udSubtitle = subtitle sm,
           udOnline = dsAvailable sm, udUpdatedAt = pt (dsUpdatedAt sm),
           udEntries = List.map entry_of (filter (\<lambda>f. ftPlatform f \<noteq> ''button'') fs)\<rparr>)) (Snapshot now s)"

record ui_item =
  itKey :: string
  itDevice :: string
  itName :: string
  itUnit :: string
  itComponent :: string
  itMin :: "f64 option"
  itMax :: "f64 option"
  itStep :: "f64 option"
  itPayload :: string
  itOptions :: "(string \<times> string) list"

definition item_of :: "string \<Rightarrow> feature \<Rightarrow> ui_item option" where
  "item_of device f =
     (if ftPlatform f \<notin> set controls \<or> ftPlatform f \<noteq> ''button'' \<and> \<not> ftWritable f then None
      else Some \<lparr>itKey = ftFeature f, itDevice = device, itName = firstNonEmpty [ftName f, ftFeature f],
        itUnit = deref (ftUnit f), itComponent = ftPlatform f, itMin = ftMin f, itMax = ftMax f, itStep = ftStep f,
        itPayload = (if ftPlatform f = ''button'' then commandPress else []),
        itOptions = List.map (\<lambda>v. (v, v)) (ftOptions f)\<rparr>)"

definition Items :: "int \<Rightarrow> store \<Rightarrow> ui_item list" where
  "Items now s = concat (List.map (\<lambda>sm. case Device now s (dsName sm) of
      None \<Rightarrow> [] | Some (_, _, fs) \<Rightarrow> List.map_filter (item_of (dsName sm)) fs) (Snapshot now s))"

section \<open>Tiles\<close>

record ui_tile =
  tlLabel :: string
  tlText :: string
  tlValue :: any
  tlTone :: string
  tlSub :: string

definition tile :: "string \<Rightarrow> ui_tile" where
  "tile label = \<lparr>tlLabel = label, tlText = [], tlValue = VNil, tlTone = [], tlSub = []\<rparr>"

definition long_dash :: string where "long_dash = [CHR 0xE2, CHR 0x80, CHR 0x94]"

definition Health_ui :: "int \<Rightarrow> config \<Rightarrow> bool \<Rightarrow> store \<Rightarrow> string \<times> ui_tile list" where
  "Health_ui now c mqttUp s =
     (let (st, hs) = Health now s;
          status = (if mqttUp then st else ''degraded'');
          stale = length (filter (\<lambda>(_, _, _, b). b) hs);
          mqtt = (tile ''health.mqtt'')\<lparr>tlText := if mqttUp then ''val.connected'' else ''val.disconnected'',
                    tlTone := if mqttUp then ''ok'' else ''err'', tlSub := cfMQTTServer c\<rparr>;
          hass = (if cfHASSEnable c then (tile ''health.hass'')\<lparr>tlText := ''val.active'', tlTone := ''ok''\<rparr>
                  else (tile ''health.hass'')\<lparr>tlText := ''val.off''\<rparr>);
          staleTile = (tile ''health.stale'')\<lparr>tlValue := VInt (int stale), tlTone := if 0 < stale then ''warn'' else []\<rparr>
      in (status,
          [mqtt, (tile ''health.topic'')\<lparr>tlValue := VStr (firstNonEmpty [cfMQTTTopic c, long_dash])\<rparr>, hass,
           (tile ''health.devices'')\<lparr>tlValue := VInt (int (length hs))\<rparr>, staleTile]))"

definition onOff :: "string \<Rightarrow> bool \<Rightarrow> string \<Rightarrow> ui_tile" where
  "onOff label on text = (tile label)\<lparr>tlText := if on then text else ''val.off''\<rparr>"

definition Config_ui :: "config \<Rightarrow> ui_tile list" where
  "Config_ui c =
     [(tile ''cfg.mqtt'')\<lparr>tlValue := VStr (firstNonEmpty [cfMQTTServer c, long_dash]), tlSub := cfMQTTTopic c\<rparr>,
      (if cfHASSEnable c
       then (onOff ''cfg.hass'' True ''val.active'')\<lparr>tlSub := cfHASSBaseTopic c @ [CHR '' '', CHR 0xC2, CHR 0xB7, CHR '' ''] @ cfHASSDiscovery c\<rparr>
       else onOff ''cfg.hass'' False ''val.active''),
      (tile ''cfg.reconnect'')\<lparr>tlValue := VStr (itoa (cfReconnectInitial c) @ [CHR 0xE2, CHR 0x80, CHR 0x93]
         @ itoa (cfReconnectMax c) @ '' s'')\<rparr>,
      (tile ''cfg.heartbeat'')\<lparr>tlValue := VStr (itoa (cfHeartbeat c) @ '' s'')\<rparr>,
      (if cfWebUser c = [] \<and> cfWebPassword c = [] then (tile ''cfg.webAuth'')\<lparr>tlText := ''val.off'', tlTone := ''warn''\<rparr>
       else (tile ''cfg.webAuth'')\<lparr>tlText := ''val.on''\<rparr>),
      (tile ''cfg.language'')\<lparr>tlValue := VStr (firstNonEmpty [cfLanguage c, ''de''])\<rparr>,
      onOff ''cfg.debug'' (cfDebug c) ''val.on'']"

section \<open>Writing\<close>

datatype ui_error =
    UnknownDevice dispatch_error
  | UiNotWritable dispatch_error
  | NotReady dispatch_error
  | OtherError dispatch_error

fun set_world :: "string \<Rightarrow> world \<Rightarrow> (string \<times> command_env \<times> world) list \<Rightarrow> (string \<times> command_env \<times> world) list" where
  "set_world n w [] = []"
| "set_world n w ((m, env, w0) # ds) = (if m = n then (m, env, w) # ds else (m, env, w0) # set_world n w ds)"

definition Dispatch ::
  "(string \<times> command_env \<times> world) list \<Rightarrow> string \<Rightarrow> string \<Rightarrow> any
   \<Rightarrow> dispatch_error option \<times> (string \<times> command_env \<times> world) list" where
  "Dispatch ds device feature val = (case deviceByName ds device of
      None \<Rightarrow> (Some DeviceNotFound, ds)
    | Some (env, w) \<Rightarrow> (case dispatch_to env feature val w of (r, w') \<Rightarrow> (r, set_world device w' ds)))"

definition classify_error :: "dispatch_error \<Rightarrow> ui_error" where
  "classify_error err = (case err of
      DeviceNotFound \<Rightarrow> UnknownDevice err
    | FeatureNotFound _ \<Rightarrow> UiNotWritable err
    | ProgramNotFound _ \<Rightarrow> UiNotWritable err
    | FeatureNotWritable _ \<Rightarrow> UiNotWritable err
    | RequestFailed _ \<Rightarrow> if DeviceErrorCode err = Some 541 then NotReady err else OtherError err)"

text \<open>A refused write is also recorded as a problem of the device.\<close>

type_synonym problem = "string \<times> string \<times> string \<times> dispatch_error"

definition Write ::
  "string \<Rightarrow> string \<Rightarrow> string \<Rightarrow> (string \<times> command_env \<times> world) list \<times> problem list
   \<Rightarrow> ui_error option \<times> (string \<times> command_env \<times> world) list \<times> problem list" where
  "Write device key val st = (case Dispatch (fst st) device key (VStr val) of
      (None, ds) \<Rightarrow> (None, ds, snd st)
    | (Some err, ds) \<Rightarrow> (Some (classify_error err), ds, snd st @ [(device, key, val, err)]))"

section \<open>What is offered and what is accepted\<close>

lemma featureView_fields:
  "ftPlatform (featureView T dl e) = (case classify e of Some p \<Rightarrow> p | None \<Rightarrow> [])"
  "ftWritable (featureView T dl e) = Writable e"
  "ftOptions (featureView T dl e) = (if IsEnum (enDesc e) then List.map snd (eEnumeration (enDesc e)) else [])"
  by (simp_all add: featureView_def Describe_def Let_def split: option.split)

lemma enum_option_resolves:
  assumes "entity_ok u e" "IsEnum (enDesc e)" "v \<in> set (List.map snd (eEnumeration (enDesc e)))"
  shows "\<exists>iv. resolveWriteValue u e (VStr v) = Inr (VInt iv)"
proof -
  have "find (\<lambda>p. to_lower u (snd p) = to_lower u v) (rev (eEnumeration (enDesc e))) \<noteq> None"
    using assms(3) by (auto simp: find_None_iff) blast
  then have "enRevEnum e (to_lower u v) \<noteq> None"
    using assms(1,2) by (auto simp: entity_ok_def rev_enum_find split: option.splits)
  then show ?thesis using assms(2) by (auto simp: resolveWriteValue_def)
qed

lemma select_is_enum:
  assumes "classify e = Some platformSelect" "eKind (enDesc e) \<noteq> KindSelectedProgram"
  shows "IsEnum (enDesc e) \<and> eKind (enDesc e) \<notin> {KindProgram, KindActiveProgram}"
  using assms by (auto simp: classify_def Let_def platform_defs split: entry_kind.splits protocol_type.splits if_splits)

lemma switch_is_bool:
  assumes "classify e = Some platformSwitch"
  shows "\<not> IsEnum (enDesc e) \<and> eProtocolType (enDesc e) = ProtocolBoolean
     \<and> eKind (enDesc e) \<notin> {KindProgram, KindActiveProgram, KindSelectedProgram}"
  using assms by (auto simp: classify_def Let_def platform_defs split: entry_kind.splits protocol_type.splits if_splits)

lemma dispatch_plain:
  assumes "apByName a (enName e) = Some i" "apEntities a ! i = e" "apByUID a (enUID e) = Some i" "Writable e"
    and "eKind (enDesc e) \<notin> {KindProgram, KindActiveProgram, KindSelectedProgram}"
    and "resolveWriteValue (ceLower env) e v = Inr raw"
  shows "case fst (dispatch_to env (enName e) v (a, sw)) of None \<Rightarrow> True | Some err \<Rightarrow> \<exists>x. err = RequestFailed (SessionError x)"
  using assms by (auto simp: dispatch_to_def Let_def WriteValue_def split: sum.split prod.split)

text \<open>
  What the interface offers can be written: for a feature shown as a select or a switch, every offered
  option, or either of the two switch texts, is accepted by the dispatcher and put to the appliance; only
  the connection or the appliance itself can still refuse it. (Program items are written by name instead.)
\<close>

theorem offered_values_accepted:
  assumes "item_of device (featureView T dl e) = Some it" "eKind (enDesc e) \<noteq> KindSelectedProgram" "entity_ok (ceLower env) e"
    and "apByName a (enName e) = Some i" "apEntities a ! i = e" "apByUID a (enUID e) = Some i"
    and "itComponent it = platformSelect \<and> v \<in> fst ` set (itOptions it)
         \<or> itComponent it = platformSwitch \<and> v \<in> {''true'', ''false''}"
  shows "case fst (dispatch_to env (itKey it) (VStr v) (a, sw)) of
      None \<Rightarrow> True | Some err \<Rightarrow> \<exists>x. err = RequestFailed (SessionError x)"
proof -
  have it: "itKey it = enName e" "itComponent it = ftPlatform (featureView T dl e)"
      "itOptions it = List.map (\<lambda>v. (v, v)) (ftOptions (featureView T dl e))"
      "ftPlatform (featureView T dl e) = ''button'' \<or> Writable e"
    using assms(1) by (auto simp: item_of_def featureView_fields(2) split: if_splits)
  have w: "Writable e" using it(2,4) assms(7) by (auto simp: platform_defs)
  from assms(7) have "\<exists>raw. resolveWriteValue (ceLower env) e (VStr v) = Inr raw
      \<and> eKind (enDesc e) \<notin> {KindProgram, KindActiveProgram, KindSelectedProgram}"
  proof
    assume sel: "itComponent it = platformSelect \<and> v \<in> fst ` set (itOptions it)"
    then have "classify e = Some platformSelect"
      using it(2) by (auto simp: featureView_fields platform_defs split: option.splits)
    note c = select_is_enum [OF this assms(2)]
    with sel it(3) have "v \<in> set (List.map snd (eEnumeration (enDesc e)))" by (force simp: featureView_fields)
    with enum_option_resolves [OF assms(3)] c assms(2) show ?thesis by blast
  next
    assume "itComponent it = platformSwitch \<and> v \<in> {''true'', ''false''}"
    then have "classify e = Some platformSwitch"
      using it(2) by (auto simp: featureView_fields platform_defs split: option.splits)
    from switch_is_bool [OF this] show ?thesis by (simp add: resolveWriteValue_def)
  qed
  then obtain raw where r: "resolveWriteValue (ceLower env) e (VStr v) = Inr raw"
      and k: "eKind (enDesc e) \<notin> {KindProgram, KindActiveProgram, KindSelectedProgram}" by blast
  show ?thesis unfolding it(1) by (rule dispatch_plain [OF assms(4-6) w k r])
qed

text \<open>An appliance never indexes the empty name, so no entity without a name is found by it.\<close>

lemma empty_name_unindexed: "apByName (NewAppliance u d) [] = None"
proof -
  have "apByName a [] = None \<Longrightarrow> apByName (fold add_entity es a) [] = None" for es a
    by (induction es arbitrary: a) (simp_all add: add_entity_def Let_def)
  then show ?thesis by (simp add: NewAppliance_def buildEntities_def appliance0_def)
qed

text \<open>
  A feature without a name is offered but can never be written: its item carries the empty key, which the
  dispatcher finds at no appliance, so every value is refused as not writable, although the feature may be
  writable and has a command topic over MQTT.
\<close>

theorem unnamed_item_refused:
  assumes "item_of device (featureView T dl e) = Some it" "enName e = []"
    and "deviceByName ds device = Some (env, (a, sw))" "apByName a = apByName (NewAppliance u d)"
  shows "fst (Write device (itKey it) v (ds, problems)) = Some (UiNotWritable (FeatureNotFound []))"
proof -
  have "itKey it = []" using assms(1,2) by (auto simp: item_of_def split: if_splits)
  with assms(3,4) show ?thesis
    by (simp add: Write_def Dispatch_def dispatch_to_def empty_name_unindexed classify_error_def split: prod.split)
qed

definition unnamed_switch :: entry where
  "unnamed_switch = entry0\<lparr>eUID := 17, eKind := KindSetting, eProtocolType := ProtocolBoolean, eAccess := ''readwrite'',
     eAvailable := True\<rparr>"

lemma unnamed_item_refused_witness:
  "\<exists>it. item_of ''Oven'' (featureView plain_topics oven_layout (newEntity id unnamed_switch)) = Some it
     \<and> itComponent it = ''switch''
     \<and> fst (Write ''Oven'' (itKey it) ''true'' ([(''Oven'', washer_env, washer_world)], [])) = Some (UiNotWritable (FeatureNotFound []))"
proof -
  have "\<exists>it. item_of ''Oven'' (featureView plain_topics oven_layout (newEntity id unnamed_switch)) = Some it
      \<and> itComponent it = ''switch''"
    by (simp add: item_of_def featureView_fields controls_def) code_simp
  then obtain it where it: "item_of ''Oven'' (featureView plain_topics oven_layout (newEntity id unnamed_switch)) = Some it"
      "itComponent it = ''switch''" by blast
  have d: "deviceByName [(''Oven'', washer_env, washer_world)] ''Oven'' = Some (washer_env, (washer, snd washer_world))"
    by (simp add: deviceByName_def washer_world_def)
  have "enName (newEntity id unnamed_switch) = []" by code_simp
  from unnamed_item_refused [OF it(1) this d, of id, OF washer_def [THEN arg_cong [where f = apByName]]] it show ?thesis by blast
qed

lemma offered_values_accepted_witness:
  "\<exists>it. item_of ''Oven'' (featureView plain_topics oven_layout (apEntities washer ! 0)) = Some it
     \<and> (case fst (dispatch_to washer_env (itKey it) (VStr ''On'') washer_world) of
          None \<Rightarrow> True | Some err \<Rightarrow> \<exists>x. err = RequestFailed (SessionError x))"
proof -
  let ?e = "apEntities washer ! 0"
  have c: "classify ?e = Some platformSelect" "Writable ?e" "IsEnum (enDesc ?e)"
      "List.map snd (eEnumeration (enDesc ?e)) = [''Off'', ''On'']"
    by code_simp+
  then have "\<exists>it. item_of ''Oven'' (featureView plain_topics oven_layout ?e) = Some it
      \<and> itComponent it = platformSelect \<and> ''On'' \<in> fst ` set (itOptions it)"
    by (simp add: item_of_def featureView_fields controls_def platform_defs)
  then obtain it where it: "item_of ''Oven'' (featureView plain_topics oven_layout ?e) = Some it"
      "itComponent it = platformSelect \<and> ''On'' \<in> fst ` set (itOptions it)" by blast
  have h: "eKind (enDesc ?e) \<noteq> KindSelectedProgram" "apByName washer (enName ?e) = Some 0" "apByUID washer (enUID ?e) = Some 0"
    by code_simp+
  have "?e = newEntity id (entry0\<lparr>eUID := 539, eName := ''BSH.Common.Setting.PowerState'', eKind := KindSetting,
        eProtocolType := ProtocolInteger, eAccess := ''readwrite'', eAvailable := True,
        eEnumeration := [(1, ''Off''), (2, ''On'')]\<rparr>)"
    by (simp add: washer_def NewAppliance_def buildEntities_def appliance0_def add_entity_def Let_def)
  then have ok: "entity_ok (ceLower washer_env) ?e" by (simp add: entity_ok_new washer_env_def)
  have "case fst (dispatch_to washer_env (itKey it) (VStr ''On'') (washer, snd washer_world)) of
      None \<Rightarrow> True | Some err \<Rightarrow> \<exists>x. err = RequestFailed (SessionError x)"
    by (rule offered_values_accepted [OF it(1) h(1) ok h(2) refl h(3)]) (use it(2) in simp)
  with it(1) show ?thesis by (auto simp: washer_world_def)
qed

end
