(* ===== verification/Web_Routes.thy ===== *)
theory Web_Routes
  imports Web_Adapter
begin

text \<open>
  \<^verbatim>\<open>internal/web/routes.go\<close>: the device API beside the dashboard, the reading handlers over the state store, the
  writing handler over the dispatcher, and the HTTP errors a refused write is reported with.

  A response is its content; the error object carries its key, its status, what its message is made of and
  the appliance's code. \<open>decode\<close> reads at most the given number of bytes of the body and decodes it; it and
  the JSON encoder are of the standard library.
\<close>

section \<open>Responses\<close>

datatype message_text = Text string | ErrorText dispatch_error

datatype response =
    DevicesOK "device_summary list"
  | DeviceOK "device_summary \<times> obj \<times> feature list"
  | FeatureOK feature
  | VersionOK string string string
  | Accepted string string any
  | Problem string int message_text "int option"

definition writeError :: "string \<Rightarrow> int \<Rightarrow> message_text \<Rightarrow> int option \<Rightarrow> response" where
  "writeError key status msg deviceCode = Problem key status msg deviceCode"

fun status_of :: "response \<Rightarrow> int" where
  "status_of (Accepted _ _ _) = 202"
| "status_of (Problem _ status _ _) = status"
| "status_of _ = 200"

section \<open>Reading\<close>

definition handleDevices :: "int \<Rightarrow> store \<Rightarrow> response" where
  "handleDevices now s = DevicesOK (Snapshot now s)"

definition handleDevice :: "int \<Rightarrow> store \<Rightarrow> string \<Rightarrow> response" where
  "handleDevice now s device = (case Device now s device of
      None \<Rightarrow> writeError ''device_not_found'' 404 (Text ''unknown device'') None
    | Some detail \<Rightarrow> DeviceOK detail)"

definition handleFeature :: "int \<Rightarrow> store \<Rightarrow> string \<Rightarrow> string \<Rightarrow> response" where
  "handleFeature now s device feature = (case Device now s device of
      None \<Rightarrow> writeError ''device_not_found'' 404 (Text ''unknown device'') None
    | Some (_, _, fs) \<Rightarrow> (case find (\<lambda>f. ftFeature f = feature) fs of
          Some f \<Rightarrow> FeatureOK f
        | None \<Rightarrow> writeError ''feature_not_found'' 404 (Text ''unknown feature'') None))"

definition handleVersion :: "string \<Rightarrow> string \<Rightarrow> string \<Rightarrow> response" where
  "handleVersion version commit buildDate = VersionOK version commit buildDate"

section \<open>Writing\<close>

definition maxSetBodyBytes :: int where "maxSetBodyBytes = 1048576"

datatype body_error = BodyTooLarge | BadBody

record set_request =
  srFeature :: string
  srValue :: any

definition mapDispatchError :: "dispatch_error \<Rightarrow> response" where
  "mapDispatchError err = (case err of
      DeviceNotFound \<Rightarrow> writeError ''device_not_found'' 404 (ErrorText err) None
    | FeatureNotFound _ \<Rightarrow> writeError ''feature_not_found'' 404 (ErrorText err) None
    | ProgramNotFound _ \<Rightarrow> writeError ''feature_not_found'' 404 (ErrorText err) None
    | FeatureNotWritable _ \<Rightarrow> writeError ''not_writable'' 403 (ErrorText err) None
    | RequestFailed _ \<Rightarrow> (case DeviceErrorCode err of
          Some code \<Rightarrow> if code = 541 then writeError ''write_window_closed'' 409 (ErrorText err) (Some code)
             else writeError ''device_error'' 502 (ErrorText err) (Some code)
        | None \<Rightarrow> writeError ''internal'' 500 (ErrorText err) None))"

definition handleSet_api ::
  "(int \<Rightarrow> string \<Rightarrow> body_error + set_request) \<Rightarrow> string \<Rightarrow> string \<Rightarrow> (string \<times> command_env \<times> world) list
   \<Rightarrow> response \<times> (string \<times> command_env \<times> world) list" where
  "handleSet_api decode device body ds = (case decode maxSetBodyBytes body of
      Inl BodyTooLarge \<Rightarrow> (writeError ''payload_too_large'' 413 (Text ''request body too large'') None, ds)
    | Inl BadBody \<Rightarrow> (writeError ''bad_request'' 400 (Text ''invalid JSON body'') None, ds)
    | Inr req \<Rightarrow>
        if srFeature req = [] then (writeError ''bad_request'' 400 (Text ''feature is required'') None, ds)
        else (case Dispatch ds device (srFeature req) (srValue req) of
            (None, ds') \<Rightarrow> (Accepted device (srFeature req) (srValue req), ds')
          | (Some err, ds') \<Rightarrow> (mapDispatchError err, ds')))"

section \<open>The two ways to write\<close>

lemma mapDispatchError_class:
  "mapDispatchError err = (case classify_error err of
      UnknownDevice e \<Rightarrow> Problem ''device_not_found'' 404 (ErrorText e) None
    | UiNotWritable e \<Rightarrow> (case e of
          FeatureNotWritable _ \<Rightarrow> Problem ''not_writable'' 403 (ErrorText e) None
        | _ \<Rightarrow> Problem ''feature_not_found'' 404 (ErrorText e) None)
    | NotReady e \<Rightarrow> Problem ''write_window_closed'' 409 (ErrorText e) (Some 541)
    | OtherError e \<Rightarrow> (case DeviceErrorCode e of
          None \<Rightarrow> Problem ''internal'' 500 (ErrorText e) None
        | Some code \<Rightarrow> Problem ''device_error'' 502 (ErrorText e) (Some code)))"
  by (cases err) (auto simp: mapDispatchError_def classify_error_def writeError_def split: option.split)

text \<open>
  C38. The device API and the dashboard write alike: a text put to a named feature over the API leaves the
  appliances as the same text written on the dashboard does, one is accepted when the other is, and a refusal
  is answered, key, status and appliance code, by the error the dashboard's class carries. The class alone does
  not say it: the dashboard's not-writable class is 403 for a feature that cannot be written now and 404 for an
  unknown feature or program, and its last class is 502 with the code an appliance answered and 500 without one.
  The dashboard's not-ready class is the code 541, and 409. No refused write is answered 422 or 503: these
  statuses of section 5 of \<^verbatim>\<open>docs/08-web-api.md\<close> do not exist in the code, which answers 500 for a value
  that cannot be converted and for an appliance that is not reachable, and 403, not 409, for a feature that is not
  available.
\<close>

theorem api_matches_dashboard:
  assumes "decode maxSetBodyBytes body = Inr \<lparr>srFeature = feature, srValue = VStr val\<rparr>" "feature \<noteq> []"
  shows "snd (handleSet_api decode device body ds) = fst (snd (Write device feature val (ds, problems)))
    \<and> (case fst (Write device feature val (ds, problems)) of
         None \<Rightarrow> fst (handleSet_api decode device body ds) = Accepted device feature (VStr val)
       | Some e \<Rightarrow> fst (handleSet_api decode device body ds) = (case e of
            UnknownDevice err \<Rightarrow> Problem ''device_not_found'' 404 (ErrorText err) None
          | UiNotWritable err \<Rightarrow> (case err of
                FeatureNotWritable _ \<Rightarrow> Problem ''not_writable'' 403 (ErrorText err) None
              | _ \<Rightarrow> Problem ''feature_not_found'' 404 (ErrorText err) None)
          | NotReady err \<Rightarrow> Problem ''write_window_closed'' 409 (ErrorText err) (Some 541)
          | OtherError err \<Rightarrow> (case DeviceErrorCode err of
                None \<Rightarrow> Problem ''internal'' 500 (ErrorText err) None
              | Some code \<Rightarrow> Problem ''device_error'' 502 (ErrorText err) (Some code)))
          \<and> status_of (fst (handleSet_api decode device body ds)) \<in> {403, 404, 409, 500, 502})"
proof -
  obtain r ds' where d: "Dispatch ds device feature (VStr val) = (r, ds')" by fastforce
  show ?thesis
  proof (cases r)
    case None
    with assms d show ?thesis by (simp add: handleSet_api_def Write_def)
  next
    case (Some err)
    have "status_of (mapDispatchError err) \<in> {403, 404, 409, 500, 502}"
      by (cases err) (auto simp: mapDispatchError_def writeError_def split: option.split)
    with assms d Some show ?thesis by (simp add: handleSet_api_def Write_def flip: mapDispatchError_class)
  qed
qed

definition oven_rack :: "(string \<times> command_env \<times> world) list" where
  "oven_rack = [(''Oven'', washer_env, washer_world)]"

definition power_request :: "int \<Rightarrow> string \<Rightarrow> body_error + set_request" where
  "power_request limit body = (if limit < int (length body) then Inl BodyTooLarge
     else Inr \<lparr>srFeature = ''BSH.Common.Setting.PowerState'', srValue = VStr body\<rparr>)"

lemma power_request_reads: "power_request maxSetBodyBytes ''Warm'' = Inr \<lparr>srFeature = ''BSH.Common.Setting.PowerState'', srValue = VStr ''Warm''\<rparr>"
  by (simp add: power_request_def maxSetBodyBytes_def)

lemma api_matches_dashboard_witness:
  "snd (handleSet_api power_request ''Oven'' ''Warm'' oven_rack)
     = fst (snd (Write ''Oven'' ''BSH.Common.Setting.PowerState'' ''Warm'' (oven_rack, [])))"
  using api_matches_dashboard [where decode = power_request and body = "''Warm''" and device = "''Oven''"
      and feature = "''BSH.Common.Setting.PowerState''" and val = "''Warm''" and ds = oven_rack and problems = "[]"]
  by (simp add: power_request_reads)

text \<open>
  A value that cannot be converted is reported as a failure of the server: for a known, writable feature
  the API answers 500, where its documentation has 422.
\<close>

theorem unconvertible_is_internal:
  assumes "decode maxSetBodyBytes body = Inr req" and "srFeature req \<noteq> []"
    and "deviceByName ds device = Some (env, (a, sw))"
    and "apByName a (srFeature req) = Some i" and "e = apEntities a ! i" and "apByUID a (enUID e) = Some i" and "Writable e"
    and "eKind (enDesc e) \<notin> {KindProgram, KindActiveProgram, KindSelectedProgram}"
    and "resolveWriteValue (ceLower env) e (srValue req) = Inl err"
  shows "fst (handleSet_api decode device body ds) = Problem ''internal'' 500 (ErrorText (RequestFailed (BadValue err))) None"
proof -
  have "fst (dispatch_to env (srFeature req) (srValue req) (a, sw)) = Some (RequestFailed (BadValue err))"
    using assms by (simp add: dispatch_to_def Let_def WriteValue_def)
  then have "fst (Dispatch ds device (srFeature req) (srValue req)) = Some (RequestFailed (BadValue err))"
    using assms(3) by (auto simp: Dispatch_def split: prod.split)
  then show ?thesis using assms(1,2)
    by (auto simp: handleSet_api_def mapDispatchError_def DeviceErrorCode_def writeError_def split: prod.split)
qed

lemma unconvertible_is_internal_witness:
  "\<exists>err. fst (handleSet_api power_request ''Oven'' ''Warm'' oven_rack) = Problem ''internal'' 500 (ErrorText (RequestFailed (BadValue err))) None"
proof -
  let ?e = "apEntities washer ! 0"
  have d: "deviceByName oven_rack ''Oven'' = Some (washer_env, (washer, snd washer_world))"
    by (simp add: deviceByName_def oven_rack_def washer_world_def)
  have h: "apByName washer ''BSH.Common.Setting.PowerState'' = Some 0" "apByUID washer (enUID ?e) = Some 0" "Writable ?e"
    by code_simp+
  have k: "eKind (enDesc ?e) = KindSetting" by code_simp
  have "isl (resolveWriteValue (ceLower washer_env) ?e (VStr ''Warm''))" by code_simp
  then obtain err where "resolveWriteValue (ceLower washer_env) ?e (VStr ''Warm'') = Inl err"
    by (cases "resolveWriteValue (ceLower washer_env) ?e (VStr ''Warm'')") simp_all
  then show ?thesis
    using unconvertible_is_internal [where decode = power_request and body = "''Warm''" and device = "''Oven''" and ds = oven_rack
        and i = 0 and a = washer and e = ?e and env = washer_env and sw = "snd washer_world" and err = err
        and req = "\<lparr>srFeature = ''BSH.Common.Setting.PowerState'', srValue = VStr ''Warm''\<rparr>"] h k d
    by (auto simp: power_request_reads)
qed

end
