(* ===== verification/Tls_Conn.thy ===== *)
theory Tls_Conn
  imports Prelude
begin

text \<open>
  \<^verbatim>\<open>sslConn\<close> of \<^verbatim>\<open>internal/homeconnect/socket_tls_psk.go\<close>: the connection that runs OpenSSL over memory
  buffers on top of a raw TCP connection. Reads, writes, the handshake and \<^verbatim>\<open>Close\<close> run on goroutines of their
  own, so the connection is a step relation over all their interleavings, with its two mutexes.

  OpenSSL is not modelled: an operation answers anything and may queue outgoing chunks. Every access to its
  objects is recorded as a fault when they are already freed. With \<open>peer = False\<close> the peer is dead: reading
  from and writing to the raw connection block while it is open and fail once it is closed.
\<close>

section \<open>The connection\<close>

datatype ssl_answer = Progress | WantRead | WantWrite | ZeroReturn | Failed

datatype tls_result = Succeeded | NetClosed | RawError | EndOfFile | SslError

text \<open>Where a goroutine is: in \<^verbatim>\<open>pump\<close>, in \<^verbatim>\<open>flushOutLocked\<close>, in \<^verbatim>\<open>feedIn\<close>, or in \<^verbatim>\<open>Close\<close>.\<close>

datatype tls_at =
    Outside
  | PumpLock
  | PumpOp
  | Flushing ssl_answer
  | FlushWrite string ssl_answer
  | FeedLock
  | FeedRead
  | FeedChunk string bool
  | FeedPush string bool
  | CloseRaw
  | CloseLock
  | CloseFree
  | Finished tls_result

record ssl_conn =
  scAt :: "nat \<Rightarrow> tls_at"
  scMu :: "nat option"
  scInMu :: "nat option"
  scRawOpen :: bool
  scClosed :: bool
  scLive :: bool
  scFreed :: nat
  scFault :: bool
  scMade :: "string list"
  scOut :: "string list"
  scWire :: "string list"
  scWriteFailed :: bool
  scGot :: "string list"
  scIn :: "string list"

definition ssl_conn0 :: ssl_conn where
  "ssl_conn0 = \<lparr>scAt = (\<lambda>_. Outside), scMu = None, scInMu = None, scRawOpen = True, scClosed = False, scLive = True,
     scFreed = 0, scFault = False, scMade = [], scOut = [], scWire = [], scWriteFailed = False, scGot = [], scIn = []\<rparr>"

abbreviation move :: "nat \<Rightarrow> tls_at \<Rightarrow> ssl_conn \<Rightarrow> ssl_conn" where
  "move i p s \<equiv> s\<lparr>scAt := (scAt s)(i := p)\<rparr>"

text \<open>An access to the SSL objects.\<close>

definition touch :: "ssl_conn \<Rightarrow> ssl_conn" where
  "touch s = s\<lparr>scFault := (scFault s \<or> \<not> scLive s)\<rparr>"

fun after_flush :: "ssl_answer \<Rightarrow> tls_at" where
  "after_flush Progress = Finished Succeeded"
| "after_flush WantRead = FeedLock"
| "after_flush WantWrite = PumpLock"
| "after_flush ZeroReturn = Finished EndOfFile"
| "after_flush Failed = Finished SslError"

definition pump_enter :: "nat \<Rightarrow> ssl_conn \<Rightarrow> ssl_conn" where
  "pump_enter i s = (if scClosed s then move i (Finished NetClosed) s else move i PumpOp (s\<lparr>scMu := Some i\<rparr>))"

definition pump_op :: "nat \<Rightarrow> ssl_answer \<Rightarrow> string list \<Rightarrow> ssl_conn \<Rightarrow> ssl_conn" where
  "pump_op i answer chunks s = move i (Flushing answer) (touch (s\<lparr>scMade := scMade s @ chunks, scOut := scOut s @ chunks\<rparr>))"

definition flush_next :: "nat \<Rightarrow> ssl_answer \<Rightarrow> ssl_conn \<Rightarrow> ssl_conn" where
  "flush_next i answer s = (case scOut s of
      [] \<Rightarrow> move i (after_flush answer) (touch (s\<lparr>scMu := None\<rparr>))
    | c # cs \<Rightarrow> move i (FlushWrite c answer) (touch (s\<lparr>scOut := cs\<rparr>)))"

definition feed_enter :: "nat \<Rightarrow> string \<Rightarrow> bool \<Rightarrow> ssl_conn \<Rightarrow> ssl_conn" where
  "feed_enter i chunk err s =
     (if scClosed s then move i (Finished NetClosed) (s\<lparr>scInMu := None\<rparr>) else move i (FeedPush chunk err) (s\<lparr>scMu := Some i\<rparr>))"

definition feed_push :: "nat \<Rightarrow> string \<Rightarrow> bool \<Rightarrow> ssl_conn \<Rightarrow> ssl_conn" where
  "feed_push i chunk err s =
     move i (if err then Finished RawError else PumpLock) (touch (s\<lparr>scIn := scIn s @ [chunk], scMu := None, scInMu := None\<rparr>))"

definition close_free :: "nat \<Rightarrow> ssl_conn \<Rightarrow> ssl_conn" where
  "close_free i s = (let s1 = (if scClosed s then s else s\<lparr>scClosed := True, scLive := False, scFreed := Suc (scFreed s)\<rparr>)
     in move i (Finished Succeeded) (s1\<lparr>scMu := None\<rparr>))"

text \<open>A step of goroutine \<open>i\<close>.\<close>

inductive tls_step :: "bool \<Rightarrow> nat \<Rightarrow> ssl_conn \<Rightarrow> ssl_conn \<Rightarrow> bool" for peer i where
  call: "scAt s i = Outside \<Longrightarrow> tls_step peer i s (move i PumpLock s)"
| leave: "scAt s i = Finished r \<Longrightarrow> tls_step peer i s (move i Outside s)"
| pump_lock: "scAt s i = PumpLock \<Longrightarrow> scMu s = None \<Longrightarrow> tls_step peer i s (pump_enter i s)"
| pump_op: "scAt s i = PumpOp \<Longrightarrow> tls_step peer i s (pump_op i answer chunks s)"
| flush: "scAt s i = Flushing answer \<Longrightarrow> tls_step peer i s (flush_next i answer s)"
| raw_write: "scAt s i = FlushWrite c answer \<Longrightarrow> scRawOpen s \<Longrightarrow> peer \<Longrightarrow>
    tls_step peer i s (move i (Flushing answer) (s\<lparr>scWire := scWire s @ [c]\<rparr>))"
| raw_write_error: "scAt s i = FlushWrite c answer \<Longrightarrow> peer \<or> \<not> scRawOpen s \<Longrightarrow>
    tls_step peer i s (move i (Finished RawError) (s\<lparr>scMu := None, scWriteFailed := True\<rparr>))"
| feed_lock: "scAt s i = FeedLock \<Longrightarrow> scInMu s = None \<Longrightarrow> tls_step peer i s (move i FeedRead (s\<lparr>scInMu := Some i\<rparr>))"
| raw_read: "scAt s i = FeedRead \<Longrightarrow> scRawOpen s \<Longrightarrow> peer \<Longrightarrow>
    tls_step peer i s (move i (FeedChunk c err) (s\<lparr>scGot := scGot s @ [c]\<rparr>))"
| raw_read_nothing: "scAt s i = FeedRead \<Longrightarrow> scRawOpen s \<Longrightarrow> peer \<Longrightarrow> tls_step peer i s (move i PumpLock (s\<lparr>scInMu := None\<rparr>))"
| raw_read_error: "scAt s i = FeedRead \<Longrightarrow> peer \<or> \<not> scRawOpen s \<Longrightarrow>
    tls_step peer i s (move i (Finished RawError) (s\<lparr>scInMu := None\<rparr>))"
| feed_chunk: "scAt s i = FeedChunk c err \<Longrightarrow> scMu s = None \<Longrightarrow> tls_step peer i s (feed_enter i c err s)"
| feed_push: "scAt s i = FeedPush c err \<Longrightarrow> tls_step peer i s (feed_push i c err s)"
| close: "scAt s i = Outside \<Longrightarrow> tls_step peer i s (move i CloseRaw s)"
| close_raw: "scAt s i = CloseRaw \<Longrightarrow> tls_step peer i s (move i CloseLock (s\<lparr>scRawOpen := False\<rparr>))"
| close_lock: "scAt s i = CloseLock \<Longrightarrow> scMu s = None \<Longrightarrow> tls_step peer i s (move i CloseFree (s\<lparr>scMu := Some i\<rparr>))"
| close_free: "scAt s i = CloseFree \<Longrightarrow> tls_step peer i s (close_free i s)"

definition tls_next :: "bool \<Rightarrow> ssl_conn \<Rightarrow> ssl_conn \<Rightarrow> bool" where
  "tls_next peer s t \<longleftrightarrow> (\<exists>i. tls_step peer i s t)"

definition tls_reachable :: "ssl_conn \<Rightarrow> bool" where
  "tls_reachable s \<longleftrightarrow> (tls_next True)\<^sup>*\<^sup>* ssl_conn0 s"

section \<open>Who holds what\<close>

fun holds_mu :: "tls_at \<Rightarrow> bool" where
  "holds_mu PumpOp = True"
| "holds_mu (Flushing _) = True"
| "holds_mu (FlushWrite _ _) = True"
| "holds_mu (FeedPush _ _) = True"
| "holds_mu CloseFree = True"
| "holds_mu _ = False"

fun holds_in :: "tls_at \<Rightarrow> bool" where
  "holds_in FeedRead = True"
| "holds_in (FeedChunk _ _) = True"
| "holds_in (FeedPush _ _) = True"
| "holds_in _ = False"

text \<open>The chunk drained but not yet written, and the one read but not yet handed to OpenSSL.\<close>

fun leaving :: "tls_at \<Rightarrow> string list" where
  "leaving (FlushWrite c _) = [c]"
| "leaving _ = []"

fun entering :: "tls_at \<Rightarrow> string list" where
  "entering (FeedChunk c _) = [c]"
| "entering (FeedPush c _) = [c]"
| "entering _ = []"

definition held :: "(tls_at \<Rightarrow> string list) \<Rightarrow> nat option \<Rightarrow> ssl_conn \<Rightarrow> string list" where
  "held f owner s = (case owner of None \<Rightarrow> [] | Some i \<Rightarrow> f (scAt s i))"

definition locks_ok :: "ssl_conn \<Rightarrow> bool" where
  "locks_ok s \<longleftrightarrow> (\<forall>i. (holds_mu (scAt s i) \<longleftrightarrow> scMu s = Some i) \<and> (holds_in (scAt s i) \<longleftrightarrow> scInMu s = Some i)
     \<and> (holds_mu (scAt s i) \<and> scAt s i \<noteq> CloseFree \<longrightarrow> \<not> scClosed s)
     \<and> (scAt s i \<in> {CloseLock, CloseFree} \<longrightarrow> \<not> scRawOpen s))"

definition objects_ok :: "ssl_conn \<Rightarrow> bool" where
  "objects_ok s \<longleftrightarrow> \<not> scFault s \<and> (scLive s \<longleftrightarrow> \<not> scClosed s) \<and> scFreed s = (if scClosed s then 1 else 0)"

definition streams_ok :: "ssl_conn \<Rightarrow> bool" where
  "streams_ok s \<longleftrightarrow> (\<not> scWriteFailed s \<longrightarrow> scMade s = scWire s @ held leaving (scMu s) s @ scOut s)
     \<and> (if scClosed s then prefix (scIn s) (scGot s) else scGot s = scIn s @ held entering (scInMu s) s)"

lemma locks_ok_start: "locks_ok ssl_conn0"
  by (simp add: locks_ok_def ssl_conn0_def)

lemmas tls_ops = pump_enter_def pump_op_def flush_next_def feed_enter_def feed_push_def close_free_def touch_def

lemma after_flush_free [simp]:
  "\<not> holds_mu (after_flush a)" "\<not> holds_in (after_flush a)" "after_flush a \<noteq> CloseLock" "after_flush a \<noteq> CloseFree"
  "leaving (after_flush a) = []" "entering (after_flush a) = []"
  by (cases a; simp)+

lemma locks_okD:
  assumes "locks_ok s"
  shows "holds_mu (scAt s i) \<longleftrightarrow> scMu s = Some i" "holds_in (scAt s i) \<longleftrightarrow> scInMu s = Some i"
    "holds_mu (scAt s i) \<Longrightarrow> scAt s i \<noteq> CloseFree \<Longrightarrow> \<not> scClosed s"
  using assms by (simp_all add: locks_ok_def)

lemma locks_ok_step:
  assumes "tls_step peer i s t" and "locks_ok s"
  shows "locks_ok t"
  using assms(1)
proof cases
  case (flush answer)
  with assms(2) locks_okD [OF assms(2), of i] show ?thesis by (cases "scOut s") (auto simp: locks_ok_def tls_ops)
qed (use assms(2) locks_okD [OF assms(2), of i] in \<open>auto simp: locks_ok_def tls_ops Let_def\<close>)

lemma objects_ok_step:
  assumes "tls_step peer i s t" and "locks_ok s" and "objects_ok s"
  shows "objects_ok t"
  using assms(1)
proof cases
  case (flush answer)
  with assms(3) locks_okD [OF assms(2), of i] show ?thesis by (cases "scOut s") (auto simp: objects_ok_def tls_ops)
qed (use assms(3) locks_okD [OF assms(2), of i] in \<open>auto simp: objects_ok_def tls_ops Let_def\<close>)

lemma held_move:
  "held f owner (move i p s) = (case owner of None \<Rightarrow> [] | Some j \<Rightarrow> if j = i then f p else f (scAt s j))"
  by (simp add: held_def split: option.split)

lemma streams_ok_step:
  assumes "tls_step peer i s t" and "locks_ok s" and "streams_ok s"
  shows "streams_ok t"
  using assms(1)
proof cases
  case (flush answer)
  with assms(3) locks_okD [OF assms(2), of i] show ?thesis
    by (cases "scOut s") (auto simp: streams_ok_def tls_ops held_def split: option.splits if_splits)
qed (use assms(3) locks_okD [OF assms(2), of i] in
    \<open>auto simp: streams_ok_def tls_ops held_def Let_def split: option.splits if_splits\<close>)

definition tls_ok :: "ssl_conn \<Rightarrow> bool" where
  "tls_ok s \<longleftrightarrow> locks_ok s \<and> objects_ok s \<and> streams_ok s"

lemma tls_ok_start: "tls_ok ssl_conn0"
  by (simp add: tls_ok_def locks_ok_start) (simp add: objects_ok_def streams_ok_def held_def ssl_conn0_def)

interpretation tls_steps: step_invariant "\<lambda>s. s = ssl_conn0" "tls_next peer" tls_ok for peer
proof
  show "s = ssl_conn0 \<Longrightarrow> tls_ok s" for s using tls_ok_start by simp
  show "tls_next peer s t \<Longrightarrow> tls_ok s \<Longrightarrow> tls_ok t" for s t
    by (auto simp: tls_next_def tls_ok_def intro: locks_ok_step objects_ok_step streams_ok_step)
qed

lemma tls_reachable_ok: "tls_reachable s \<Longrightarrow> tls_ok s"
  unfolding tls_reachable_def by (erule tls_steps.reachable_inv) (rule refl)

text \<open>
  C39. However reads, writes, the handshake and any number of closes interleave, OpenSSL's objects are never
  touched after they were freed and are freed at most once; what was written to the connection is what OpenSSL
  made, in order and without a gap, as long as no write failed; and OpenSSL is fed what was read, in order.
\<close>

theorem tls_memory_safe:
  assumes "tls_reachable s"
  shows "\<not> scFault s \<and> scFreed s \<le> 1 \<and> (\<not> scWriteFailed s \<longrightarrow> prefix (scWire s) (scMade s)) \<and> prefix (scIn s) (scGot s)"
proof -
  from tls_reachable_ok [OF assms] have "objects_ok s" "streams_ok s" by (simp_all add: tls_ok_def)
  then show ?thesis by (auto simp: objects_ok_def streams_ok_def split: if_splits)
qed

section \<open>Closing\<close>

lemma then_step: "tls_step peer i s t \<Longrightarrow> (tls_next peer)\<^sup>*\<^sup>* t u \<Longrightarrow> (tls_next peer)\<^sup>*\<^sup>* s u"
  by (rule converse_rtranclp_into_rtranclp) (auto simp: tls_next_def)

text \<open>Whoever holds the mutex gives it back without the peer once the raw connection is closed.\<close>

definition gives_back :: "nat \<Rightarrow> ssl_conn \<Rightarrow> bool" where
  "gives_back j s \<longleftrightarrow> (\<exists>t. (tls_next False)\<^sup>*\<^sup>* s t \<and> scMu t = None \<and> (\<forall>k. k \<noteq> j \<longrightarrow> scAt t k = scAt s k))"

lemma gives_back_now: "scMu s = None \<Longrightarrow> gives_back j s"
  unfolding gives_back_def by blast

lemma gives_back_step:
  assumes "tls_step False j s t" and "\<forall>k. k \<noteq> j \<longrightarrow> scAt t k = scAt s k" and "gives_back j t"
  shows "gives_back j s"
proof -
  obtain u where "(tls_next False)\<^sup>*\<^sup>* t u" "scMu u = None" "\<forall>k. k \<noteq> j \<longrightarrow> scAt u k = scAt t k"
    using assms(3) unfolding gives_back_def by blast
  then show ?thesis using then_step [OF assms(1)] assms(2) unfolding gives_back_def by (intro exI [of _ u]) simp
qed

lemma write_gives_back: "scAt s j = FlushWrite c a \<Longrightarrow> \<not> scRawOpen s \<Longrightarrow> gives_back j s"
  by (rule gives_back_step [OF tls_step.raw_write_error]) (simp_all add: gives_back_now)

lemma flush_gives_back:
  assumes "scAt s j = Flushing a" "\<not> scRawOpen s"
  shows "gives_back j s"
proof (cases "scOut s")
  case Nil
  show ?thesis by (rule gives_back_step [OF tls_step.flush [OF assms(1)]]) (simp_all add: Nil gives_back_now tls_ops)
next
  case (Cons c cs)
  have "gives_back j (flush_next j a s)" by (rule write_gives_back) (simp_all add: Cons tls_ops assms(2))
  then show ?thesis by (rule gives_back_step [OF tls_step.flush [OF assms(1)], rotated]) (simp add: Cons tls_ops)
qed

lemma holder_gives_back:
  assumes "holds_mu (scAt s j)" "\<not> scRawOpen s"
  shows "gives_back j s"
proof (cases "scAt s j")
  case PumpOp
  have "gives_back j (pump_op j Progress [] s)" by (rule flush_gives_back) (simp_all add: tls_ops assms(2))
  then show ?thesis by (rule gives_back_step [OF tls_step.pump_op [OF PumpOp], rotated]) (simp add: tls_ops)
next
  case (FeedPush c err)
  have "gives_back j (feed_push j c err s)" by (rule gives_back_now) (simp add: tls_ops)
  then show ?thesis by (rule gives_back_step [OF tls_step.feed_push [OF FeedPush], rotated]) (simp add: tls_ops)
next
  case CloseFree
  have "gives_back j (close_free j s)" by (rule gives_back_now) (simp add: tls_ops Let_def)
  then show ?thesis by (rule gives_back_step [OF tls_step.close_free [OF CloseFree], rotated]) (simp add: tls_ops Let_def)
qed (use assms in \<open>auto intro: flush_gives_back write_gives_back\<close>)

lemma free_lock_closes:
  assumes "scAt s i = CloseLock" "scMu s = None"
  shows "\<exists>t. (tls_next False)\<^sup>*\<^sup>* s t \<and> scAt t i = Finished Succeeded \<and> scClosed t"
proof -
  let ?s1 = "move i CloseFree (s\<lparr>scMu := Some i\<rparr>)"
  have "tls_step False i s ?s1" using assms by (rule tls_step.close_lock)
  moreover have "tls_step False i ?s1 (close_free i ?s1)" by (rule tls_step.close_free) simp
  ultimately have "(tls_next False)\<^sup>*\<^sup>* s (close_free i ?s1)" by (blast intro: then_step)
  then show ?thesis by (intro exI [of _ "close_free i ?s1"]) (simp add: close_free_def Let_def)
qed

text \<open>
  Closing never waits for a dead peer: whenever a close has closed the raw connection and waits for the
  mutex, it can be completed by steps none of which needs the peer, whoever holds the mutex and even if that
  goroutine is blocked in a write.
\<close>

theorem close_needs_no_peer:
  assumes "tls_reachable s" and "scAt s i = CloseLock"
  shows "\<exists>t. (tls_next False)\<^sup>*\<^sup>* s t \<and> scAt t i = Finished Succeeded \<and> scClosed t"
proof -
  have l: "locks_ok s" using tls_reachable_ok [OF assms(1)] by (simp add: tls_ok_def)
  then have raw: "\<not> scRawOpen s" using assms(2) by (auto simp: locks_ok_def)
  show ?thesis
  proof (cases "scMu s")
    case None
    with assms(2) show ?thesis by (rule free_lock_closes)
  next
    case (Some j)
    with locks_okD(1) [OF l, of j] have h: "holds_mu (scAt s j)" by simp
    with assms(2) have "i \<noteq> j" by auto
    moreover obtain t where t: "(tls_next False)\<^sup>*\<^sup>* s t" "scMu t = None" "\<forall>k. k \<noteq> j \<longrightarrow> scAt t k = scAt s k"
      using holder_gives_back [OF h raw] unfolding gives_back_def by blast
    ultimately obtain u where "(tls_next False)\<^sup>*\<^sup>* t u \<and> scAt u i = Finished Succeeded \<and> scClosed u"
      using free_lock_closes [of t i] assms(2) by auto
    with t(1) show ?thesis by (meson rtranclp_trans)
  qed
qed

text \<open>A writer is stuck with the mutex in its hands while another goroutine closes.\<close>

definition stuck_writer :: ssl_conn where
  "stuck_writer = ssl_conn0\<lparr>scAt := (\<lambda>_. Outside)(0 := FlushWrite ''x'' Progress, 1 := CloseLock), scMu := Some 0,
     scMade := [''x''], scRawOpen := False\<rparr>"

lemma stuck_writer_reachable: "tls_reachable stuck_writer"
proof -
  let ?R = "(tls_next True)\<^sup>*\<^sup>*"
  let ?at = "\<lambda>p q. (\<lambda>_. Outside)(0 := p, 1 := q)"
  have step: "?R s u" if "?R s t" "tls_step True i t t'" "t' = u" for s t t' u i
  proof -
    have "tls_next True t u" using that(2,3) by (auto simp: tls_next_def)
    with that(1) show ?thesis by (rule rtranclp.rtrancl_into_rtrancl)
  qed
  have "?R ssl_conn0 (ssl_conn0\<lparr>scAt := ?at Outside Outside\<rparr>)"
    by (simp add: ssl_conn0_def fun_upd_idem)
  then have "?R ssl_conn0 (ssl_conn0\<lparr>scAt := ?at PumpLock Outside\<rparr>)"
    by (rule step [OF _ tls_step.call [where i = 0]]) (simp_all add: fun_upd_twist)
  then have "?R ssl_conn0 (ssl_conn0\<lparr>scAt := ?at PumpOp Outside, scMu := Some 0\<rparr>)"
    by (rule step [OF _ tls_step.pump_lock [where i = 0]]) (simp_all add: ssl_conn0_def pump_enter_def fun_upd_twist)
  then have "?R ssl_conn0 (ssl_conn0\<lparr>scAt := ?at (Flushing Progress) Outside, scMu := Some 0, scMade := [''x''], scOut := [''x'']\<rparr>)"
    by (rule step [OF _ tls_step.pump_op [where i = 0 and answer = Progress and chunks = "[''x'']"]])
      (simp_all add: ssl_conn0_def pump_op_def touch_def fun_upd_twist)
  then have "?R ssl_conn0 (ssl_conn0\<lparr>scAt := ?at (FlushWrite ''x'' Progress) Outside, scMu := Some 0, scMade := [''x'']\<rparr>)"
    by (rule step [OF _ tls_step.flush [where i = 0 and answer = Progress]])
      (simp_all add: ssl_conn0_def flush_next_def touch_def fun_upd_twist)
  then have "?R ssl_conn0 (ssl_conn0\<lparr>scAt := ?at (FlushWrite ''x'' Progress) CloseRaw, scMu := Some 0, scMade := [''x'']\<rparr>)"
    by (rule step [OF _ tls_step.close [where i = 1]]) (simp_all add: ssl_conn0_def)
  then have "?R ssl_conn0 stuck_writer"
    by (rule step [OF _ tls_step.close_raw [where i = 1]]) (simp_all add: ssl_conn0_def stuck_writer_def)
  then show ?thesis by (simp add: tls_reachable_def)
qed

lemma tls_memory_safe_witness: "\<not> scFault stuck_writer \<and> scFreed stuck_writer \<le> 1 \<and> prefix (scWire stuck_writer) (scMade stuck_writer)"
  using tls_memory_safe [OF stuck_writer_reachable] by (simp add: stuck_writer_def ssl_conn0_def)

lemma close_needs_no_peer_witness:
  "\<exists>t. (tls_next False)\<^sup>*\<^sup>* stuck_writer t \<and> scAt t 1 = Finished Succeeded \<and> scClosed t"
  by (rule close_needs_no_peer [OF stuck_writer_reachable]) (simp add: stuck_writer_def)

section \<open>The socket\<close>

text \<open>
  \<^verbatim>\<open>TLSSocket\<close> of \<^verbatim>\<open>socket_tls.go\<close>: it hands every call to its present connection. Connections are \<open>'c\<close>, and
  dialling and a connection's own operations act on a world \<open>'w\<close>.
\<close>

datatype 'e tls_error = EmptyHost | NotConnected | ConnError 'e

record 'c tls_socket =
  tsHost :: string
  tsPSK :: string
  tsConn :: "'c option"

definition NewTLSSocket :: "string \<Rightarrow> string \<Rightarrow> 'e tls_error + 'c tls_socket" where
  "NewTLSSocket host psk = (if host = [] then Inl EmptyHost else Inr \<lparr>tsHost = host, tsPSK = psk, tsConn = None\<rparr>)"

definition tls_connect ::
  "(string \<Rightarrow> string \<Rightarrow> 'w \<Rightarrow> ('e + 'c) \<times> 'w) \<Rightarrow> 'c tls_socket \<Rightarrow> 'w \<Rightarrow> 'e tls_error option \<times> 'c tls_socket \<times> 'w" where
  "tls_connect tlsPSKConnect s w = (case tlsPSKConnect (tsHost s) (tsPSK s) w of
      (Inl err, w') \<Rightarrow> (Some (ConnError err), s, w')
    | (Inr c, w') \<Rightarrow> (None, s\<lparr>tsConn := Some c\<rparr>, w'))"

definition tls_current :: "'c tls_socket \<Rightarrow> 'e tls_error + 'c" where
  "tls_current s = (case tsConn s of None \<Rightarrow> Inl NotConnected | Some c \<Rightarrow> Inr c)"

text \<open>\<^verbatim>\<open>Send\<close>, \<^verbatim>\<open>Receive\<close> and \<^verbatim>\<open>Ping\<close> differ in the operation of the connection.\<close>

definition tls_forward ::
  "('c \<Rightarrow> 'w \<Rightarrow> ('e + 'a) \<times> 'w) \<Rightarrow> 'c tls_socket \<Rightarrow> 'w \<Rightarrow> ('e tls_error + 'a) \<times> 'w" where
  "tls_forward f s w = (case tls_current s of
      Inl err \<Rightarrow> (Inl err, w)
    | Inr c \<Rightarrow> (case f c w of (Inl err, w') \<Rightarrow> (Inl (ConnError err), w') | (Inr x, w') \<Rightarrow> (Inr x, w')))"

definition tls_close :: "('c \<Rightarrow> 'w \<Rightarrow> 'e option \<times> 'w) \<Rightarrow> 'c tls_socket \<Rightarrow> 'w \<Rightarrow> 'e option \<times> 'c tls_socket \<times> 'w" where
  "tls_close shut s w = (case tsConn s of
      None \<Rightarrow> (None, s\<lparr>tsConn := None\<rparr>, w)
    | Some c \<Rightarrow> (case shut c w of (err, w') \<Rightarrow> (err, s\<lparr>tsConn := None\<rparr>, w')))"

text \<open>After a close, whether it reported an error or not, nothing reaches the connection, nor does a second close.\<close>

lemma closed_socket_refuses:
  assumes "tls_close shut s w = (err, s', w')"
  shows "tls_forward f s' v = (Inl NotConnected, v)" and "tls_close shut s' v = (None, s', v)"
  using assms by (auto simp: tls_close_def tls_forward_def tls_current_def split: option.splits prod.splits)

end
