(* ===== verification/Message_Codec.thy ===== *)
theory Message_Codec
  imports Messages
begin

text \<open>
  What goes on the wire (\<^verbatim>\<open>Message.Encode\<close> of \<^verbatim>\<open>internal/homeconnect/message.go\<close>) and what comes back of it
  when the other end decodes it as this program does.

  The JSON encoder is the field \<open>marshal\<close>, from the fields handed to it to the bytes, and \<open>marshalData\<close> the
  text it gives the data. What \<^verbatim>\<open>encoding/json\<close> is documented to read of what it wrote is \<open>reads_back\<close>: every
  number comes back as a \<^verbatim>\<open>float64\<close>.
\<close>

section \<open>Encoding\<close>

datatype wire_data = NoData | ListData "obj list" | RawData string

record wire_message =
  wmSID :: int
  wmMsgID :: int
  wmResource :: string
  wmVersion :: int
  wmAction :: string
  wmData :: wire_data
  wmCode :: "int option"

text \<open>The data are left out when they are empty, but not those in a fixed order.\<close>

definition wire_of :: "message \<Rightarrow> wire_message" where
  "wire_of m = \<lparr>wmSID = SID m, wmMsgID = MsgID m, wmResource = Resource m, wmVersion = Version m, wmAction = Action m,
     wmData = (case orderedData m of
        None \<Rightarrow> if Data m = [] then NoData else ListData (Data m)
      | Some raw \<Rightarrow> RawData raw),
     wmCode = Code m\<rparr>"

definition Encode :: "(wire_message \<Rightarrow> string option) \<Rightarrow> message \<Rightarrow> string option" where
  "Encode marshal m = marshal (wire_of m)"

section \<open>Reading back\<close>

text \<open>Integers are decimal, a missing member leaves its field empty.\<close>

definition raw_of :: "(obj list \<Rightarrow> string) \<Rightarrow> wire_message \<Rightarrow> raw_message" where
  "raw_of dataText w = \<lparr>rawSID = itoa (wmSID w), rawMsgID = itoa (wmMsgID w), rawResource = wmResource w,
     rawVersion = itoa (wmVersion w), rawAction = wmAction w,
     rawData = (case wmData w of NoData \<Rightarrow> [] | ListData d \<Rightarrow> dataText d | RawData r \<Rightarrow> r),
     rawCode = (case wmCode w of None \<Rightarrow> [] | Some c \<Rightarrow> itoa c)\<rparr>"

text \<open>
  What a value is decoded to, into an \<^verbatim>\<open>any\<close>, from the text it was encoded to: an integer is a \<^verbatim>\<open>float64\<close> then,
  rounded to one; a finite float, a Boolean, a text in UTF-8 and \<^verbatim>\<open>null\<close> are themselves; containers keep their
  shape, a map in whatever order.
\<close>

inductive json_reads :: "any \<Rightarrow> any \<Rightarrow> bool" where
  reads_nil: "json_reads VNil VNil"
| reads_bool: "json_reads (VBool x) (VBool x)"
| reads_int: "json_reads (VInt n) (VFloat (int_to_f64 n))"
| reads_int64: "json_reads (VInt64 n) (VFloat (int_to_f64 n))"
| reads_float: "json_reads (VFloat (Fin q)) (VFloat (Fin q))"
| reads_text: "json_reads (VStr t) (VStr t)"
| reads_list: "length xs = length ys \<Longrightarrow> (\<forall>i<length xs. json_reads (xs ! i) (ys ! i)) \<Longrightarrow> json_reads (VList xs) (VList ys)"
| reads_map: "(\<forall>k. (map_of xs k = None) = (map_of ys k = None)) \<Longrightarrow>
    (\<forall>k v w. map_of xs k = Some v \<longrightarrow> map_of ys k = Some w \<longrightarrow> json_reads v w) \<Longrightarrow> json_reads (VMap xs) (VMap ys)"

inductive_cases reads_VNil: "json_reads VNil w"
inductive_cases reads_VBool: "json_reads (VBool x) w"
inductive_cases reads_VInt: "json_reads (VInt n) w"
inductive_cases reads_VInt64: "json_reads (VInt64 n) w"
inductive_cases reads_VFloat: "json_reads (VFloat f) w"
inductive_cases reads_VStr: "json_reads (VStr t) w"
inductive_cases reads_VMap: "json_reads (VMap xs) w"

definition reads_back :: "json_lib \<Rightarrow> (obj list \<Rightarrow> string) \<Rightarrow> wire_message \<Rightarrow> string \<Rightarrow> bool" where
  "reads_back J dataText w b \<longleftrightarrow> unmarshalRaw J b raw0 = (True, raw_of dataText w)
     \<and> (case wmData w of
          ListData d \<Rightarrow> dataText d \<noteq> [] \<and> trim_space (dataText d) \<noteq> ''null''
            \<and> (\<exists>d'. unmarshalList J (dataText d) [] = (True, d') \<and> list_all2 (\<lambda>x y. json_reads (VMap x) (VMap y)) d d')
        | _ \<Rightarrow> True)"

section \<open>A decimal integer read as a float\<close>

definition visible :: "char \<Rightarrow> bool" where
  "visible c \<longleftrightarrow> 33 \<le> (of_char c :: nat) \<and> (of_char c :: nat) \<le> 126"

lemma visible_no_prefix:
  assumes "visible c" and "list_all (\<lambda>w. w \<noteq> [] \<and> \<not> visible (hd w)) ws"
  shows "find (\<lambda>w. prefix w (c # cs)) ws = None"
proof -
  have "\<not> prefix w (c # cs)" if "w \<in> set ws" for w
  proof -
    from that assms(2) have "w \<noteq> []" "\<not> visible (hd w)" by (simp_all add: list_all_iff)
    with assms(1) show ?thesis by (cases w) auto
  qed
  then show ?thesis by (simp add: find_None_iff)
qed

lemma spaces_invisible:
  "list_all (\<lambda>w. w \<noteq> [] \<and> \<not> visible (hd w)) space_runes"
  "list_all (\<lambda>w. w \<noteq> [] \<and> \<not> visible (hd w)) (List.map rev space_runes)"
  by (simp_all add: space_runes_def visible_def)

lemma trim_space_visible:
  assumes "s \<noteq> []" "visible (hd s)" "visible (last s)"
  shows "trim_space s = s"
proof -
  obtain c cs where s: "s = c # cs" using assms(1) by (cases s) auto
  obtain d ds where r: "rev s = d # ds" using assms(1) by (cases "rev s") auto
  have "d = last s" using r assms(1) by (metis hd_rev list.sel(1))
  then have "visible d" using assms(3) by simp
  then have "trim_right_space s = s"
    using visible_no_prefix [of d "List.map rev space_runes" ds] spaces_invisible(2) r
    by (simp add: trim_right_space_def strip_prefixes_none)
  moreover have "trim_left_space s = s"
    using visible_no_prefix [of c space_runes cs] spaces_invisible(1) assms(2) s
    by (simp add: trim_left_space_def strip_prefixes_none)
  ultimately show ?thesis by (simp add: trim_space_def)
qed

lemma digit_visible: "is_digit c \<Longrightarrow> visible c"
  by (simp add: is_digit_def visible_def)

lemma digit_no_letter: "is_digit c \<Longrightarrow> lower_char c = c \<and> c \<noteq> CHR ''i'' \<and> c \<noteq> CHR ''n'' \<and> c \<noteq> CHR ''x'' \<and> c \<noteq> CHR 0x22
    \<and> c \<noteq> CHR ''_'' \<and> c \<noteq> CHR ''.'' \<and> c \<noteq> CHR ''-'' \<and> c \<noteq> CHR ''+''"
  by (auto simp: is_digit_def lower_char_def)

lemma digit_value: "is_digit c \<Longrightarrow> \<exists>d. digit_val c = Some d \<and> d < 10"
  by (auto simp: is_digit_def digit_val_def)

lemma scan_digits:
  assumes "list_all is_digit ds" "parse_digits 10 (mant st) ds = Some v" "\<not> sawdot st" "ds \<noteq> []"
  shows "scan_mant 10 st ds = (st\<lparr>mant := v, sawdigits := True\<rparr>, [])"
  using assms
proof (induction ds arbitrary: st)
  case (Cons c ds)
  obtain d where d: "digit_val c = Some d" "d < 10" using digit_value [of c] Cons.prems(1) by auto
  let ?st = "st\<lparr>mant := mant st * 10 + int d, sawdigits := True\<rparr>"
  have "scan_mant 10 st (c # ds) = scan_mant 10 ?st ds"
    using d Cons.prems(1,3) digit_no_letter [of c] by simp
  moreover have "parse_digits 10 (mant ?st) ds = Some v" using d Cons.prems(2) by simp
  ultimately show ?case using Cons.IH [of ?st] Cons.prems by (cases ds) simp_all
qed simp

lemma read_digits:
  assumes "list_all is_digit ds" "parse_digits 10 0 ds = Some v" "ds \<noteq> []"
  shows "read_float ds = Some (of_int v)" "read_float (CHR ''-'' # ds) = Some (- of_int v)"
proof -
  have sc: "scan_mant 10 scan0 ds = (scan0\<lparr>mant := v, sawdigits := True\<rparr>, [])"
    by (rule scan_digits) (use assms in \<open>simp_all add: scan0_def\<close>)
  obtain c cs where c: "ds = c # cs" "is_digit c" using assms by (cases ds) auto
  have "split_sign ds = (False, ds)" "split_sign (CHR ''-'' # ds) = (True, ds)"
    using c digit_no_letter [of c] by (simp_all add: split_sign_def)
  moreover have "List.map lower_char (take 2 ds) \<noteq> ''0x''"
  proof
    assume "List.map lower_char (take 2 ds) = ''0x''"
    with c obtain x xs where "cs = x # xs" "lower_char x = CHR ''x''" by (cases cs) auto
    with assms(1) c digit_no_letter [of x] show False by auto
  qed
  ultimately show "read_float ds = Some (of_int v)" "read_float (CHR ''-'' # ds) = Some (- of_int v)"
    using sc by (simp_all add: read_float_def Let_def scan0_def)
qed

lemma digits_not_special:
  assumes "list_all is_digit ds" "ds \<noteq> []"
  shows "special_float ds = None" "special_float (CHR ''-'' # ds) = None"
proof -
  obtain c cs where c: "ds = c # cs" "is_digit c" using assms by (cases ds) auto
  have "split_sign ds = (False, ds)" "split_sign (CHR ''-'' # ds) = (True, ds)"
    using c digit_no_letter [of c] by (simp_all add: split_sign_def)
  with c digit_no_letter [of c] show "special_float ds = None" "special_float (CHR ''-'' # ds) = None"
    by (simp_all add: special_float_def Let_def lower_char_def)
qed

lemma digits10_all: "0 \<le> n \<Longrightarrow> list_all is_digit (digits10 n)"
  using digits10_digit by (auto simp: list_all_iff)

lemma parse_float_itoa: "parse_float (itoa n) = round_f64 (of_int n)"
  by (simp add: itoa_def parse_float_def read_digits [OF digits10_all parse_digits10 digits10_ne]
      digits_not_special [OF digits10_all digits10_ne])

lemma itoa_edges: "itoa n \<noteq> []" "visible (hd (itoa n))" "visible (last (itoa n))" "CHR 0x22 \<notin> set (itoa n)"
  using digits10_ne [of "\<bar>n\<bar>"] digits10_digit [of "\<bar>n\<bar>"] digit_visible digit_no_letter
  by (auto simp: itoa_def visible_def abs_if split: if_splits)

lemma trim_quotes_itoa: "trim_quotes (itoa n) = itoa n"
proof -
  have "dropWhile (\<lambda>c. c = CHR 0x22) s = s" if "CHR 0x22 \<notin> set s" for s using that by (cases s) auto
  then show ?thesis using itoa_edges(4) [of n] by (simp add: trim_quotes_def)
qed

lemma itoa_not_null: "itoa n \<noteq> ''null''"
  using itoa_edges digits10_digit [of "\<bar>n\<bar>" "CHR ''n''"] by (auto simp: itoa_def is_digit_def abs_if split: if_splits)

lemma optionalInt_itoa: "optionalInt (itoa n) = map_option f64_to_int (round_f64 (of_int n))"
  by (simp add: optionalInt_def Let_def trim_space_visible itoa_edges itoa_not_null trim_quotes_itoa parse_float_itoa
      split: option.split)

text \<open>Up to 53 bits the integer comes back; beyond it is rounded.\<close>

lemma optionalInt_exact:
  assumes "\<bar>n\<bar> < 2 ^ 53"
  shows "optionalInt (itoa n) = Some n"
proof -
  have "round_f64 (of_int n) = Some (Fin (of_int n))"
    using int_to_f64_exact [OF assms] by (auto simp: int_to_f64_def split: option.splits)
  moreover have "in_int64 n" using assms by (auto simp: in_int64_def int64_min_def int64_max_def)
  ultimately show ?thesis by (simp add: optionalInt_itoa f64_to_int_of_int del: f64_to_int.simps)
qed

lemma optionalInt_Nil: "optionalInt [] = None"
  by (simp add: optionalInt_def)

lemma coerceInt_exact: "\<bar>n\<bar> < 2 ^ 53 \<Longrightarrow> coerceInt (itoa n) = n"
  by (simp add: coerceInt_def optionalInt_exact)

section \<open>Round trip\<close>

text \<open>
  What the reader of a member finds: the same integer, through \<open>anyToInt\<close>, when it has at most 53 bits, and the
  same Boolean, text, float or \<^verbatim>\<open>null\<close>.
\<close>

definition same_reading :: "any \<Rightarrow> any \<Rightarrow> bool" where
  "same_reading v w \<longleftrightarrow> (case v of
      VInt n \<Rightarrow> \<bar>n\<bar> < 2 ^ 53 \<longrightarrow> anyToInt w = n \<and> w = VFloat (Fin (of_int n))
    | VInt64 n \<Rightarrow> \<bar>n\<bar> < 2 ^ 53 \<longrightarrow> anyToInt w = n \<and> w = VFloat (Fin (of_int n))
    | VList xs \<Rightarrow> (\<exists>ys. w = VList ys \<and> length ys = length xs)
    | VMap xs \<Rightarrow> (\<exists>ys. w = VMap ys \<and> dom (map_of ys) = dom (map_of xs))
    | _ \<Rightarrow> w = v)"

lemma anyToInt_read:
  assumes "\<bar>n\<bar> < 2 ^ 53"
  shows "anyToInt (VFloat (Fin (of_int n))) = n \<and> int_to_f64 n = Fin (of_int n)"
proof -
  have "in_int64 n" using assms by (auto simp: in_int64_def int64_min_def int64_max_def)
  then show ?thesis using int_to_f64_exact [OF assms]
    by (simp add: anyToInt_def f64_to_int_of_int del: f64_to_int.simps)
qed

lemma json_reads_same: "json_reads v w \<Longrightarrow> same_reading v w"
  by (erule json_reads.cases) (use anyToInt_read in \<open>auto simp: same_reading_def dom_def\<close>)

lemma reads_member:
  assumes "json_reads (VMap x) (VMap y)"
  shows "rel_option same_reading (map_of x k) (map_of y k)"
proof -
  from assms have n: "(map_of x k = None) = (map_of y k = None)"
    and r: "\<And>v w. map_of x k = Some v \<Longrightarrow> map_of y k = Some w \<Longrightarrow> json_reads v w"
    by (auto elim: reads_VMap)
  show ?thesis
  proof (cases "map_of x k")
    case None
    with n show ?thesis by simp
  next
    case (Some v)
    then obtain w where "map_of y k = Some w" using n by (cases "map_of y k") auto
    with Some r json_reads_same show ?thesis by simp
  qed
qed

lemma firstInt_read:
  assumes "list_all2 (\<lambda>x y. json_reads (VMap x) (VMap y)) d d'" and "x = (case d of [] \<Rightarrow> VNil | o' # _ \<Rightarrow> obj_get o' key)"
    and "(\<forall>n. x = VInt n \<or> x = VInt64 n \<longrightarrow> \<bar>n\<bar> < 2 ^ 53)"
  shows "firstInt d' key = firstInt d key"
proof (cases d)
  case Nil
  with assms(1) show ?thesis by (simp add: firstInt_def)
next
  case (Cons o1 os)
  with assms(1) obtain o2 os' where d': "d' = o2 # os'" and r: "json_reads (VMap o1) (VMap o2)"
    by (auto simp: list_all2_Cons1)
  from reads_member [OF r, of key] have "anyToInt (obj_get o2 key) = anyToInt (obj_get o1 key)"
  proof (cases rule: option.rel_cases)
    case (Some v w)
    with assms(2,3) Cons show ?thesis
      by (cases v) (auto simp: obj_get_def same_reading_def anyToInt_def)
  qed (simp add: obj_get_def)
  with Cons d' show ?thesis by (simp add: firstInt_def)
qed

text \<open>
  C15. What a reader of the encoded message gets: the identifiers, the resource, the version, the action and the
  code as they were sent, as long as the numbers have at most 53 bits; and the data items in order, each with the
  same members. A member that was a Boolean, a text, a float or \<^verbatim>\<open>null\<close> is that value, and an integer of at most 53
  bits is read as the same integer, although the decoder makes a float of it; so is the integer the handshake
  takes from the first item. Data in a fixed order come back as what the decoder reads of them. The texts are in
  UTF-8 and the floats finite: others \<^verbatim>\<open>encoding/json\<close> replaces or refuses.
\<close>

theorem message_roundtrip:
  assumes "Encode marshal m = Some b" and "reads_back J dataText (wire_of m) b"
    and "\<bar>SID m\<bar> < 2 ^ 53" "\<bar>MsgID m\<bar> < 2 ^ 53" "\<bar>Version m\<bar> < 2 ^ 53" "pred_option (\<lambda>c. \<bar>c\<bar> < 2 ^ 53) (Code m)"
  shows "\<exists>m'. DecodeMessage J b = Some m'
    \<and> SID m' = SID m \<and> MsgID m' = MsgID m \<and> Resource m' = Resource m \<and> Version m' = Version m
    \<and> Action m' = Action m \<and> Code m' = Code m
    \<and> (case orderedData m of
        Some raw \<Rightarrow> Data m' = (case decodeData J raw of Some d \<Rightarrow> d | None \<Rightarrow> [])
      | None \<Rightarrow> list_all2 (\<lambda>x y. \<forall>k. rel_option same_reading (map_of x k) (map_of y k)) (Data m) (Data m')
          \<and> (\<forall>key x. x = (case Data m of [] \<Rightarrow> VNil | o' # _ \<Rightarrow> obj_get o' key) \<longrightarrow>
              (\<forall>n. x = VInt n \<or> x = VInt64 n \<longrightarrow> \<bar>n\<bar> < 2 ^ 53) \<longrightarrow> firstInt (Data m') key = firstInt (Data m) key))"
proof -
  have raw: "unmarshalRaw J b raw0 = (True, raw_of dataText (wire_of m))" using assms(2) by (simp add: reads_back_def)
  have code: "optionalInt (rawCode (raw_of dataText (wire_of m))) = Code m"
    using assms(6) optionalInt_Nil by (cases "Code m") (simp_all add: raw_of_def wire_of_def optionalInt_exact)
  let ?d = "case decodeData J (rawData (raw_of dataText (wire_of m))) of Some d \<Rightarrow> d | None \<Rightarrow> []"
  let ?m = "\<lparr>SID = SID m, MsgID = MsgID m, Resource = Resource m, Version = Version m, Action = Action m,
     Data = ?d, Code = Code m, orderedData = None\<rparr>"
  have dec: "DecodeMessage J b = Some ?m"
    using assms(3-5) code by (simp add: DecodeMessage_def raw Let_def) (simp add: raw_of_def wire_of_def coerceInt_exact)
  show ?thesis
  proof (cases "orderedData m")
    case (Some raw)
    then have "rawData (raw_of dataText (wire_of m)) = raw" by (simp add: raw_of_def wire_of_def)
    with dec Some show ?thesis by simp
  next
    case None
    have l: "list_all2 (\<lambda>x y. json_reads (VMap x) (VMap y)) (Data m) ?d"
    proof (cases "Data m = []")
      case True
      with None show ?thesis by (simp add: raw_of_def wire_of_def decodeData_def)
    next
      case False
      with None assms(2) show ?thesis by (auto simp: raw_of_def wire_of_def reads_back_def decodeData_def)
    qed
    then have "list_all2 (\<lambda>x y. \<forall>k. rel_option same_reading (map_of x k) (map_of y k)) (Data m) ?d"
      by (rule list_all2_mono) (use reads_member in blast)
    with dec None firstInt_read [OF l] show ?thesis by simp
  qed
qed

definition plain_request :: message where
  "plain_request = (request ''/ro/values'' 1 ''POST'' [[(''uid'', VInt 539), (''value'', VBool True)]])
     \<lparr>SID := 77, MsgID := 4711, Code := Some 200\<rparr>"

text \<open>A decoder that knows this one message, and reads its number as a float.\<close>

definition one_message_json :: json_lib where
  "one_message_json = \<lparr>unmarshalRaw = (\<lambda>b r. (b = ''x'', raw_of (\<lambda>_. ''[...]'') (wire_of plain_request))),
     unmarshalList = (\<lambda>b l. (b = ''[...]'', [[(''value'', VBool True), (''uid'', VFloat (int_to_f64 539))]])),
     unmarshalSingle = (\<lambda>b o'. (False, o'))\<rparr>"

lemma message_roundtrip_witness:
  "\<exists>m'. DecodeMessage one_message_json ''x'' = Some m' \<and> MsgID m' = 4711 \<and> Code m' = Some 200
     \<and> firstInt (Data m') ''uid'' = 539"
proof -
  have "trim_space ''[...]'' = ''[...]''" by (rule trim_space_visible) (simp_all add: visible_def)
  moreover have "json_reads (VMap [(''uid'', VInt 539), (''value'', VBool True)])
      (VMap [(''value'', VBool True), (''uid'', VFloat (int_to_f64 539))])"
    by (rule reads_map) (auto intro: reads_int reads_bool)
  ultimately have rb: "reads_back one_message_json (\<lambda>_. ''[...]'') (wire_of plain_request) ''x''"
    by (simp add: reads_back_def one_message_json_def wire_of_def plain_request_def request_def)
  have f: "orderedData plain_request = None" "MsgID plain_request = 4711" "SID plain_request = 77" "Version plain_request = 1"
      "Code plain_request = Some 200" "firstInt (Data plain_request) ''uid'' = 539"
      "(case Data plain_request of [] \<Rightarrow> VNil | o' # _ \<Rightarrow> obj_get o' ''uid'') = VInt 539"
    by code_simp+
  have "Encode (\<lambda>_. Some ''x'') plain_request = Some ''x''" by (simp add: Encode_def)
  from message_roundtrip [OF this rb] f show ?thesis by auto
qed

text \<open>The first integer that does not come back.\<close>

lemma id_beyond_double: "coerceInt (itoa (2 ^ 53 + 1)) = 2 ^ 53"
  by code_simp

end
