(* ===== verification/Description_Cache.thy ===== *)
theory Description_Cache
  imports Devices Profile_Parser
begin

text \<open>
  The cached descriptions of \<^verbatim>\<open>internal/profile/devices.go\<close>: \<open>SaveDescriptionJSON\<close>, which the operator's tool
  writes a parsed description with, and \<open>LoadDescriptionJSON\<close>, which the daemon reads it back with.

  The files are a map from paths to contents. The JSON codec of the standard library is the parameter
  \<open>desc_json\<close>: its law \<open>desc_json_ok\<close> is that the exported fields of what it wrote read back, for text in UTF-8
  (other bytes become replacement characters). The two lookup maps of a description are not exported and are
  lost on the way. An enumeration is compared as the map it is, not by the order of its association list.
\<close>

section \<open>Saving and loading\<close>

type_synonym files = "string \<rightharpoonup> string"

record desc_json =
  djMarshal :: "description \<Rightarrow> string option"
  djUnmarshal :: "string \<Rightarrow> description option"

datatype cache_error = MarshalDescription | WriteDescription string | ReadDescription string | DescriptionNotJSON string

definition SaveDescriptionJSON ::
  "desc_json \<Rightarrow> (string \<Rightarrow> bool) \<Rightarrow> string \<Rightarrow> description \<Rightarrow> files \<Rightarrow> cache_error + files" where
  "SaveDescriptionJSON J writable path d fs =
     (case djMarshal J d of
        None \<Rightarrow> Inl MarshalDescription
      | Some b \<Rightarrow> if writable path then Inr (fs(path \<mapsto> b)) else Inl (WriteDescription path))"

definition LoadDescriptionJSON :: "desc_json \<Rightarrow> files \<Rightarrow> string \<Rightarrow> cache_error + description" where
  "LoadDescriptionJSON J fs path =
     (case fs path of
        None \<Rightarrow> Inl (ReadDescription path)
      | Some data \<Rightarrow>
          (case djUnmarshal J data of
             None \<Rightarrow> Inl (DescriptionNotJSON path)
           | Some d \<Rightarrow> Inr (rebuildIndex d)))"

section \<open>What the codec keeps\<close>

definition entry_view :: "entry \<Rightarrow> entry \<times> (int \<rightharpoonup> string)" where
  "entry_view e = (e\<lparr>eEnumeration := []\<rparr>, map_of (eEnumeration e))"

definition exported ::
  "description \<Rightarrow> string \<times> device_info \<times> (entry \<times> (int \<rightharpoonup> string)) list \<times> (int \<rightharpoonup> int \<rightharpoonup> string)" where
  "exported d = (dHaID d, dInfo d, List.map entry_view (Entries d), (\<lambda>k. map_option map_of (Enumerations d k)))"

definition entry_text :: "entry \<Rightarrow> string list" where
  "entry_text e =
     [eName e, eContentType e, eAccess e, eExecution e, eHandling e, eLevel e, eInitValue e, eDefault e]
     @ (case eKind e of KindOther s \<Rightarrow> [s] | _ \<Rightarrow> []) @ (case eProtocolType e of ProtocolOther s \<Rightarrow> [s] | _ \<Rightarrow> [])
     @ List.map snd (eEnumeration e) @ List.map poAccess (eOptions e)"

definition text_in_utf8 :: "description \<Rightarrow> bool" where
  "text_in_utf8 d \<longleftrightarrow>
     list_all utf8_valid ([dHaID d, diType (dInfo d), diBrand (dInfo d), diModel (dInfo d)]
       @ concat (List.map entry_text (Entries d)))
     \<and> (\<forall>k m. Enumerations d k = Some m \<longrightarrow> list_all utf8_valid (List.map snd m))"

definition desc_json_ok :: "desc_json \<Rightarrow> bool" where
  "desc_json_ok J \<longleftrightarrow>
     (\<forall>d b. djMarshal J d = Some b \<and> text_in_utf8 d
        \<longrightarrow> (\<exists>d'. djUnmarshal J b = Some d' \<and> exported d' = exported d))"

lemma entry_view_keys:
  assumes "entry_view e = entry_view e'"
  shows "eUID e = eUID e' \<and> eName e = eName e'"
proof -
  have "e\<lparr>eEnumeration := []\<rparr> = e'\<lparr>eEnumeration := []\<rparr>" using assms by (simp add: entry_view_def)
  then show ?thesis by (cases e; cases e') simp
qed

lemma view_key:
  "entry_view e = entry_view e' \<Longrightarrow> (eUID e = uid) = (eUID e' = uid)"
  "entry_view e = entry_view e' \<Longrightarrow> (eName e = name) = (eName e' = name)"
  by (auto dest: entry_view_keys)

lemma find_view:
  assumes "List.map entry_view xs = List.map entry_view ys"
    and "\<And>e e'. entry_view e = entry_view e' \<Longrightarrow> P e = P e'"
  shows "map_option entry_view (find P xs) = map_option entry_view (find P ys)"
  using assms(1)
proof (induction xs arbitrary: ys)
  case Nil
  then show ?case by simp
next
  case (Cons x xs)
  then obtain y ys' where ys: "ys = y # ys'" "entry_view x = entry_view y"
      "List.map entry_view xs = List.map entry_view ys'"
    by (cases ys) auto
  then show ?case using assms(2) [OF ys(2)] Cons.IH [OF ys(3)] by simp
qed

section \<open>The lookups of a parsed description\<close>

definition looks_up :: "description \<Rightarrow> bool" where
  "looks_up d \<longleftrightarrow>
     (\<forall>uid. ByUID d uid = find (\<lambda>e. eUID e = uid) (rev (Entries d)))
   \<and> (\<forall>name. ByName d name = (if name = [] then None else find (\<lambda>e. eName e = name) (rev (Entries d))))"

lemma looks_up_rebuilt: "looks_up (rebuildIndex d)"
  by (simp add: looks_up_def rebuildIndex_lookups rebuildIndex_fold)

lemma rebuildIndex_fields:
  "dHaID (rebuildIndex d) = dHaID d" "dInfo (rebuildIndex d) = dInfo d" "Enumerations (rebuildIndex d) = Enumerations d"
proof -
  have "dHaID (rebuild_from i es d) = dHaID d \<and> dInfo (rebuild_from i es d) = dInfo d
      \<and> Enumerations (rebuild_from i es d) = Enumerations d" for i es and d :: description
    by (induction i es d rule: rebuild_from.induct) simp_all
  then show "dHaID (rebuildIndex d) = dHaID d" "dInfo (rebuildIndex d) = dInfo d"
      "Enumerations (rebuildIndex d) = Enumerations d"
    by (simp_all add: rebuildIndex_def)
qed

lemma exported_rebuilt: "exported (rebuildIndex d) = exported d"
  by (simp add: exported_def rebuildIndex_fields rebuildIndex_fold)

lemma find_named:
  "find (\<lambda>e. name_key e = Some name) xs = (if name = [] then None else find (\<lambda>e. eName e = name) xs)"
proof (cases "name = []")
  case True
  then show ?thesis by (simp add: find_None_iff name_key_def)
next
  case False
  then have "(\<lambda>e. name_key e = Some name) = (\<lambda>e. eName e = name)" by (auto simp: name_key_def)
  with False show ?thesis by simp
qed

lemma device_description_names:
  "ByName (device_description u fm dev) name =
     (if name = [] then None else find (\<lambda>e. eName e = name) (rev (Entries (device_description u fm dev))))"
proof -
  define es where "es = parsed_entries u (resolveEnumSubsets (xvEnumTypes dev) fm) dev"
  obtain d1 where d1: "Entries d1 = []" "byUID d1 = Map.empty" "byName d1 = Map.empty"
    and dd: "device_description u fm dev = resolveProgramNames (fold add es d1)"
    using device_description_fold [of dev fm u] unfolding es_def by blast
  define d where "d = fold add es d1"
  define g where "g = with_programs (program_enum es [])"
  have ok1: "index_ok d1" using d1 by (simp add: index_ok_def)
  have Ed: "Entries d = es" by (simp add: d_def Entries_fold_add d1)
  have "ByName d name = find (\<lambda>e. name_key e = Some name) (rev es)"
    using by_name.look_fold_from [OF ok1, of es name] d1
    by (simp add: d_def ByName_def split: option.splits)
  then have look: "ByName d name = (if name = [] then None else find (\<lambda>e. eName e = name) (rev es))"
    by (simp add: find_named)
  have "ByName (resolveProgramNames d) name = map_option g (ByName d name)"
    by (simp add: ByName_def entry_at_def resolveProgramNames_eq Ed g_def split: option.splits)
  also have "\<dots> = (if name = [] then None else find (\<lambda>e. eName e = name) (rev (List.map g es)))"
    by (simp add: look g_def find_map_same rev_map)
  finally show ?thesis by (simp add: dd d_def [symmetric] resolveProgramNames_eq Ed g_def)
qed

lemma ParseDescription_looks_up:
  assumes "ParseDescription X u dx fx = Some d"
  shows "looks_up d"
proof -
  obtain fm dev where "d = device_description u fm dev"
    using assms by (auto simp: ParseDescription_def split: option.splits)
  then show ?thesis using device_description_index device_description_names by (simp add: looks_up_def)
qed

lemma Enumerations_fold_add: "Enumerations (fold add es d) = Enumerations d"
  by (induction es arbitrary: d) (simp_all add: add_def Let_def)

lemma device_description_enums:
  "Enumerations (device_description u fm dev) = fmEnum (resolveEnumSubsets (xvEnumTypes dev) fm)"
proof -
  obtain d1 where "Enumerations d1 = fmEnum (resolveEnumSubsets (xvEnumTypes dev) fm)"
    and dd: "device_description u fm dev =
      resolveProgramNames (fold add (parsed_entries u (resolveEnumSubsets (xvEnumTypes dev) fm) dev) d1)"
    using device_description_fold [of dev fm u] by blast
  then show ?thesis by (simp add: resolveProgramNames_eq Enumerations_fold_add)
qed

section \<open>Properties\<close>

text \<open>
  A description that was parsed, given its haId, and saved is what the daemon loads from that path: the same
  exported fields, the haId that \<open>ResolveHaID\<close> finds among them, a consistent index, and the same answer to
  every lookup by uid and by name, though the index itself was not written.
\<close>

theorem cached_description:
  assumes "desc_json_ok J" and "ParseDescription X u dx fx = Some d0" and "text_in_utf8 (d0\<lparr>dHaID := i\<rparr>)"
    and "SaveDescriptionJSON J writable path (d0\<lparr>dHaID := i\<rparr>) fs = Inr fs'"
  shows "\<exists>d. LoadDescriptionJSON J fs' path = Inr d \<and> exported d = exported (d0\<lparr>dHaID := i\<rparr>) \<and> dHaID d = i
     \<and> map_option entry_view (ByUID d uid) = map_option entry_view (ByUID d0 uid)
     \<and> map_option entry_view (ByName d name) = map_option entry_view (ByName d0 name)"
proof -
  let ?d = "d0\<lparr>dHaID := i\<rparr>"
  obtain b where m: "djMarshal J ?d = Some b" and fs': "fs' = fs(path \<mapsto> b)"
    using assms(4) by (auto simp: SaveDescriptionJSON_def split: option.splits if_splits)
  obtain d' where d': "djUnmarshal J b = Some d'" "exported d' = exported ?d"
    using assms(1,3) m unfolding desc_json_ok_def by blast
  have load: "LoadDescriptionJSON J fs' path = Inr (rebuildIndex d')"
    by (simp add: LoadDescriptionJSON_def fs' d'(1))
  have ents: "List.map entry_view (Entries (rebuildIndex d')) = List.map entry_view (Entries d0)"
    using d'(2) by (simp add: exported_def rebuildIndex_fold)
  then have r: "List.map entry_view (rev (Entries (rebuildIndex d'))) = List.map entry_view (rev (Entries d0))"
    by (simp add: rev_map [symmetric])
  have l: "looks_up (rebuildIndex d')" "looks_up d0"
    by (rule looks_up_rebuilt, rule ParseDescription_looks_up [OF assms(2)])
  have "map_option entry_view (ByUID (rebuildIndex d') uid) = map_option entry_view (ByUID d0 uid)"
    using find_view [OF r, of "\<lambda>e. eUID e = uid", OF view_key(1)] l by (simp only: looks_up_def simp_thms)
  moreover have "map_option entry_view (ByName (rebuildIndex d') name) = map_option entry_view (ByName d0 name)"
    using find_view [OF r, of "\<lambda>e. eName e = name", OF view_key(2)] l
    by (cases "name = []") (simp_all only: looks_up_def simp_thms if_True if_False)
  moreover have "dHaID (rebuildIndex d') = i" using d'(2) by (simp add: exported_def rebuildIndex_fields)
  moreover have "exported (rebuildIndex d') = exported ?d" using d'(2) by (simp only: exported_rebuilt)
  ultimately show ?thesis using load by blast
qed

definition saved_dishwasher :: description where
  "saved_dishwasher = example_description\<lparr>dHaID := ''0123''\<rparr>"

definition one_file_json :: desc_json where
  "one_file_json = \<lparr>djMarshal = (\<lambda>d. if d = saved_dishwasher then Some ''{}'' else None),
     djUnmarshal = (\<lambda>b. if b = ''{}'' then Some (saved_dishwasher\<lparr>byUID := Map.empty, byName := Map.empty\<rparr>) else None)\<rparr>"

lemma one_file_json_ok: "desc_json_ok one_file_json"
  by (simp add: desc_json_ok_def one_file_json_def exported_def)

lemma example_enumerations:
  assumes "Enumerations example_description k = Some m"
  shows "list_all utf8_valid (List.map snd m)"
proof -
  define fm where "fm = the (parseFeatureMapping example_xml ''m'')"
  have p: "parseHex ''A'' = Some 10" "parseHex ''B'' = Some 11" "parseHex ''101'' = Some 257"
    and s: "subset_values [(1, ''Off''), (2, ''On'')] [''2'', ''7''] [] = [(2, ''On'')]"
    and e: "enum_members (edMembers (hd (xmEnumDescs example_mapping))) [] = [(1, ''Off''), (2, ''On'')]"
    and v: "utf8_valid ''On''" "utf8_valid ''Off''"
    by code_simp+
  have fm: "fmEnum fm = [10 \<mapsto> [(1, ''Off''), (2, ''On'')]]"
    using p e by (simp add: fm_def parseFeatureMapping_def example_xml_def example_mapping_def)
  have "example_description = device_description (\<lambda>s. s) fm example_device"
    by (simp add: example_description_def ParseDescription_def fm_def example_xml_def parseFeatureMapping_def)
  then have "Enumerations example_description = fmEnum (resolveEnumSubsets (xvEnumTypes example_device) fm)"
    by (rule ssubst) (rule device_description_enums)
  also have "\<dots> = [10 \<mapsto> [(1, ''Off''), (2, ''On'')], 11 \<mapsto> [(2, ''On'')]]"
    using p s fm by (simp add: example_device_def)
  finally show ?thesis using assms v by (auto split: if_splits)
qed

lemma example_utf8:
  assumes "utf8_valid i"
  shows "text_in_utf8 (example_description\<lparr>dHaID := i\<rparr>)"
  unfolding text_in_utf8_def
proof
  have "list_all utf8_valid ([diType (dInfo example_description), diBrand (dInfo example_description),
      diModel (dInfo example_description)] @ concat (List.map entry_text (Entries example_description)))"
    by code_simp
  with assms show "list_all utf8_valid ([dHaID (example_description\<lparr>dHaID := i\<rparr>), diType (dInfo (example_description\<lparr>dHaID := i\<rparr>)),
      diBrand (dInfo (example_description\<lparr>dHaID := i\<rparr>)), diModel (dInfo (example_description\<lparr>dHaID := i\<rparr>))]
      @ concat (List.map entry_text (Entries (example_description\<lparr>dHaID := i\<rparr>))))"
    by simp
  show "\<forall>k m. Enumerations (example_description\<lparr>dHaID := i\<rparr>) k = Some m \<longrightarrow> list_all utf8_valid (List.map snd m)"
    using example_enumerations by simp
qed

lemma saved_dishwasher_utf8: "text_in_utf8 saved_dishwasher"
  unfolding saved_dishwasher_def by (rule example_utf8) code_simp

lemma cached_description_witness:
  "\<exists>d. LoadDescriptionJSON one_file_json [''p/0123.json'' \<mapsto> ''{}''] ''p/0123.json'' = Inr d
     \<and> exported d = exported saved_dishwasher \<and> dHaID d = ''0123''
     \<and> map_option entry_view (ByUID d 256) = map_option entry_view (ByUID example_description 256)
     \<and> map_option entry_view (ByName d []) = map_option entry_view (ByName example_description [])"
  using cached_description [OF one_file_json_ok example_parsed, of "''0123''" "\<lambda>_. True" "''p/0123.json''"
      Map.empty "[''p/0123.json'' \<mapsto> ''{}'']" 256 "[]"] saved_dishwasher_utf8
  by (simp add: SaveDescriptionJSON_def one_file_json_def flip: saved_dishwasher_def)

end
