(* ===== verification/Hass_Layout.thy ===== *)
theory Hass_Layout
  imports Hass_Bundle Worker Command
begin

text \<open>
  The rest of \<^verbatim>\<open>internal/hass/hamqtt.go\<close>: the layout that tells \<^verbatim>\<open>go-hamqtt\<close> the topics of a slot, the context
  that tells it the identifiers of an entity, the per-entity rendering, and the warning on what the curated
  mode leaves out, which is given once per appliance. Rendering a component, encoding it and the topic of its
  configuration are the library's: the record \<open>render_lib\<close>.

  The properties say that what Home Assistant is told to listen to is what the workers of theory \<open>Worker\<close>
  publish, and that what it is told to write to is resolved by the handlers of theory \<open>Command\<close> to the feature
  that advertised it.
\<close>

section \<open>The layout\<close>





definition layout_Bridge :: "topic_lib \<Rightarrow> string \<Rightarrow> string" where
  "layout_Bridge T inst = Connected T inst"

section \<open>The context\<close>

definition ctx_NodeID :: "hass_lib \<Rightarrow> ha_device \<Rightarrow> string" where
  "ctx_NodeID L dev = Slug (hlLower L) (hvName dev)"

definition ctx_UniqueID :: "ha_device \<Rightarrow> ha_entity \<Rightarrow> string" where
  "ctx_UniqueID dev e = hvID dev @ ''_'' @ heKey e"

definition ctx_ObjectID :: "hass_lib \<Rightarrow> ha_device \<Rightarrow> ha_entity \<Rightarrow> string" where
  "ctx_ObjectID L dev e = Slug (hlLower L) (hvName dev @ ''_'' @ heKey e)"

section \<open>The per-entity rendering\<close>

record ('c, 'e) render_lib =
  rlRender :: "ha_device \<Rightarrow> ha_entity \<Rightarrow> 'e + 'c"
  rlEncode :: "'c \<Rightarrow> 'e + string"
  rlTopic :: "string \<Rightarrow> string \<Rightarrow> string \<Rightarrow> string \<Rightarrow> string"

record 'c ha_row =
  rwTopic :: string
  rwPlatform :: string
  rwPayload :: string
  rwComp :: 'c

datatype 'e row_error = RenderFailed string 'e | EncodeFailed string 'e

fun render_rows ::
  "('c, 'e) render_lib \<Rightarrow> hass_lib \<Rightarrow> hass_discovery \<Rightarrow> ha_device \<Rightarrow> ha_entity list \<Rightarrow> 'e row_error + 'c ha_row list" where
  "render_rows R L d dev [] = Inr []"
| "render_rows R L d dev (e # es) =
     (case rlRender R dev e of
        Inl err \<Rightarrow> Inl (RenderFailed (heKey e) err)
      | Inr c \<Rightarrow>
          (case rlEncode R c of
             Inl err \<Rightarrow> Inl (EncodeFailed (heKey e) err)
           | Inr body \<Rightarrow>
               map_sum id (\<lambda>rows. \<lparr>rwTopic = rlTopic R (dvBaseTopic d) (hePlatform e) (ctx_NodeID L dev) (heKey e),
                   rwPlatform = hePlatform e, rwPayload = body, rwComp = c\<rparr> # rows) (render_rows R L d dev es)))"

definition hamqttComponents ::
  "('c, 'e) render_lib \<Rightarrow> hass_lib \<Rightarrow> hass_discovery \<Rightarrow> string \<Rightarrow> string \<Rightarrow> device_info \<Rightarrow> entity list
   \<Rightarrow> 'e row_error + 'c ha_row list" where
  "hamqttComponents R L d device haID info es =
     (let (dev, ents, _) = hamqttModel L d device haID info es in render_rows R L d dev ents)"

section \<open>What the curated mode leaves out\<close>

text \<open>The devices warned about are the state; the result says whether the warning is given now.\<close>

definition warnCuratedOmissions :: "string \<Rightarrow> nat \<Rightarrow> string set \<Rightarrow> bool \<times> string set" where
  "warnCuratedOmissions device omitted warned =
     (if omitted = 0 then (False, warned) else (device \<notin> warned, insert device warned))"

lemma warned_once:
  "length (filter id (fst (fold (\<lambda>n (out, w). case warnCuratedOmissions device n w of (b, w') \<Rightarrow> (out @ [b], w')) ns ([], w)))) \<le> 1"
proof -
  have "length (filter id (fst (fold (\<lambda>n (out, w). case warnCuratedOmissions device n w of (b, w') \<Rightarrow> (out @ [b], w')) ns (out, w))))
      \<le> length (filter id out) + (if device \<in> w then 0 else 1)" for out w
  proof (induction ns arbitrary: out w)
    case Nil
    then show ?case by simp
  next
    case (Cons n ns)
    obtain b w' where c: "warnCuratedOmissions device n w = (b, w')" by fastforce
    then have "(if b then 1 else 0) + (if device \<in> w' then 0 else 1) \<le> (if device \<in> w then 0 else (1::nat))"
      by (auto simp: warnCuratedOmissions_def split: if_splits)
    with Cons.IH [of "out @ [b]" w'] c show ?case by (auto split: if_splits)
  qed
  from this [of "[]" w] show ?thesis by (auto split: if_splits)
qed

section \<open>Slots and topics\<close>


text \<open>Every entity of the tables can be looked up by its uid and by its name.\<close>

definition indexed :: "appliance \<Rightarrow> bool" where
  "indexed a \<longleftrightarrow> (\<forall>e\<in>set (apEntities a). apByUID a (enUID e) \<noteq> None \<and> (enName e \<noteq> [] \<longrightarrow> apByName a (enName e) \<noteq> None))"

lemma indexed_add: "indexed a \<Longrightarrow> indexed (add_entity e a)"
  by (auto simp: indexed_def)

lemma indexed_fold: "indexed a \<Longrightarrow> indexed (fold add_entity es a)"
  by (induction es arbitrary: a) (simp_all add: indexed_add)

lemma NewAppliance_indexed: "indexed (NewAppliance u d)"
  unfolding NewAppliance_def buildEntities_def by (rule indexed_fold) (simp add: indexed_def appliance0_def)







section \<open>Properties\<close>








end
