(* ===== verification/Startup.thy ===== *)
theory Startup
  imports Description_Cache Hass_Layout Plane Feature_Catalog
begin

text \<open>
  The start of the daemon, \<^verbatim>\<open>cmd/homeconnect2mqtt/main.go\<close>: what it loads, what it hands to the MQTT client, the
  publish plane and the bridge, in which order, and what it does when it ends; \<open>MQTTUsesTLS\<close> of
  \<^verbatim>\<open>config.go\<close> and the build variables of \<^verbatim>\<open>version.go\<close>.

  \<open>start_lib\<close> gathers what is not code of the repository: the decoders, the URL parser (scheme and host name),
  the TLS configuration built from a CA file, and what the publishing runtime makes of its configuration. The
  flags are given parsed. What the started goroutines answer is an argument too: the outcome of the connection's
  start and the results of the bridge and of the web server in the order they arrive. The steps with an effect
  outside the process are the trace.
\<close>

section \<open>The build\<close>

definition version_Version :: string where "version_Version = ''0.20.1''"
definition version_Commit :: string where "version_Commit = ''none''"
definition version_BuildDate :: string where "version_BuildDate = ''unknown''"

definition version_String :: string where
  "version_String =
     ''go-homeconnect2mqtt '' @ version_Version @ '' (commit '' @ version_Commit @ '', built '' @ version_BuildDate @ '')''"

definition projectName :: string where "projectName = ''go-homeconnect2mqtt''"
definition supervisedEnv :: string where "supervisedEnv = EnvPrefix @ ''SUPERVISED''"
definition ClientID :: string where "ClientID = ''homeconnect2mqtt''"

section \<open>The configuration and the devices\<close>

record 'tls start_lib =
  slYaml :: yaml_lib
  slTopics :: topic_lib
  slLower :: "string \<Rightarrow> string"
  slUpper :: "string \<Rightarrow> string"
  slDevicesYaml :: "string \<Rightarrow> device_config list option"
  slDescriptions :: desc_json
  slURL :: "string \<Rightarrow> (string \<times> string) option"
  slClientTLS :: "string \<Rightarrow> string \<Rightarrow> bool \<Rightarrow> 'tls option"

record host_env =
  heFiles :: files
  heEnviron :: "string list"
  heSearch :: search_world

datatype start_error =
    NoConfigFile
  | ConfigFailed config_error
  | BadMQTTTopic
  | DevicesFailed devices_error
  | NoDescriptionPath string
  | DescriptionFailed string cache_error
  | WillFailed
  | ServerNotAURL
  | CANotUsable
  | BridgeFailed device_error

definition loadConfig :: "'tls start_lib \<Rightarrow> host_env \<Rightarrow> string \<Rightarrow> start_error + config" where
  "loadConfig S h configPath0 =
     (case (if configPath0 = [] then Locate (heSearch h) else Some configPath0) of
        None \<Rightarrow> Inl NoConfigFile
      | Some configPath \<Rightarrow>
          map_sum ConfigFailed id (LoadFile (slYaml S) (slTopics S) (slLower S) (heFiles h configPath) (Some (heEnviron h))))"

fun load_specs :: "desc_json \<Rightarrow> files \<Rightarrow> device_config list \<Rightarrow> start_error + (device_config \<times> description) list" where
  "load_specs J fs [] = Inr []"
| "load_specs J fs (dc # dcs) =
     (if dcDescription dc = [] then Inl (NoDescriptionPath (dcName dc))
      else case LoadDescriptionJSON J fs (dcDescription dc) of
          Inl err \<Rightarrow> Inl (DescriptionFailed (dcName dc) err)
        | Inr desc \<Rightarrow> map_sum id (\<lambda>specs. (dc, desc) # specs) (load_specs J fs dcs))"

definition loadDeviceSpecs ::
  "'tls start_lib \<Rightarrow> host_env \<Rightarrow> string \<Rightarrow> start_error + (device_config \<times> description) list" where
  "loadDeviceSpecs S h devicesPath =
     (case LoadDevices (heFiles h) (slDevicesYaml S) (slLower S) (slUpper S) devicesPath of
        Inl err \<Rightarrow> Inl (DevicesFailed err)
      | Inr devices \<Rightarrow> load_specs (slDescriptions S) (heFiles h) devices)"

section \<open>The MQTT client\<close>

definition MQTTUsesTLS :: "'tls start_lib \<Rightarrow> config \<Rightarrow> bool" where
  "MQTTUsesTLS S c =
     (case slURL S (cfMQTTServer c) of
        None \<Rightarrow> False
      | Some (scheme, _) \<Rightarrow> scheme = ''ssl'' \<or> scheme = ''tls'' \<or> scheme = ''mqtts'')"

definition mqttTLSConfig :: "'tls start_lib \<Rightarrow> config \<Rightarrow> start_error + 'tls option" where
  "mqttTLSConfig S c =
     (if \<not> MQTTUsesTLS S c then Inr None
      else case slURL S (cfMQTTServer c) of
          None \<Rightarrow> Inl ServerNotAURL
        | Some (_, host) \<Rightarrow>
            (case slClientTLS S host (cfMQTTTLSCA c) (cfMQTTTLSInsecure c) of
               None \<Rightarrow> Inl CANotUsable | Some t \<Rightarrow> Inr (Some t)))"

record last_will =
  lwTopic :: string
  lwPayload :: string
  lwQoS :: nat
  lwRetain :: bool

record 'tls client_config =
  ccBrokerURL :: string
  ccTLS :: "'tls option"
  ccClientID :: string
  ccUsername :: string
  ccPassword :: string
  ccCleanStart :: bool
  ccWill :: last_will

definition mqttClientConfig :: "'tls start_lib \<Rightarrow> config \<Rightarrow> last_will \<Rightarrow> start_error + 'tls client_config" where
  "mqttClientConfig S c will =
     map_sum id (\<lambda>tls. \<lparr>ccBrokerURL = cfMQTTServer c, ccTLS = tls, ccClientID = ClientID, ccUsername = cfMQTTLogin c,
        ccPassword = cfMQTTPassword c, ccCleanStart = True,
        ccWill = \<lparr>lwTopic = lwTopic will, lwPayload = lwPayload will, lwQoS = lwQoS will, lwRetain = lwRetain will\<rparr>\<rparr>)
       (mqttTLSConfig S c)"

text \<open>What the broker said it accepts: no client yet, no connection yet, or the result's value.\<close>

definition brokerMaxPacketSize :: "32 word option option \<Rightarrow> 32 word \<times> bool" where
  "brokerMaxPacketSize client = (case client of
      None \<Rightarrow> (0, False) | Some None \<Rightarrow> (0, False) | Some (Some n) \<Rightarrow> (n, True))"

section \<open>The publish plane\<close>

record plane_config =
  pcPrefix :: string
  pcStatusTopic :: string
  pcLayout :: string
  pcQoS :: pub_qos
  pcSetFilter :: string

text \<open>\<open>None\<close> is the panic of \<open>QoS\<close>. A layout is the instance it was made of.\<close>

definition haPlaneConfig :: "topic_lib \<Rightarrow> config \<Rightarrow> string \<Rightarrow> plane_config option" where
  "haPlaneConfig T c inst =
     map_option (\<lambda>q. \<lparr>pcPrefix = cfHASSBaseTopic c, pcStatusTopic = Connected T inst, pcLayout = inst, pcQoS = q,
        pcSetFilter = SetFilter inst\<rparr>) (QoS (QoSLevel c))"

text \<open>
  What the runtime makes of the configuration: the bridge topic and the last will, or no runtime where the
  status topic disagrees with the layout. The law states what the code relies on.
\<close>

record plane_runtime =
  prBridgeTopic :: string
  prWill :: "last_will option"

definition runtime_topic_law :: "topic_lib \<Rightarrow> (plane_config \<Rightarrow> plane_runtime) \<Rightarrow> bool" where
  "runtime_topic_law T R \<longleftrightarrow>
     (\<forall>pc. pcStatusTopic pc = layout_Bridge T (pcLayout pc) \<longrightarrow>
        prBridgeTopic (R pc) = pcStatusTopic pc
        \<and> (\<forall>w. prWill (R pc) = Some w \<longrightarrow> lwTopic w = prBridgeTopic (R pc) \<and> lwRetain w))"

definition Will_plane :: "plane_runtime \<Rightarrow> last_will option" where
  "Will_plane p = prWill p"

definition StatusTopic :: "plane_runtime \<Rightarrow> string" where
  "StatusTopic p = prBridgeTopic p"

definition haTransport :: "string \<Rightarrow> ('w, 'e) transport \<Rightarrow> ('w, 'e) transport \<Rightarrow> ('w, 'e) transport" where
  "haTransport statusTopic breaker client =
     BypassFor statusTopic
       \<lparr>trPublish = trPublish breaker, trSubscribe = trSubscribe client, trUnsubscribe = trUnsubscribe client\<rparr> client"

definition haPlaneTransport :: "plane_runtime \<Rightarrow> ('w, 'e) transport \<Rightarrow> ('w, 'e) transport \<Rightarrow> ('w, 'e) transport" where
  "haPlaneTransport p breaker client = haTransport (StatusTopic p) breaker client"

record instance_config =
  icLayout :: string
  icName :: string
  icVersion :: string
  icExtra :: obj
  icMaintenanceDisabled :: bool
  icSupervised :: bool
  icStatsInterval :: int

definition instanceConfig :: "(string \<Rightarrow> bool) \<Rightarrow> config \<Rightarrow> string \<Rightarrow> nat \<Rightarrow> instance_config" where
  "instanceConfig DetectSupervised c inst appliances =
     \<lparr>icLayout = inst, icName = projectName, icVersion = version_Version,
      icExtra = [(''commit'', VStr version_Commit), (''build_date'', VStr version_BuildDate),
        (''appliances'', VInt (int appliances)), (''language'', VStr (cfLanguage c))],
      icMaintenanceDisabled = (\<not> MaintenanceEnabled c), icSupervised = DetectSupervised supervisedEnv,
      icStatsInterval = StatsIntervalSeconds c\<rparr>"

section \<open>Serving\<close>

text \<open>How a call of \<open>serve\<close>, of the bridge or of the web server ends.\<close>

datatype serve_end = EndNil | EndCanceled | EndFailed "start_error option"

record daemon =
  dmConfig :: config
  dmInstance :: instance_config
  dmPlane :: plane_config
  dmSpecs :: "(device_config \<times> description) list"
  dmHass :: "hass_discovery option"
  dmBridge :: "string \<times> built_device list"

datatype 'tls serve_event =
    LogRemovedKey string
  | Dial "'tls client_config" int int int
  | RunBridge
  | RunWeb string
  | StopDiscovery
  | ClosePlane
  | AnnounceOffline
  | StopLifecycle

text \<open>\<open>errgroup\<close>: the first error of the results in the order they arrive.\<close>

definition group_end :: "serve_end list \<Rightarrow> serve_end" where
  "group_end rs = (case find (\<lambda>r. r \<noteq> EndNil) rs of None \<Rightarrow> EndNil | Some r \<Rightarrow> r)"

definition shutdownHAPlane :: "'tls serve_event list" where
  "shutdownHAPlane = [StopDiscovery, ClosePlane, AnnounceOffline]"

definition discovery_of :: "topic_lib \<Rightarrow> config \<Rightarrow> (catalog_error + feature_catalog) \<Rightarrow> hass_discovery option" where
  "discovery_of T c mapping =
     (if \<not> cfHASSEnable c then None
      else (let d = New_discovery T (cfHASSBaseTopic c) (cfMQTTTopic c) (cfLanguage c) (cfHASSDiscovery c = ''curated'') in
        case mapping of Inl _ \<Rightarrow> Some d | Inr cat \<Rightarrow> Some (SetEnricher cat d)))"

text \<open>
  What is prepared before anything leaves the process; \<open>None\<close> is the panic of the quality of service. The
  daemon and the client's configuration are the result.
\<close>

definition prepare ::
  "'tls start_lib \<Rightarrow> (plane_config \<Rightarrow> plane_runtime) \<Rightarrow> (string \<Rightarrow> bool) \<Rightarrow> host_env \<Rightarrow> (catalog_error + feature_catalog)
   \<Rightarrow> string \<Rightarrow> config \<Rightarrow> (start_error + daemon \<times> 'tls client_config) option" where
  "prepare S R supervised h mapping devicesPath c =
     (case layout_New (slTopics S) (cfMQTTTopic c) of
        None \<Rightarrow> Some (Inl BadMQTTTopic)
      | Some inst \<Rightarrow>
          (case loadDeviceSpecs S h devicesPath of
             Inl err \<Rightarrow> Some (Inl err)
           | Inr specs \<Rightarrow>
               (case haPlaneConfig (slTopics S) c inst of
                  None \<Rightarrow> None
                | Some pc \<Rightarrow>
                    (case Will_plane (R pc) of
                       None \<Rightarrow> Some (Inl WillFailed)
                     | Some will \<Rightarrow>
                         (case mqttClientConfig S c will of
                            Inl err \<Rightarrow> Some (Inl err)
                          | Inr client \<Rightarrow>
                              (case New_bridge (slTopics S) (slLower S) c specs of
                                 Inl err \<Rightarrow> Some (Inl (BridgeFailed err))
                               | Inr br \<Rightarrow> Some (Inr
                                   (\<lparr>dmConfig = c, dmInstance = instanceConfig supervised c inst (length specs), dmPlane = pc,
                                     dmSpecs = specs, dmHass = discovery_of (slTopics S) c mapping, dmBridge = br\<rparr>, client))))))))"

text \<open>
  \<open>start\<close> is how the connection's start ends and \<open>results\<close> what the bridge, and with the dashboard the web
  server, return, in order of arrival. \<open>None\<close> is a panic.
\<close>

definition serve ::
  "'tls start_lib \<Rightarrow> (plane_config \<Rightarrow> plane_runtime) \<Rightarrow> (string \<Rightarrow> bool) \<Rightarrow> host_env \<Rightarrow> (catalog_error + feature_catalog)
   \<Rightarrow> serve_end \<Rightarrow> serve_end list \<Rightarrow> string \<Rightarrow> string \<Rightarrow> ('tls serve_event list \<times> serve_end) option" where
  "serve S R supervised h mapping start results configPath devicesPath =
     (case loadConfig S h configPath of
        Inl err \<Rightarrow> Some ([], EndFailed (Some err))
      | Inr c \<Rightarrow>
          (let logs = List.map LogRemovedKey (cfRemoved c) in
           case prepare S R supervised h mapping devicesPath c of
             None \<Rightarrow> None
           | Some (Inl err) \<Rightarrow> Some (logs, EndFailed (Some err))
           | Some (Inr (_, client)) \<Rightarrow>
               (let dial = logs @ [Dial client (ReconnectInitialDuration c) (ReconnectMaxDuration c) (ReconnectJitterDuration c)] in
                if start \<noteq> EndNil then Some (dial, start)
                else Some (dial @ (if cfWebEnable c then [RunBridge, RunWeb (cfWebBind c)] else [RunBridge])
                             @ shutdownHAPlane @ [StopLifecycle],
                           if cfWebEnable c then group_end results else hd (results @ [EndNil])))))"

text \<open>The exit code, given the parsed flags.\<close>

datatype parsed_flags = BadFlags | VersionFlag | ServeFlags string string

definition run_daemon ::
  "(string \<Rightarrow> string \<Rightarrow> ('tls serve_event list \<times> serve_end) option) \<Rightarrow> parsed_flags \<Rightarrow> nat option" where
  "run_daemon srv flags = (case flags of
      BadFlags \<Rightarrow> Some 2
    | VersionFlag \<Rightarrow> Some 0
    | ServeFlags configPath devicesPath \<Rightarrow>
        map_option (\<lambda>(_, e). case e of EndNil \<Rightarrow> 0 | EndCanceled \<Rightarrow> 0 | EndFailed _ \<Rightarrow> 1) (srv configPath devicesPath))"

section \<open>Facts on the start\<close>

lemma map_sum_Inr: "map_sum f g x = Inr y \<longleftrightarrow> (\<exists>z. x = Inr z \<and> y = g z)"
  by (cases x) auto

lemma loadConfig_Inr:
  assumes "loadConfig S h p = Inr c"
  shows "Validate (slTopics S) c = []"
proof -
  obtain bytes where "Load_config (slYaml S) (slTopics S) (slLower S) bytes (Some (heEnviron h)) = Inr c"
    using assms by (auto simp: loadConfig_def LoadFile_def map_sum_Inr split: option.splits if_splits)
  then show ?thesis by (rule Load_config_Inr) simp
qed

lemma valid_no_panic:
  assumes "Validate T c = []"
  shows "\<exists>q. QoS (QoSLevel c) = Some q"
  using Validate_Nil(2) [OF assms] by (auto simp: QoS_def)

lemma load_specs_Inr:
  "load_specs J fs dcs = Inr specs \<Longrightarrow>
     List.map fst specs = dcs \<and> (\<forall>(dc, desc)\<in>set specs. LoadDescriptionJSON J fs (dcDescription dc) = Inr desc)"
proof (induction dcs arbitrary: specs)
  case Nil
  then show ?case by simp
next
  case (Cons dc dcs)
  obtain desc rest where "LoadDescriptionJSON J fs (dcDescription dc) = Inr desc" "load_specs J fs dcs = Inr rest"
      "specs = (dc, desc) # rest"
    using Cons.prems by (auto simp: map_sum_Inr split: if_splits sum.splits)
  with Cons.IH show ?case by simp
qed

lemma prepare_Inr:
  assumes "prepare S R supervised h mapping devicesPath c = Some (Inr (dm, client))"
  obtains inst pc will where "layout_New (slTopics S) (cfMQTTTopic c) = Some inst"
    and "loadDeviceSpecs S h devicesPath = Inr (dmSpecs dm)" and "haPlaneConfig (slTopics S) c inst = Some pc"
    and "dmPlane dm = pc" and "prWill (R pc) = Some will" and "mqttClientConfig S c will = Inr client"
    and "New_bridge (slTopics S) (slLower S) c (dmSpecs dm) = Inr (dmBridge dm)" and "dmConfig dm = c"
    and "dmHass dm = discovery_of (slTopics S) c mapping"
  using assms by (auto simp: prepare_def Will_plane_def split: option.splits sum.splits)

lemma serve_Dial:
  assumes "serve S R supervised h mapping start results configPath devicesPath = Some (tr, e)" and "Dial client i m j \<in> set tr"
  obtains c dm where "loadConfig S h configPath = Inr c" and "prepare S R supervised h mapping devicesPath c = Some (Inr (dm, client))"
    and "i = ReconnectInitialDuration c" and "m = ReconnectMaxDuration c" and "j = ReconnectJitterDuration c"
  using assms
  by (fastforce simp: serve_def Let_def shutdownHAPlane_def split: sum.splits option.splits prod.splits if_splits)

lemma loadDeviceSpecs_ok:
  assumes "loadDeviceSpecs S h devicesPath = Inr specs" and "lower_ok (slLower S)"
  shows "specs \<noteq> [] \<and> list_all (\<lambda>(dc, desc). device_ok (slLower S) dc
     \<and> LoadDescriptionJSON (slDescriptions S) (heFiles h) (dcDescription dc) = Inr desc) specs"
proof -
  obtain devices where d: "LoadDevices (heFiles h) (slDevicesYaml S) (slLower S) (slUpper S) devicesPath = Inr devices"
    and l: "load_specs (slDescriptions S) (heFiles h) devices = Inr specs"
    using assms(1) by (auto simp: loadDeviceSpecs_def split: sum.splits)
  from LoadDevices_valid [OF assms(2) d] load_specs_Inr [OF l] show ?thesis
    by (fastforce simp: list_all_iff)
qed

text \<open>The transport a server's URL asks for.\<close>

definition secured :: "'tls start_lib \<Rightarrow> config \<Rightarrow> 'tls client_config \<Rightarrow> bool" where
  "secured S c client \<longleftrightarrow>
     (if MQTTUsesTLS S c then \<exists>scheme host t. slURL S (cfMQTTServer c) = Some (scheme, host)
          \<and> slClientTLS S host (cfMQTTTLSCA c) (cfMQTTTLSInsecure c) = Some t \<and> ccTLS client = Some t
      else ccTLS client = None)"

lemma mqttClientConfig_Inr:
  assumes "mqttClientConfig S c will = Inr client"
  shows "ccWill client = will \<and> ccBrokerURL client = cfMQTTServer c \<and> ccUsername client = cfMQTTLogin c
     \<and> ccPassword client = cfMQTTPassword c
     \<and> secured S c client"
  using assms
  by (cases will) (auto simp: secured_def mqttClientConfig_def map_sum_Inr mqttTLSConfig_def split: if_splits option.splits prod.splits)

section \<open>Properties\<close>

text \<open>
  C7. The start fails closed and never panics. Whatever the files, the environment and the libraries answer,
  \<open>serve\<close> returns; and it dials the broker only with a configuration that passed validation, a devices file
  whose every entry is valid and has a readable description, a bridge in which every device could be built, and
  the credentials of that configuration. A server whose scheme asks for TLS is dialled with the TLS
  configuration made for its host name and the operator's CA, never in plaintext.
\<close>

theorem start_fails_closed:
  assumes "lower_ok (slLower S)"
  shows "\<exists>tr e. serve S R supervised h mapping start results configPath devicesPath = Some (tr, e)
     \<and> (\<forall>client i m j. Dial client i m j \<in> set tr \<longrightarrow>
          (\<exists>c specs inst devs. loadConfig S h configPath = Inr c \<and> Validate (slTopics S) c = []
             \<and> loadDeviceSpecs S h devicesPath = Inr specs \<and> specs \<noteq> []
             \<and> list_all (\<lambda>(dc, desc). device_ok (slLower S) dc
                  \<and> LoadDescriptionJSON (slDescriptions S) (heFiles h) (dcDescription dc) = Inr desc) specs
             \<and> New_bridge (slTopics S) (slLower S) c specs = Inr (inst, devs)
             \<and> ccBrokerURL client = cfMQTTServer c \<and> ccUsername client = cfMQTTLogin c \<and> ccPassword client = cfMQTTPassword c
             \<and> secured S c client))"
proof -
  let ?s = "serve S R supervised h mapping start results configPath devicesPath"
  have "prepare S R supervised h mapping devicesPath c \<noteq> None" if "loadConfig S h configPath = Inr c" for c
    using valid_no_panic [OF loadConfig_Inr [OF that]]
    by (auto simp: prepare_def haPlaneConfig_def split: option.splits sum.splits)
  then have "?s \<noteq> None" by (auto simp: serve_def Let_def split: option.splits sum.splits prod.splits)
  then obtain tr e where s: "?s = Some (tr, e)" by auto
  have "\<exists>c specs inst devs. loadConfig S h configPath = Inr c \<and> Validate (slTopics S) c = []
       \<and> loadDeviceSpecs S h devicesPath = Inr specs \<and> specs \<noteq> []
       \<and> list_all (\<lambda>(dc, desc). device_ok (slLower S) dc
            \<and> LoadDescriptionJSON (slDescriptions S) (heFiles h) (dcDescription dc) = Inr desc) specs
       \<and> New_bridge (slTopics S) (slLower S) c specs = Inr (inst, devs)
       \<and> ccBrokerURL client = cfMQTTServer c \<and> ccUsername client = cfMQTTLogin c \<and> ccPassword client = cfMQTTPassword c
       \<and> secured S c client"
    if d: "Dial client i m j \<in> set tr" for client i m j
  proof -
    obtain c dm where c: "loadConfig S h configPath = Inr c"
      and p: "prepare S R supervised h mapping devicesPath c = Some (Inr (dm, client))"
      using serve_Dial [OF s d] by blast
    obtain will where w: "mqttClientConfig S c will = Inr client" and l: "loadDeviceSpecs S h devicesPath = Inr (dmSpecs dm)"
      and "New_bridge (slTopics S) (slLower S) c (dmSpecs dm) = Inr (dmBridge dm)"
      using prepare_Inr [OF p] by blast
    then have "New_bridge (slTopics S) (slLower S) c (dmSpecs dm) = Inr (fst (dmBridge dm), snd (dmBridge dm))" by simp
    with c l loadConfig_Inr [OF c] mqttClientConfig_Inr [OF w] loadDeviceSpecs_ok [OF l assms] show ?thesis by blast
  qed
  with s show ?thesis by blast
qed

text \<open>
  C28. There is one availability topic. The Last Will the broker would publish, the marker the plane announces, the
  topic Home Assistant is told to watch for the bridge, and the topic whose publishes go around the circuit
  breaker are the same, \<open>connected\<close> under the configured name; and every publish on another topic goes through
  the breaker.
\<close>

theorem one_availability_topic:
  assumes "runtime_topic_law (slTopics S) R"
    and "serve S R supervised h mapping start results configPath devicesPath = Some (tr, e)" and "Dial client i m j \<in> set tr"
  shows "\<exists>c pc. loadConfig S h configPath = Inr c \<and> haPlaneConfig (slTopics S) c (cfMQTTTopic c) = Some pc
     \<and> lwTopic (ccWill client) = Connected (slTopics S) (cfMQTTTopic c) \<and> lwRetain (ccWill client)
     \<and> StatusTopic (R pc) = lwTopic (ccWill client) \<and> layout_Bridge (slTopics S) (cfMQTTTopic c) = lwTopic (ccWill client)
     \<and> trPublish (haPlaneTransport (R pc) breaker direct) topic =
          (if topic = lwTopic (ccWill client) then trPublish direct topic else trPublish breaker topic)"
proof -
  obtain c dm where c: "loadConfig S h configPath = Inr c"
    and p: "prepare S R supervised h mapping devicesPath c = Some (Inr (dm, client))"
    using serve_Dial [OF assms(2,3)] by blast
  obtain inst pc will where i: "layout_New (slTopics S) (cfMQTTTopic c) = Some inst"
    and pc: "haPlaneConfig (slTopics S) c inst = Some pc" and w: "prWill (R pc) = Some will"
    and m: "mqttClientConfig S c will = Inr client"
    using prepare_Inr [OF p] by blast
  have inst: "inst = cfMQTTTopic c" using i by (auto simp: layout_New_def split: if_splits)
  have f: "pcStatusTopic pc = Connected (slTopics S) inst" "pcLayout pc = inst" using pc by (auto simp: haPlaneConfig_def)
  then have "pcStatusTopic pc = layout_Bridge (slTopics S) (pcLayout pc)" by (simp add: layout_Bridge_def)
  with assms(1) w have l: "prBridgeTopic (R pc) = pcStatusTopic pc" "lwTopic will = prBridgeTopic (R pc)" "lwRetain will"
    unfolding runtime_topic_law_def by blast+
  have "ccWill client = will" using mqttClientConfig_Inr [OF m] by simp
  with c pc inst f l show ?thesis
    by (auto simp: StatusTopic_def layout_Bridge_def haPlaneTransport_def haTransport_def BypassFor_def fun_eq_iff)
qed

text \<open>
  A daemon that connected takes its leave in order: discovery stops, the runtime is closed, the offline marker
  goes out and the link is taken down last, once each, after everything else; and a start that failed, before
  the connection or in it, announces nothing.
\<close>

theorem leaves_in_order:
  assumes "serve S R supervised h mapping start results configPath devicesPath = Some (tr, e)"
  shows "\<exists>pre. set pre \<inter> {StopDiscovery, ClosePlane, AnnounceOffline, StopLifecycle} = {}
     \<and> (if RunBridge \<in> set tr then tr = pre @ [StopDiscovery, ClosePlane, AnnounceOffline, StopLifecycle] else tr = pre)"
  using assms
  by (force simp: serve_def Let_def shutdownHAPlane_def split: sum.splits option.splits prod.splits if_splits)

section \<open>An example start\<close>

definition hob_device :: device_config where
  "hob_device = (kitchen ! 1)\<lparr>dcPSK64 := ''c2VjcmV0LWtleS1vZi10aGUtaG9iLWFwcGxpYW5jZSE''\<rparr>"

definition plain_start :: "string start_lib" where
  "plain_start =
     \<lparr>slYaml = small_yaml, slTopics = plain_topics, slLower = List.map lower_char, slUpper = List.map upper_char,
      slDevicesYaml = (\<lambda>_. Some [hob_device]),
      slDescriptions = \<lparr>djMarshal = (\<lambda>_. None), djUnmarshal = (\<lambda>b. if b = ''{}'' then Some newDescription else None)\<rparr>,
      slURL = (\<lambda>u. Some (''tcp'', ''broker'')), slClientTLS = (\<lambda>host ca insecure. Some host)\<rparr>"

definition plain_host :: host_env where
  "plain_host =
     \<lparr>heFiles = [''config.yaml'' \<mapsto> [], ''devices.yaml'' \<mapsto> [], ''cache/4711.json'' \<mapsto> ''{}''], heEnviron = [],
      heSearch = \<lparr>swCwd = None, swWindows = False, swEnv = Map.empty, swHome = None, swIsFile = (\<lambda>_. False)\<rparr>\<rparr>"

definition plain_plane :: "plane_config \<Rightarrow> plane_runtime" where
  "plain_plane pc = \<lparr>prBridgeTopic = pcStatusTopic pc,
     prWill = Some \<lparr>lwTopic = pcStatusTopic pc, lwPayload = ''0'', lwQoS = 1, lwRetain = True\<rparr>\<rparr>"

lemma plain_plane_law: "runtime_topic_law T plain_plane"
  by (simp add: runtime_topic_law_def plain_plane_def)

definition plain_serve :: "(string serve_event list \<times> serve_end) option" where
  "plain_serve = serve plain_start plain_plane (\<lambda>_. False) plain_host (Inr Empty_catalog) EndNil [EndCanceled]
     ''config.yaml'' ''devices.yaml''"

definition is_dial :: "'tls serve_event \<Rightarrow> bool" where
  "is_dial ev = (case ev of Dial _ _ _ _ \<Rightarrow> True | _ \<Rightarrow> False)"

lemma plain_serve_dials: "(case plain_serve of None \<Rightarrow> False | Some (tr, e) \<Rightarrow> e = EndCanceled \<and> list_ex is_dial tr)"
  by code_simp

lemma plain_serve_Dial:
  obtains tr client i m j where "plain_serve = Some (tr, EndCanceled)" and "Dial client i m j \<in> set tr"
proof -
  obtain tr e where p: "plain_serve = Some (tr, e)" using plain_serve_dials by (cases plain_serve) auto
  then have "e = EndCanceled \<and> list_ex is_dial tr" using plain_serve_dials by (metis (mono_tags, lifting) case_prod_conv option.case(2))
  then have e: "e = EndCanceled" and "list_ex is_dial tr" by blast+
  then obtain ev where ev: "ev \<in> set tr" "is_dial ev" by (auto simp: list_ex_iff)
  from ev(2) obtain client i m j where "ev = Dial client i m j" unfolding is_dial_def by (cases ev) simp_all
  with p e ev(1) that show thesis by blast
qed

lemma start_fails_closed_witness:
  "\<exists>c specs inst devs. loadConfig plain_start plain_host ''config.yaml'' = Inr c \<and> Validate plain_topics c = []
     \<and> loadDeviceSpecs plain_start plain_host ''devices.yaml'' = Inr specs \<and> specs \<noteq> []
     \<and> New_bridge plain_topics (List.map lower_char) c specs = Inr (inst, devs)"
proof -
  obtain tr client i m j where s: "plain_serve = Some (tr, EndCanceled)" and d: "Dial client i m j \<in> set tr"
    by (rule plain_serve_Dial)
  have l: "lower_ok (slLower plain_start)" by (simp add: plain_start_def lower_ok_ascii)
  have t: "slTopics plain_start = plain_topics" "slLower plain_start = List.map lower_char" by (simp_all add: plain_start_def)
  obtain tr' e' where s': "plain_serve = Some (tr', e')"
    and r: "\<And>client i m j. Dial client i m j \<in> set tr' \<Longrightarrow>
      (\<exists>c specs inst devs. loadConfig plain_start plain_host ''config.yaml'' = Inr c \<and> Validate plain_topics c = []
         \<and> loadDeviceSpecs plain_start plain_host ''devices.yaml'' = Inr specs \<and> specs \<noteq> []
         \<and> New_bridge plain_topics (List.map lower_char) c specs = Inr (inst, devs))"
    using start_fails_closed [OF l, of plain_plane "\<lambda>_. False" plain_host "Inr Empty_catalog" EndNil "[EndCanceled]"
        "''config.yaml''" "''devices.yaml''"]
    unfolding plain_serve_def t by fast
  have "tr' = tr" using s s' by (metis option.inject prod.inject)
  with r d show ?thesis by blast
qed

lemma one_availability_topic_witness:
  "\<exists>c client i m j tr e. plain_serve = Some (tr, e) \<and> Dial client i m j \<in> set tr
     \<and> loadConfig plain_start plain_host ''config.yaml'' = Inr c
     \<and> lwTopic (ccWill client) = Connected plain_topics (cfMQTTTopic c)"
proof -
  obtain tr client i m j where s: "plain_serve = Some (tr, EndCanceled)" and d: "Dial client i m j \<in> set tr"
    by (rule plain_serve_Dial)
  have t: "slTopics plain_start = plain_topics" by (simp add: plain_start_def)
  show ?thesis
    using one_availability_topic [OF plain_plane_law s [unfolded plain_serve_def] d] s d unfolding t by blast
qed

lemma leaves_in_order_witness:
  "\<exists>tr e pre. plain_serve = Some (tr, e) \<and> (if RunBridge \<in> set tr
     then tr = pre @ [StopDiscovery, ClosePlane, AnnounceOffline, StopLifecycle] else tr = pre)"
proof -
  obtain tr where s: "plain_serve = Some (tr, EndCanceled)" by (rule plain_serve_Dial)
  show ?thesis using leaves_in_order [OF s [unfolded plain_serve_def]] s by blast
qed

lemma exit_codes:
  "run_daemon (serve S R supervised h mapping start results) BadFlags = Some 2"
  "run_daemon (serve S R supervised h mapping start results) VersionFlag = Some 0"
  "run_daemon (serve S R supervised h mapping start results) (ServeFlags c d) =
     (case serve S R supervised h mapping start results c d of
        Some (_, EndFailed _) \<Rightarrow> Some 1 | Some _ \<Rightarrow> Some 0 | None \<Rightarrow> None)"
  by (auto simp: run_daemon_def split: option.split prod.split serve_end.split)

end
