(* ===== verification/Hc_Util.thy ===== *)
theory Hc_Util
  imports Archive Secrets Description_Cache Worker
begin

text \<open>
  The operator's tool, \<^verbatim>\<open>cmd/hc-util\<close>: \<open>parse\<close> turns a profile archive into cached descriptions and prints the
  entries of the devices file (or writes them to an inventory), \<open>dump\<close> lists a description, and
  \<open>connection-test\<close> tries every device of a devices file.

  One call of the flag package is the parameter \<open>flag_parse\<close>: it consumes flags up to the first positional
  argument. The file system is the map \<open>files\<close> with what may be written; the inventory is theory \<open>Secrets\<close>'. What
  a connection attempt answers is a parameter. Output is a list of lines.
\<close>

section \<open>Files of a directory\<close>

lemma clean_elements_file:
  assumes "f \<noteq> []" and "f \<noteq> ''.''" and "f \<noteq> ''..''"
  shows "clean_elements r out (es @ [f]) = clean_elements r out es @ [f]"
  using assms by (induction r out es rule: clean_elements.induct) (auto split: list.split)

lemma join_snoc: "join sep (es @ [f]) = (if es = [] then f else join sep es @ sep @ f)"
  by (induction sep es rule: join.induct) auto

lemma path_join_file:
  assumes "f \<noteq> []" and "CHR ''/'' \<notin> set f" and "f \<noteq> ''.''" and "f \<noteq> ''..''"
  shows "path_base (path_join [d, f]) = f"
proof -
  define p where "p = (if d = [] then f else d @ ''/'' @ f)"
  define r where "r = prefix ''/'' p"
  define es0 where "es0 = (if d = [] then [] else split_on (CHR ''/'') d)"
  have "path_join [d, f] = path_clean p" using assms(1) by (simp add: path_join_def p_def)
  moreover have "split_on (CHR ''/'') p = es0 @ [f]"
    using assms(2) by (simp add: p_def es0_def split_on_append_sep split_on_notin)
  then have "clean_elements r [] (split_on (CHR ''/'') p) = clean_elements r [] es0 @ [f]"
    using clean_elements_file [OF assms(1,3,4)] by simp
  ultimately have "path_join [d, f] =
      (if r then CHR ''/'' # join ''/'' (clean_elements r [] es0 @ [f]) else join ''/'' (clean_elements r [] es0 @ [f]))"
    by (cases r) (simp_all add: path_clean_def Let_def flip: r_def)
  then have "path_join [d, f] = f \<or> (\<exists>d'. path_join [d, f] = d' @ CHR ''/'' # f)"
    by (auto simp: join_snoc split: if_splits)
  then show ?thesis using path_base_file [OF assms(1,2)] by auto
qed

lemma haid_file:
  assumes "ValidHaID i"
  shows "path_base (path_join [d, i @ ''.json'']) = i @ ''.json''"
proof (rule path_join_file)
  show "CHR ''/'' \<notin> set (i @ ''.json'')"
    using ValidHaID_chars [OF assms] haid_char_safe by auto
qed (use assms in \<open>auto simp: ValidHaID_def\<close>)

section \<open>Arguments\<close>

record util_flags =
  ufOut :: string
  ufInventory :: string

definition default_flags :: util_flags where
  "default_flags = \<lparr>ufOut = ''./profiles'', ufInventory = []\<rparr>"

text \<open>The loop that honours flags after the path; \<open>None\<close> is an error of the flag package, or no fuel.\<close>

fun parse_args ::
  "(string list \<Rightarrow> util_flags \<Rightarrow> (util_flags \<times> string list) option) \<Rightarrow> nat \<Rightarrow> string list \<Rightarrow> util_flags \<times> string list
   \<Rightarrow> (util_flags \<times> string list) option" where
  "parse_args flag_parse 0 rest st = None"
| "parse_args flag_parse (Suc n) rest (fl, positionals) =
     (case flag_parse rest fl of
        None \<Rightarrow> None
      | Some (fl', []) \<Rightarrow> Some (fl', positionals)
      | Some (fl', p # rest') \<Rightarrow> parse_args flag_parse n rest' (fl', positionals @ [p]))"

section \<open>Parsing an archive\<close>

record util_env =
  ueArchive :: archive_lib
  ueIsDir :: "string \<Rightarrow> bool option"
  ueDir :: "string \<Rightarrow> (string \<times> bool) list option"
  ueMkdir :: "string \<Rightarrow> bool"
  ueJSON :: desc_json
  ueWritable :: "string \<Rightarrow> bool"
  ueMarshal :: "inventory_entry list \<Rightarrow> string option"
  ueCalls :: file_calls
  ueCreated :: nat
  ueQuote :: "string \<Rightarrow> string"

datatype util_error =
    BadArguments
  | MissingPath
  | NoSuchPath
  | ArchiveFailed archive_error
  | MkdirFailed
  | CacheFailed cache_error
  | InventoryFailed inventory_error
  | UtilDevices devices_error
  | ConnectionsFailed nat nat

definition safeProfileFileName :: "string \<Rightarrow> bool" where
  "safeProfileFileName haID = ValidHaID haID"

definition description_path :: "string \<Rightarrow> device_profile \<Rightarrow> string" where
  "description_path out p = path_join [out, dpHaID p @ ''.json'']"

fun save_all :: "util_env \<Rightarrow> string \<Rightarrow> device_profile list \<Rightarrow> files \<Rightarrow> util_error option \<times> files" where
  "save_all E out [] fs = (None, fs)"
| "save_all E out (p # ps) fs =
     (case SaveDescriptionJSON (ueJSON E) (ueWritable E) (description_path out p) (dpDescription p) fs of
        Inl err \<Rightarrow> (Some (CacheFailed err), fs)
      | Inr fs' \<Rightarrow> save_all E out ps fs')"

definition inventory_lines :: "string \<Rightarrow> device_profile list \<Rightarrow> string list" where
  "inventory_lines inventory ps =
     (''# parsed '' @ itoa (int (length ps)) @ '' appliance(s); keys written to '' @ inventory @ '' (not shown):'')
     # List.map (\<lambda>p. ''#   '' @ dpHaID p @ ''  '' @ dpBrand p @ '' '' @ dpType p @ '' '' @ dpVib p @ ''  '' @ dpConnectionType p) ps"

definition snippet_lines :: "util_env \<Rightarrow> string \<Rightarrow> device_profile list \<Rightarrow> string list" where
  "snippet_lines E out ps =
     [''# Add these entries to devices.yaml (secrets included '' @ [CHR 0xE2, CHR 0x80, CHR 0x94] @ '' keep local):'', ''devices:'']
     @ concat (List.map (\<lambda>p.
         [''  - name: '' @ dpHaID p,
          ''    haid: '' @ dpHaID p @ ''           # device segment of every MQTT topic'',
          ''    host: '' @ [CHR 0x22, CHR 0x22] @ ''            # '' @ DefaultHost p @ '' (mDNS) or set a manual IP'',
          ''    connection_type: '' @ dpConnectionType p,
          ''    psk64: '' @ ueQuote E (dpPSK64 p)]
         @ (if dpConnectionType p = ConnectionAES then [''    iv64: '' @ ueQuote E (dpIV64 p)] else [])
         @ [''    description: '' @ description_path out p]) ps)"

record util_result =
  urError :: "util_error option"
  urFiles :: files
  urInventory :: "file_image option"
  urStdout :: "string list"

definition read_profiles :: "util_env \<Rightarrow> string \<Rightarrow> bool \<Rightarrow> files \<Rightarrow> archive_error + device_profile list" where
  "read_profiles E src dir fs =
     map_sum id (filter (\<lambda>p. safeProfileFileName (dpHaID p)))
       (if dir then ParseArchiveDir (ueArchive E) fs (ueDir E) src else ParseArchiveFile (ueArchive E) fs src)"

definition parseCmd ::
  "util_env \<Rightarrow> (string list \<Rightarrow> util_flags \<Rightarrow> (util_flags \<times> string list) option) \<Rightarrow> string list \<Rightarrow> files \<Rightarrow> file_image option
   \<Rightarrow> util_result" where
  "parseCmd E flag_parse args fs old =
     (let stop = (\<lambda>e fs. \<lparr>urError = Some e, urFiles = fs, urInventory = old, urStdout = []\<rparr>) in
      case parse_args flag_parse (Suc (length args)) args (default_flags, []) of
        None \<Rightarrow> stop BadArguments fs
      | Some (fl, []) \<Rightarrow> stop MissingPath fs
      | Some (fl, src # _) \<Rightarrow>
          (case ueIsDir E src of
             None \<Rightarrow> stop NoSuchPath fs
           | Some dir \<Rightarrow>
               (case read_profiles E src dir fs of
                  Inl err \<Rightarrow> stop (ArchiveFailed err) fs
                | Inr kept \<Rightarrow>
                    (if \<not> ueMkdir E (ufOut fl) then stop MkdirFailed fs
                     else (case save_all E (ufOut fl) kept fs of
                         (Some err, fs') \<Rightarrow> stop err fs'
                       | (None, fs') \<Rightarrow>
                           if ufInventory fl \<noteq> [] then
                             (case WriteInventory (ueMarshal E) (ueCalls E) (ueCreated E) kept old of
                                (Some err, img) \<Rightarrow>
                                  \<lparr>urError = Some (InventoryFailed err), urFiles = fs', urInventory = img, urStdout = []\<rparr>
                              | (None, img) \<Rightarrow>
                                  \<lparr>urError = None, urFiles = fs', urInventory = img,
                                   urStdout = inventory_lines (ufInventory fl) kept\<rparr>)
                           else \<lparr>urError = None, urFiles = fs', urInventory = old,
                                 urStdout = snippet_lines E (ufOut fl) kept\<rparr>)))))"

section \<open>Listing a description\<close>

fun kind_text :: "entry_kind \<Rightarrow> string" where
  "kind_text KindStatus = ''status''" | "kind_text KindSetting = ''setting''" | "kind_text KindEvent = ''event''"
| "kind_text KindCommand = ''command''" | "kind_text KindOption = ''option''" | "kind_text KindProgram = ''program''"
| "kind_text KindActiveProgram = ''activeProgram''" | "kind_text KindSelectedProgram = ''selectedProgram''"
| "kind_text KindProtectionPort = ''protectionPort''" | "kind_text (KindOther s) = s"

text \<open>The widths of \<^verbatim>\<open>%-10s\<close> count runes.\<close>

definition pad_text :: "nat \<Rightarrow> string \<Rightarrow> string" where
  "pad_text n s = s @ replicate (n - length (runes s)) (CHR '' '')"

definition dump_line :: "(int \<Rightarrow> string) \<Rightarrow> entry \<Rightarrow> string" where
  "dump_line hex4 e =
     ''0x'' @ hex4 (eUID e) @ ''  '' @ pad_text 10 (kind_text (eKind e)) @ ''  ''
     @ pad_text 10 (protocol_name (eProtocolType e)) @ ''  '' @ pad_text 9 (eAccess e) @ ''  '' @ eName e"

text \<open>The code's sort leaves the order of equal names open; here it is that of the list.\<close>

definition dumpCmd :: "util_env \<Rightarrow> (int \<Rightarrow> string) \<Rightarrow> string list \<Rightarrow> files \<Rightarrow> util_error option \<times> string list" where
  "dumpCmd E hex4 args fs = (case args of
      [] \<Rightarrow> (Some MissingPath, [])
    | path # _ \<Rightarrow>
        (case LoadDescriptionJSON (ueJSON E) fs path of
           Inl err \<Rightarrow> (Some (CacheFailed err), [])
         | Inr desc \<Rightarrow>
             (None,
              [''# '' @ diBrand (dInfo desc) @ '' '' @ diType (dInfo desc) @ '' '' @ diModel (dInfo desc)
                 @ '' (version '' @ itoa (diVersion (dInfo desc)) @ '')'',
               pad_text 6 ''UID'' @ ''  '' @ pad_text 10 ''KIND'' @ ''  '' @ pad_text 10 ''PROTOCOL'' @ ''  ''
                 @ pad_text 9 ''ACCESS'' @ ''  NAME'']
              @ List.map (dump_line hex4) (sort_key eName (Entries desc)))))"

section \<open>Testing the connections\<close>

datatype test_error = NoHostConfigured | TestBadPSK | TestBadIV | TestNoSocket | ConnectFailed string

text \<open>\<open>connect\<close> is a session's handshake over a socket, with the timeout of the tool; it is closed afterwards either way.\<close>

definition testOne :: "(socket \<Rightarrow> string option) \<Rightarrow> device_config \<Rightarrow> test_error option" where
  "testOne connect dc =
     (if dcHost dc = [] then Some NoHostConfigured
      else case DecodeKey (dcPSK64 dc) of
          None \<Rightarrow> Some TestBadPSK
        | Some psk \<Rightarrow>
            (case (if dcIV64 dc \<noteq> [] then DecodeKey (dcIV64 dc) else Some []) of
               None \<Rightarrow> Some TestBadIV
             | Some i \<Rightarrow>
                 (case NewSocket (dcConnectionType dc) (dcHost dc) psk i of
                    None \<Rightarrow> Some TestNoSocket
                  | Some s \<Rightarrow> map_option ConnectFailed (connect s))))"

definition connTestCmd ::
  "(string \<Rightarrow> device_config list option) \<Rightarrow> (string \<Rightarrow> string) \<Rightarrow> (string \<Rightarrow> string) \<Rightarrow> (socket \<Rightarrow> string option)
   \<Rightarrow> string list \<Rightarrow> files \<Rightarrow> util_error option \<times> (string \<times> test_error option) list" where
  "connTestCmd yaml u up connect args fs = (case args of
      [] \<Rightarrow> (Some MissingPath, [])
    | path # _ \<Rightarrow>
        (case LoadDevices fs yaml u up path of
           Inl err \<Rightarrow> (Some (UtilDevices err), [])
         | Inr devices \<Rightarrow>
             (let outcomes = List.map (\<lambda>dc. (dcName dc, testOne connect dc)) devices;
                  failures = length (filter (\<lambda>(_, e). e \<noteq> None) outcomes)
              in (if 0 < failures then Some (ConnectionsFailed failures (length devices)) else None, outcomes))))"

section \<open>The dispatch\<close>

definition cmdExit :: "util_error option \<Rightarrow> nat" where
  "cmdExit err = (if err = None then 0 else 1)"

text \<open>The exit code, given how the three commands end on the remaining arguments.\<close>

definition run_util ::
  "(string list \<Rightarrow> util_error option) \<Rightarrow> (string list \<Rightarrow> util_error option) \<Rightarrow> (string list \<Rightarrow> util_error option)
   \<Rightarrow> string list \<Rightarrow> nat" where
  "run_util parse_end dump_end test_end args = (case args of
      [] \<Rightarrow> 2
    | cmd # rest \<Rightarrow>
        if cmd \<in> {''version'', ''--version'', ''-v''} \<or> cmd \<in> {''help'', ''--help'', ''-h''} then 0
        else if cmd = ''parse'' then cmdExit (parse_end rest)
        else if cmd = ''dump'' then cmdExit (dump_end rest)
        else if cmd = ''connection-test'' then cmdExit (test_end rest)
        else 2)"

section \<open>Facts\<close>

text \<open>Every call that does not end the loop takes a positional argument away, so the fuel is enough.\<close>

lemma parse_args_fuel:
  assumes "\<forall>rest fl fl' r. flag_parse rest fl = Some (fl', r) \<longrightarrow> length r \<le> length rest"
    and "length rest < n" and "length rest < m"
  shows "parse_args flag_parse n rest st = parse_args flag_parse m rest st"
  using assms(2,3)
proof (induction n arbitrary: m rest st)
  case 0
  then show ?case by simp
next
  case (Suc n)
  then obtain k where m: "m = Suc k" by (cases m) auto
  obtain fl ps where st: "st = (fl, ps)" by fastforce
  show ?case
  proof (cases "flag_parse rest fl")
    case None
    then show ?thesis by (simp add: m st)
  next
    case (Some x)
    then obtain fl' r where x: "flag_parse rest fl = Some (fl', r)" by (cases x) auto
    then have "length r \<le> length rest" using assms(1) by blast
    with x Suc m st show ?thesis by (cases r) simp_all
  qed
qed

lemma haid_paths_differ:
  assumes "ValidHaID (dpHaID p)" and "ValidHaID (dpHaID q)" and "description_path out p = description_path out q"
  shows "dpHaID p = dpHaID q"
  using haid_file [OF assms(1), of out] haid_file [OF assms(2), of out] assms(3)
  unfolding description_path_def by (metis append_same_eq)

lemma save_all_keeps:
  assumes "save_all E out ps fs = (None, fs')" and "path \<notin> description_path out ` set ps"
  shows "fs' path = fs path"
  using assms
  by (induction ps arbitrary: fs) (auto simp: SaveDescriptionJSON_def split: sum.splits option.splits if_splits)

lemma save_all_saves:
  assumes "save_all E out ps fs = (None, fs')" and "p \<in> set ps" and "list_all (\<lambda>q. ValidHaID (dpHaID q)) ps"
    and "\<forall>q\<in>set ps. dpHaID q = dpHaID p \<longrightarrow> q = p"
  shows "\<exists>b. djMarshal (ueJSON E) (dpDescription p) = Some b \<and> fs' (description_path out p) = Some b"
  using assms
proof (induction ps arbitrary: fs)
  case Nil
  then show ?case by simp
next
  case (Cons q qs)
  obtain fs1 where s: "SaveDescriptionJSON (ueJSON E) (ueWritable E) (description_path out q) (dpDescription q) fs = Inr fs1"
    and r: "save_all E out qs fs1 = (None, fs')"
    using Cons.prems(1) by (auto split: sum.splits)
  show ?case
  proof (cases "p \<in> set qs")
    case True
    with Cons.IH [OF r] Cons.prems(3,4) show ?thesis by simp
  next
    case False
    then have q: "q = p" using Cons.prems(2) by simp
    have "description_path out p \<noteq> description_path out r" if "r \<in> set qs" for r
    proof
      assume e: "description_path out p = description_path out r"
      have "ValidHaID (dpHaID p)" "ValidHaID (dpHaID r)" using Cons.prems(3) q that by (simp_all add: list_all_iff)
      from haid_paths_differ [OF this e] have "r = p" using Cons.prems(4) that by simp
      with that False show False by simp
    qed
    then have "description_path out p \<notin> description_path out ` set qs" by blast
    then have "fs' (description_path out p) = fs1 (description_path out p)" by (rule save_all_keeps [OF r])
    with s q show ?thesis by (auto simp: SaveDescriptionJSON_def split: option.splits if_splits)
  qed
qed

lemma ParseArchiveFile_ok:
  "ParseArchiveFile L rd src = Inr ps \<Longrightarrow> list_all (\<lambda>p. ValidHaID (dpHaID p) \<and> dHaID (dpDescription p) = dpHaID p) ps"
  by (auto simp: ParseArchiveFile_def ParseArchiveBytes_def dest: parseFileSet_ok
      split: option.splits sum.splits if_splits prod.splits)

lemma ParseArchiveDir_ok:
  assumes "ParseArchiveDir L rd rdDir src = Inr ps"
  shows "list_all (\<lambda>p. ValidHaID (dpHaID p) \<and> dHaID (dpDescription p) = dpHaID p) ps"
proof -
  obtain es where "ps = concat (List.map parsed (dir_archives L rd src es))"
    using assms by (auto simp: ParseArchiveDir_def parse_dir_closed Let_def split: option.splits if_splits)
  moreover have "list_all (\<lambda>p. ValidHaID (dpHaID p) \<and> dHaID (dpDescription p) = dpHaID p) (parsed (ParseArchiveFile L rd f))" for f
    using ParseArchiveFile_ok [of L rd f] by (auto simp: parsed_def split: sum.split)
  ultimately show ?thesis by (auto simp: dir_archives_def list_all_iff)
qed

lemma read_profiles_ok:
  assumes "read_profiles E src dir fs = Inr ps"
  shows "list_all (\<lambda>p. ValidHaID (dpHaID p) \<and> dHaID (dpDescription p) = dpHaID p) ps"
proof -
  obtain qs where "ps = filter (\<lambda>p. safeProfileFileName (dpHaID p)) qs"
      "list_all (\<lambda>p. ValidHaID (dpHaID p) \<and> dHaID (dpDescription p) = dpHaID p) qs"
    using assms by (cases dir; cases "ParseArchiveDir (ueArchive E) fs (ueDir E) src"; cases "ParseArchiveFile (ueArchive E) fs src")
      (auto simp: read_profiles_def dest: ParseArchiveDir_ok ParseArchiveFile_ok)
  then show ?thesis by (auto simp: list_all_iff)
qed

lemma parseCmd_saves:
  assumes "parse_args flag_parse (Suc (length args)) args (default_flags, []) = Some (fl, src # others)" and "ueIsDir E src = Some dir"
    and "read_profiles E src dir fs = Inr ps" and "urError (parseCmd E flag_parse args fs old) = None"
  shows "save_all E (ufOut fl) ps fs = (None, urFiles (parseCmd E flag_parse args fs old))"
  using assms
  by (auto simp: parseCmd_def Let_def split: if_splits prod.splits option.splits)

lemma ResolveHaID_described:
  assumes "ValidHaID i" and "dHaID d = i" and "dcHaID dc = [] \<or> dcHaID dc = i"
  shows "\<exists>from. ResolveHaID dc (Some d) = Inr (i, from)"
  using assms by (auto simp: ResolveHaID_def ValidHaID_def)

section \<open>Properties\<close>

text \<open>
  C13. What \<open>parse\<close> writes is what the daemon loads. When the command succeeds, every appliance of the archive (whose
  haId no other one of it has) is found under the path the printed entry names: the daemon reads there a
  description with the same exported fields, and, whether or not the operator copied the haId, resolves the
  appliance to the haId of the archive.
\<close>

theorem parsed_profiles_load:
  assumes "desc_json_ok (ueJSON E)"
    and "parse_args flag_parse (Suc (length args)) args (default_flags, []) = Some (fl, src # others)" and "ueIsDir E src = Some dir"
    and "read_profiles E src dir fs = Inr ps" and "urError (parseCmd E flag_parse args fs old) = None"
    and "p \<in> set ps" and "text_in_utf8 (dpDescription p)" and "\<forall>q\<in>set ps. dpHaID q = dpHaID p \<longrightarrow> q = p"
    and "dcDescription dc = description_path (ufOut fl) p" and "dcHaID dc = [] \<or> dcHaID dc = dpHaID p"
  shows "\<exists>d from. LoadDescriptionJSON (ueJSON E) (urFiles (parseCmd E flag_parse args fs old)) (dcDescription dc) = Inr d
     \<and> exported d = exported (dpDescription p) \<and> looks_up d \<and> ResolveHaID dc (Some d) = Inr (dpHaID p, from)"
proof -
  have ok: "list_all (\<lambda>p. ValidHaID (dpHaID p) \<and> dHaID (dpDescription p) = dpHaID p) ps"
    using read_profiles_ok [OF assms(4)] .
  then have v: "ValidHaID (dpHaID p)" "dHaID (dpDescription p) = dpHaID p" "list_all (\<lambda>q. ValidHaID (dpHaID q)) ps"
    using assms(6) by (auto simp: list_all_iff)
  obtain b where b: "djMarshal (ueJSON E) (dpDescription p) = Some b"
      "urFiles (parseCmd E flag_parse args fs old) (description_path (ufOut fl) p) = Some b"
    using save_all_saves [OF parseCmd_saves [OF assms(2-5)] assms(6) v(3) assms(8)] by blast
  obtain d' where d': "djUnmarshal (ueJSON E) b = Some d'" "exported d' = exported (dpDescription p)"
    using assms(1,7) b(1) unfolding desc_json_ok_def by blast
  let ?d = "rebuildIndex d'"
  have "LoadDescriptionJSON (ueJSON E) (urFiles (parseCmd E flag_parse args fs old)) (dcDescription dc) = Inr ?d"
    by (simp add: LoadDescriptionJSON_def assms(9) b(2) d'(1))
  moreover have e: "exported ?d = exported (dpDescription p)" using d'(2) by (simp add: exported_rebuilt)
  moreover have "dHaID ?d = dpHaID p" using e v(2) by (simp add: exported_def)
  ultimately show ?thesis using ResolveHaID_described [OF v(1) _ assms(10)] looks_up_rebuilt by blast
qed

text \<open>The summary that goes to the add-on's log is the same whatever the keys are.\<close>

lemma inventory_hides_keys:
  "inventory_lines inventory (List.map (\<lambda>p. p\<lparr>dpPSK64 := other_psk p, dpIV64 := other_iv p\<rparr>) ps) = inventory_lines inventory ps"
  by (simp add: inventory_lines_def comp_def)

lemma parse_failure_silent:
  "urError (parseCmd E flag_parse args fs old) \<noteq> None \<Longrightarrow> urStdout (parseCmd E flag_parse args fs old) = []"
  by (auto simp: parseCmd_def Let_def split: option.splits list.splits sum.splits prod.splits if_splits)

definition oven_util :: util_env where
  "oven_util =
     \<lparr>ueArchive = oven_archive, ueIsDir = (\<lambda>_. Some False), ueDir = (\<lambda>_. None), ueMkdir = (\<lambda>_. True),
      ueJSON = \<lparr>djMarshal = (\<lambda>d. if d = dpDescription oven_profile then Some ''{}'' else None),
        djUnmarshal = (\<lambda>b. if b = ''{}'' then Some ((dpDescription oven_profile)\<lparr>byUID := Map.empty, byName := Map.empty\<rparr>) else None)\<rparr>,
      ueWritable = (\<lambda>_. True), ueMarshal = (\<lambda>_. None),
      ueCalls = \<lparr>fcOpens = False, fcChmods = False, fcWritten = 0, fcCloses = False\<rparr>, ueCreated = 0, ueQuote = (\<lambda>s. s)\<rparr>"

definition no_flags :: "string list \<Rightarrow> util_flags \<Rightarrow> (util_flags \<times> string list) option" where
  "no_flags rest fl = Some (fl, rest)"

lemma oven_read: "read_profiles oven_util ''oven.zip'' False [''oven.zip'' \<mapsto> []] = Inr [oven_profile]"
proof -
  have "ValidHaID (dpHaID oven_profile)" by code_simp
  then show ?thesis
    by (simp add: read_profiles_def oven_util_def ParseArchiveFile_def oven_parses safeProfileFileName_def)
qed

lemma oven_args:
  "parse_args no_flags (Suc (length [''oven.zip''])) [''oven.zip''] (default_flags, []) = Some (default_flags, ''oven.zip'' # [])"
  by (simp add: no_flags_def)

lemma oven_parse_ok: "urError (parseCmd oven_util no_flags [''oven.zip''] [''oven.zip'' \<mapsto> []] None) = None"
proof -
  have d: "ueIsDir oven_util ''oven.zip'' = Some False" "ueMkdir oven_util out" "ufInventory default_flags = []"
      "save_all oven_util out [oven_profile] fs = (None, fs(description_path out oven_profile \<mapsto> ''{}''))" for out fs
    by (simp_all add: oven_util_def default_flags_def SaveDescriptionJSON_def)
  show ?thesis
    unfolding parseCmd_def Let_def oven_args by (simp add: d oven_read del: save_all.simps)
qed

lemma parsed_profiles_load_witness:
  "\<exists>d from. LoadDescriptionJSON (ueJSON oven_util) (urFiles (parseCmd oven_util no_flags [''oven.zip''] [''oven.zip'' \<mapsto> []] None))
       (description_path ''./profiles'' oven_profile) = Inr d
     \<and> ResolveHaID ((kitchen ! 1)\<lparr>dcDescription := description_path ''./profiles'' oven_profile\<rparr>) (Some d) = Inr (''4711'', from)"
proof -
  have j: "desc_json_ok (ueJSON oven_util)" by (simp add: oven_util_def desc_json_ok_def exported_def)
  have u: "text_in_utf8 (dpDescription oven_profile)"
    unfolding oven_profile_def device_profile.simps by (rule example_utf8) code_simp
  let ?dc = "(kitchen ! 1)\<lparr>dcDescription := description_path ''./profiles'' oven_profile\<rparr>"
  have dc: "dcDescription ?dc = description_path (ufOut default_flags) oven_profile"
      "dcHaID ?dc = [] \<or> dcHaID ?dc = dpHaID oven_profile"
    by (simp_all add: default_flags_def kitchen_def)
  have i: "ueIsDir oven_util ''oven.zip'' = Some False" "oven_profile \<in> set [oven_profile]"
      "\<forall>q\<in>set [oven_profile]. dpHaID q = dpHaID oven_profile \<longrightarrow> q = oven_profile"
    by (simp_all add: oven_util_def)
  have h: "dpHaID oven_profile = ''4711''" "ufOut default_flags = ''./profiles''" by (simp_all add: oven_profile_def default_flags_def)
  show ?thesis
    using parsed_profiles_load [OF j oven_args i(1) oven_read oven_parse_ok i(2) u i(3) dc] unfolding dc(1) h by blast
qed

end
