(* ===== verification/Web_Changes.thy ===== *)
theory Web_Changes
  imports Prelude
begin

text \<open>
  \<open>Changes\<close> of \<^verbatim>\<open>internal/web/adapter.go\<close>: the store's events and the problem log are turned into one coalesced
  wake-up channel by a goroutine of its own, until the caller cancels.

  A source channel is the number of its undelivered items and its capacity; a source drops what does not fit,
  as the store does. Every change has a version, and a caller that takes a wake-up looks at everything there is
  then; \<open>wcVersion\<close> and \<open>wcShown\<close> are kept for the statements.
\<close>

datatype wake_phase = Selecting | Signalling | Exited

record wake_sys =
  wcEvents :: nat
  wcProblems :: nat
  wcOut :: bool
  wcPhase :: wake_phase
  wcDone :: bool
  wcReleased :: nat
  wcVersion :: nat
  wcShown :: nat

definition wake_start :: "wake_sys \<Rightarrow> bool" where
  "wake_start s \<longleftrightarrow> s = \<lparr>wcEvents = 0, wcProblems = 0, wcOut = False, wcPhase = Selecting, wcDone = False,
     wcReleased = 0, wcVersion = 0, wcShown = 0\<rparr>"

text \<open>\<open>m\<close> and \<open>n\<close> are the capacities of the two sources. The cancel function does its work once.\<close>

inductive wake_step :: "nat \<Rightarrow> nat \<Rightarrow> wake_sys \<Rightarrow> wake_sys \<Rightarrow> bool" for m n where
  store_changes: "wake_step m n s (s\<lparr>wcEvents := min m (Suc (wcEvents s)), wcVersion := Suc (wcVersion s)\<rparr>)"
| problem_logged: "wake_step m n s (s\<lparr>wcProblems := min n (Suc (wcProblems s)), wcVersion := Suc (wcVersion s)\<rparr>)"
| pick_event: "wcPhase s = Selecting \<Longrightarrow> 0 < wcEvents s \<Longrightarrow>
    wake_step m n s (s\<lparr>wcEvents := wcEvents s - 1, wcPhase := Signalling\<rparr>)"
| pick_problem: "wcPhase s = Selecting \<Longrightarrow> 0 < wcProblems s \<Longrightarrow>
    wake_step m n s (s\<lparr>wcProblems := wcProblems s - 1, wcPhase := Signalling\<rparr>)"
| signal_out: "wcPhase s = Signalling \<Longrightarrow> wake_step m n s (s\<lparr>wcOut := True, wcPhase := Selecting\<rparr>)"
| take_wake: "wcOut s \<Longrightarrow> wake_step m n s (s\<lparr>wcOut := False, wcShown := wcVersion s\<rparr>)"
| cancel_first: "\<not> wcDone s \<Longrightarrow> wake_step m n s (s\<lparr>wcDone := True, wcReleased := Suc (wcReleased s)\<rparr>)"
| cancel_again: "wcDone s \<Longrightarrow> wake_step m n s s"
| leave: "wcPhase s = Selecting \<Longrightarrow> wcDone s \<Longrightarrow> wake_step m n s (s\<lparr>wcPhase := Exited\<rparr>)"

definition wake_under_way :: "wake_sys \<Rightarrow> bool" where
  "wake_under_way s \<longleftrightarrow> 0 < wcEvents s \<or> 0 < wcProblems s \<or> wcPhase s = Signalling \<or> wcOut s"

definition wake_inv :: "wake_sys \<Rightarrow> bool" where
  "wake_inv s \<longleftrightarrow> wcShown s \<le> wcVersion s \<and> (wcShown s < wcVersion s \<longrightarrow> wcPhase s = Exited \<or> wake_under_way s)
     \<and> (wcPhase s = Exited \<longrightarrow> wcDone s) \<and> wcReleased s = (if wcDone s then 1 else 0)"

lemma wake_inv_step: "wake_step m n s t \<Longrightarrow> 0 < m \<Longrightarrow> 0 < n \<Longrightarrow> wake_inv s \<Longrightarrow> wake_inv t"
  by (induction rule: wake_step.induct) (auto simp: wake_inv_def wake_under_way_def)

interpretation wake_steps: step_invariant wake_start "wake_step (Suc m) (Suc n)" wake_inv
  by unfold_locales (simp add: wake_start_def wake_inv_def wake_under_way_def, simp add: wake_inv_step)

section \<open>Properties\<close>

text \<open>
  No change is lost: while the caller has not cancelled, a change it has not seen has a wake-up under way, in a
  source, being passed on, or waiting to be taken, although wake-ups coalesce and full sources drop; and unless
  the wake-up already waits for the caller, the goroutine has a step to take. The sources are released at most
  once, however often the caller cancels.
\<close>

theorem change_seen:
  assumes "(wake_step (Suc m) (Suc n))\<^sup>*\<^sup>* s0 s" and "wake_start s0" and "wcShown s < wcVersion s" and "\<not> wcDone s"
  shows "wake_under_way s
     \<and> (wcOut s \<or> (\<exists>t. wake_step (Suc m) (Suc n) s t \<and> wcVersion t = wcVersion s \<and> (wcPhase t = Signalling \<or> wcOut t)))"
proof -
  have i: "wake_inv s" by (rule wake_steps.reachable_inv [OF assms(1,2)])
  then have p: "wcPhase s \<noteq> Exited" using assms(4) by (auto simp: wake_inv_def)
  with i assms(3) have u: "wake_under_way s" by (simp add: wake_inv_def)
  moreover have "\<exists>t. wake_step (Suc m) (Suc n) s t \<and> wcVersion t = wcVersion s \<and> (wcPhase t = Signalling \<or> wcOut t)" if "\<not> wcOut s"
  proof (cases "wcPhase s")
    case Signalling
    then show ?thesis
      by (intro exI [of _ "s\<lparr>wcOut := True, wcPhase := Selecting\<rparr>"] conjI signal_out) simp_all
  next
    case Selecting
    with u that have "0 < wcEvents s \<or> 0 < wcProblems s" by (simp add: wake_under_way_def)
    then show ?thesis
    proof
      assume "0 < wcEvents s"
      then show ?thesis
        by (intro exI [of _ "s\<lparr>wcEvents := wcEvents s - 1, wcPhase := Signalling\<rparr>"] conjI pick_event Selecting) simp_all
    next
      assume "0 < wcProblems s"
      then show ?thesis
        by (intro exI [of _ "s\<lparr>wcProblems := wcProblems s - 1, wcPhase := Signalling\<rparr>"] conjI pick_problem Selecting) simp_all
    qed
  qed (use p in simp)
  ultimately show ?thesis by blast
qed

lemma released_once:
  "(wake_step (Suc m) (Suc n))\<^sup>*\<^sup>* s0 s \<Longrightarrow> wake_start s0 \<Longrightarrow> wcReleased s \<le> 1"
  by (drule (1) wake_steps.reachable_inv) (simp add: wake_inv_def)

lemma change_seen_witness:
  "\<exists>s. (wake_step (Suc 0) (Suc 0))\<^sup>*\<^sup>* \<lparr>wcEvents = 0, wcProblems = 0, wcOut = False, wcPhase = Selecting, wcDone = False,
      wcReleased = 0, wcVersion = 0, wcShown = 0\<rparr> s \<and> wcVersion s = 1 \<and> wcShown s = 0 \<and> wake_under_way s"
proof -
  let ?zero = "\<lparr>wcEvents = 0, wcProblems = 0, wcOut = False, wcPhase = Selecting, wcDone = False,
      wcReleased = 0, wcVersion = 0, wcShown = 0\<rparr>"
  let ?s = "?zero\<lparr>wcEvents := 1, wcVersion := 1\<rparr>"
  have "wake_step (Suc 0) (Suc 0) ?zero ?s" using store_changes [where m = "Suc 0" and n = "Suc 0" and s = ?zero] by simp
  then have r: "(wake_step (Suc 0) (Suc 0))\<^sup>*\<^sup>* ?zero ?s" by (rule r_into_rtranclp)
  have "wake_start ?zero" "wcShown ?s < wcVersion ?s" "\<not> wcDone ?s" by (simp_all add: wake_start_def)
  from change_seen [OF r this] have "wake_under_way ?s" by blast
  with r show ?thesis by (intro exI [of _ ?s]) simp
qed

end
