(* ===== verification/Pin_Catalog.thy ===== *)
theory Pin_Catalog
  imports Profile Config
begin

text \<open>
  \<^verbatim>\<open>internal/pincatalog/catalog.go\<close>: the fixed catalogue of entries the discovery tests measure the topics
  against, synthesised from the feature names and hints of the shipped \<^verbatim>\<open>mapping.yaml\<close>, followed by nine edge
  entries. Reading the file and decoding YAML are parameters; the decoded map is an association list.
\<close>

section \<open>The tables\<close>

definition pin_info :: device_info where
  "pin_info = \<lparr>diType = ''Dishwasher'', diBrand = ''BOSCH'', diModel = ''SMV6ZCX49E'', diVersion = 2, diRevision = 1\<rparr>"

definition eventEnum :: enumeration where
  "eventEnum = [(0, ''Off''), (1, ''Present''), (2, ''Confirmed'')]"

definition programEnum :: enumeration where
  "programEnum = [(0, ''Dishcare.Dishwasher.Program.Auto2''), (8192, ''Dishcare.Dishwasher.Program.Eco50''),
     (8193, ''Dishcare.Dishwasher.Program.Quick45'')]"

definition onOffEnum :: enumeration where
  "onOffEnum = [(0, ''Off''), (1, ''On''), (2, ''Auto'')]"

record pin_hint =
  phUnit :: string
  phDeviceClass :: string

definition unitContent :: "string \<rightharpoonup> string \<times> protocol_type" where
  "unitContent = map_of
     [([CHR 0xC2, CHR 0xB0] @ ''C'', (''temperatureCelsius'', ProtocolFloat)),
      ([CHR 0xC2, CHR 0xB0] @ ''F'', (''temperatureFahrenheit'', ProtocolFloat)),
      ([CHR 0x25], (''percent'', ProtocolInteger)), (''s'', (''timeSpan'', ProtocolInteger)),
      (''dBm'', (''dbm'', ProtocolInteger)), (''rpm'', (''rpm'', ProtocolInteger)), (''W'', (''power'', ProtocolFloat)),
      (''Wh'', (''energy'', ProtocolFloat)), (''g'', (''weight'', ProtocolInteger))]"

definition classContent :: "string \<rightharpoonup> string \<times> protocol_type" where
  "classContent = map_of
     [(''temperature'', (''temperatureCelsius'', ProtocolFloat)), (''power'', (''power'', ProtocolFloat)),
      (''energy'', (''energy'', ProtocolFloat)), (''duration'', (''timeSpan'', ProtocolInteger)),
      (''signal_strength'', (''dbm'', ProtocolInteger)), (''weight'', (''weight'', ProtocolInteger))]"

definition enumLeaves :: "string list" where
  "enumLeaves = [''State'', ''Mode'', ''Type'', ''Level'', ''Status'']"

definition boolLeaves :: "string list" where
  "boolLeaves = [''Active'', ''Allowed'', ''Enabled'', ''Connected'', ''Locked'', ''Confirmed'', ''Lock'', ''Supported'']"

section \<open>One entry\<close>

definition segment :: "string \<Rightarrow> nat \<Rightarrow> string" where
  "segment name i = (let parts = split_on (CHR ''.'') name in if length parts \<le> i then [] else parts ! i)"

definition leaf_name :: "string \<Rightarrow> string" where
  "leaf_name name = (case cut_last (CHR ''.'') name of Some (_, after) \<Rightarrow> after | None \<Rightarrow> name)"

definition with_content :: "string \<times> protocol_type \<Rightarrow> entry \<Rightarrow> entry" where
  "with_content c e = e\<lparr>eContentType := fst c, eProtocolType := snd c, eHasMin := True, eMin := Fin 0,
     eHasMax := True, eMax := Fin 100, eHasStep := True, eStepSize := Fin 1\<rparr>"

definition applyType :: "entry \<Rightarrow> string \<Rightarrow> string \<Rightarrow> entry" where
  "applyType e unit deviceClass =
     (case unitContent unit of
        Some c \<Rightarrow> with_content c e
      | None \<Rightarrow>
          (case classContent deviceClass of
             Some c \<Rightarrow> with_content c e
           | None \<Rightarrow>
               (let l = leaf_name (eName e) in
                if list_ex (\<lambda>s. suffix s l) enumLeaves then e\<lparr>eEnumeration := onOffEnum, eProtocolType := ProtocolString\<rparr>
                else if list_ex (\<lambda>s. suffix s l) boolLeaves then e\<lparr>eProtocolType := ProtocolBoolean\<rparr>
                else if sublist ''Count'' l then e\<lparr>eProtocolType := ProtocolInteger\<rparr>
                else e\<lparr>eProtocolType := ProtocolString\<rparr>)))"

definition entryFor :: "string \<Rightarrow> string \<Rightarrow> string \<Rightarrow> entry" where
  "entryFor name unit deviceClass =
     (let e0 = entry0\<lparr>eName := name, eAvailable := True, eAccess := ''read''\<rparr>; s = segment name 2; l = leaf_name name;
          e = (if s = ''Setting'' then e0\<lparr>eKind := KindSetting, eAccess := ''readwrite''\<rparr>
               else if s = ''Option'' then e0\<lparr>eKind := KindOption, eAccess := ''readwrite''\<rparr>
               else if s = ''Command'' then e0\<lparr>eKind := KindCommand, eAccess := ''writeonly''\<rparr>
               else if s = ''Event'' \<or> s = ''Appliance'' then e0\<lparr>eKind := KindEvent, eEnumeration := eventEnum\<rparr>
               else if s = ''Root'' then
                 (if l = ''ActiveProgram'' then e0\<lparr>eKind := KindActiveProgram, eAccess := ''readwrite'', eEnumeration := programEnum\<rparr>
                  else if l = ''SelectedProgram''
                    then e0\<lparr>eKind := KindSelectedProgram, eAccess := ''readwrite'', eEnumeration := programEnum\<rparr>
                  else e0\<lparr>eKind := KindStatus\<rparr>)
               else e0\<lparr>eKind := KindStatus\<rparr>)
      in if eKind e = KindEvent \<or> eKind e = KindActiveProgram \<or> eKind e = KindSelectedProgram
         then e\<lparr>eProtocolType := ProtocolString\<rparr>
         else applyType e unit deviceClass)"

definition pin_edges :: "entry list" where
  "pin_edges =
     [entry0\<lparr>eKind := KindStatus, eAccess := ''read'', eAvailable := True, eProtocolType := ProtocolInteger\<rparr>,
      entry0\<lparr>eName := ''Dishcare.Dishwasher.Program.Eco50'', eKind := KindProgram, eAccess := ''readwrite'',
        eAvailable := True, eProtocolType := ProtocolString\<rparr>,
      entry0\<lparr>eName := ''BSH.Common.Root.ProtectionPort'', eKind := KindProtectionPort, eAccess := ''read'',
        eAvailable := True, eProtocolType := ProtocolString\<rparr>,
      entry0\<lparr>eName := ''BSH.Common.Root.SelectedProgramReadOnly'', eKind := KindSelectedProgram, eAccess := ''read'',
        eAvailable := True, eEnumeration := programEnum, eProtocolType := ProtocolString\<rparr>,
      entry0\<lparr>eName := ''BSH.Common.Root.SelectedProgramNoPrograms'', eKind := KindSelectedProgram, eAccess := ''readwrite'',
        eAvailable := True, eProtocolType := ProtocolString\<rparr>,
      entry0\<lparr>eName := ''BSH.Common.Setting.PinTheSwitch'', eKind := KindSetting, eAccess := ''readwrite'',
        eAvailable := True, eProtocolType := ProtocolBoolean\<rparr>,
      entry0\<lparr>eName := ''BSH.Common.Setting.PinTheNumber'', eKind := KindSetting, eAccess := ''readwrite'',
        eAvailable := True, eProtocolType := ProtocolInteger, eContentType := ''temperatureCelsius'', eHasMin := True,
        eMin := Fin 30, eHasMax := True, eMax := Fin 90, eHasStep := True, eStepSize := Fin 5\<rparr>,
      entry0\<lparr>eName := ''BSH.Common.Status.ProgramCount'', eKind := KindStatus, eAccess := ''read'',
        eAvailable := True, eProtocolType := ProtocolInteger\<rparr>,
      entry0\<lparr>eName := ''BSH.Common.Setting.Unavailable'', eKind := KindSetting, eAccess := ''readwrite'',
        eAvailable := False, eProtocolType := ProtocolBoolean\<rparr>]"

section \<open>The catalogue\<close>

datatype pin_error = PinUnreadable | PinNotYaml

text \<open>The uids are given in order, from the one given.\<close>

fun number_entries :: "int \<Rightarrow> entry list \<Rightarrow> entry list" where
  "number_entries uid [] = []"
| "number_entries uid (e # es) = e\<lparr>eUID := uid\<rparr> # number_entries (uid + 1) es"

definition pin_names :: "(string \<times> pin_hint) list \<Rightarrow> string list" where
  "pin_names features = sort (filter (\<lambda>name. 2 \<le> count_list name (CHR ''.'')) (List.map fst features))"

definition Build_pins ::
  "(string \<Rightarrow> (string \<times> pin_hint) list option) \<Rightarrow> string option \<Rightarrow> pin_error + entry list" where
  "Build_pins yaml file = (case file of
      None \<Rightarrow> Inl PinUnreadable
    | Some data \<Rightarrow>
        (case yaml data of
           None \<Rightarrow> Inl PinNotYaml
         | Some features \<Rightarrow>
             Inr (number_entries 4096
               (List.map (\<lambda>name. let h = the (map_of features name) in entryFor name (phUnit h) (phDeviceClass h)) (pin_names features)
                @ pin_edges))))"

section \<open>Properties\<close>

lemma number_entries_uids: "List.map eUID (number_entries uid es) = List.map (\<lambda>i. uid + int i) [0..<length es]"
proof (induction es arbitrary: uid)
  case Nil
  then show ?case by simp
next
  case (Cons e es)
  have "[0..<length (e # es)] = 0 # List.map Suc [0..<length es]" by (simp add: map_Suc_upt upt_conv_Cons del: upt_Suc)
  then show ?case using Cons.IH [of "uid + 1"] by (simp add: algebra_simps comp_def del: upt_Suc)
qed

lemma number_entries_names: "List.map eName (number_entries uid es) = List.map eName es"
  by (induction es arbitrary: uid) simp_all

lemma entryFor_name: "eName (entryFor name u c) = name"
  by (auto simp: entryFor_def Let_def applyType_def with_content_def split: option.split)

text \<open>
  The catalogue is stable: it depends on the features of the file and not on the order the map is iterated in.
  The dotted names stand in order, the edge entries follow, and the uids are dense from 4096, so no two entries
  share one.
\<close>

theorem pins_stable:
  assumes "Build_pins yaml (Some data) = Inr es" and "yaml data = Some features" and "distinct (List.map fst features)"
  shows "List.map eName es = sorted_list_of_set {name \<in> fst ` set features. 2 \<le> count_list name (CHR ''.'')} @ List.map eName pin_edges
     \<and> List.map eUID es = List.map (\<lambda>i. 4096 + int i) [0..<length es] \<and> distinct (List.map eUID es)"
proof -
  let ?ns = "List.map (\<lambda>name. let h = the (map_of features name) in entryFor name (phUnit h) (phDeviceClass h)) (pin_names features)"
  have es: "es = number_entries 4096 (?ns @ pin_edges)" using assms(1,2) by (simp add: Build_pins_def)
  have "pin_names features = sorted_list_of_set (set (filter (\<lambda>name. 2 \<le> count_list name (CHR ''.'')) (List.map fst features)))"
    using assms(3) unfolding pin_names_def
    by (simp only: sorted_list_of_set_sort_remdups distinct_filter distinct_remdups_id)
  moreover have "set (filter (\<lambda>name. 2 \<le> count_list name (CHR ''.'')) (List.map fst features))
      = {name \<in> fst ` set features. 2 \<le> count_list name (CHR ''.'')}" by auto
  ultimately have n: "List.map eName es = sorted_list_of_set {name \<in> fst ` set features. 2 \<le> count_list name (CHR ''.'')} @ List.map eName pin_edges"
    by (simp add: es number_entries_names comp_def Let_def entryFor_name)
  have l: "length es = length (?ns @ pin_edges)"
    using number_entries_names [of 4096 "?ns @ pin_edges"] es by (metis length_map)
  have "List.map eUID es = List.map (\<lambda>i. 4096 + int i) [0..<length es]"
    using number_entries_uids [of 4096 "?ns @ pin_edges"] es l by simp
  moreover have "distinct (List.map (\<lambda>i. 4096 + int i) [0..<length es])" by (simp add: distinct_map inj_on_def)
  ultimately show ?thesis using n by simp
qed

end
