(* ===== verification/Tls_Dial.thy ===== *)
theory Tls_Dial
  imports Tls_Conn Worker
begin

text \<open>
  Setting up the TLS connection of \<^verbatim>\<open>internal/homeconnect/socket_tls_psk.go\<close>: the C functions that create and free
  OpenSSL's objects, the callback that hands out the key, \<open>dialSSLPSK\<close> and \<open>openSSLPSKConnect\<close>.

  Which object is alive is the state. Whether a call of OpenSSL, of the dialler, of the handshake and of the
  WebSocket upgrade succeeds is the script \<open>dial_script\<close>. Freeing an \<^verbatim>\<open>SSL\<close> frees the buffers it owns, as OpenSSL
  documents.
\<close>

section \<open>OpenSSL's objects\<close>

datatype ssl_object = SslCtx | Ssl | PskCtx | PskBytes | ReadBio | WriteBio

record dial_script =
  dsDials :: bool
  dsIndex :: bool
  dsCtx :: bool
  dsCiphers :: bool
  dsSsl :: bool
  dsPskCtx :: bool
  dsPskBytes :: bool
  dsReadBio :: bool
  dsWriteBio :: bool
  dsHandshake :: bool
  dsUpgrade :: bool

text \<open>The result code and what is alive on return, with the early exits of the code.\<close>

definition hc_new :: "dial_script \<Rightarrow> int \<times> ssl_object set" where
  "hc_new s =
     (if \<not> dsIndex s then (- 1, {})
      else if \<not> dsCtx s then (- 2, {})
      else (let a = {SslCtx} in
        if \<not> dsCiphers s then (- 3, a - {SslCtx})
        else if \<not> dsSsl s then (- 4, a - {SslCtx})
        else (let b = insert Ssl a in
          if \<not> dsPskCtx s then (- 5, b - {Ssl} - {SslCtx})
          else (let c = insert PskCtx b in
            if \<not> dsPskBytes s then (- 6, c - {PskCtx} - {Ssl} - {SslCtx})
            else (let d = insert PskBytes c;
                      e = d \<union> (if dsReadBio s then {ReadBio} else {}) \<union> (if dsWriteBio s then {WriteBio} else {})
              in if \<not> dsReadBio s \<or> \<not> dsWriteBio s then (- 7, e - {PskBytes} - {PskCtx} - {Ssl} - {SslCtx})
                 else (0, e))))))"

definition hc_free :: "ssl_object set \<Rightarrow> ssl_object set" where
  "hc_free live = live - {PskBytes, PskCtx, Ssl, ReadBio, WriteBio} - {SslCtx}"

text \<open>
  The callback: the key of the connection, when it fits; the length is a C \<^verbatim>\<open>int\<close>. The second component is what
  it writes to the buffer of \<open>max_psk\<close> bytes.
\<close>

definition hc_psk_client_cb :: "byte list option \<Rightarrow> nat \<Rightarrow> nat \<times> byte list" where
  "hc_psk_client_cb pc max_psk = (case pc of
      None \<Rightarrow> (0, [])
    | Some psk \<Rightarrow>
        if psk = [] \<or> max_psk < length psk then (0, []) else (length psk, psk))"

section \<open>Dialling\<close>

datatype dial_error = EmptyPSK | DialFailed string | InitFailed int | HandshakeFailed | BadApplianceURL | UpgradeFailed

text \<open>What is open: the raw connection and OpenSSL's objects; and what is dialled and upgraded.\<close>

record dial_state =
  doRaw :: bool
  doLive :: "ssl_object set"
  doDialled :: "string list"
  doUpgraded :: "string option"

definition dial0 :: dial_state where
  "dial0 = \<lparr>doRaw = False, doLive = {}, doDialled = [], doUpgraded = None\<rparr>"

definition close_conn :: "dial_state \<Rightarrow> dial_state" where
  "close_conn d = d\<lparr>doRaw := False, doLive := hc_free (doLive d)\<rparr>"

definition dialSSLPSK :: "dial_script \<Rightarrow> string \<Rightarrow> byte list \<Rightarrow> dial_state \<Rightarrow> dial_error option \<times> dial_state" where
  "dialSSLPSK s hostPort psk d0 =
     (if psk = [] then (Some EmptyPSK, d0)
      else (let d1 = d0\<lparr>doDialled := doDialled d0 @ [hostPort]\<rparr> in
        if \<not> dsDials s then (Some (DialFailed hostPort), d1)
        else (let d2 = d1\<lparr>doRaw := True\<rparr> in
          case hc_new s of (rc, live) \<Rightarrow>
            (let d3 = d2\<lparr>doLive := doLive d2 \<union> live\<rparr> in
             if rc \<noteq> 0 then (Some (InitFailed rc), d3\<lparr>doRaw := False\<rparr>)
             else if \<not> dsHandshake s then (Some HandshakeFailed, close_conn d3)
             else (None, d3)))))"

text \<open>The port and path come off the appliance's URL, and the upgrade runs over the connection that is already secured.\<close>

definition openSSLPSKConnect :: "dial_script \<Rightarrow> string \<Rightarrow> byte list \<Rightarrow> dial_state \<Rightarrow> dial_error option \<times> dial_state" where
  "openSSLPSKConnect s host psk d0 =
     (case applianceURL host True of
        None \<Rightarrow> (Some BadApplianceURL, d0)
      | Some wssURL \<Rightarrow>
          (let rest = (case cut_prefix ''wss://'' wssURL of Some r \<Rightarrow> r | None \<Rightarrow> wssURL);
               hostPort = trim_suffix wsPath rest
           in case dialSSLPSK s hostPort psk d0 of
                (Some err, d1) \<Rightarrow> (Some err, d1)
              | (None, d1) \<Rightarrow>
                  if \<not> dsUpgrade s then (Some UpgradeFailed, close_conn d1)
                  else (None, d1\<lparr>doUpgraded := Some (''ws://'' @ hostPort @ wsPath)\<rparr>)))"

section \<open>The messages of the connection\<close>

text \<open>\<open>receive\<close> of \<open>wsTLSConn\<close>, given what the websocket read answers: an error, or whether it is text, and the data.\<close>

datatype 'e ws_receive_error = WsRead 'e | NonTextFrame

definition ws_receive :: "'e + bool \<times> string \<Rightarrow> 'e ws_receive_error + string" where
  "ws_receive r = (case r of
      Inl err \<Rightarrow> Inl (WsRead err)
    | Inr (is_text, data) \<Rightarrow> if is_text then Inr data else Inl NonTextFrame)"

section \<open>Properties\<close>

lemma hc_new_ok: "hc_new s = (0, live) \<Longrightarrow> live = UNIV"
  by (auto simp: hc_new_def Let_def split: if_splits) (metis ssl_object.exhaust insertCI)

lemma hc_new_failed:
  "hc_new s = (rc, live) \<Longrightarrow> rc \<noteq> 0 \<Longrightarrow>
     live = (if rc = - 7 then (if dsReadBio s then {ReadBio} else {}) \<union> (if dsWriteBio s then {WriteBio} else {}) else {})"
  by (auto simp: hc_new_def Let_def split: if_splits)

text \<open>The callback never writes past the buffer OpenSSL gives it.\<close>

lemma psk_fits: "length (snd (hc_psk_client_cb pc max_psk)) \<le> max_psk \<and> fst (hc_psk_client_cb pc max_psk) = length (snd (hc_psk_client_cb pc max_psk))"
  by (auto simp: hc_psk_client_cb_def split: option.split)

text \<open>
  C40. A connection attempt that fails leaves nothing behind, wherever it fails: the TCP connection is closed or was
  never opened, no message channel is set up, and of OpenSSL's objects none is alive, with one exception: when
  exactly one of the two buffers cannot be made, the other is not freed. An attempt that succeeds upgraded over
  a dialled connection whose objects are all alive.
\<close>

theorem failed_dial_leaves_nothing:
  assumes "openSSLPSKConnect s host psk dial0 = (err, d)"
  shows "(case err of
      Some e \<Rightarrow> \<not> doRaw d \<and> doUpgraded d = None
        \<and> doLive d = (if e = InitFailed (- 7)
            then (if dsReadBio s then {ReadBio} else {}) \<union> (if dsWriteBio s then {WriteBio} else {}) else {})
    | None \<Rightarrow> doRaw d \<and> doLive d = UNIV
        \<and> (\<exists>hostPort. doDialled d = [hostPort] \<and> doUpgraded d = Some (''ws://'' @ hostPort @ wsPath)))"
proof -
  obtain rc live where n: "hc_new s = (rc, live)" by fastforce
  have free: "hc_free live = {}" by (auto simp: hc_free_def) (metis ssl_object.exhaust)
  show ?thesis
    using assms hc_new_ok [of s live] hc_new_failed [of s rc live] n free
    by (auto simp: openSSLPSKConnect_def dialSSLPSK_def Let_def dial0_def close_conn_def
        split: option.splits if_splits prod.splits)
qed

definition all_good :: dial_script where
  "all_good = \<lparr>dsDials = True, dsIndex = True, dsCtx = True, dsCiphers = True, dsSsl = True, dsPskCtx = True, dsPskBytes = True,
     dsReadBio = True, dsWriteBio = True, dsHandshake = True, dsUpgrade = True\<rparr>"

lemma failed_dial_leaves_nothing_witness:
  "doLive (snd (openSSLPSKConnect (all_good\<lparr>dsWriteBio := False\<rparr>) ''h'' [1] dial0)) = {ReadBio}
   \<and> \<not> doRaw (snd (openSSLPSKConnect (all_good\<lparr>dsWriteBio := False\<rparr>) ''h'' [1] dial0))"
proof -
  let ?r = "openSSLPSKConnect (all_good\<lparr>dsWriteBio := False\<rparr>) ''h'' [1] dial0"
  have e: "fst ?r = Some (InitFailed (- 7))" by code_simp
  have p: "?r = (Some (InitFailed (- 7)), snd ?r)" by (simp only: e [symmetric] prod.collapse)
  have b: "dsReadBio (all_good\<lparr>dsWriteBio := False\<rparr>)" "\<not> dsWriteBio (all_good\<lparr>dsWriteBio := False\<rparr>)"
    by (simp_all add: all_good_def)
  from failed_dial_leaves_nothing [OF p] b show ?thesis by simp
qed

end
