(* ===== verification/Enum_Catalog.thy ===== *)
theory Enum_Catalog
  imports Enum_Labels "HOL-Library.List_Lexorder" "HOL-Library.Char_ord" "HOL-Library.Multiset"
begin

text \<open>
  The generated catalogue of \<^verbatim>\<open>internal/i18n/catalog_gen.go\<close>, entry by entry, in the order of the file. The
  program keeps it in a Go map, so the order in which the reverse table is built is any permutation of it.
\<close>

section \<open>The catalogue\<close>

definition enumDEGen_1 :: catalogue where
  "enumDEGen_1 = [
    (''1000w'', ''1000 W''), (''1000watt'', ''1000 Watt''), (''100dc'', ''100d C''), (''10a'', ''10 A''),
    (''10percent'', ''10%''), (''110dc'', ''110d C''), (''120dc'', ''120d C''),
    (''122f'', ''122'' @ [CHR 0xC2, CHR 0xBA] @ ''F''), (''12hours'', ''12 Stunden''),
    (''131f'', ''131'' @ [CHR 0xC2, CHR 0xBA] @ ''F''), (''140dc'', ''140d C''),
    (''140f'', ''140'' @ [CHR 0xC2, CHR 0xBA] @ ''F''), (''149f'', ''149'' @ [CHR 0xC2, CHR 0xBA] @ ''F''),
    (''1500w'', ''1500 W''), (''158f'', ''158'' @ [CHR 0xC2, CHR 0xBA] @ ''F''), (''15min'', ''15min''),
    (''160dc'', ''160d C''), (''167f'', ''167'' @ [CHR 0xC2, CHR 0xBA] @ ''F''), (''16a'', ''16 A''),
    (''176f'', ''176'' @ [CHR 0xC2, CHR 0xBA] @ ''F''), (''180dc'', ''180d C''), (''180watt'', ''180 Watt''),
    (''185f'', ''185'' @ [CHR 0xC2, CHR 0xBA] @ ''F''), (''194f'', ''194'' @ [CHR 0xC2, CHR 0xBA] @ ''F''),
    (''1piece'', ''1 St'' @ [CHR 0xC3, CHR 0xBC] @ ''ck''), (''2000w'', ''2000 W''), (''200dc'', ''200d C''),
    (''203f'', ''203'' @ [CHR 0xC2, CHR 0xBA] @ ''F''), (''20percent'', ''20%''), (''220dc'', ''220d C''),
    (''24hours'', ''24 Stunden''), (''2500w'', ''2500 W''), (''25percent'', ''25%''),
    (''2dhotair'', ''2D-Hei'' @ [CHR 0xC3, CHR 0x9F] @ ''luft''), (''3000w'', ''3000 W''), (''30min'', ''30min''),
    (''30percent'', ''30%''), (''3500w'', ''3500 W''), (''360watt'', ''360 Watt''),
    (''3dhotair'', ''3D-Hei'' @ [CHR 0xC3, CHR 0x9F] @ ''luft''), (''4000w'', ''4000 W''),
    (''40percent'', ''40%''), (''4500w'', ''4500 W''), (''450watt'', ''450 Watt''), (''5000w'', ''5000 W''),
    (''50c'', ''50'' @ [CHR 0xC2, CHR 0xBA] @ ''C''), (''50percent'', ''50%''), (''5500w'', ''5500 W''),
    (''55c'', ''55'' @ [CHR 0xC2, CHR 0xBA] @ ''C''), (''55percent'', ''55%''),
    (''5piece'', ''5 St'' @ [CHR 0xC3, CHR 0xBC] @ ''ck''), (''6000w'', ''6000 W''), (''600watt'', ''600 Watt''),
    (''60c'', ''60'' @ [CHR 0xC2, CHR 0xBA] @ ''C''), (''60min'', ''60min''), (''60percent'', ''60%''),
    (''6500w'', ''6500 W''), (''65c'', ''65'' @ [CHR 0xC2, CHR 0xBA] @ ''C''), (''65percent'', ''65%''),
    (''67percent'', ''67%''), (''7000w'', ''7000 W''), (''70c'', ''70'' @ [CHR 0xC2, CHR 0xBA] @ ''C''),
    (''70dc'', ''70d C''), (''70percent'', ''70%''), (''7500w'', ''7500 W''),
    (''75c'', ''75'' @ [CHR 0xC2, CHR 0xBA] @ ''C''), (''75percent'', ''75%''), (''8000w'', ''8000 W''),
    (''80c'', ''80'' @ [CHR 0xC2, CHR 0xBA] @ ''C''), (''80dc'', ''80d C''), (''80percent'', ''80%''),
    (''8500w'', ''8500 W''), (''85c'', ''85'' @ [CHR 0xC2, CHR 0xBA] @ ''C''), (''85percent'', ''85%''),
    (''88c'', ''88'' @ [CHR 0xC2, CHR 0xBA] @ ''C''), (''9000w'', ''9000 W''), (''900watt'', ''900 Watt''),
    (''90c'', ''90'' @ [CHR 0xC2, CHR 0xBA] @ ''C''), (''90dc'', ''90d C''), (''90percent'', ''90%''),
    (''90watt'', ''90 Watt''), (''92c'', ''92'' @ [CHR 0xC2, CHR 0xBA] @ ''C''),
    (''94c'', ''94'' @ [CHR 0xC2, CHR 0xBA] @ ''C''), (''95c'', ''95'' @ [CHR 0xC2, CHR 0xBA] @ ''C''),
    (''96c'', ''96'' @ [CHR 0xC2, CHR 0xBA] @ ''C''), (''97c'', ''97'' @ [CHR 0xC2, CHR 0xBA] @ ''C''),
    (''aborting'', ''Wird abgebrochen''), (''absolute'', ''Absolut''),
    (''acknowledgemaloff'', ''Acknowledge Mal Off''), (''actionrequired'', ''Aktion erforderlich''),
    (''activated'', ''Aktiviert''), (''active'', ''Aktiv''), (''activeclean'', ''Aktivreinigung''),
    (''additionalcoolingdown'', ''Zus'' @ [CHR 0xC3, CHR 0xA4] @ ''tzliches Abk'' @ [CHR 0xC3, CHR 0xBC] @ ''hlen''),
    (''airfluff'', ''AirFluff''), (''airfry'', ''Hei'' @ [CHR 0xC3, CHR 0x9F] @ ''luftfrittieren''),
    (''ajar'', ''Angelehnt''), (''allactive'', ''Alle aktiv''), (''alloff'', ''Alle aus''),
    (''allprograms'', ''Alle Programme''), (''americano'', ''Americano''), (''antishrink'', ''Einlaufschutz''),
    (''anyphase'', ''Beliebige Phase''),
    (''applianceoffrinsing'', ''Sp'' @ [CHR 0xC3, CHR 0xBC] @ ''len beim Ausschalten''),
    (''applianceonrinsing'', ''Sp'' @ [CHR 0xC3, CHR 0xBC] @ ''len beim Einschalten''), (''ar'', ''Arabisch''),
    (''asbuttons'', ''Als Schaltfl'' @ [CHR 0xC3, CHR 0xA4] @ ''chen''), (''aslist'', ''Als Liste''),
    (''auto'', ''Auto''), (''auto1'', ''Auto 1''), (''auto2'', ''Auto 2''), (''auto3'', ''Auto 3''),
    (''auto30'', ''Auto 30'' @ [CHR 0xC2, CHR 0xBA] @ ''C''),
    (''auto40'', ''Auto 40'' @ [CHR 0xC2, CHR 0xBA] @ ''C''),
    (''auto60'', ''Auto 60'' @ [CHR 0xC2, CHR 0xBA] @ ''C''), (''autoclean'', ''Auto-Reinigung''),
    (''autodescale'', ''Auto-Entkalken''), (''autohalfload'', ''Auto halbe Beladung''),
    (''automatic'', ''Automatisch''), (''automaticmode'', ''Automatikmodus''),
    (''autosteamcalibration'', ''Auto-Dampfkalibrierung''), (''az'', ''Aserbaidschanisch''),
    (''babyfood'', ''Babynahrung''), (''bacon'', ''Speck''),
    (''bechamelsauce'', ''B'' @ [CHR 0xC3, CHR 0xA9] @ ''chamelsauce''),
    (''bedlinens'', ''Bettw'' @ [CHR 0xC3, CHR 0xA4] @ ''sche''), (''bg'', ''Bulgarisch''),
    (''blackeye'', ''Black eye''), (''blacktea'', ''Schwarzer Tee''), (''blankets'', ''Decken''),
    (''blood'', ''Blut''), (''bonelessporkneckjoint'', ''Schweinenacken ohne Knochen''), (''boost1'', ''Boost 1''),
    (''boost2'', ''Boost 2''), (''bottomheating'', ''Unterhitze''), (''breadbaking'', ''Brot backen''),
    (''broccoli'', ''Brokkoli''), (''bs'', ''Bosnisch''), (''business'', ''Business''),
    (''businessshirts'', ''Business-Hemden''), (''busy'', ''Besch'' @ [CHR 0xC3, CHR 0xA4] @ ''ftigt''),
    (''butteroil'', ''Butterschmalz''), (''cafeaulait'', ''Caf'' @ [CHR 0xC3, CHR 0xA9] @ '' au lait''),
    (''cafeconleche'', ''Caf'' @ [CHR 0xC3, CHR 0xA9] @ '' con leche''), (''cafecortado'', ''Cafe cortado''),
    (''caffegrande'', ''Caffe grande'')]"

definition enumDEGen_2 :: catalogue where
  "enumDEGen_2 = [
    (''caffelatte'', ''Caffe latte''), (''calcnclean'', ''CalcNClean''), (''cappuccino'', ''Cappuccino''),
    (''cashmere'', ''Kaschmir''), (''celsius'', ''Celsius''),
    (''cheesesauce'', ''K'' @ [CHR 0xC3, CHR 0xA4] @ ''sesauce''),
    (''chickennuggetsfrozen'', ''Chicken Nuggets tiefgek'' @ [CHR 0xC3, CHR 0xBC] @ ''hlt''),
    (''chiffon'', ''Chiffon''), (''chocolate'', ''Schokolade''), (''chop'', ''Kotelett''),
    (''clean'', ''Reinigen''), (''cleanall'', ''Alles reinigen''),
    (''cleanbrewingunitmanually'', ''Br'' @ [CHR 0xC3, CHR 0xBC] @ ''heinheit manuell reinigen''),
    (''cleanbrewingunitmanuallydetailed'', ''Br'' @ [CHR 0xC3, CHR 0xBC] @ ''heinheit manuell reinigen (detailliert)''),
    (''cleaningheatexchanger'', ''W'' @ [CHR 0xC3, CHR 0xA4] @ ''rmetauscher wird gereinigt''),
    (''cleanmap'', ''Reinigungskarte''), (''cleanoutletmanually'', ''Auslauf manuell reinigen''),
    (''closed'', ''Geschlossen''), (''coffee'', ''Kaffee''), (''coffeeground'', ''Gemahlener Kaffee''),
    (''coffeepot'', ''Kaffeekanne''), (''cold'', ''Kalt''), (''coldbrew'', ''Cold Brew''),
    (''coldbrewmacchiato'', ''Cold Brew Macchiato''), (''coldrefresh'', ''Kalt auffrischen''),
    (''coldrefreshing'', ''Kaltes Auffrischen''), (''coldwater'', ''Kaltwasser''),
    (''color'', ''Benutzerdefiniert''), (''colour'', ''Baumwolle farbig''),
    (''confirmed'', ''Best'' @ [CHR 0xC3, CHR 0xA4] @ ''tigt''), (''connecteddry'', ''ConnectedDry''),
    (''continuecooking'', ''Garen fortsetzen''), (''cooking'', ''Kochen''),
    (''cool'', ''K'' @ [CHR 0xC3, CHR 0xBC] @ ''hlen''), (''cooldown'', ''Abk'' @ [CHR 0xC3, CHR 0xBC] @ ''hlen''),
    (''coolingdown'', ''K'' @ [CHR 0xC3, CHR 0xBC] @ ''hlt ab''), (''cortado'', ''Cortado''),
    (''cosmetics'', ''Kosmetik''), (''cotton'', ''Baumwolle''), (''cottoneco'', ''Baumwolle Eco''),
    (''countuptimer'', ''Aufw'' @ [CHR 0xC3, CHR 0xA4] @ ''rts-Timer''), (''creamsauce'', ''Sahnesauce''),
    (''cs'', ''Tschechisch''), (''cupboarddry'', ''Schranktrocken''), (''cupboarddryplus'', ''Schranktrocken +''),
    (''cupboarddryplusreached'', ''Schranktrocken Plus erreicht''),
    (''cupboarddryreached'', ''Schranktrocken erreicht''), (''curtains'', ''Gardinen''),
    (''custom'', ''Benutzerdefiniert''), (''da'', ''D'' @ [CHR 0xC3, CHR 0xA4] @ ''nisch''),
    (''darkwash'', ''Dunkle W'' @ [CHR 0xC3, CHR 0xA4] @ ''sche''), (''de'', ''Deutsch''),
    (''deactivated'', ''Deaktiviert''), (''deadeye'', ''Dead eye''), (''defrost'', ''Auftauen''),
    (''degradingozone'', ''Ozon wird abgebaut''),
    (''delayedshutoff'', ''Verz'' @ [CHR 0xC3, CHR 0xB6] @ ''gerte Abschaltung''),
    (''delayedstart'', ''Startvorwahl''), (''delicates'', ''Feinw'' @ [CHR 0xC3, CHR 0xA4] @ ''sche''),
    (''delicatessilk'', ''Fein/Seide''), (''delicatessilkmp'', ''Fein Seide MP''), (''depthcare'', ''DepthCare''),
    (''depthcarephase1'', ''Tiefenpflege Phase 1''), (''depthcarephase2'', ''Tiefenpflege Phase 2''),
    (''descale'', ''Entkalken''), (''desiccation'', ''Trocknung''), (''dessous'', ''Dessous''),
    (''detectingload'', ''Beladung wird erkannt''), (''detectingsoil'', ''Verschmutzung wird erkannt''),
    (''detectingtextile'', ''Textil wird erkannt''), (''disabled'', ''Deaktiviert''),
    (''disinfecting'', ''Desinfizieren''),
    (''displayspinabortnospin'', ''Anzeige Schleuderabbruch ohne Schleudern''), (''donothing'', ''Nichts tun''),
    (''doppio'', ''Doppio''), (''doubleshot'', ''Double Shot''), (''doubleshotplus'', ''Double Shot +''),
    (''doubleshotplusplus'', ''Double Shot ++''), (''doughproving'', ''Teig gehen lassen''),
    (''down'', ''Runter''), (''downfeathers'', ''Daunen''), (''draining'', ''Abpumpen''),
    (''driedreadymeals'', ''Getrocknete Fertiggerichte''), (''drumcare'', ''DrumCare''),
    (''drumclean'', ''Trommelreinigung''), (''drumclean70'', ''Trommelreinigung 70''), (''dry'', ''Trocknen''),
    (''drying'', ''Trocknen''), (''dumplings'', ''Kl'' @ [CHR 0xC3, CHR 0xB6, CHR 0xC3, CHR 0x9F] @ ''e''),
    (''duvet'', ''Daunendecke''), (''easycare'', ''Pflegeleicht''), (''easyiron'', ''EasyIron''),
    (''eco4060'', ''Baumwolle Eco 40/60 '' @ [CHR 0xC2, CHR 0xB0] @ ''C''),
    (''eco50'', ''Eco 50 '' @ [CHR 0xC2, CHR 0xB0] @ ''C''), (''ecoasdefault'', ''Eco als Standard''),
    (''ecolysis'', ''Ecolysis''), (''ecoperfect'', ''Eco perfect''), (''egg'', ''Ei''),
    (''eggtimer'', ''Eieruhr''), (''el'', ''Griechisch''), (''en'', ''Englisch''), (''enus'', ''Englisch (USA)''),
    (''error'', ''Fehler''), (''es'', ''Spanisch''), (''escalope'', ''Schnitzel''),
    (''escalopebreaded'', ''Schnitzel paniert''), (''esmx'', ''Spanisch (Mexiko)''), (''espresso'', ''Espresso''),
    (''espressodoppio'', ''Espresso doppio''), (''espressomacchiato'', ''Espresso macchiato''),
    (''et'', ''Estnisch''), (''expresssparkle65'', ''Express Sparkle 65 '' @ [CHR 0xC2, CHR 0xB0] @ ''C''),
    (''externaltrigger'', ''Externer Ausl'' @ [CHR 0xC3, CHR 0xB6] @ ''ser''), (''extradry'', ''Extra-Trocknung''),
    (''extradryreached'', ''Extratrocken erreicht''), (''extrastrong'', ''Extra stark''), (''fa'', ''Persisch''),
    (''fan'', ''L'' @ [CHR 0xC3, CHR 0xBC] @ ''fter''), (''ff'', ''Nicht eingesetzt''), (''fi'', ''Finnisch''),
    (''fillet'', ''Filet''),
    (''fillingdetergent'', ''Reinigungsmittel wird eingef'' @ [CHR 0xC3, CHR 0xBC] @ ''llt''),
    (''finalrinse'', ''Letzter Sp'' @ [CHR 0xC3, CHR 0xBC] @ ''lgang''), (''finished'', ''Beendet''),
    (''fishfilletbreaded'', ''Fischfilet paniert''), (''fishfilletplain'', ''Fischfilet natur''),
    (''fishfingersfrozen'', ''Fischst'' @ [CHR 0xC3, CHR 0xA4] @ ''bchen tiefgek'' @ [CHR 0xC3, CHR 0xBC] @ ''hlt''),
    (''flatwhite'', ''Flat White''), (''fluffing'', ''Auflockern''),
    (''fluidounces'', ''Fl'' @ [CHR 0xC3, CHR 0xBC] @ ''ssigunzen''), (''foam'', ''Schaum''),
    (''fondue'', ''Fondue''), (''fr'', ''Franz'' @ [CHR 0xC3, CHR 0xB6] @ ''sisch''),
    (''frca'', ''Franz'' @ [CHR 0xC3, CHR 0xB6] @ ''sisch (Kanada)''),
    (''frenchfriesmadefromrawpotatoes'', ''Pommes frites aus rohen Kartoffeln''),
    (''frenchtoast'', ''French Toast''), (''friedeggsinbutter'', ''Spiegeleier in Butter''),
    (''friedeggsinoil'', ''Spiegeleier in '' @ [CHR 0xC3, CHR 0x96] @ ''l''), (''frontleft'', ''Vorne links''),
    (''frontright'', ''Vorne rechts''), (''frostprotection'', ''Frostschutz''),
    (''frozenheatupspecial'', ''Spezial-Aufheizen f'' @ [CHR 0xC3, CHR 0xBC] @ ''r Tiefk'' @ [CHR 0xC3, CHR 0xBC] @ ''hlprodukte''),
    (''fryingcamembert'', ''Camembert braten''),
    (''fryingcroutons'', ''Cro'' @ [CHR 0xC3, CHR 0xBB] @ ''tons braten''),
    (''fryingfishwhole'', ''Fisch ganz braten''),
    (''fryingfrenchfriesfrozen'', ''Pommes frites tiefgek'' @ [CHR 0xC3, CHR 0xBC] @ ''hlt braten'')]"

definition enumDEGen_3 :: catalogue where
  "enumDEGen_3 = [
    (''fryinggreenasparagus'', ''Gr'' @ [CHR 0xC3, CHR 0xBC] @ ''nen Spargel braten''),
    (''fryingmeatballs'', ''Frikadellen braten''),
    (''fryingpotatoesboiledintheirskin'', ''Pellkartoffeln braten''),
    (''fryingpreboiledsausages'', ''Br'' @ [CHR 0xC3, CHR 0xBC] @ ''hw'' @ [CHR 0xC3, CHR 0xBC] @ ''rstchen braten''),
    (''fryingrawsausages'', ''Rohe W'' @ [CHR 0xC3, CHR 0xBC] @ ''rstchen braten''),
    (''fryingsensormode'', ''Bratsensor-Modus''),
    (''fullsurfacegrill'', ''Vollfl'' @ [CHR 0xC3, CHR 0xA4] @ ''chengrill''),
    (''galao'', ''Gal'' @ [CHR 0xC3, CHR 0xA3] @ ''o''), (''garlic'', ''Knoblauch''), (''garoto'', ''Garoto''),
    (''gc20'', ''W'' @ [CHR 0xC3, CHR 0xA4] @ ''sche 20 '' @ [CHR 0xC2, CHR 0xB0] @ ''C''),
    (''gc30'', ''W'' @ [CHR 0xC3, CHR 0xA4] @ ''sche 30 '' @ [CHR 0xC2, CHR 0xB0] @ ''C''),
    (''gc40'', ''W'' @ [CHR 0xC3, CHR 0xA4] @ ''sche 40 '' @ [CHR 0xC2, CHR 0xB0] @ ''C''),
    (''gc50'', ''W'' @ [CHR 0xC3, CHR 0xA4] @ ''sche 50 '' @ [CHR 0xC2, CHR 0xB0] @ ''C''),
    (''gc60'', ''W'' @ [CHR 0xC3, CHR 0xA4] @ ''sche 60 '' @ [CHR 0xC2, CHR 0xB0] @ ''C''),
    (''gc70'', ''W'' @ [CHR 0xC3, CHR 0xA4] @ ''sche 70 '' @ [CHR 0xC2, CHR 0xB0] @ ''C''),
    (''gc80'', ''W'' @ [CHR 0xC3, CHR 0xA4] @ ''sche 80 '' @ [CHR 0xC2, CHR 0xB0] @ ''C''),
    (''gc90'', ''W'' @ [CHR 0xC3, CHR 0xA4] @ ''sche 90 '' @ [CHR 0xC2, CHR 0xB0] @ ''C''),
    (''gefluegelteileauftauen'', ''Gefl'' @ [CHR 0xC3, CHR 0xBC] @ ''gelteile auftauen''),
    (''generatingozone'', ''Ozon wird erzeugt''), (''gentledry'', ''Schonend trocknen''),
    (''gentlydryreached'', ''Schonend trocken erreicht''),
    (''glas40'', ''Glas 40 '' @ [CHR 0xC2, CHR 0xB0] @ ''C''), (''glasscare'', ''Glaspflege''),
    (''glassshine'', ''Glasglanz''), (''gohome'', ''Zur Basis''),
    (''goosebreast'', ''G'' @ [CHR 0xC3, CHR 0xA4] @ ''nsebrust''), (''grass'', ''Gras''),
    (''greentea'', ''Gr'' @ [CHR 0xC3, CHR 0xBC] @ ''ner Tee''),
    (''grilllargearea'', ''Grill (gro'' @ [CHR 0xC3, CHR 0x9F] @ ''er Bereich)''),
    (''grillsmallarea'', ''Grill (kleiner Bereich)''),
    (''grosserbrauner'', ''Gro'' @ [CHR 0xC3, CHR 0x9F] @ ''er Brauner''), (''guardingoxy'', ''Guarding Oxy''),
    (''guardingwrinkle'', ''Guarding Wrinkle''), (''h00'', ''H 00''), (''h01'', ''H 01''), (''h02'', ''H 02''),
    (''h03'', ''H 03''), (''h04'', ''H 04''), (''h05'', ''H 05''), (''h06'', ''H 06''), (''h07'', ''H 07''),
    (''haehnchenteile'', ''H'' @ [CHR 0xC3, CHR 0xA4] @ ''hnchenteile''), (''hamburgers'', ''Hamburger''),
    (''handsoak'', ''Handeinweichen''), (''he'', ''Hebr'' @ [CHR 0xC3, CHR 0xA4] @ ''isch''),
    (''heat'', ''Heizen''), (''heating'', ''Heizen''), (''hi'', ''Hindi''), (''high'', ''Hoch''),
    (''holdafterrinse'', ''Sp'' @ [CHR 0xC3, CHR 0xBC] @ ''lstopp''),
    (''hoodfullcontrol'', ''Volle Haubensteuerung''), (''hoodonoff'', ''Haube Ein/Aus''),
    (''hotair'', ''Hei'' @ [CHR 0xC3, CHR 0x9F] @ ''luft''),
    (''hotair100steam'', ''Hei'' @ [CHR 0xC3, CHR 0x9F] @ ''luft + 100 RH''),
    (''hotair30steam'', ''Hei'' @ [CHR 0xC3, CHR 0x9F] @ ''luft + 30 RH''),
    (''hotair60steam'', ''Hei'' @ [CHR 0xC3, CHR 0x9F] @ ''luft + 60 RH''),
    (''hotair80steam'', ''Hei'' @ [CHR 0xC3, CHR 0x9F] @ ''luft + 80 RH''),
    (''hotaireco'', ''Hei'' @ [CHR 0xC3, CHR 0x9F] @ ''luft Eco''),
    (''hotairgentle'', ''Hei'' @ [CHR 0xC3, CHR 0x9F] @ ''luft schonend''),
    (''hotairgrilling'', ''Hei'' @ [CHR 0xC3, CHR 0x9F] @ ''luftgrillen''),
    (''hotmoistheatingheating'', ''Hei'' @ [CHR 0xC3, CHR 0x9F] @ ''feuchtheizen Heizen''),
    (''hotmoistheatingwashing'', ''Hei'' @ [CHR 0xC3, CHR 0x9F] @ ''feuchtheizen Waschen''),
    (''hotmoistheatingwetting'', ''Hei'' @ [CHR 0xC3, CHR 0x9F] @ ''feuchtheizen Befeuchten''),
    (''hotwater'', ''Warmwasser''), (''hr'', ''Kroatisch''), (''hu'', ''Ungarisch''), (''hygiene'', ''Hygiene''),
    (''hygieneplus'', ''Hygiene''), (''hygienicsteamfogging'', ''Hygiene-Dampfnebel''), (''id'', ''Indonesisch''),
    (''impossible'', ''Nicht m'' @ [CHR 0xC3, CHR 0xB6] @ ''glich''), (''inactive'', ''Inaktiv''),
    (''inbasket'', ''Im Korb''), (''indicationoff'', ''Anzeige aus''), (''indicationon'', ''Anzeige ein''),
    (''intense'', ''Intensiv''), (''intenseplus'', ''Intensiv +''),
    (''intensiv45'', ''Intensiv 45 '' @ [CHR 0xC2, CHR 0xB0] @ ''C''),
    (''intensiv70'', ''Intensiv 70 '' @ [CHR 0xC2, CHR 0xB0] @ ''C''),
    (''intensivefixedzone'', ''Intensiv feste Zone''), (''intensiveheat'', ''Intensivhitze''),
    (''intensivpower'', ''Intensivleistung''), (''intermediatespin'', ''Zwischenschleudern''),
    (''interval'', ''Intervall''), (''irondry'', ''B'' @ [CHR 0xC3, CHR 0xBC] @ ''geltrocken''),
    (''irondryreached'', ''B'' @ [CHR 0xC3, CHR 0xBC] @ ''geltrocken erreicht''),
    (''is'', ''Isl'' @ [CHR 0xC3, CHR 0xA4] @ ''ndisch''), (''it'', ''Italienisch''), (''ja'', ''Japanisch''),
    (''jeans'', ''Jeans''), (''kaapi'', ''Kaapi''), (''keepwarm'', ''Warmhalten''),
    (''keylockfunctiondeactivated'', ''Tastensperre deaktiviert''), (''kk'', ''Kasachisch''),
    (''kleinerbrauner'', ''Kleiner Brauner''), (''ko'', ''Koreanisch''), (''koffieverkeerd'', ''Koffie verkeerd''),
    (''kurz60'', ''Schnell 60 '' @ [CHR 0xC2, CHR 0xB0] @ ''C''), (''lastprogram'', ''Letztes Programm''),
    (''lattemacchiato'', ''Latte Macchiato''),
    (''laundryrefreshing'', ''W'' @ [CHR 0xC3, CHR 0xA4] @ ''sche auffrischen''),
    (''learningdishwasher'', ''Intelligent''), (''leavetorest'', ''Ruhen lassen''), (''left'', ''Links''),
    (''leftadd1'', ''Links Zusatz 1''), (''lessironing'', ''Weniger B'' @ [CHR 0xC3, CHR 0xBC] @ ''geln''),
    (''letrest'', ''Ruhen lassen''), (''locked'', ''Verriegelt''), (''loud'', ''Laut''), (''low'', ''Niedrig''),
    (''lowtemperaturehygiene'', ''Niedertemperatur-Hygiene''), (''lt'', ''Litauisch''), (''lv'', ''Lettisch''),
    (''machinecare'', ''Maschinenpflege''), (''magicdaily'', ''Magic Daily''), (''mainsoff'', ''Netz aus''),
    (''mainwash'', ''Hauptw'' @ [CHR 0xC3, CHR 0xA4] @ ''sche''), (''manualmode'', ''Manueller Modus''),
    (''manualremotestart'', ''Manueller Fernstart''), (''map1'', ''Karte 1''), (''map2'', ''Karte 2''),
    (''map3'', ''Karte 3''), (''max'', ''Max''), (''maxefficient'', ''Maximale Effizienz''),
    (''maximumcleaning'', ''Maximale Reinigung''), (''medium'', ''Mittel''),
    (''meltingbutter'', ''Butter schmelzen''),
    (''meltingcheese'', ''K'' @ [CHR 0xC3, CHR 0xA4] @ ''se schmelzen''),
    (''meltingchocolate'', ''Schokolade schmelzen''), (''microwave'', ''Mikrowelle''), (''middle'', ''Mitte''),
    (''mild'', ''Mild''), (''mildplus'', ''Mild +''), (''milkfroth'', ''Milchschaum''),
    (''milliliter'', ''Milliliter''), (''mincedmeat'', ''Hackfleisch''), (''mix'', ''Mix''),
    (''mixed'', ''Gemischt''), (''mixedload'', ''Gemischte Beladung''), (''mk'', ''Mazedonisch''),
    (''mo'', ''Moldauisch''), (''modeintelligentmode'', ''Intelligenter Modus''),
    (''modemopaftervacuum'', ''Wischen nach Saugen''), (''modemoponly'', ''Nur Wischen''),
    (''modespower'', ''Power'')]"

definition enumDEGen_4 :: catalogue where
  "enumDEGen_4 = [
    (''modessilent'', ''Leise''), (''modesstandard'', ''Standard''),
    (''modevacuumandmop'', ''Saugen und Wischen''), (''modevacuumonly'', ''Nur Saugen''),
    (''moistureremoval'', ''Feuchtigkeitsentfernung''), (''monitoring'', [CHR 0xC3, CHR 0x9C] @ ''berwachung''),
    (''monsoon'', ''Monsoon''), (''ms'', ''Malaiisch''), (''mud'', ''Schlamm''),
    (''multiplesoak'', ''Mehrfaches Einweichen''), (''mushrooms'', ''Pilze''), (''mussels'', ''Muscheln''),
    (''mycoffee1'', ''MyCoffee1''), (''mycoffee2'', ''MyCoffee2''), (''mycoffee3'', ''MyCoffee3''),
    (''mycoffee4'', ''MyCoffee4''), (''mycoffee5'', ''MyCoffee5''), (''mycoffee6'', ''MyCoffee6''),
    (''mycoffee7'', ''MyCoffee7''), (''mycoffee8'', ''MyCoffee8''), (''mydryingtime'', ''Meine Trocknungszeit''),
    (''mytime'', ''MyTime''), (''n'', ''Eingesetzt''), (''neutral'', ''Neutral''),
    (''neutraltocold'', ''Neutral bis kalt''), (''nightwash'', ''Mix Nachtw'' @ [CHR 0xC3, CHR 0xA4] @ ''sche''),
    (''nl'', ''Niederl'' @ [CHR 0xC3, CHR 0xA4] @ ''ndisch''), (''no'', ''Norwegisch''), (''none'', ''Keine''),
    (''nophase'', ''Keine Phase''), (''normal'', ''Normal''),
    (''normal45'', ''Normal 45 '' @ [CHR 0xC2, CHR 0xB0] @ ''C''),
    (''normal65'', ''Normal 65 '' @ [CHR 0xC2, CHR 0xB0] @ ''C''), (''normalplus'', ''Normal +''),
    (''notselectable'', ''Nicht ausw'' @ [CHR 0xC3, CHR 0xA4] @ ''hlbar''), (''octangular'', ''Achteckig''),
    (''off'', ''Aus''), (''omelettes'', ''Omeletts''), (''on'', ''Ein''), (''onionrings'', ''Zwiebelringe''),
    (''open'', ''Offen''), (''orange'', ''Orange''), (''outdoor'', ''Outdoor''), (''oval'', ''Oval''),
    (''pancakes'', ''Pfannkuchen''),
    (''partcookedbreadrollsorbaguette'', ''Vorgebackene Br'' @ [CHR 0xC3, CHR 0xB6] @ ''tchen oder Baguette''),
    (''pause'', ''Pausiert''), (''peppers'', ''Paprika''), (''permanentremotestart'', ''Permanenter Fernstart''),
    (''perspiration'', ''Schwei'' @ [CHR 0xC3, CHR 0x9F]), (''pillow'', ''Kissen''),
    (''pizzasetting'', ''Pizzastufe''), (''pl'', ''Polnisch''), (''plus1'', ''Plus 1''), (''plus2'', ''Plus 2''),
    (''plus3'', ''Plus 3''), (''plushtoy'', ''Pl'' @ [CHR 0xC3, CHR 0xBC] @ ''schtier''),
    (''pommesfrites'', ''Pommes frites''), (''pos1'', ''Position 1''), (''pos10'', ''Position 10''),
    (''pos11'', ''Position 11''), (''pos12'', ''Position 12''), (''pos13'', ''Position 13''),
    (''pos14'', ''Position 14''), (''pos15'', ''Position 15''), (''pos2'', ''Position 2''),
    (''pos3'', ''Position 3''), (''pos4'', ''Position 4''), (''pos5'', ''Position 5''), (''pos6'', ''Position 6''),
    (''pos7'', ''Position 7''), (''pos8'', ''Position 8''), (''pos9'', ''Position 9''),
    (''possibleopendoor'', ''T'' @ [CHR 0xC3, CHR 0xBC] @ ''r'' @ [CHR 0xC3, CHR 0xB6] @ ''ffnung m'' @ [CHR 0xC3, CHR 0xB6] @ ''glich''),
    (''possiblepauseprogram'', ''Programm pausieren m'' @ [CHR 0xC3, CHR 0xB6] @ ''glich''),
    (''potatopancakes'', ''Kartoffelpuffer''), (''poultrybreast'', ''Gefl'' @ [CHR 0xC3, CHR 0xBC] @ ''gelbrust''),
    (''powerlevelmode'', ''Leistungsstufe''), (''powermovemode'', ''PowerMove''),
    (''powerspeed59'', ''Power Speed <59 min''), (''prawns'', ''Garnelen''), (''preheating'', ''Vorheizen''),
    (''preheatovenware'', ''Geschirr vorheizen''), (''prerinse'', ''Vorsp'' @ [CHR 0xC3, CHR 0xBC] @ ''len''),
    (''presenceremotestart'', ''Fernstart bei Anwesenheit''), (''present'', ''Vorhanden''),
    (''prewash'', ''Vorw'' @ [CHR 0xC3, CHR 0xA4] @ ''sche''), (''program'', ''Programm''),
    (''programabortedbyappliance'', ''Programm vom Ger'' @ [CHR 0xC3, CHR 0xA4] @ ''t abgebrochen''),
    (''programabortedbyappliancecriticalerror'', ''Programm vom Ger'' @ [CHR 0xC3, CHR 0xA4] @ ''t abgebrochen (kritischer Fehler)''),
    (''programabortedbyuser'', ''Programm vom Benutzer abgebrochen''), (''programfinished'', ''Programm beendet''),
    (''proof'', ''Teig gehen lassen''), (''pt'', ''Portugiesisch''), (''ptbr'', ''Portugiesisch (Brasilien)''),
    (''pumping'', ''Abpumpen''), (''pyrolysis'', ''Pyrolyse''),
    (''quick45'', ''Schnell 45 '' @ [CHR 0xC2, CHR 0xB0] @ ''C''),
    (''quick65'', ''Schnell 65 '' @ [CHR 0xC2, CHR 0xB0] @ ''C''), (''quickcare'', ''Schnellpflege''),
    (''quickd'', ''QuickD''), (''r01'', ''R 01''), (''r02'', ''R 02''), (''r03'', ''R 03''), (''r04'', ''R 04''),
    (''r05'', ''R 05''), (''r06'', ''R 06''), (''ready'', ''Bereit''), (''rearleft'', ''Hinten links''),
    (''rearleftadd1'', ''Hinten links Zusatz 1''), (''rearright'', ''Hinten rechts''),
    (''rearrightadd1'', ''Hinten rechts Zusatz 1''), (''rectangular'', ''Rechteckig''), (''redeye'', ''Red eye''),
    (''reducingsauces'', ''Saucen reduzieren''), (''redwine'', ''Rotwein''),
    (''reheat'', ''Aufw'' @ [CHR 0xC3, CHR 0xA4] @ ''rmen''), (''relative'', ''Relativ''),
    (''reload'', ''Nachlegen''), (''removewaterfilter'', ''Wasserfilter entfernen''),
    (''replacewaterfilter'', ''Wasserfilter wechseln''),
    (''residuelheat'', ''Restw'' @ [CHR 0xC3, CHR 0xA4] @ ''rme''), (''ribeyemedium'', ''Ribeye medium''),
    (''ribeyerare'', ''Ribeye blutig''), (''right'', ''Rechts''),
    (''rightadd1'', ''Rechts hinzuf'' @ [CHR 0xC3, CHR 0xBC] @ ''gen 1''),
    (''rinse'', ''Sp'' @ [CHR 0xC3, CHR 0xBC] @ ''len''),
    (''rinsehold'', ''Sp'' @ [CHR 0xC3, CHR 0xBC] @ ''lstopp''),
    (''rinsemilksystem'', ''Milchsystem sp'' @ [CHR 0xC3, CHR 0xBC] @ ''len''),
    (''rinseonly'', ''Nur Sp'' @ [CHR 0xC3, CHR 0xBC] @ ''len''),
    (''rinsespindrain'', ''Sp'' @ [CHR 0xC3, CHR 0xBC] @ ''len, Schleudern, Abpumpen''),
    (''rinsing'', ''Sp'' @ [CHR 0xC3, CHR 0xBC] @ ''len''),
    (''rinsingaquasensor'', ''Sp'' @ [CHR 0xC3, CHR 0xBC] @ ''len Aqua-Sensor''),
    (''rinsingfoam'', ''Sp'' @ [CHR 0xC3, CHR 0xBC] @ ''len Schaum''),
    (''rinsingfoamf21'', ''Sp'' @ [CHR 0xC3, CHR 0xBC] @ ''len Schaum F 21''),
    (''rinsingsoftener'', ''Sp'' @ [CHR 0xC3, CHR 0xBC] @ ''len Weichsp'' @ [CHR 0xC3, CHR 0xBC] @ ''ler''),
    (''ristretto'', ''Ristretto''), (''ro'', ''Rum'' @ [CHR 0xC3, CHR 0xA4] @ ''nisch''), (''round'', ''Rund''),
    (''rpm1000'', ''1000 rpm''), (''rpm1200'', ''1200 rpm''), (''rpm1400'', ''1400 rpm''),
    (''rpm1500'', ''RPM 1500''), (''rpm1600'', ''1600 rpm''), (''rpm400'', ''400 rpm''), (''rpm600'', ''600 rpm'')]"

definition enumDEGen_5 :: catalogue where
  "enumDEGen_5 = [
    (''rpm700'', ''700 rpm''), (''rpm800'', ''800 rpm''), (''rpm900'', ''900 rpm''), (''ru'', ''Russisch''),
    (''run'', ''L'' @ [CHR 0xC3, CHR 0xA4] @ ''uft''), (''sabbathprogramme'', ''Sabbat-Programm''),
    (''sardines'', ''Sardinen''),
    (''sauteingvegetablesinoil'', ''Gem'' @ [CHR 0xC3, CHR 0xBC] @ ''se in '' @ [CHR 0xC3, CHR 0x96] @ ''l anbraten''),
    (''scrambledeggs'', ''R'' @ [CHR 0xC3, CHR 0xBC] @ ''hrei''), (''selfcleaning'', ''Selbstreinigung''),
    (''sensitive'', ''Schonend''), (''shirt'', ''Hemd''),
    (''shirts15'', ''Hemden 15 '' @ [CHR 0xC2, CHR 0xB0] @ ''C''), (''shirtsblouses'', ''Hemden/Blusen''),
    (''silent'', ''Leise''), (''silk'', ''Seide''), (''sk'', ''Slowakisch''),
    (''skewers'', ''Spie'' @ [CHR 0xC3, CHR 0x9F] @ ''e''), (''sl'', ''Slowenisch''),
    (''sleeping'', ''Ruhezustand''), (''slightlydampreached'', ''Leicht feucht erreicht''),
    (''slowbrew'', ''SlowBrew''), (''slowcook'', ''Schongaren''), (''smartsoak'', ''Smart Soak''),
    (''soakfinished'', ''Einweichen beendet''), (''soaking'', ''Einweichen''), (''soakpause'', ''Einweichpause''),
    (''socks'', ''Socken''), (''speedperfect'', ''Speed Perfect''), (''spin'', ''Schleudern''),
    (''spindrain'', ''Schleudern/Abpumpen''), (''spinning'', ''Schleudern''),
    (''spinningfinal'', ''Schleudern final''), (''sportfitness'', ''Sport/Fitness''),
    (''sportshoes'', ''Sportschuhe''), (''sportswear'', ''Sportbekleidung''),
    (''springrollsfrozen'', ''Fr'' @ [CHR 0xC3, CHR 0xBC] @ ''hlingsrollen tiefgek'' @ [CHR 0xC3, CHR 0xBC] @ ''hlt''),
    (''sq'', ''Albanisch''), (''squid'', ''Tintenfisch''), (''sr'', ''Serbisch''),
    (''stage01'', ''L'' @ [CHR 0xC3, CHR 0xBC] @ ''fterstufe 1''),
    (''stage02'', ''L'' @ [CHR 0xC3, CHR 0xBC] @ ''fterstufe 2''),
    (''stage03'', ''L'' @ [CHR 0xC3, CHR 0xBC] @ ''fterstufe 3''),
    (''stage04'', ''L'' @ [CHR 0xC3, CHR 0xBC] @ ''fterstufe 4''),
    (''stage05'', ''L'' @ [CHR 0xC3, CHR 0xBC] @ ''fterstufe 5''), (''standard'', ''Standard''),
    (''standby'', ''Standby''), (''steaksmedium'', ''Steaks medium''), (''steaksrare'', ''Steaks blutig''),
    (''steakswelldone'', ''Steaks durchgebraten''), (''steam'', ''Dampfmodus''),
    (''steamfresh'', ''Dampfauffrischen''), (''steaming'', ''D'' @ [CHR 0xC3, CHR 0xA4] @ ''mpfen''),
    (''steamingactive'', ''D'' @ [CHR 0xC3, CHR 0xA4] @ ''mpfen aktiv''),
    (''stirfriesfrozen'', ''Pfannengerichte tiefgek'' @ [CHR 0xC3, CHR 0xBC] @ ''hlt''),
    (''strawberry'', ''Erdbeere''), (''streamingcloud'', ''Cloud-Streaming''),
    (''streaminglocal'', ''Lokales Streaming''), (''streaminglocalandcloud'', ''Lokales und Cloud-Streaming''),
    (''stripsofmeat'', ''Fleischstreifen''), (''strong'', ''Stark''), (''strongplus'', ''Stark +''),
    (''subsequentcooking'', ''Nachgaren''), (''suit'', ''Anzug''), (''super15'', ''Super 15 Min''),
    (''super1530'', ''Super 15/30 Min''), (''super30'', ''Super 30''),
    (''super40'', ''Super 40 '' @ [CHR 0xC2, CHR 0xB0] @ ''C''),
    (''super60'', ''Super 60 '' @ [CHR 0xC2, CHR 0xB0] @ ''C''), (''sv'', ''Schwedisch''),
    (''sweetsauces'', ''S'' @ [CHR 0xC3, CHR 0xBC, CHR 0xC3, CHR 0x9F] @ ''e Saucen''),
    (''switchofftimer'', ''Abschalt-Timer''), (''synthetic'', ''Synthetik''),
    (''syntheticrefresh'', ''Synthetik-Auffrischen''), (''tea'', ''Tee''),
    (''tempmap'', ''Tempor'' @ [CHR 0xC3, CHR 0xA4] @ ''re Karte''),
    (''tempuravegetables'', ''Tempura-Gem'' @ [CHR 0xC3, CHR 0xBC] @ ''se''),
    (''testprogramdummytextfinalspeedreached'', ''Testprogramm Dummy-Text Endgeschwindigkeit erreicht''),
    (''th'', ''Thail'' @ [CHR 0xC3, CHR 0xA4] @ ''ndisch''), (''timecold'', ''Kalt (variable Zeit)''),
    (''timecold20'', ''Kalt (20 Min)''), (''timecold30'', ''Kalt (30 Min)''), (''timecold60'', ''Kalt (60 Min)''),
    (''timewarm'', ''Warm (variable Zeit)''), (''timewarm30'', ''Warm (30 Min)''),
    (''timewarm40'', ''Warm (40 Min)''), (''timewarm60'', ''Warm (60 Min)''),
    (''toastingbread'', ''Brot r'' @ [CHR 0xC3, CHR 0xB6] @ ''sten''),
    (''toastingnuts'', ''N'' @ [CHR 0xC3, CHR 0xBC] @ ''sse r'' @ [CHR 0xC3, CHR 0xB6] @ ''sten''),
    (''tomatosauce'', ''Tomatensauce''),
    (''tomatosaucewithvegetables'', ''Tomatensauce mit Gem'' @ [CHR 0xC3, CHR 0xBC] @ ''se''),
    (''topbottomheating'', ''Ober-/Unterhitze''), (''topbottomheatingeco'', ''Ober-/Unterhitze Eco''),
    (''towels'', ''Handt'' @ [CHR 0xC3, CHR 0xBC] @ ''cher''), (''tr'', ''T'' @ [CHR 0xC3, CHR 0xBC] @ ''rkisch''),
    (''tripleshot'', ''Triple Shot''), (''tripleshotplus'', ''Triple Shot +''), (''turkeybreast'', ''Putenbrust''),
    (''uk'', ''Ukrainisch''), (''ulcold'', ''Kalt''), (''ulextrahot'', ''Extra hei'' @ [CHR 0xC3, CHR 0x9F]),
    (''ulhigh'', ''Hoch''), (''ulhot'', ''Hei'' @ [CHR 0xC3, CHR 0x9F]), (''ullow'', ''Niedrig''),
    (''ulmedium'', ''Mittel''), (''uloff'', ''Aus''), (''ulwarm'', ''Warm''), (''vacant'', ''Frei''),
    (''venting'', ''L'' @ [CHR 0xC3, CHR 0xBC] @ ''ften''),
    (''verlaengerter'', ''Verl'' @ [CHR 0xC3, CHR 0xA4] @ ''ngerter''),
    (''verlaengerterbraun'', ''Verl'' @ [CHR 0xC3, CHR 0xA4] @ ''ngerter braun''), (''veryhigh'', ''Sehr hoch''),
    (''veryloud'', ''Sehr laut''), (''verymild'', ''Sehr mild''), (''verysensitive'', ''Sehr empfindlich''),
    (''verystrong'', ''Sehr stark''), (''verystrongplus'', ''Sehr stark +''), (''vi'', ''Vietnamesisch''),
    (''vienneseschnitzel'', ''Wiener Schnitzel''), (''volume1'', ''Lautst'' @ [CHR 0xC3, CHR 0xA4] @ ''rke 1''),
    (''volume2'', ''Lautst'' @ [CHR 0xC3, CHR 0xA4] @ ''rke 2''),
    (''volume3'', ''Lautst'' @ [CHR 0xC3, CHR 0xA4] @ ''rke 3''),
    (''volume4'', ''Lautst'' @ [CHR 0xC3, CHR 0xA4] @ ''rke 4''), (''warm'', ''Warm''),
    (''warmingdrawer'', ''W'' @ [CHR 0xC3, CHR 0xA4] @ ''rmeschublade''), (''warmmilk'', ''Warme Milch''),
    (''warmtoneutral'', ''Warm bis neutral''), (''warningoff'', ''Warnung aus''), (''washing'', ''Waschen''),
    (''waterproof'', ''Impr'' @ [CHR 0xC3, CHR 0xA4] @ ''gnieren''),
    (''waterproofing'', ''Impr'' @ [CHR 0xC3, CHR 0xA4] @ ''gnieren''),
    (''whitetea'', ''Wei'' @ [CHR 0xC3, CHR 0x9F] @ ''er Tee''), (''wienermelange'', ''Wiener Melange''),
    (''wool'', ''Wolle''), (''woolbasket'', ''Wollkorb''), (''woolcoat'', ''Wollmantel''),
    (''woolfinish'', ''Woll-Finish''), (''workinglightonoff'', ''Arbeitslicht ein/aus''),
    (''xlcoffee'', ''XL-Kaffee''), (''zh'', ''Chinesisch''), (''zhhk'', ''Chinesisch (Hongkong)''),
    (''zhtw'', ''Chinesisch (Taiwan)'')]"

definition enumDEGen :: catalogue where
  "enumDEGen = enumDEGen_1 @ enumDEGen_2 @ enumDEGen_3 @ enumDEGen_4 @ enumDEGen_5"

text \<open>The entries with their labels as plain lists of bytes.\<close>

lemmas enumDEGen_1_flat = enumDEGen_1_def [simplified append.simps]
lemmas enumDEGen_2_flat = enumDEGen_2_def [simplified append.simps]
lemmas enumDEGen_3_flat = enumDEGen_3_def [simplified append.simps]
lemmas enumDEGen_4_flat = enumDEGen_4_def [simplified append.simps]
lemmas enumDEGen_5_flat = enumDEGen_5_def [simplified append.simps]
lemmas enumDEGen_parts = enumDEGen_1_flat enumDEGen_2_flat enumDEGen_3_flat enumDEGen_4_flat enumDEGen_5_flat

section \<open>Its keys\<close>

text \<open>A list in strictly rising order, checked from neighbour to neighbour.\<close>

fun rising :: "string \<Rightarrow> catalogue \<Rightarrow> bool" where
  "rising k [] = True"
| "rising k ((en, de) # es) = (k < en \<and> rising en es)"

lemma rising_append: "rising k (xs @ ys) \<longleftrightarrow> rising k xs \<and> rising (last (k # List.map fst xs)) ys"
  by (induction k xs rule: rising.induct) auto

lemma rising_distinct: "rising k es \<Longrightarrow> distinct (List.map fst es) \<and> (\<forall>e\<in>set es. k < fst e)"
proof (induction k es rule: rising.induct)
  case (2 k en de es)
  then have "k < en" "distinct (List.map fst es)" "\<forall>e\<in>set es. en < fst e" by simp_all
  then show ?case by (auto intro: less_trans)
qed simp

lemma rising_1: "rising [] enumDEGen_1 \<and> last ([] # List.map fst enumDEGen_1) = ''caffegrande''" by code_simp
lemma rising_2: "rising ''caffegrande'' enumDEGen_2 \<and> last (''caffegrande'' # List.map fst enumDEGen_2) = ''fryingfrenchfriesfrozen''" by code_simp
lemma rising_3: "rising ''fryingfrenchfriesfrozen'' enumDEGen_3 \<and> last (''fryingfrenchfriesfrozen'' # List.map fst enumDEGen_3) = ''modespower''" by code_simp
lemma rising_4: "rising ''modespower'' enumDEGen_4 \<and> last (''modespower'' # List.map fst enumDEGen_4) = ''rpm600''" by code_simp
lemma rising_5: "rising ''rpm600'' enumDEGen_5 \<and> last (''rpm600'' # List.map fst enumDEGen_5) = ''zhtw''" by code_simp

lemma enumDEGen_distinct: "distinct (List.map fst enumDEGen)"
proof -
  have "rising [] enumDEGen"
    unfolding enumDEGen_def rising_append by (simp only: rising_1 rising_2 rising_3 rising_4 rising_5 simp_thms)
  then show ?thesis by (simp add: rising_distinct)
qed

text \<open>Every key is in the normal form it is looked up by, and none is taken for a number.\<close>

lemma slug_bits:
  "slug_char (Char b0 b1 b2 b3 b4 b5 b6 b7) = (\<not> b7 \<and> b5 \<and>
     (if b6 then (b4 \<or> b3 \<or> b2 \<or> b1 \<or> b0) \<and> \<not> (b4 \<and> b3 \<and> (b2 \<or> b1 \<and> b0)) else b4 \<and> \<not> (b3 \<and> (b2 \<or> b1))))"
  by (simp add: slug_char_def is_lower_def is_digit_def)

lemma digit_bits:
  "is_digit (Char b0 b1 b2 b3 b4 b5 b6 b7) = (\<not> b7 \<and> \<not> b6 \<and> b5 \<and> b4 \<and> \<not> (b3 \<and> (b2 \<or> b1)))"
  by (simp add: is_digit_def)

definition plain_key :: "string \<times> string \<Rightarrow> bool" where
  "plain_key e \<longleftrightarrow> list_all slug_char (fst e) \<and> \<not> list_all is_digit (fst e)"

lemma plain_keys_1: "list_all plain_key enumDEGen_1"
  by (simp add: enumDEGen_1_flat plain_key_def slug_bits digit_bits)
lemma plain_keys_2: "list_all plain_key enumDEGen_2"
  by (simp add: enumDEGen_2_flat plain_key_def slug_bits digit_bits)
lemma plain_keys_3: "list_all plain_key enumDEGen_3"
  by (simp add: enumDEGen_3_flat plain_key_def slug_bits digit_bits)
lemma plain_keys_4: "list_all plain_key enumDEGen_4"
  by (simp add: enumDEGen_4_flat plain_key_def slug_bits digit_bits)
lemma plain_keys_5: "list_all plain_key enumDEGen_5"
  by (simp add: enumDEGen_5_flat plain_key_def slug_bits digit_bits)

lemma enumDEGen_plain: "list_all plain_key enumDEGen"
  unfolding enumDEGen_def list_all_append using plain_keys_1 plain_keys_2 plain_keys_3 plain_keys_4 plain_keys_5 by blast

lemma norm_name_key: "list_all slug_char s \<Longrightarrow> norm_name u s = s"
proof -
  assume s: "list_all slug_char s"
  have "is_ascii c \<and> lower_char c = c" if "slug_char c" for c
    using that by (auto simp: slug_char_def is_lower_def is_digit_def is_ascii_def lower_char_def)
  then have "list_all is_ascii s" "List.map lower_char s = s"
    using s by (auto simp: list_all_iff intro: map_idI)
  with s show ?thesis by (simp add: norm_name_def to_lower_ascii list_all_iff)
qed

section \<open>The labels\<close>

text \<open>
  Whatever the order of the map, a name that normalizes to a key of the catalogue is shown with the key's label.
\<close>

theorem german_label:
  assumes "(en, de) \<in> set enumDEGen" and "mset cat = mset enumDEGen" and "norm_name u name = en"
  shows "EnumLabel u cat name ''de'' = (if isNumeric name then name else de)"
proof -
  have "distinct (List.map fst cat)"
    using enumDEGen_distinct assms(2) by (metis mset_eq_imp_distinct_iff mset_map)
  moreover have "(en, de) \<in> set cat" using assms(1,2) by (metis mset_eq_setD)
  ultimately show ?thesis using assms(3) by (simp add: EnumLabel_def)
qed

text \<open>The reverse table has, for a label, whichever of its entries the runtime visited last.\<close>

lemma written_label_order:
  assumes "(en, de) \<in> set es" and "norm_name u de' = norm_name u de" and "\<not> isNumeric de'"
  shows "\<exists>cat. mset cat = mset es \<and> EnumValue u cat de' ''de'' = en"
proof -
  let ?cat = "remove1 (en, de) es @ [(en, de)]"
  have "mset ?cat = mset es" using assms(1) by simp
  moreover have "EnumValue u ?cat de' ''de'' = en" using assms(2,3) by (simp add: EnumValue_def enumENGen_lookup)
  ultimately show ?thesis by blast
qed

text \<open>The entries of the catalogue that share a label, up to what normalizing drops.\<close>

definition same_label :: "catalogue list" where
  "same_label = [
     [(''cold'', ''Kalt''), (''ulcold'', ''Kalt'')],
     [(''color'', ''Benutzerdefiniert''), (''custom'', ''Benutzerdefiniert'')],
     [(''cupboarddry'', ''Schranktrocken''), (''cupboarddryplus'', ''Schranktrocken +'')],
     [(''deactivated'', ''Deaktiviert''), (''disabled'', ''Deaktiviert'')],
     [(''doubleshot'', ''Double Shot''), (''doubleshotplus'', ''Double Shot +''), (''doubleshotplusplus'', ''Double Shot ++'')],
     [(''doughproving'', ''Teig gehen lassen''), (''proof'', ''Teig gehen lassen'')],
     [(''draining'', ''Abpumpen''), (''pumping'', ''Abpumpen'')], [(''dry'', ''Trocknen''), (''drying'', ''Trocknen'')],
     [(''heat'', ''Heizen''), (''heating'', ''Heizen'')], [(''high'', ''Hoch''), (''ulhigh'', ''Hoch'')],
     [(''holdafterrinse'', ''Sp'' @ [CHR 0xC3, CHR 0xBC] @ ''lstopp''), (''rinsehold'', ''Sp'' @ [CHR 0xC3, CHR 0xBC] @ ''lstopp'')],
     [(''hygiene'', ''Hygiene''), (''hygieneplus'', ''Hygiene'')],
     [(''intense'', ''Intensiv''), (''intenseplus'', ''Intensiv +'')],
     [(''leavetorest'', ''Ruhen lassen''), (''letrest'', ''Ruhen lassen'')],
     [(''low'', ''Niedrig''), (''ullow'', ''Niedrig'')], [(''medium'', ''Mittel''), (''ulmedium'', ''Mittel'')],
     [(''mild'', ''Mild''), (''mildplus'', ''Mild +'')], [(''modessilent'', ''Leise''), (''silent'', ''Leise'')],
     [(''modesstandard'', ''Standard''), (''standard'', ''Standard'')],
     [(''normal'', ''Normal''), (''normalplus'', ''Normal +'')], [(''off'', ''Aus''), (''uloff'', ''Aus'')],
     [(''rinse'', ''Sp'' @ [CHR 0xC3, CHR 0xBC] @ ''len''), (''rinsing'', ''Sp'' @ [CHR 0xC3, CHR 0xBC] @ ''len'')],
     [(''spin'', ''Schleudern''), (''spinning'', ''Schleudern'')],
     [(''strong'', ''Stark''), (''strongplus'', ''Stark +'')],
     [(''tripleshot'', ''Triple Shot''), (''tripleshotplus'', ''Triple Shot +'')],
     [(''ulwarm'', ''Warm''), (''warm'', ''Warm'')],
     [(''verystrong'', ''Sehr stark''), (''verystrongplus'', ''Sehr stark +'')],
     [(''waterproof'', ''Impr'' @ [CHR 0xC3, CHR 0xA4] @ ''gnieren''), (''waterproofing'', ''Impr'' @ [CHR 0xC3, CHR 0xA4] @ ''gnieren'')]]"

text \<open>The part of the catalogue a key belongs to, so that only one part is searched for it.\<close>

definition part_of :: "string \<Rightarrow> catalogue" where
  "part_of en = (if en \<le> ''caffegrande'' then enumDEGen_1 else if en \<le> ''fryingfrenchfriesfrozen'' then enumDEGen_2
     else if en \<le> ''modespower'' then enumDEGen_3 else if en \<le> ''rpm600'' then enumDEGen_4 else enumDEGen_5)"

lemma part_of_subset: "set (part_of en) \<subseteq> set enumDEGen"
  by (auto simp: part_of_def enumDEGen_def)

definition norm_ascii :: "string \<Rightarrow> string" where
  "norm_ascii s = filter slug_char (List.map lower_char s)"

definition one_label :: "catalogue \<Rightarrow> bool" where
  "one_label g \<longleftrightarrow> list_all (\<lambda>(en, de). de = snd (hd g)) g
     \<or> list_all (\<lambda>(en, de). list_all is_ascii de \<and> norm_ascii de = norm_ascii (snd (hd g))) g"

definition in_its_part :: "catalogue \<Rightarrow> bool" where
  "in_its_part g \<longleftrightarrow> list_all (\<lambda>e. e \<in> set (part_of (fst e))) g"

lemma entries_1: "list_all in_its_part (take 7 same_label)"
  by (simp add: same_label_def in_its_part_def part_of_def) (simp add: enumDEGen_parts)

lemma entries_2: "list_all in_its_part (take 7 (drop 7 same_label))"
  by (simp add: same_label_def in_its_part_def part_of_def) (simp add: enumDEGen_parts)

lemma entries_3: "list_all in_its_part (take 7 (drop 14 same_label))"
  by (simp add: same_label_def in_its_part_def part_of_def) (simp add: enumDEGen_parts)

lemma entries_4: "list_all in_its_part (drop 21 same_label)"
  by (simp add: same_label_def in_its_part_def part_of_def) (simp add: enumDEGen_parts)

lemma same_label_entries: "list_all in_its_part same_label"
proof -
  have cut: "list_all P xs \<longleftrightarrow> list_all P (take n xs) \<and> list_all P (drop n xs)" for P :: "catalogue \<Rightarrow> bool" and n xs
    by (metis append_take_drop_id list_all_append)
  have "list_all in_its_part (drop 14 same_label)"
    using entries_3 entries_4 by (subst cut [of _ _ 7]) simp
  then have "list_all in_its_part (drop 7 same_label)"
    using entries_2 by (subst cut [of _ _ 7]) simp
  then show ?thesis using entries_1 by (subst cut [of _ _ 7]) simp
qed

lemma same_label_words: "list_all (list_all (\<lambda>e. \<not> list_all is_digit (snd e))) same_label"
  by (simp add: same_label_def digit_bits)

lemma same_label_one: "list_all one_label same_label"
  by code_simp

lemma same_label_norm:
  assumes "g \<in> set same_label" and "(en, de) \<in> set g"
  shows "(en, de) \<in> set enumDEGen \<and> \<not> isNumeric de \<and> norm_name u de = norm_name u (snd (hd g))"
proof -
  have "one_label g" and "g \<noteq> []" using same_label_one assms by (auto simp: list_all_iff)
  then have "hd g \<in> set g" by simp
  have "norm_name u de = norm_name u (snd (hd g))"
    using \<open>one_label g\<close> assms(2) \<open>hd g \<in> set g\<close>
    by (cases "hd g") (fastforce simp: one_label_def list_all_iff norm_name_def norm_ascii_def to_lower_def)
  moreover have "(en, de) \<in> set (part_of en)" "\<not> isNumeric de"
    using same_label_entries same_label_words assms by (fastforce simp: list_all_iff isNumeric_def in_its_part_def)+
  ultimately show ?thesis using part_of_subset by blast
qed

text \<open>
  Which member a written label means is left open by the code: for any two entries that share a label there is an
  order of the map in which the label of one, as it is shown for it, is read as the other.
\<close>

theorem shared_label_any_member:
  assumes "g \<in> set same_label" and "(en, de) \<in> set g" and "(en', de') \<in> set g"
  shows "\<exists>cat. mset cat = mset enumDEGen \<and> EnumLabel u cat en' ''de'' = de' \<and> EnumValue u cat de' ''de'' = en"
proof -
  note a = same_label_norm [OF assms(1,2), of u] and b = same_label_norm [OF assms(1,3), of u]
  obtain cat where c: "mset cat = mset enumDEGen" "EnumValue u cat de' ''de'' = en"
    using written_label_order [of en de enumDEGen u de'] a b by metis
  have k: "plain_key (en', de')" using b enumDEGen_plain by (auto simp: list_all_iff)
  then have "norm_name u en' = en'" "\<not> isNumeric en'"
    by (auto simp: plain_key_def norm_name_key isNumeric_def)
  with german_label [OF _ c(1), of en' de' u en'] b c show ?thesis by auto
qed

lemma strong_is_not_strong:
  "\<exists>cat. mset cat = mset enumDEGen \<and> EnumLabel id cat ''strong'' ''de'' = ''Stark'' \<and> EnumValue id cat ''Stark'' ''de'' = ''strongplus''"
  by (rule shared_label_any_member [of "[(''strong'', ''Stark''), (''strongplus'', ''Stark +'')]"])
    (simp_all add: same_label_def)

end
