(* ===== verification/Web_Server.thy ===== *)
theory Web_Server
  imports Web_Routes
begin

text \<open>
  \<^verbatim>\<open>internal/web/web.go\<close>: the page's layout, the options the dashboard server is built with, and the routes of the
  device API on the server's multiplexer.

  The multiplexer is the one of \<^verbatim>\<open>net/http\<close>: a cleaned path is matched segment by segment, the segments unescaped,
  and a pattern for \<^verbatim>\<open>GET\<close> also takes \<^verbatim>\<open>HEAD\<close>. The check of the origin and the dashboard's own routes are of
  \<^verbatim>\<open>go-bridgeui\<close>: whether a request passes the check is part of the request, and one that no route of the API takes
  is answered elsewhere.
\<close>

section \<open>The page\<close>

record page_section =
  seID :: string
  seGroups :: "string list"
  seOptional :: bool

record page_layout =
  plBrand :: string
  plProduct :: string
  plSections :: "page_section list"
  plSystemGroups :: "string list"

definition page :: page_layout where
  "page = \<lparr>plBrand = ''homeconnect2mqtt'', plProduct = ''Home Connect'',
     plSections = [\<lparr>seID = ''state'', seGroups = [''status'', ''event''], seOptional = False\<rparr>,
       \<lparr>seID = ''programs'', seGroups = [''program'', ''option''], seOptional = True\<rparr>],
     plSystemGroups = [''setting'', ''command'', ''other'']\<rparr>"

text \<open>Where a group is shown: in a section, or, as \<open>None\<close>, among the system groups.\<close>

definition places :: "page_layout \<Rightarrow> string \<Rightarrow> string option list" where
  "places l g = concat (List.map (\<lambda>s. if g \<in> set (seGroups s) then [Some (seID s)] else []) (plSections l))
     @ (if g \<in> set (plSystemGroups l) then [None] else [])"

record server_options =
  soBind :: string
  soUser :: string
  soPassword :: string
  soRealm :: string
  soLanguage :: string
  soLayout :: page_layout
  soHealthProbe :: bool

text \<open>\<open>app\<close> is the daemon's configuration, or the empty one; \<open>translations\<close> is whether the embedded bundles load.\<close>

definition New_web :: "bool \<Rightarrow> string \<Rightarrow> string \<Rightarrow> string \<Rightarrow> config option \<Rightarrow> server_options option" where
  "New_web translations bind user password app =
     (if \<not> translations then None
      else Some \<lparr>soBind = bind, soUser = user, soPassword = password, soRealm = ''homeconnect2mqtt'',
        soLanguage = (case app of None \<Rightarrow> [] | Some c \<Rightarrow> cfLanguage c), soLayout = page, soHealthProbe = True\<rparr>)"

section \<open>The routes\<close>

record http_request =
  hrMethod :: string
  hrPath :: "string list"
  hrBody :: string
  hrSameOrigin :: bool

datatype path_part = Literal string | Wildcard | Remaining

text \<open>The values of the wildcards; the last one takes the rest of the path, which may be empty behind its slash.\<close>

fun match_path :: "path_part list \<Rightarrow> string list \<Rightarrow> string list option" where
  "match_path [] [] = Some []"
| "match_path [Remaining] (seg # segs) = Some [join ''/'' (seg # segs)]"
| "match_path (Literal l # ps) (seg # segs) = (if seg = l then match_path ps segs else None)"
| "match_path (Wildcard # ps) (seg # segs) = (if seg = [] then None else map_option ((#) seg) (match_path ps segs))"
| "match_path _ _ = None"

definition path_taken :: "path_part list \<Rightarrow> string list \<Rightarrow> bool" where
  "path_taken ps segs \<longleftrightarrow> match_path ps segs \<noteq> None"

datatype handler = DevicesHandler | DeviceHandler | FeatureHandler | SetHandler | VersionHandler

record route =
  rtMethod :: string
  rtPattern :: "path_part list"
  rtSameOrigin :: bool
  rtHandler :: handler

definition register :: "route list" where
  "register =
    [\<lparr>rtMethod = ''GET'', rtPattern = [Literal ''api'', Literal ''devices''], rtSameOrigin = False, rtHandler = DevicesHandler\<rparr>,
     \<lparr>rtMethod = ''GET'', rtPattern = [Literal ''api'', Literal ''devices'', Wildcard], rtSameOrigin = False, rtHandler = DeviceHandler\<rparr>,
     \<lparr>rtMethod = ''GET'', rtPattern = [Literal ''api'', Literal ''devices'', Wildcard, Literal ''features'', Remaining],
       rtSameOrigin = False, rtHandler = FeatureHandler\<rparr>,
     \<lparr>rtMethod = ''POST'', rtPattern = [Literal ''api'', Literal ''devices'', Wildcard, Literal ''set''], rtSameOrigin = True, rtHandler = SetHandler\<rparr>,
     \<lparr>rtMethod = ''GET'', rtPattern = [Literal ''api'', Literal ''version''], rtSameOrigin = False, rtHandler = VersionHandler\<rparr>]"

definition takes_method :: "route \<Rightarrow> string \<Rightarrow> bool" where
  "takes_method r m \<longleftrightarrow> m = rtMethod r \<or> rtMethod r = ''GET'' \<and> m = ''HEAD''"

datatype api_answer = Answer response | OtherOrigin | NotOurs

text \<open>What the build reports, and the handlers over the store and the appliances.\<close>

definition call_handler ::
  "(int \<Rightarrow> string \<Rightarrow> body_error + set_request) \<Rightarrow> string \<times> string \<times> string \<Rightarrow> int \<Rightarrow> store \<Rightarrow> handler \<Rightarrow> string list \<Rightarrow> string
   \<Rightarrow> (string \<times> command_env \<times> world) list \<Rightarrow> response \<times> (string \<times> command_env \<times> world) list" where
  "call_handler decode build now s h vals body ds = (case (h, vals) of
      (DeviceHandler, [device]) \<Rightarrow> (handleDevice now s device, ds)
    | (FeatureHandler, [device, feature]) \<Rightarrow> (handleFeature now s device feature, ds)
    | (SetHandler, [device]) \<Rightarrow> handleSet_api decode device body ds
    | (VersionHandler, _) \<Rightarrow> (case build of (version, commit, date) \<Rightarrow> (handleVersion version commit date, ds))
    | _ \<Rightarrow> (handleDevices now s, ds))"

definition serve_api ::
  "(int \<Rightarrow> string \<Rightarrow> body_error + set_request) \<Rightarrow> string \<times> string \<times> string \<Rightarrow> int \<Rightarrow> store \<Rightarrow> http_request
   \<Rightarrow> (string \<times> command_env \<times> world) list \<Rightarrow> api_answer \<times> (string \<times> command_env \<times> world) list" where
  "serve_api decode build now s req ds =
     (case find (\<lambda>r. takes_method r (hrMethod req) \<and> path_taken (rtPattern r) (hrPath req)) register of
        None \<Rightarrow> (NotOurs, ds)
      | Some r \<Rightarrow>
          if rtSameOrigin r \<and> \<not> hrSameOrigin req then (OtherOrigin, ds)
          else map_prod Answer id (call_handler decode build now s (rtHandler r)
                 (the (match_path (rtPattern r) (hrPath req))) (hrBody req) ds))"

section \<open>Facts on the routes\<close>

text \<open>No request is taken by two routes, so the order of registration does not matter.\<close>

lemma path_taken_Literal: "path_taken (Literal l # ps) segs \<longleftrightarrow> (\<exists>rest. segs = l # rest \<and> path_taken ps rest)"
  by (cases segs) (auto simp: path_taken_def)

lemma path_taken_Wildcard: "path_taken (Wildcard # ps) segs \<longleftrightarrow> (\<exists>w rest. segs = w # rest \<and> w \<noteq> [] \<and> path_taken ps rest)"
  by (cases segs) (auto simp: path_taken_def)

lemma path_taken_Nil: "path_taken [] segs \<longleftrightarrow> segs = []"
  by (cases segs) (auto simp: path_taken_def)

lemma path_taken_Remaining: "path_taken [Remaining] segs \<longleftrightarrow> segs \<noteq> []"
  by (cases segs) (auto simp: path_taken_def)

lemmas path_takens = path_taken_Literal path_taken_Wildcard path_taken_Nil path_taken_Remaining

lemma routes_disjoint:
  "r \<in> set register \<Longrightarrow> r' \<in> set register \<Longrightarrow> takes_method r m \<Longrightarrow> takes_method r' m
     \<Longrightarrow> path_taken (rtPattern r) segs \<Longrightarrow> path_taken (rtPattern r') segs \<Longrightarrow> r = r'"
  unfolding register_def list.set insert_iff empty_iff
  by (elim disjE FalseE; hypsubst; simp only: route.simps; (simp add: takes_method_def path_takens; fail | (clarsimp simp: takes_method_def path_takens; fail)))

text \<open>Every group a feature can have is shown at exactly one place of the page.\<close>

lemma group_of_segments_range:
  "group_of_segments segs \<in> {''status'', ''setting'', ''option'', ''event'', ''command'', ''program'', ''other''}"
proof (induction segs)
  case (Cons seg segs)
  have "list_all (\<lambda>s. List.map lower_char s \<in> {''status'', ''setting'', ''option'', ''event'', ''command'', ''program''})
      [''Status'', ''Setting'', ''Option'', ''Event'', ''Command'', ''Program'']" by code_simp
  note low = bspec [OF this [unfolded list_all_iff list.set]]
  show ?case
  proof (cases "seg \<in> {''Status'', ''Setting'', ''Option'', ''Event'', ''Command'', ''Program''}")
    case True
    then have "group_of_segments (seg # segs) = List.map lower_char seg" by (simp only: group_of_segments.simps if_True)
    with low [OF True] show ?thesis unfolding insert_iff by (simp only:) metis
  next
    case False
    then have "group_of_segments (seg # segs) = (if seg = ''Root'' then ''program'' else group_of_segments segs)"
      by (simp only: group_of_segments.simps if_False)
    with Cons show ?thesis by (cases "seg = ''Root''") (simp_all only: insert_iff if_True if_False simp_thms)
  qed
qed simp

lemma every_group_placed: "length (places page (featureGroup feature)) = 1"
proof -
  have "list_all (\<lambda>g. length (places page g) = 1)
      [''status'', ''setting'', ''option'', ''event'', ''command'', ''program'', ''other'']" by code_simp
  then show ?thesis
    using group_of_segments_range [of "split_on (CHR ''.'') feature"]
    by (simp only: featureGroup_def list_all_iff list.set)
qed

lemma set_world_other: "n \<noteq> m \<Longrightarrow> deviceByName (set_world n w ds) m = deviceByName ds m"
  by (induction n w ds rule: set_world.induct) (auto simp: deviceByName_def)

lemma Dispatch_other: "n \<noteq> device \<Longrightarrow> deviceByName (snd (Dispatch ds device feature val)) n = deviceByName ds n"
  by (auto simp: Dispatch_def set_world_other split: option.split prod.split)

section \<open>Properties\<close>

text \<open>
  C37. Only a write of the same origin changes anything. Whatever request the API gets, if an appliance is in another
  state afterwards, the request was a \<^verbatim>\<open>POST\<close> on the path of that appliance's \<^verbatim>\<open>set\<close> that passed the check of the
  origin, with a body within the limit that names a feature, and what happened is the dispatch of that value to
  that appliance.
\<close>

theorem api_writes_guarded:
  assumes "serve_api decode build now s req ds = (answer, ds')" and "deviceByName ds' device \<noteq> deviceByName ds device"
  shows "hrMethod req = ''POST'' \<and> hrSameOrigin req \<and> hrPath req = [''api'', ''devices'', device, ''set'']
    \<and> (\<exists>rq. decode maxSetBodyBytes (hrBody req) = Inr rq \<and> srFeature rq \<noteq> []
         \<and> ds' = snd (Dispatch ds device (srFeature rq) (srValue rq)))"
proof -
  obtain r where r: "find (\<lambda>r. takes_method r (hrMethod req) \<and> path_taken (rtPattern r) (hrPath req)) register = Some r"
    using assms by (auto simp: serve_api_def split: option.splits)
  then have in_reg: "r \<in> set register" and m: "takes_method r (hrMethod req)" and p: "path_taken (rtPattern r) (hrPath req)"
    by (auto simp: find_Some_iff)
  let ?h = "call_handler decode build now s (rtHandler r) (the (match_path (rtPattern r) (hrPath req))) (hrBody req) ds"
  have o': "\<not> (rtSameOrigin r \<and> \<not> hrSameOrigin req)"
    using assms r by (auto simp: serve_api_def split: if_splits)
  then have "serve_api decode build now s req ds = map_prod Answer id ?h" unfolding serve_api_def r by auto
  then have ds': "ds' = snd ?h" using assms(1) by (cases ?h) simp
  have "rtHandler r = SetHandler"
  proof (rule ccontr)
    assume "rtHandler r \<noteq> SetHandler"
    then have "snd ?h = ds" by (auto simp: call_handler_def split: handler.splits list.splits prod.splits)
    with ds' assms(2) show False by simp
  qed
  then have pat: "rtPattern r = [Literal ''api'', Literal ''devices'', Wildcard, Literal ''set'']"
      "rtMethod r = ''POST''" "rtSameOrigin r"
    using in_reg by (auto simp: register_def)
  then obtain dev where dev: "hrPath req = [''api'', ''devices'', dev, ''set'']" "dev \<noteq> []"
    using p by (auto simp: path_takens)
  have "?h = handleSet_api decode dev (hrBody req) ds"
    using \<open>rtHandler r = SetHandler\<close> dev by (simp add: call_handler_def pat(1))
  with ds' assms(2) obtain rq where rq: "decode maxSetBodyBytes (hrBody req) = Inr rq" "srFeature rq \<noteq> []"
      "ds' = snd (Dispatch ds dev (srFeature rq) (srValue rq))"
    by (auto simp: handleSet_api_def split: sum.splits body_error.splits if_splits prod.splits option.splits)
  have "dev = device" using Dispatch_other [of device dev] rq(3) assms(2) by auto
  with rq dev(1) pat(2,3) m o' show ?thesis by (auto simp: takes_method_def)
qed

definition power_post :: http_request where
  "power_post = \<lparr>hrMethod = ''POST'', hrPath = [''api'', ''devices'', ''Oven'', ''set''], hrBody = ''on'', hrSameOrigin = True\<rparr>"

lemma power_put:
  "length (wire (world_net (snd (dispatch_to washer_env ''BSH.Common.Setting.PowerState'' (VStr ''on'') washer_world)))) = 1"
  by code_simp

lemma api_writes_guarded_witness:
  "\<exists>answer ds'. serve_api power_request (''1'', ''c'', ''d'') 0 New_store power_post oven_rack = (answer, ds')
     \<and> deviceByName ds' ''Oven'' \<noteq> deviceByName oven_rack ''Oven''
     \<and> (\<exists>rq. power_request maxSetBodyBytes (hrBody power_post) = Inr rq \<and> srFeature rq \<noteq> []
          \<and> ds' = snd (Dispatch oven_rack ''Oven'' (srFeature rq) (srValue rq)))"
proof -
  let ?s = "serve_api power_request (''1'', ''c'', ''d'') 0 New_store power_post oven_rack"
  let ?d = "dispatch_to washer_env ''BSH.Common.Setting.PowerState'' (VStr ''on'') washer_world"
  obtain answer after where s: "?s = (answer, after)" by fastforce
  have "find (\<lambda>r. takes_method r (hrMethod power_post) \<and> path_taken (rtPattern r) (hrPath power_post)) register
      = Some (register ! 3)"
    by (simp add: register_def takes_method_def power_post_def path_takens numeral_3_eq_3)
  moreover have "power_request maxSetBodyBytes ''on'' = Inr \<lparr>srFeature = ''BSH.Common.Setting.PowerState'', srValue = VStr ''on''\<rparr>"
    by (simp add: power_request_def maxSetBodyBytes_def)
  ultimately have after: "snd ?s = snd (Dispatch oven_rack ''Oven'' ''BSH.Common.Setting.PowerState'' (VStr ''on''))"
    by (simp add: serve_api_def register_def power_post_def call_handler_def handleSet_api_def numeral_3_eq_3
        split: prod.split option.split)
  have "deviceByName (snd (Dispatch oven_rack ''Oven'' ''BSH.Common.Setting.PowerState'' (VStr ''on''))) ''Oven'' = Some (washer_env, snd ?d)"
    by (cases ?d) (simp add: Dispatch_def oven_rack_def deviceByName_def)
  then have a: "deviceByName after ''Oven'' = Some (washer_env, snd ?d)" unfolding after [unfolded s snd_conv] .
  have "wire (world_net washer_world) = []" by (simp add: washer_world_def)
  then have "snd ?d \<noteq> washer_world" using power_put by (metis list.size(3) zero_neq_one)
  moreover have before: "deviceByName oven_rack ''Oven'' = Some (washer_env, washer_world)"
    by (simp add: oven_rack_def deviceByName_def)
  ultimately have c: "deviceByName after ''Oven'' \<noteq> deviceByName oven_rack ''Oven''"
    unfolding a using before by simp
  from api_writes_guarded [OF s this] s c show ?thesis by blast
qed

end
