(* ===== verification/Spec2Isabelle.thy ===== *)
theory Spec2Isabelle
  imports Prelude Go_Values Go_Crypto Go_Crypto_Vectors Crypto Messages Profile Profile_Parser
    Entities Session Session_Steps Appliance Reconnect Layout
    Go_Text Devices Archive Secrets Publisher Enum_Labels Command Migrate
    Feature_Catalog Hass_Payload Hass_Model Hass_Configs Hass_Agree Hass_Valid Hass_Bundle Discovery_Flow
    Republish Worker Config Store Sockets Web_Adapter Plane Snapshot_Window Web_Routes Tls_Conn
    Message_Codec Description_Cache Hass_Layout Plane_Status Bridge_Run Startup Hc_Util Web_Changes Pin_Catalog Tls_Dial
    Enum_Catalog Web_Server
begin

text \<open>
  A verification development for \<^verbatim>\<open>go-homeconnect2mqtt\<close>, a daemon that connects to Home Connect appliances in
  the local network and mirrors them to an MQTT broker, announces them to Home Assistant and shows them on a
  web page. Paths are below \<^verbatim>\<open>src/internal\<close>, where they do not begin with \<^verbatim>\<open>cmd/\<close>.

  \<^bold>\<open>The parts and how they interact.\<close> At start (\<open>Startup\<close>) the daemon loads its configuration (\<open>Config\<close>)
  and the devices file (\<open>Devices\<close>) with the cached descriptions (\<open>Description_Cache\<close>) that the operator's tool
  (\<open>Hc_Util\<close>) made from profile archives (\<open>Archive\<close>, \<open>Profile_Parser\<close>, \<open>Profile\<close>), prepares the publish plane and
  the MQTT client, and runs the bridge (\<open>Bridge_Run\<close>) with one worker per appliance (\<open>Worker\<close>). A worker runs a reconnect loop (\<open>Reconnect\<close>) over the session
  (\<open>Session\<close>, \<open>Session_Steps\<close>), which speaks the message protocol (\<open>Messages\<close>, \<open>Message_Codec\<close>)
  through an encrypted socket (\<open>Crypto\<close>, \<open>Sockets\<close>, \<open>Tls_Dial\<close>, \<open>Tls_Conn\<close>). What the appliance reports updates its entities (\<open>Appliance\<close>, \<open>Entities\<close>),
  goes through the publish queue (\<open>Publisher\<close>) to the topics of \<open>Layout\<close> and into the store (\<open>Store\<close>). Commands
  come back from MQTT (\<open>Command\<close>) or from the web (\<open>Web_Adapter\<close>, \<open>Web_Routes\<close>, \<open>Web_Server\<close>). Discovery renders the entities
  for Home Assistant (\<open>Hass_*\<close>, with \<open>Feature_Catalog\<close>, \<open>Enum_Labels\<close> and \<open>Enum_Catalog\<close>) and keeps the retained documents in
  order (\<open>Discovery_Flow\<close>, \<open>Republish\<close>, \<open>Migrate\<close>) through the publish plane (\<open>Plane\<close>, \<open>Plane_Status\<close>,
  \<open>Snapshot_Window\<close>).

  \<^bold>\<open>Which theory models what.\<close>

  \<^item> \<open>Prelude\<close>, \<open>Go_Values\<close>, \<open>Go_Text\<close>: what the program uses of Go's language and standard library: 64-bit
    integers with \<open>wrap64\<close>, IEEE 754 doubles, dynamic values \<open>any\<close>, byte strings, \<^verbatim>\<open>strings\<close> and \<^verbatim>\<open>strconv\<close>.
  \<^item> \<open>Go_Crypto\<close>, \<open>Crypto\<close>: SHA-256, HMAC, AES and CBC defined, then \<^verbatim>\<open>homeconnect/crypto.go\<close>: key derivation, the
    padding, and \<open>seal\<close> and \<open>open_frame\<close> with their two chains. \<open>Go_Crypto_Vectors\<close> checks published vectors.
  \<^item> \<open>Messages\<close>, \<open>Message_Codec\<close>, \<open>Session\<close>, \<open>Session_Steps\<close>: \<^verbatim>\<open>homeconnect/message.go\<close>, \<^verbatim>\<open>codes.go\<close>, \<^verbatim>\<open>session.go\<close>. The handshake and
    the requests are state passing over a script of outcomes (\<open>net\<close>) that records what was written; the receive
    loop with its waiting calls is the step relation \<open>traffic\<close>, with reconnects \<open>step\<close>.
  \<^item> \<open>Sockets\<close>, \<open>Tls_Conn\<close>, \<open>Tls_Dial\<close>: \<^verbatim>\<open>socket.go\<close>, \<^verbatim>\<open>socket_tls.go\<close>, \<^verbatim>\<open>socket_tls_psk.go\<close>, the interleavings of
    sends, receives, reconnects and closes, and dialling with every exit of the C preamble.
  \<^item> \<open>Profile\<close>, \<open>Profile_Parser\<close>, \<open>Archive\<close>, \<open>Devices\<close>, \<open>Description_Cache\<close>, \<open>Secrets\<close>: \<^verbatim>\<open>profile/\<close>: descriptions and
    their indexes, the tolerant parser, the limits of the archive reader, the devices file, the cached descriptions,
    what is logged of secrets. \<open>Hc_Util\<close>: \<^verbatim>\<open>cmd/hc-util/\<close> over a file system.
  \<^item> \<open>Entities\<close>, \<open>Appliance\<close>, \<open>Reconnect\<close>: \<^verbatim>\<open>homeconnect/entities.go\<close>, \<^verbatim>\<open>appliance.go\<close>, \<^verbatim>\<open>reconnect.go\<close>. An
    appliance keeps its entities in a list and finds them by position, as the code shares pointers.
  \<^item> \<open>Layout\<close>: \<^verbatim>\<open>layout/\<close> and \<^verbatim>\<open>slug/\<close>. \<open>Config\<close>: \<^verbatim>\<open>config/\<close>. \<open>Store\<close>: \<^verbatim>\<open>state/\<close>. \<open>Enum_Labels\<close>, with
    the 726 entries of the generated catalogue in \<open>Enum_Catalog\<close>: \<^verbatim>\<open>i18n/\<close>. \<open>Feature_Catalog\<close>: \<^verbatim>\<open>mapping/\<close>.
    \<open>Pin_Catalog\<close>: \<^verbatim>\<open>pincatalog/\<close>, which the discovery tests are pinned to.
  \<^item> \<open>Publisher\<close>, \<open>Command\<close>, \<open>Migrate\<close>, \<open>Worker\<close>, \<open>Discovery_Flow\<close>, \<open>Republish\<close>, \<open>Bridge_Run\<close>: \<^verbatim>\<open>bridge/\<close>. A command acts on a
    \<open>world\<close>, the appliance with its session and network; the worker's loop runs over a script of what each
    attempt does; a discovery pass is a function of what it meets; the hook of a broker connection works on the plane, the
    status items and the queues together.
  \<^item> \<open>Hass_Payload\<close>, \<open>Hass_Configs\<close>, \<open>Hass_Model\<close>, \<open>Hass_Layout\<close>, \<open>Hass_Bundle\<close>: \<^verbatim>\<open>hass/\<close>, with \<open>Hass_Agree\<close> and \<open>Hass_Valid\<close> for
    the proofs that its two renderings agree and that the result is valid.
  \<^item> \<open>Plane\<close>, \<open>Plane_Status\<close>, \<open>Snapshot_Window\<close>: \<^verbatim>\<open>haplane/\<close>. \<open>Web_Adapter\<close>, \<open>Web_Changes\<close>, \<open>Web_Routes\<close>, \<open>Web_Server\<close>:
    \<^verbatim>\<open>web/\<close>. \<open>Startup\<close>: \<^verbatim>\<open>cmd/homeconnect2mqtt/\<close> and \<^verbatim>\<open>version/\<close>; what leaves the process is a trace of events.

  \<^bold>\<open>What the lemmas show.\<close> The wire: what one side seals the other opens in order after every reset, under every
  interleaving of the socket's operations; forged frames change nothing; the TLS connection never uses freed
  memory, closes without its peer, and a failed attempt leaves nothing open. The session: answers reach the call that asked, no delivery blocks, a
  completed handshake wrote exactly the protocol's sequence. The model of the appliance: messages update the
  entities they address and no other; writes are guarded; an enumeration member written is the member
  displayed, but for codes a Boolean type cannot hold. The bridge: updates are published in order; retries end; a command has bounded effect; workers
  restart and announce only what holds. Discovery: both renderings agree and meet Home Assistant's rules, which \<open>Hass_Valid\<close> states apart from
  the code's guards; documents and
  configurations are removed only when they are this instance's and obsolete; every request for a pass is
  honoured; after a reconnect of the broker everything retained is what holds now, and one topic carries the
  daemon's availability. Start and tools: the daemon dials only with what was validated, and finds what the tool
  wrote. Configuration and web: what is loaded is in range, what is offered can be written, both ways to
  write agree. Theorems that record a defect say so in the text before them.

  \<^bold>\<open>How loops and bounds are treated.\<close> A loop that runs for the life of the daemon is a recursion over a script
  of what each round meets, or a step relation whose reachable states are characterised; nothing is said only
  under the condition that it returns. The retry loop of a write ends by a measure on its attempts. The
  bounds are the code's: 1024 queued updates, 16 MiB per archive entry and 64 MiB per archive, 1 MiB per
  request body, and durations that the validated ranges keep below 64 bits.

  \<^bold>\<open>Parameters.\<close> Code outside the repository is an argument of the definitions that use it: the decoders of
  JSON, XML, YAML and ZIP, the websocket and OpenSSL, \<^verbatim>\<open>go-hamqtt\<close>'s topics, discovery documents and runtime
  (with the laws \<open>topic_ok\<close>, \<open>remove_ok\<close>, \<open>runtime_laws\<close> and \<open>status_laws\<close>, the last with the gate that suppresses an
  unchanged value and that only a reset opens, where a proof needs them, each with an instance),
  the tables of \<^verbatim>\<open>go-ha-catalog\<close> and of the generated translations, Unicode's case tables, the order in which
  a Go map is iterated over, random bytes, time, and the printers of times and of dynamic values.

  \<^bold>\<open>Not modelled.\<close> The MQTT client, its lifecycle and circuit breaker, the HTTP server with the dashboard and its
  check of the origin, and OpenSSL itself: what they answer is an argument. The parsing of the command line by the
  \<^verbatim>\<open>flag\<close> package. Log output other than what is redacted, the text of error messages, and time itself: a timeout is
  one of the outcomes of the operation it bounds. The JSON that is sent is a value, not its bytes; the codecs are
  parameters with the laws \<open>reads_back\<close>, where a number comes back as a float, and \<open>desc_json_ok\<close>. Accessors that only read a field are the record
  selectors.
\<close>

end
